(* ===== verification/Prelude.thy ===== *)
theory Prelude
  imports Main "HOL-Library.Char_ord" "HOL-Library.List_Lexorder" "HOL-Library.Product_Lexorder"
    "HOL-Library.Word" "HOL-Library.Multiset"
begin

text \<open>
  Shared vocabulary of the development: the Python errors the model returns as values, the
  clock, the few Python containers and string functions the code uses, and the generic
  lemmas on lists and maps the component theories rest on.

  Conventions. A Python exception that leaves a function is an \<open>Inl\<close> of a sum; an aware
  \<open>datetime\<close> is the instant it denotes, an \<open>int\<close> of microseconds since the Unix epoch, so
  that \<open>timedelta\<close> arithmetic is exact; a \<open>str\<close> is a list of \<open>char\<close> (code points below 256).
\<close>

section \<open>Names for the types the code uses\<close>

type_synonym py_str = string
type_synonym datetime = int
type_synonym timedelta = int
type_synonym bytes = "8 word list"

text \<open>The exceptions that can leave a modelled function.\<close>

datatype py_error =
    Validation_Error
  | Value_Error
  | Unmappable_Action
  | Sink_Error
  | Key_Error
  | External_Error
  | Type_Error

text \<open>\<open>timedelta(seconds=n)\<close> in the unit of \<open>datetime\<close>.\<close>

definition seconds :: "int \<Rightarrow> timedelta" where
  "seconds n = n * 1000000"

lemma seconds_mono [simp]: "seconds m \<le> seconds n \<longleftrightarrow> m \<le> n"
  by (simp add: seconds_def)

lemma seconds_pos [simp]: "0 < seconds n \<longleftrightarrow> 0 < n" "0 \<le> seconds n \<longleftrightarrow> 0 \<le> n"
  by (simp_all add: seconds_def)

section \<open>Results\<close>

text \<open>The one after the other, until something is raised.\<close>

definition and_then :: "'e + 'a \<Rightarrow> ('a \<Rightarrow> 'e + 'b) \<Rightarrow> 'e + 'b" where
  "and_then r f = (case r of Inl e \<Rightarrow> Inl e | Inr x \<Rightarrow> f x)"

lemma and_then_simps [simp]: "and_then (Inl e) f = Inl e" "and_then (Inr x) f = f x"
  by (simp_all add: and_then_def)

lemma and_then_Inr: "and_then r f = Inr y \<longleftrightarrow> (\<exists>x. r = Inr x \<and> f x = Inr y)"
  by (cases r) simp_all

section \<open>Collections of facts shared by the component theories\<close>

named_theorems enum_values "the value strings of the closed enumerations"
named_theorems enum_inj "different members of an enumeration have different values"
named_theorems code_defs "definitions unfolded when a model is run on a closed input"
named_theorems json_defs "the JSON image of a model"

section \<open>Python containers\<close>

text \<open>\<open>tuple(dict.fromkeys(xs))\<close>: the distinct elements in the order of first occurrence.\<close>

fun fromkeys_acc :: "'a list \<Rightarrow> 'a list \<Rightarrow> 'a list" where
  "fromkeys_acc seen [] = []"
| "fromkeys_acc seen (x # xs) =
     (if x \<in> set seen then fromkeys_acc seen xs else x # fromkeys_acc (x # seen) xs)"

definition fromkeys :: "'a list \<Rightarrow> 'a list" where
  "fromkeys xs = fromkeys_acc [] xs"

lemma set_fromkeys_acc: "set (fromkeys_acc seen xs) = set xs - set seen"
  by (induction xs arbitrary: seen) auto

lemma set_fromkeys [simp]: "set (fromkeys xs) = set xs"
  by (simp add: fromkeys_def set_fromkeys_acc)

lemma distinct_fromkeys_acc: "distinct (fromkeys_acc seen xs)"
  by (induction xs arbitrary: seen) (auto simp: set_fromkeys_acc)

lemma distinct_fromkeys [simp]: "distinct (fromkeys xs)"
  by (simp add: fromkeys_def distinct_fromkeys_acc)

lemma fromkeys_Nil [simp]: "fromkeys [] = []"
  by (simp add: fromkeys_def)

lemma fromkeys_eq_Nil [simp]: "fromkeys xs = [] \<longleftrightarrow> xs = []"
proof -
  have "set (fromkeys xs) = {} \<longleftrightarrow> set xs = {}" by simp
  then show ?thesis by (simp only: set_empty)
qed

lemma fromkeys_acc_id: "distinct xs \<Longrightarrow> set xs \<inter> set seen = {} \<Longrightarrow> fromkeys_acc seen xs = xs"
  by (induction xs arbitrary: seen) auto

lemma fromkeys_id: "distinct xs \<Longrightarrow> fromkeys xs = xs"
  by (simp add: fromkeys_def fromkeys_acc_id)

text \<open>A dict comprehension \<open>{k(x): x for x in xs}\<close>: a later element overwrites an earlier
  one under the same key.\<close>

definition dict_by :: "('a \<Rightarrow> 'k) \<Rightarrow> 'a list \<Rightarrow> ('k \<rightharpoonup> 'a)" where
  "dict_by k xs = map_of (rev (map (\<lambda>x. (k x, x)) xs))"

lemma dict_by_SomeD: "dict_by k xs key = Some x \<Longrightarrow> x \<in> set xs \<and> k x = key"
  by (auto simp: dict_by_def dest: map_of_SomeD)

lemma dom_dict_by: "dom (dict_by k xs) = k ` set xs"
  by (force simp: dict_by_def dom_map_of_conv_image_fst)

lemma dict_by_ex: "x \<in> set xs \<Longrightarrow> \<exists>y \<in> set xs. dict_by k xs (k x) = Some y \<and> k y = k x"
proof -
  assume "x \<in> set xs"
  then have "k x \<in> dom (dict_by k xs)" by (simp add: dom_dict_by)
  then obtain y where "dict_by k xs (k x) = Some y" by blast
  then show ?thesis by (blast dest: dict_by_SomeD)
qed

lemma dict_by_inj:
  assumes "inj_on k (set xs)" and "x \<in> set xs"
  shows "dict_by k xs (k x) = Some x"
  using dict_by_ex [OF assms(2), of k] assms by (auto simp: inj_on_def)

text \<open>Python's \<open>min(xs, key=k)\<close> on a non-empty list: the first of the least elements.\<close>

fun min_by :: "('a \<Rightarrow> 'k::linorder) \<Rightarrow> 'a \<Rightarrow> 'a list \<Rightarrow> 'a" where
  "min_by k best [] = best"
| "min_by k best (x # xs) = (if k x < k best then min_by k x xs else min_by k best xs)"

lemma min_by_mem: "min_by k b xs \<in> set (b # xs)"
  by (induction xs arbitrary: b) auto

lemma min_by_le: "x \<in> set (b # xs) \<Longrightarrow> k (min_by k b xs) \<le> k x"
proof (induction xs arbitrary: b x)
  case Nil
  then show ?case by simp
next
  case (Cons y ys)
  show ?case
  proof (cases "k y < k b")
    case True
    have "k (min_by k y ys) \<le> k y" using Cons.IH [of y y] by simp
    with True Cons.IH [of x y] Cons.prems show ?thesis by auto
  next
    case False
    have "k (min_by k b ys) \<le> k b" using Cons.IH [of b b] by simp
    with False Cons.IH [of x b] Cons.prems show ?thesis by auto
  qed
qed

section \<open>Lists\<close>

lemma distinct_map_sort_key: "distinct (map f (sort_key g xs)) \<longleftrightarrow> distinct (map f xs)"
  by (rule mset_eq_imp_distinct_iff) simp

lemma sum_list_filter_le:
  fixes f :: "'a \<Rightarrow> int"
  assumes "\<And>x. x \<in> set xs \<Longrightarrow> 0 \<le> f x" and "\<And>x. x \<in> set xs \<Longrightarrow> P x \<Longrightarrow> Q x"
  shows "sum_list (map f (filter P xs)) \<le> sum_list (map f (filter Q xs))"
  using assms by (induction xs) (auto intro: add_mono add_increasing)

lemma sum_list_nonneg_int:
  fixes f :: "'a \<Rightarrow> int"
  shows "(\<And>x. x \<in> set xs \<Longrightarrow> 0 \<le> f x) \<Longrightarrow> 0 \<le> sum_list (map f xs)"
  by (induction xs) auto

end
