(* ===== verification/Json.thy ===== *)
theory Json
  imports Prelude
begin

text \<open>
  \<open>json.dumps(value, sort_keys=True, separators=(",", ":"))\<close>, the canonical form every digest
  and every receipt hash of the program is computed over, and the theorem that makes hashing
  it meaningful: the rendering is injective, so two values with the same canonical text are
  the same value up to the order of the keys of an object.
\<close>

section \<open>Values and their rendering\<close>

datatype json =
    JNull
  | JBool bool
  | JInt int
  | JStr py_str
  | JList "json list"
  | JObj "(py_str \<times> json) list"

text \<open>Decimal numerals, as \<open>int.__repr__\<close> writes them.\<close>

definition digit_char :: "nat \<Rightarrow> char" where
  "digit_char d = char_of (48 + d)"

fun nat_str :: "nat \<Rightarrow> py_str" where
  "nat_str n = (if n < 10 then [digit_char n] else nat_str (n div 10) @ [digit_char (n mod 10)])"

declare nat_str.simps [simp del]

definition int_str :: "int \<Rightarrow> py_str" where
  "int_str i = (if i < 0 then CHR ''-'' # nat_str (nat (- i)) else nat_str (nat i))"

text \<open>String escapes with \<open>ensure_ascii=True\<close>, Python's default.\<close>

definition hex_char :: "nat \<Rightarrow> char" where
  "hex_char d = (if d < 10 then char_of (48 + d) else char_of (87 + d))"

definition escape_char :: "char \<Rightarrow> py_str" where
  "escape_char c =
     (if c = CHR 0x22 then [CHR 0x5C, CHR 0x22]
      else if c = CHR 0x5C then [CHR 0x5C, CHR 0x5C]
      else if c = CHR 0x0A then [CHR 0x5C, CHR ''n'']
      else if c = CHR 0x0D then [CHR 0x5C, CHR ''r'']
      else if c = CHR 0x09 then [CHR 0x5C, CHR ''t'']
      else if c = CHR 0x08 then [CHR 0x5C, CHR ''b'']
      else if c = CHR 0x0C then [CHR 0x5C, CHR ''f'']
      else if (of_char c :: nat) < 32 \<or> 126 < (of_char c :: nat)
      then [CHR 0x5C, CHR ''u'', CHR ''0'', CHR ''0'',
            hex_char (of_char c div 16), hex_char (of_char c mod 16)]
      else [c])"

definition json_str :: "py_str \<Rightarrow> py_str" where
  "json_str s = CHR 0x22 # concat (map escape_char s) @ [CHR 0x22]"

fun render :: "json \<Rightarrow> py_str"
  and render_elems :: "bool \<Rightarrow> json list \<Rightarrow> py_str"
  and render_membs :: "bool \<Rightarrow> (py_str \<times> json) list \<Rightarrow> py_str" where
  "render JNull = ''null''"
| "render (JBool b) = (if b then ''true'' else ''false'')"
| "render (JInt i) = int_str i"
| "render (JStr s) = json_str s"
| "render (JList xs) = CHR ''['' # render_elems True xs"
| "render (JObj kvs) = CHR ''{'' # render_membs True kvs"
| "render_elems start [] = '']''"
| "render_elems start (x # xs) =
     (if start then [] else '','') @ render x @ render_elems False xs"
| "render_membs start [] = ''}''"
| "render_membs start (kv # kvs) =
     (if start then [] else '','') @ json_str (fst kv) @ '':'' @ render (snd kv)
       @ render_membs False kvs"

text \<open>\<open>sort_keys=True\<close>: every object is listed by ascending key, at every depth.\<close>

primrec sort_keys :: "json \<Rightarrow> json" where
  "sort_keys JNull = JNull"
| "sort_keys (JBool b) = JBool b"
| "sort_keys (JInt i) = JInt i"
| "sort_keys (JStr s) = JStr s"
| "sort_keys (JList xs) = JList (map sort_keys xs)"
| "sort_keys (JObj kvs) = JObj (sort_key fst (map (map_prod id sort_keys) kvs))"

definition dumps :: "json \<Rightarrow> py_str" where
  "dumps j = render (sort_keys j)"

section \<open>Numerals can be read back\<close>

definition is_digit :: "char \<Rightarrow> bool" where
  "is_digit c \<longleftrightarrow> 48 \<le> (of_char c :: nat) \<and> (of_char c :: nat) \<le> 57"

lemma of_char_digit_char: "d < 10 \<Longrightarrow> (of_char (digit_char d) :: nat) = 48 + d"
  by (simp add: digit_char_def)

lemma is_digit_digit_char [simp]: "d < 10 \<Longrightarrow> is_digit (digit_char d)"
  by (simp add: is_digit_def of_char_digit_char)

lemma nat_str_not_Nil [simp]: "nat_str n \<noteq> []"
  by (subst nat_str.simps) simp

lemma nat_str_digits: "\<forall>c \<in> set (nat_str n). is_digit c"
proof (induction n rule: nat_str.induct)
  case (1 n)
  then show ?case by (subst nat_str.simps) auto
qed

definition str_nat :: "py_str \<Rightarrow> nat" where
  "str_nat s = foldl (\<lambda>n c. 10 * n + (of_char c - 48)) 0 s"

lemma str_nat_nat_str [simp]: "str_nat (nat_str n) = n"
proof (induction n rule: nat_str.induct)
  case (1 n)
  then show ?case
    by (subst nat_str.simps) (auto simp: str_nat_def of_char_digit_char)
qed

lemma nat_str_inj [simp]: "nat_str m = nat_str n \<longleftrightarrow> m = n"
  by (metis str_nat_nat_str)

lemma nat_str_hd: "is_digit (hd (nat_str n))"
  by (meson hd_in_set nat_str_digits nat_str_not_Nil)

lemma not_is_digit_minus [simp]: "\<not> is_digit CHR ''-''"
  by (simp add: is_digit_def)

text \<open>What may follow a value: nothing, or one of the three separators.\<close>

definition delimited :: "py_str \<Rightarrow> bool" where
  "delimited r \<longleftrightarrow> r = [] \<or> hd r = CHR '','' \<or> hd r = CHR '']'' \<or> hd r = CHR ''}''"

lemma delimited_simps [simp]:
  "delimited []" "delimited (CHR '','' # r)" "delimited (CHR '']'' # r)" "delimited (CHR ''}'' # r)"
  by (simp_all add: delimited_def)

lemma takeWhile_digits_delimited: "delimited r \<Longrightarrow> takeWhile is_digit r = []"
  by (cases r) (auto simp: delimited_def is_digit_def)

lemma takeWhile_nat_str: "delimited r \<Longrightarrow> takeWhile is_digit (nat_str n @ r) = nat_str n"
  by (simp add: takeWhile_append2 nat_str_digits takeWhile_digits_delimited)

lemma nat_str_append_inj:
  assumes "nat_str m @ r = nat_str n @ r'" and "delimited r" and "delimited r'"
  shows "m = n \<and> r = r'"
  using assms takeWhile_nat_str [of r m] takeWhile_nat_str [of r' n] by auto

lemma nat_str_neq_minus: "nat_str n @ r \<noteq> CHR ''-'' # r'"
  using nat_str_hd [of n] by (cases "nat_str n") auto

lemma int_str_append_inj:
  assumes eq: "int_str i @ r = int_str j @ r'" and "delimited r" and "delimited r'"
  shows "i = j \<and> r = r'"
proof (cases "i < 0"; cases "j < 0")
  assume "i < 0" "j < 0"
  then show ?thesis using assms nat_str_append_inj [of "nat (- i)" r "nat (- j)" r']
    by (auto simp: int_str_def)
next
  assume "\<not> i < 0" "\<not> j < 0"
  then show ?thesis using assms nat_str_append_inj [of "nat i" r "nat j" r']
    by (auto simp: int_str_def)
qed (use eq nat_str_neq_minus in \<open>auto simp: int_str_def\<close>, metis+)

lemma int_str_inj [simp]: "int_str i = int_str j \<longleftrightarrow> i = j"
  using int_str_append_inj [of i "[]" j "[]"] by auto

section \<open>Strings can be read back\<close>

definition hex_val :: "char \<Rightarrow> nat" where
  "hex_val c = (if (of_char c :: nat) < 58 then of_char c - 48 else of_char c - 87)"

lemma hex_val_hex_char [simp]: "d < 16 \<Longrightarrow> hex_val (hex_char d) = d"
  by (simp add: hex_val_def hex_char_def)

text \<open>One character of a JSON string literal, and what follows it.\<close>

fun unescape :: "py_str \<Rightarrow> (char \<times> py_str) option" where
  "unescape [] = None"
| "unescape (c # r) =
     (if c = CHR 0x22 then None
      else if c \<noteq> CHR 0x5C then Some (c, r)
      else case r of
          [] \<Rightarrow> None
        | d # r' \<Rightarrow>
            if d = CHR ''n'' then Some (CHR 0x0A, r')
            else if d = CHR ''r'' then Some (CHR 0x0D, r')
            else if d = CHR ''t'' then Some (CHR 0x09, r')
            else if d = CHR ''b'' then Some (CHR 0x08, r')
            else if d = CHR ''f'' then Some (CHR 0x0C, r')
            else if d = CHR ''u'' then Some (char_of (16 * hex_val (r' ! 2) + hex_val (r' ! 3)), drop 4 r')
            else Some (d, r'))"

lemma unescape_escape_char: "unescape (escape_char c @ r) = Some (c, r)"
proof -
  have "(of_char c :: nat) div 16 < 16" using nat_of_char_less_256 [of c] by linarith
  then show ?thesis
    by (simp add: escape_char_def)
qed

lemma escape_char_append_inj: "escape_char c @ r = escape_char d @ r' \<Longrightarrow> c = d \<and> r = r'"
  by (metis unescape_escape_char option.inject prod.inject)

lemma escape_char_neq_quote: "escape_char c @ r \<noteq> CHR 0x22 # r'"
proof
  assume "escape_char c @ r = CHR 0x22 # r'"
  then have "unescape (escape_char c @ r) = None" by simp
  then show False by (simp add: unescape_escape_char)
qed

lemma string_body_inj:
  "concat (map escape_char s) @ CHR 0x22 # r = concat (map escape_char t) @ CHR 0x22 # r'
   \<Longrightarrow> s = t \<and> r = r'"
proof (induction s arbitrary: t)
  case Nil
  then show ?case
    using escape_char_neq_quote by (cases t) (auto, metis)
next
  case (Cons c s)
  then show ?case
    using escape_char_neq_quote by (cases t) (auto dest!: escape_char_append_inj)
qed

lemma json_str_append_inj: "json_str s @ r = json_str t @ r' \<Longrightarrow> s = t \<and> r = r'"
  using string_body_inj [of s r t r'] by (simp add: json_str_def)


section \<open>The rendering is injective\<close>

text \<open>The first character of a rendered value tells its constructor.\<close>

lemma int_str_hd: "int_str i \<noteq> [] \<and> (hd (int_str i) = CHR ''-'' \<or> is_digit (hd (int_str i)))"
  by (simp add: int_str_def nat_str_hd)

fun head_class :: "json \<Rightarrow> char \<Rightarrow> bool" where
  "head_class JNull c = (c = CHR ''n'')"
| "head_class (JBool b) c = (c = (if b then CHR ''t'' else CHR ''f''))"
| "head_class (JInt i) c = (c = CHR ''-'' \<or> is_digit c)"
| "head_class (JStr s) c = (c = CHR 0x22)"
| "head_class (JList xs) c = (c = CHR ''['')"
| "head_class (JObj kvs) c = (c = CHR ''{'')"

lemma render_head: "\<exists>c r. render j = c # r \<and> head_class j c"
proof (cases j)
  case (JInt i)
  then show ?thesis using int_str_hd [of i] by (cases "int_str i") auto
qed (auto simp: json_str_def)

lemma head_class_not_closing:
  "head_class j c \<Longrightarrow> c \<noteq> CHR '']'' \<and> c \<noteq> CHR ''}'' \<and> c \<noteq> CHR '',''"
  by (cases j) (auto simp: is_digit_def)

lemma head_class_eq:
  "head_class j c \<Longrightarrow> head_class j' c \<Longrightarrow>
   (case j of JNull \<Rightarrow> j' = JNull | JBool b \<Rightarrow> j' = JBool b
    | JInt i \<Rightarrow> (\<exists>k. j' = JInt k) | JStr s \<Rightarrow> (\<exists>t. j' = JStr t)
    | JList xs \<Rightarrow> (\<exists>ys. j' = JList ys) | JObj kvs \<Rightarrow> (\<exists>kvs'. j' = JObj kvs'))"
  by (cases j; cases j') (auto simp: is_digit_def split: if_splits)

lemma render_same_shape:
  assumes "render j @ r = render j' @ r'"
  shows "case j of JNull \<Rightarrow> j' = JNull | JBool b \<Rightarrow> j' = JBool b
    | JInt i \<Rightarrow> (\<exists>k. j' = JInt k) | JStr s \<Rightarrow> (\<exists>t. j' = JStr t)
    | JList xs \<Rightarrow> (\<exists>ys. j' = JList ys) | JObj kvs \<Rightarrow> (\<exists>kvs'. j' = JObj kvs')"
proof -
  obtain c q where "render j = c # q" "head_class j c" using render_head by blast
  moreover obtain c' q' where "render j' = c' # q'" "head_class j' c'" using render_head by blast
  ultimately show ?thesis using assms by (auto intro: head_class_eq)
qed

lemma render_not_closing: "render j @ r \<noteq> CHR '']'' # r'" "render j @ r \<noteq> CHR ''}'' # r'"
  using render_head [of j] head_class_not_closing [of j] by fastforce+

lemma delimited_render_elems [simp]: "delimited (render_elems False xs @ r)"
  by (cases xs) simp_all

lemma delimited_render_membs [simp]: "delimited (render_membs False kvs @ r)"
  by (cases kvs) simp_all

lemma render_elems_Nil_append:
  "render_elems b ys @ r = CHR '']'' # r' \<longleftrightarrow> ys = [] \<and> r = r'"
  by (cases ys) (auto simp: render_not_closing)

lemma render_membs_Nil_append:
  "render_membs b kvs @ r = CHR ''}'' # r' \<longleftrightarrow> kvs = [] \<and> r = r'"
  by (cases kvs) (auto simp: json_str_def)

lemma render_elems_ConsE:
  assumes "render_elems b (x # xs) @ r = render_elems b ys @ r'"
  obtains y ys' where "ys = y # ys'"
    and "render x @ render_elems False xs @ r = render y @ render_elems False ys' @ r'"
  using assms by (cases ys) (auto simp: render_not_closing split: if_splits)

lemma render_membs_ConsE:
  assumes "render_membs b (kv # kvs) @ r = render_membs b kvs' @ r'"
  obtains kv' kvs'' where "kvs' = kv' # kvs''" and "fst kv = fst kv'"
    and "render (snd kv) @ render_membs False kvs @ r
         = render (snd kv') @ render_membs False kvs'' @ r'"
proof (cases kvs')
  case Nil
  with assms show ?thesis by (simp add: json_str_def split: if_splits)
next
  case (Cons kv' kvs'')
  with assms have
    "json_str (fst kv) @ CHR '':'' # render (snd kv) @ render_membs False kvs @ r
     = json_str (fst kv') @ CHR '':'' # render (snd kv') @ render_membs False kvs'' @ r'"
    by (simp split: if_splits)
  then show ?thesis using that Cons by (auto dest!: json_str_append_inj)
qed

lemma render_append_inj:
  "\<forall>j' r r'. delimited r \<longrightarrow> delimited r' \<longrightarrow> render j @ r = render j' @ r' \<longrightarrow> j = j' \<and> r = r'"
  "\<forall>ys r r'. render_elems b xs @ r = render_elems b ys @ r' \<longrightarrow> xs = ys \<and> r = r'"
  "\<forall>kvs' r r'. render_membs b kvs @ r = render_membs b kvs' @ r' \<longrightarrow> kvs = kvs' \<and> r = r'"
proof (induction j and b xs and b kvs rule: render_render_elems_render_membs.induct)
  case 1
  show ?case
  proof (intro allI impI)
    fix j' r r'
    assume eq: "render JNull @ r = render j' @ r'"
    from render_same_shape [OF eq] have "j' = JNull" by simp
    with eq show "JNull = j' \<and> r = r'" by simp
  qed
next
  case (2 b)
  show ?case
  proof (intro allI impI)
    fix j' r r'
    assume eq: "render (JBool b) @ r = render j' @ r'"
    from render_same_shape [OF eq] have "j' = JBool b" by simp
    with eq show "JBool b = j' \<and> r = r'" by simp
  qed
next
  case (3 i)
  show ?case
  proof (intro allI impI)
    fix j' r r'
    assume d: "delimited r" "delimited r'" and eq: "render (JInt i) @ r = render j' @ r'"
    from render_same_shape [OF eq] obtain k where "j' = JInt k" by auto
    with d eq show "JInt i = j' \<and> r = r'" using int_str_append_inj [of i r k r'] by simp
  qed
next
  case (4 s)
  show ?case
  proof (intro allI impI)
    fix j' r r'
    assume eq: "render (JStr s) @ r = render j' @ r'"
    from render_same_shape [OF eq] obtain t where "j' = JStr t" by auto
    with eq show "JStr s = j' \<and> r = r'" using json_str_append_inj [of s r t r'] by simp
  qed
next
  case (5 xs)
  show ?case
  proof (intro allI impI)
    fix j' r r'
    assume eq: "render (JList xs) @ r = render j' @ r'"
    from render_same_shape [OF eq] obtain ys where "j' = JList ys" by auto
    with eq 5 show "JList xs = j' \<and> r = r'" by auto
  qed
next
  case (6 kvs)
  show ?case
  proof (intro allI impI)
    fix j' r r'
    assume eq: "render (JObj kvs) @ r = render j' @ r'"
    from render_same_shape [OF eq] obtain kvs' where "j' = JObj kvs'" by auto
    with eq 6 show "JObj kvs = j' \<and> r = r'" by auto
  qed
next
  case (7 b)
  show ?case by (auto dest!: sym [of "CHR '']'' # _"] simp: render_elems_Nil_append)
next
  case (8 b x xs)
  show ?case
  proof (intro allI impI)
    fix ys r r'
    assume "render_elems b (x # xs) @ r = render_elems b ys @ r'"
    then obtain y ys' where ys: "ys = y # ys'"
      and eq: "render x @ render_elems False xs @ r = render y @ render_elems False ys' @ r'"
      by (rule render_elems_ConsE)
    from 8(1) [rule_format, OF delimited_render_elems delimited_render_elems eq]
    have "x = y \<and> render_elems False xs @ r = render_elems False ys' @ r'" .
    with 8(2) ys show "x # xs = ys \<and> r = r'" by blast
  qed
next
  case (9 b)
  show ?case by (auto dest!: sym [of "CHR ''}'' # _"] simp: render_membs_Nil_append)
next
  case (10 b kv kvs)
  show ?case
  proof (intro allI impI)
    fix kvs' r r'
    assume "render_membs b (kv # kvs) @ r = render_membs b kvs' @ r'"
    then obtain kv' kvs'' where kvs': "kvs' = kv' # kvs''" and k: "fst kv = fst kv'"
      and eq: "render (snd kv) @ render_membs False kvs @ r
               = render (snd kv') @ render_membs False kvs'' @ r'"
      by (rule render_membs_ConsE)
    from 10(1) [rule_format, OF delimited_render_membs delimited_render_membs eq]
    have "snd kv = snd kv' \<and> render_membs False kvs @ r = render_membs False kvs'' @ r'" .
    with 10(2) kvs' k show "kv # kvs = kvs' \<and> r = r'" by (metis prod_eqI)
  qed
qed

lemma render_inj: "render j = render j' \<longleftrightarrow> j = j'"
  using render_append_inj(1) [of j] delimited_simps(1) by (metis append_Nil2)

text \<open>Two values with the same canonical text differ at most in the order of object keys.\<close>

lemma dumps_inj: "dumps j = dumps j' \<longleftrightarrow> sort_keys j = sort_keys j'"
  by (simp add: dumps_def render_inj)

text \<open>The canonical text does not depend on the order in which an object lists its keys.\<close>

lemma dumps_order_irrelevant:
  assumes "mset kvs = mset kvs'" and "distinct (map fst kvs)"
  shows "dumps (JObj kvs) = dumps (JObj kvs')"
proof -
  let ?m = "map (map_prod id sort_keys)"
  have same: "mset (?m kvs) = mset (?m kvs')" using assms(1) by simp
  have "map fst (?m kvs) = map fst kvs" by (induction kvs) auto
  then have d: "distinct (map fst (?m kvs))" using assms(2) by simp
  have "mset (map fst (?m kvs')) = mset (map fst (?m kvs))" using assms(1) by simp
  then have d': "distinct (map fst (?m kvs'))" using d mset_eq_imp_distinct_iff by blast
  have "sort_key fst (?m kvs) = sort_key fst (?m kvs')"
  proof (rule map_sorted_distinct_set_unique [where f = fst])
    have "inj_on fst (set (?m kvs))" using d distinct_map by blast
    then show "inj_on fst (set (sort_key fst (?m kvs)) \<union> set (sort_key fst (?m kvs')))"
      by (simp only: set_sort mset_eq_setD [OF same] Un_absorb)
    show "distinct (map fst (sort_key fst (?m kvs)))" "distinct (map fst (sort_key fst (?m kvs')))"
      using d d' by (simp_all only: distinct_map_sort_key)
    show "set (sort_key fst (?m kvs)) = set (sort_key fst (?m kvs'))"
      by (simp only: set_sort mset_eq_setD [OF same])
  qed simp_all
  then show ?thesis by (simp add: dumps_def)
qed

text \<open>Objects with the same keys in the same order have the same canonical form exactly when
  their members have.\<close>

lemma keyed_lists_eq:
  assumes "map fst xs = map fst ys" and "distinct (map fst xs)" and "set xs = set ys"
  shows "xs = ys"
proof (rule nth_equalityI)
  show len: "length xs = length ys" using assms(1) by (metis length_map)
  fix n assume n: "n < length xs"
  then have "xs ! n \<in> set ys" using assms(3) by (metis nth_mem)
  then obtain m where m: "m < length ys" "ys ! m = xs ! n" by (auto simp: in_set_conv_nth)
  have "map fst xs ! m = map fst ys ! m" using assms(1) by simp
  then have "map fst xs ! m = map fst xs ! n" using m n len by simp
  moreover have "m < length (map fst xs)" "n < length (map fst xs)" using m n len by simp_all
  ultimately have "m = n" using assms(2) nth_eq_iff_index_eq by blast
  with m show "xs ! n = ys ! n" by simp
qed

lemma sort_keys_object_eq:
  assumes "map fst a = map fst b" and "distinct (map fst a)"
  shows "sort_keys (JObj a) = sort_keys (JObj b) \<longleftrightarrow> map (sort_keys \<circ> snd) a = map (sort_keys \<circ> snd) b"
proof
  let ?m = "map (map_prod id sort_keys)"
  have keys: "map fst (?m c) = map fst c" for c :: "(py_str \<times> json) list"
    by (induction c) auto
  have vals: "map snd (?m c) = map (sort_keys \<circ> snd) c" for c :: "(py_str \<times> json) list"
    by (induction c) auto
  {
    assume "sort_keys (JObj a) = sort_keys (JObj b)"
    then have "sort_key fst (?m a) = sort_key fst (?m b)" by simp
    then have "set (?m a) = set (?m b)" by (metis set_sort)
    then have "?m a = ?m b" using assms keys by (intro keyed_lists_eq) simp_all
    then show "map (sort_keys \<circ> snd) a = map (sort_keys \<circ> snd) b" by (metis vals)
  }
  assume "map (sort_keys \<circ> snd) a = map (sort_keys \<circ> snd) b"
  then have "map snd (?m a) = map snd (?m b)" by (simp only: vals)
  moreover have "map fst (?m a) = map fst (?m b)" using assms(1) by (simp only: keys)
  ultimately have "?m a = ?m b" by (metis zip_map_fst_snd)
  then show "sort_keys (JObj a) = sort_keys (JObj b)" by simp
qed

lemma sort_keys_set:
  "sort_keys (JObj a) = sort_keys (JObj b) \<Longrightarrow> fst ` set a = fst ` set b"
proof -
  assume "sort_keys (JObj a) = sort_keys (JObj b)"
  then have "set (sort_key fst (map (map_prod id sort_keys) a))
           = set (sort_key fst (map (map_prod id sort_keys) b))" by simp
  then have "fst ` set (map (map_prod id sort_keys) a) = fst ` set (map (map_prod id sort_keys) b)"
    by (simp only: set_sort)
  moreover have "fst ` set (map (map_prod id sort_keys) c) = fst ` set c" for c :: "(py_str \<times> json) list"
    by (induction c) auto
  ultimately show ?thesis by simp
qed

lemma sort_keys_key:
  "sort_keys (JObj a) = sort_keys (JObj b) \<Longrightarrow> k \<in> fst ` set a \<longleftrightarrow> k \<in> fst ` set b"
  using sort_keys_set [of a b] by blast

end
