(* ===== verification/Sha256.thy ===== *)
theory Sha256
  imports Json
begin

unbundle bit_operations_syntax

text \<open>
  The part of Python's \<open>hashlib\<close> and \<open>hmac\<close> the program uses: SHA-256 (FIPS 180-4) and
  HMAC-SHA256 (RFC 2104) over bytes, with \<open>str.encode()\<close> and \<open>hexdigest()\<close>. Both are
  executable, and evaluating them on the test vectors of FIPS 180-4 and RFC 4231 gives the
  published digests. What the program relies on, that a digest identifies its input, holds up
  to a collision of the function; every such statement of the development therefore exhibits
  the two colliding inputs as its other alternative.
\<close>

section \<open>Encoding strings and digests\<close>

text \<open>UTF-8, for the code points below 256 the model's strings hold.\<close>

definition utf8_char :: "char \<Rightarrow> bytes" where
  "utf8_char c =
     (let n = (of_char c :: nat)
      in if n < 128 then [of_nat n] else [of_nat (192 + n div 64), of_nat (128 + n mod 64)])"

definition utf8 :: "py_str \<Rightarrow> bytes" where
  "utf8 s = concat (map utf8_char s)"

definition hex_byte :: "8 word \<Rightarrow> py_str" where
  "hex_byte b = [hex_char (unat b div 16), hex_char (unat b mod 16)]"

definition hex :: "bytes \<Rightarrow> py_str" where
  "hex bs = concat (map hex_byte bs)"

section \<open>SHA-256\<close>

definition sha_ch :: "32 word \<Rightarrow> 32 word \<Rightarrow> 32 word \<Rightarrow> 32 word" where
  "sha_ch x y z = (x AND y) XOR (NOT x AND z)"

definition sha_maj :: "32 word \<Rightarrow> 32 word \<Rightarrow> 32 word \<Rightarrow> 32 word" where
  "sha_maj x y z = (x AND y) XOR (x AND z) XOR (y AND z)"

definition rotr32 :: "nat \<Rightarrow> 32 word \<Rightarrow> 32 word" where
  "rotr32 n w = drop_bit n w OR push_bit (32 - n) w"

definition big_sigma0 :: "32 word \<Rightarrow> 32 word" where
  "big_sigma0 x = rotr32 2 x XOR rotr32 13 x XOR rotr32 22 x"

definition big_sigma1 :: "32 word \<Rightarrow> 32 word" where
  "big_sigma1 x = rotr32 6 x XOR rotr32 11 x XOR rotr32 25 x"

definition small_sigma0 :: "32 word \<Rightarrow> 32 word" where
  "small_sigma0 x = rotr32 7 x XOR rotr32 18 x XOR drop_bit 3 x"

definition small_sigma1 :: "32 word \<Rightarrow> 32 word" where
  "small_sigma1 x = rotr32 17 x XOR rotr32 19 x XOR drop_bit 10 x"

definition sha_k :: "32 word list" where
  "sha_k =
    [1116352408, 1899447441, 3049323471, 3921009573, 961987163, 1508970993, 2453635748, 2870763221,
     3624381080, 310598401, 607225278, 1426881987, 1925078388, 2162078206, 2614888103, 3248222580,
     3835390401, 4022224774, 264347078, 604807628, 770255983, 1249150122, 1555081692, 1996064986,
     2554220882, 2821834349, 2952996808, 3210313671, 3336571891, 3584528711, 113926993, 338241895,
     666307205, 773529912, 1294757372, 1396182291, 1695183700, 1986661051, 2177026350, 2456956037,
     2730485921, 2820302411, 3259730800, 3345764771, 3516065817, 3600352804, 4094571909, 275423344,
     430227734, 506948616, 659060556, 883997877, 958139571, 1322822218, 1537002063, 1747873779,
     1955562222, 2024104815, 2227730452, 2361852424, 2428436474, 2756734187, 3204031479, 3329325298]"

type_synonym sha_state = "32 word \<times> 32 word \<times> 32 word \<times> 32 word \<times> 32 word \<times> 32 word \<times> 32 word \<times> 32 word"

definition sha_init :: sha_state where
  "sha_init = (1779033703, 3144134277, 1013904242, 2773480762,
               1359893119, 2600822924, 528734635, 1541459225)"

text \<open>Padding: a one bit, zeros to 56 modulo 64, and the length in bits as 64-bit big-endian.\<close>

definition be_length :: "nat \<Rightarrow> bytes" where
  "be_length n = (let w = 8 * of_nat n :: 64 word
                  in map (\<lambda>i. ucast (drop_bit (8 * i) w)) [7, 6, 5, 4, 3, 2, 1, 0])"

definition sha_pad :: "bytes \<Rightarrow> bytes" where
  "sha_pad m = m @ [0x80] @ replicate ((119 - length m mod 64) mod 64) 0 @ be_length (length m)"

fun be_words :: "bytes \<Rightarrow> 32 word list" where
  "be_words (a # b # c # d # r) =
     (push_bit 24 (ucast a) OR push_bit 16 (ucast b) OR push_bit 8 (ucast c) OR ucast d) # be_words r"
| "be_words _ = []"

function blocks :: "'a list \<Rightarrow> 'a list list" where
  "blocks xs = (if xs = [] then [] else take 64 xs # blocks (drop 64 xs))"
  by pat_completeness auto
termination
  by (relation "measure length") auto

declare blocks.simps [simp del]

definition sha_extend :: "32 word list \<Rightarrow> 32 word list" where
  "sha_extend ws =
     (let t = length ws
      in ws @ [small_sigma1 (ws ! (t - 2)) + ws ! (t - 7) + small_sigma0 (ws ! (t - 15)) + ws ! (t - 16)])"

definition sha_round :: "sha_state \<Rightarrow> 32 word \<times> 32 word \<Rightarrow> sha_state" where
  "sha_round s kw =
     (case (s, kw) of ((a, b, c, d, e, f, g, h), (k, w)) \<Rightarrow>
        let t1 = h + big_sigma1 e + sha_ch e f g + k + w;
            t2 = big_sigma0 a + sha_maj a b c
        in (t1 + t2, a, b, c, d + t1, e, f, g))"

definition sha_add :: "sha_state \<Rightarrow> sha_state \<Rightarrow> sha_state" where
  "sha_add s s' =
     (case (s, s') of ((a, b, c, d, e, f, g, h), (a', b', c', d', e', f', g', h')) \<Rightarrow>
        (a + a', b + b', c + c', d + d', e + e', f + f', g + g', h + h'))"

definition sha_block :: "sha_state \<Rightarrow> bytes \<Rightarrow> sha_state" where
  "sha_block s block =
     sha_add s (foldl sha_round s (zip sha_k ((sha_extend ^^ 48) (be_words block))))"

definition word_bytes :: "32 word \<Rightarrow> bytes" where
  "word_bytes w = [ucast (drop_bit 24 w), ucast (drop_bit 16 w), ucast (drop_bit 8 w), ucast w]"

definition state_bytes :: "sha_state \<Rightarrow> bytes" where
  "state_bytes s =
     (case s of (a, b, c, d, e, f, g, h) \<Rightarrow>
        concat (map word_bytes [a, b, c, d, e, f, g, h]))"

definition sha256 :: "bytes \<Rightarrow> bytes" where
  "sha256 m = state_bytes (foldl sha_block sha_init (blocks (sha_pad m)))"

text \<open>\<open>hashlib.sha256(text.encode("utf-8")).hexdigest()\<close>.\<close>

definition sha256_hex :: "py_str \<Rightarrow> py_str" where
  "sha256_hex s = hex (sha256 (utf8 s))"

section \<open>HMAC\<close>

definition hmac_key :: "bytes \<Rightarrow> bytes" where
  "hmac_key k = (let k' = (if 64 < length k then sha256 k else k) in k' @ replicate (64 - length k') 0)"

definition hmac_sha256 :: "bytes \<Rightarrow> bytes \<Rightarrow> bytes" where
  "hmac_sha256 k m =
     sha256 (map (\<lambda>b. b XOR 0x5c) (hmac_key k) @ sha256 (map (\<lambda>b. b XOR 0x36) (hmac_key k) @ m))"

section \<open>Encodings are injective\<close>

lemma unat_of_nat_byte: "n < 256 \<Longrightarrow> unat (of_nat n :: 8 word) = n"
  by (simp add: unat_of_nat take_bit_eq_mod)

fun utf8_next :: "bytes \<Rightarrow> (char \<times> bytes) option" where
  "utf8_next [] = None"
| "utf8_next (b # r) =
     (if unat b < 128 then Some (char_of (unat b), r)
      else case r of [] \<Rightarrow> None
        | b' # r' \<Rightarrow> Some (char_of ((unat b - 192) * 64 + (unat b' - 128)), r'))"

lemma utf8_next_utf8_char: "utf8_next (utf8_char c @ r) = Some (c, r)"
proof -
  let ?n = "of_char c :: nat"
  have n: "?n < 256" by (rule nat_of_char_less_256)
  show ?thesis
  proof (cases "?n < 128")
    case True
    then show ?thesis by (simp add: utf8_char_def Let_def unat_of_nat_byte)
  next
    case False
    have "192 + ?n div 64 < 256" "128 + ?n mod 64 < 256" using n by linarith+
    then show ?thesis using False n
      by (simp add: utf8_char_def Let_def unat_of_nat_byte del: of_nat_add)
  qed
qed

lemma utf8_Nil [simp]: "utf8 [] = []"
  by (simp add: utf8_def)

lemma utf8_Cons: "utf8 (c # s) = utf8_char c @ utf8 s"
  by (simp add: utf8_def)

lemma utf8_append [simp]: "utf8 (s @ t) = utf8 s @ utf8 t"
  by (simp add: utf8_def)

lemma utf8_char_not_Nil [simp]: "utf8_char c \<noteq> []"
  by (simp add: utf8_char_def Let_def)

lemma utf8_inj [simp]: "utf8 s = utf8 t \<longleftrightarrow> s = t"
proof
  show "utf8 s = utf8 t \<Longrightarrow> s = t"
  proof (induction s arbitrary: t)
    case Nil
    then show ?case by (cases t) (auto simp: utf8_Cons)
  next
    case (Cons c s)
    then obtain d t' where t: "t = d # t'" by (cases t) (auto simp: utf8_Cons)
    with Cons.prems have "Some (c, utf8 s) = Some (d, utf8 t')"
      by (simp only: utf8_next_utf8_char [symmetric] utf8_Cons)
    with Cons.IH t show ?case by simp
  qed
qed simp

lemma hex_Cons: "hex (b # bs) = hex_char (unat b div 16) # hex_char (unat b mod 16) # hex bs"
  by (simp add: hex_def hex_byte_def)

lemma hex_Nil [simp]: "hex [] = []"
  by (simp add: hex_def)

lemma length_hex [simp]: "length (hex bs) = 2 * length bs"
  by (induction bs) (simp_all add: hex_Cons)

lemma unat_byte_less: "unat (b :: 8 word) < 256"
  using unsigned_less [of b, where ?'a = nat] by simp

lemma hex_inj [simp]: "hex bs = hex cs \<longleftrightarrow> bs = cs"
proof
  show "hex bs = hex cs \<Longrightarrow> bs = cs"
  proof (induction bs arbitrary: cs)
    case Nil
    then show ?case by (cases cs) (auto simp: hex_Cons)
  next
    case (Cons b bs)
    then obtain c cs' where cs: "cs = c # cs'" by (cases cs) (auto simp: hex_Cons)
    have less: "unat b div 16 < 16" "unat c div 16 < 16"
      using unat_byte_less [of b] unat_byte_less [of c] by simp_all
    from Cons.prems cs have "hex_val (hex_char (unat b div 16)) = hex_val (hex_char (unat c div 16))"
      and "hex_val (hex_char (unat b mod 16)) = hex_val (hex_char (unat c mod 16))"
      and "hex bs = hex cs'"
      by (simp_all add: hex_Cons)
    then have "unat b div 16 = unat c div 16" "unat b mod 16 = unat c mod 16" "bs = cs'"
      using less Cons.IH by simp_all
    moreover from this have "unat b = unat c" by (metis div_mult_mod_eq)
    ultimately show ?case using cs by (simp add: word_unat_eq_iff)
  qed
qed simp

section \<open>The shape of a digest\<close>

text \<open>Lower-case hexadecimal digits, the alphabet of every digest and fingerprint.\<close>

definition is_hex_char :: "char \<Rightarrow> bool" where
  "is_hex_char c \<longleftrightarrow>
     (let n = (of_char c :: nat) in (48 \<le> n \<and> n \<le> 57) \<or> (97 \<le> n \<and> n \<le> 102))"

text \<open>The pattern \<open>^[0-9a-f]{64}$\<close>.\<close>

definition hex64 :: "py_str \<Rightarrow> bool" where
  "hex64 s \<longleftrightarrow> length s = 64 \<and> (\<forall>c \<in> set s. is_hex_char c)"

lemma is_hex_char_hex_char: "d < 16 \<Longrightarrow> is_hex_char (hex_char d)"
  by (simp add: is_hex_char_def hex_char_def Let_def)

lemma hex_chars: "\<forall>c \<in> set (hex bs). is_hex_char c"
proof (induction bs)
  case (Cons b bs)
  have "unat b div 16 < 16" using unat_byte_less [of b] by simp
  then show ?case using Cons by (simp add: hex_Cons is_hex_char_hex_char)
qed simp

lemma length_sha256 [simp]: "length (sha256 m) = 32"
  by (simp add: sha256_def state_bytes_def word_bytes_def split: prod.splits)

lemma hex64_sha256: "hex64 (hex (sha256 m))"
  by (simp add: hex64_def hex_chars)

lemma hex64_sha256_hex [simp]: "hex64 (sha256_hex s)"
  by (simp add: sha256_hex_def hex64_sha256)

lemma hex64_hmac [simp]: "hex64 (hex (hmac_sha256 k m))"
  by (simp add: hmac_sha256_def hex64_sha256)

section \<open>Identification up to a collision\<close>

definition sha256_collision :: "py_str \<Rightarrow> py_str \<Rightarrow> bool" where
  "sha256_collision s t \<longleftrightarrow> s \<noteq> t \<and> sha256 (utf8 s) = sha256 (utf8 t)"

lemma sha256_hex_eq: "sha256_hex s = sha256_hex t \<longleftrightarrow> s = t \<or> sha256_collision s t"
  by (auto simp: sha256_hex_def sha256_collision_def)

definition hmac_collision :: "bytes \<Rightarrow> py_str \<Rightarrow> py_str \<Rightarrow> bool" where
  "hmac_collision k s t \<longleftrightarrow> s \<noteq> t \<and> hmac_sha256 k (utf8 s) = hmac_sha256 k (utf8 t)"

lemma hmac_hex_eq:
  "hex (hmac_sha256 k (utf8 s)) = hex (hmac_sha256 k (utf8 t)) \<longleftrightarrow> s = t \<or> hmac_collision k s t"
  by (auto simp: hmac_collision_def)

end
