(* ===== verification/Contracts.thy ===== *)
theory Contracts
  imports Sha256
begin

text \<open>
  \<open>secondsign.contracts\<close>: the closed vocabulary (\<open>types.py\<close>), the combination of judgements
  (\<open>combine.py\<close>), the runner that consults third-party plugins (\<open>runner.py\<close>) and the sentences
  a finding renders to (\<open>render.py\<close>). The laws of combination are stated once, as the locale
  \<open>combination\<close> over any loop of this shape, and are used by the plugin runner here and by
  the decision engine in theory \<open>Decision\<close>.
\<close>

section \<open>The vocabulary\<close>

definition CONTRACT_VERSION :: int where
  "CONTRACT_VERSION = 1"

definition MAX_DETAIL_MAGNITUDE :: int where
  "MAX_DETAIL_MAGNITUDE = 1000000000000"

text \<open>The reference shape \<open>^fp:[0-9a-f]{64}$\<close>.\<close>

definition is_fingerprint :: "py_str \<Rightarrow> bool" where
  "is_fingerprint s \<longleftrightarrow> take 3 s = ''fp:'' \<and> hex64 (drop 3 s)"

datatype plugin_verdict = ABSTAIN | REVIEW | DENY

datatype action_class =
  Act_payment | Act_refund | Act_payout | Act_transfer | Act_trade | Act_account_change

datatype rail_class = Rail_card | Rail_bank_transfer | Rail_wallet | Rail_brokerage | Rail_other

datatype currency = USD | EUR | GBP | JPY | CHF | CAD | AUD | CNY | HKD | SGD

datatype reversibility = Irreversible | Delayed_reversible | Reversible

datatype source_trust = Untrusted_data | Mixed | Unknown_trust | Trusted_instruction

datatype risk_band = Band_low | Band_elevated | Band_high | Band_prohibited

datatype market_session =
  Session_not_applicable | Session_open | Session_closed | Session_pre_market
  | Session_post_market | Session_halted

datatype reason_code =
    velocity_limit
  | counterparty_risk
  | jurisdiction_restricted
  | market_session_closed
  | value_band_exceeded
  | new_counterparty
  | org_policy
  | plugin_error
  | plugin_contract_mismatch
  | plugin_invalid_result

fun action_value :: "action_class \<Rightarrow> py_str" where
  "action_value Act_payment = ''payment''"
| "action_value Act_refund = ''refund''"
| "action_value Act_payout = ''payout''"
| "action_value Act_transfer = ''transfer''"
| "action_value Act_trade = ''trade''"
| "action_value Act_account_change = ''account_change''"

fun rail_value :: "rail_class \<Rightarrow> py_str" where
  "rail_value Rail_card = ''card''"
| "rail_value Rail_bank_transfer = ''bank_transfer''"
| "rail_value Rail_wallet = ''wallet''"
| "rail_value Rail_brokerage = ''brokerage''"
| "rail_value Rail_other = ''other''"

fun currency_value :: "currency \<Rightarrow> py_str" where
  "currency_value USD = ''USD''"
| "currency_value EUR = ''EUR''"
| "currency_value GBP = ''GBP''"
| "currency_value JPY = ''JPY''"
| "currency_value CHF = ''CHF''"
| "currency_value CAD = ''CAD''"
| "currency_value AUD = ''AUD''"
| "currency_value CNY = ''CNY''"
| "currency_value HKD = ''HKD''"
| "currency_value SGD = ''SGD''"

fun reversibility_value :: "reversibility \<Rightarrow> py_str" where
  "reversibility_value Irreversible = ''irreversible''"
| "reversibility_value Delayed_reversible = ''delayed_reversible''"
| "reversibility_value Reversible = ''reversible''"

fun trust_value :: "source_trust \<Rightarrow> py_str" where
  "trust_value Untrusted_data = ''untrusted_data''"
| "trust_value Mixed = ''mixed''"
| "trust_value Unknown_trust = ''unknown''"
| "trust_value Trusted_instruction = ''trusted_instruction''"

fun reason_value :: "reason_code \<Rightarrow> py_str" where
  "reason_value velocity_limit = ''velocity_limit''"
| "reason_value counterparty_risk = ''counterparty_risk''"
| "reason_value jurisdiction_restricted = ''jurisdiction_restricted''"
| "reason_value market_session_closed = ''market_session_closed''"
| "reason_value value_band_exceeded = ''value_band_exceeded''"
| "reason_value new_counterparty = ''new_counterparty''"
| "reason_value org_policy = ''org_policy''"
| "reason_value plugin_error = ''plugin_error''"
| "reason_value plugin_contract_mismatch = ''plugin_contract_mismatch''"
| "reason_value plugin_invalid_result = ''plugin_invalid_result''"

lemma action_value_inj [enum_inj, simp]: "action_value a = action_value b \<longleftrightarrow> a = b"
  by (cases a; cases b) simp_all

lemma rail_value_inj [enum_inj, simp]: "rail_value a = rail_value b \<longleftrightarrow> a = b"
  by (cases a; cases b) simp_all

lemma currency_value_inj [enum_inj, simp]: "currency_value a = currency_value b \<longleftrightarrow> a = b"
  by (cases a; cases b) simp_all

lemma reversibility_value_inj [enum_inj, simp]:
  "reversibility_value a = reversibility_value b \<longleftrightarrow> a = b"
  by (cases a; cases b) simp_all

lemma trust_value_inj [enum_inj, simp]: "trust_value a = trust_value b \<longleftrightarrow> a = b"
  by (cases a; cases b) simp_all

lemma reason_value_inj [enum_inj, simp]: "reason_value a = reason_value b \<longleftrightarrow> a = b"
  by (cases a; cases b) simp_all

text \<open>An \<open>IntEnum\<close> is ordered by its integers: verdicts by strictness.\<close>

fun verdict_value :: "plugin_verdict \<Rightarrow> int" where
  "verdict_value ABSTAIN = 0"
| "verdict_value REVIEW = 1"
| "verdict_value DENY = 2"

lemma verdict_value_inj [enum_inj, simp]: "verdict_value a = verdict_value b \<longleftrightarrow> a = b"
  by (cases a; cases b) simp_all

instantiation plugin_verdict :: linorder
begin

definition less_eq_plugin_verdict :: "plugin_verdict \<Rightarrow> plugin_verdict \<Rightarrow> bool" where
  "a \<le> b \<longleftrightarrow> verdict_value a \<le> verdict_value b"

definition less_plugin_verdict :: "plugin_verdict \<Rightarrow> plugin_verdict \<Rightarrow> bool" where
  "a < b \<longleftrightarrow> verdict_value a < verdict_value b"

instance
  by intro_classes (auto simp: less_eq_plugin_verdict_def less_plugin_verdict_def)

end

lemma ABSTAIN_least [simp]: "ABSTAIN \<le> v"
  by (cases v) (simp_all add: less_eq_plugin_verdict_def)

lemma DENY_greatest [simp]: "v \<le> DENY"
  by (cases v) (simp_all add: less_eq_plugin_verdict_def)

lemma DENY_le_iff [simp]: "DENY \<le> v \<longleftrightarrow> v = DENY"
  by (cases v) (simp_all add: less_eq_plugin_verdict_def)

lemma le_ABSTAIN_iff [simp]: "v \<le> ABSTAIN \<longleftrightarrow> v = ABSTAIN"
  by (cases v) (simp_all add: less_eq_plugin_verdict_def)

section \<open>What crosses the boundary\<close>

text \<open>The redacted facts a plugin is given. The two validators of the model are
  \<open>policy_view_ok\<close>.\<close>

record policy_view =
  v_contract_version :: int
  v_action_class :: action_class
  v_rail_class :: rail_class
  v_value_lower_minor :: int
  v_value_upper_minor :: int
  v_quote_currency :: currency
  v_counterparty_ref :: py_str
  v_source_account_ref :: py_str
  v_not_before :: datetime
  v_not_after :: datetime
  v_reversibility :: reversibility
  v_source_trust :: source_trust
  v_scope_count :: int
  v_recent_count_window :: int
  v_counterparty_risk_band :: risk_band
  v_new_counterparty :: bool
  v_cross_border :: bool
  v_market_session :: market_session

definition policy_view_ok :: "policy_view \<Rightarrow> bool" where
  "policy_view_ok v \<longleftrightarrow>
     0 \<le> v_value_lower_minor v \<and> 0 \<le> v_value_upper_minor v \<and> 0 \<le> v_scope_count v
     \<and> 0 \<le> v_recent_count_window v
     \<and> is_fingerprint (v_counterparty_ref v) \<and> is_fingerprint (v_source_account_ref v)
     \<and> \<not> v_value_upper_minor v < v_value_lower_minor v
     \<and> \<not> v_not_after v \<le> v_not_before v"

record finding =
  f_code :: reason_code
  f_observed :: "int option"
  f_limit :: "int option"

fun detail_ok :: "int option \<Rightarrow> bool" where
  "detail_ok None \<longleftrightarrow> True"
| "detail_ok (Some n) \<longleftrightarrow> 0 \<le> n \<and> n \<le> MAX_DETAIL_MAGNITUDE"

definition finding_ok :: "finding \<Rightarrow> bool" where
  "finding_ok f \<longleftrightarrow> detail_ok (f_observed f) \<and> detail_ok (f_limit f)"

text \<open>\<open>Finding(code=..., observed=..., limit=...)\<close>, which validates its bounds.\<close>

definition mk_finding :: "reason_code \<Rightarrow> int option \<Rightarrow> int option \<Rightarrow> py_error + finding" where
  "mk_finding c obs lim =
     (let f = \<lparr>f_code = c, f_observed = obs, f_limit = lim\<rparr>
      in if finding_ok f then Inr f else Inl Validation_Error)"

definition sort_key_of :: "finding \<Rightarrow> py_str \<times> int \<times> int" where
  "sort_key_of f =
     (reason_value (f_code f),
      (case f_observed f of Some n \<Rightarrow> n | None \<Rightarrow> - 1),
      (case f_limit f of Some n \<Rightarrow> n | None \<Rightarrow> - 1))"

record plugin_judgement =
  j_contract_version :: int
  j_verdict :: plugin_verdict
  j_findings :: "finding list"

text \<open>What the validators of \<open>PluginJudgement\<close> and of its findings accept.\<close>

definition judgement_ok :: "plugin_judgement \<Rightarrow> bool" where
  "judgement_ok j \<longleftrightarrow>
     (\<forall>f \<in> set (j_findings j). finding_ok f)
     \<and> (j_verdict j \<noteq> ABSTAIN \<longrightarrow> j_findings j \<noteq> [])"

definition judgement_reasons :: "plugin_judgement \<Rightarrow> reason_code list" where
  "judgement_reasons j = fromkeys (map f_code (j_findings j))"

text \<open>\<open>PluginJudgement(verdict=..., findings=...)\<close>. Instances of \<open>Finding\<close> are taken as they
  are (the model class does not revalidate instances); the model validator runs.\<close>

definition mk_judgement :: "plugin_verdict \<Rightarrow> finding list \<Rightarrow> py_error + plugin_judgement" where
  "mk_judgement v fs =
     (if v \<noteq> ABSTAIN \<and> fs = [] then Inl Validation_Error
      else Inr \<lparr>j_contract_version = CONTRACT_VERSION, j_verdict = v, j_findings = fs\<rparr>)"

section \<open>Combination\<close>

definition merge_findings :: "finding list \<Rightarrow> finding list \<Rightarrow> finding list" where
  "merge_findings l r =
     (let unique = dict_by sort_key_of (l @ r)
      in map (\<lambda>key. the (unique key)) (sort (remdups (map sort_key_of (l @ r)))))"

definition combine :: "plugin_judgement \<Rightarrow> plugin_judgement \<Rightarrow> py_error + plugin_judgement" where
  "combine l r =
     (let verdict = (if j_verdict r \<le> j_verdict l then j_verdict l else j_verdict r)
      in mk_judgement verdict (merge_findings (j_findings l) (j_findings r)))"

definition neutral :: plugin_judgement where
  "neutral = \<lparr>j_contract_version = CONTRACT_VERSION, j_verdict = ABSTAIN, j_findings = []\<rparr>"

text \<open>The reduction loop of the runner and of the decision engine: \<open>result = combine(result, x)\<close>
  for each \<open>x\<close> in turn; an exception leaves the loop.\<close>

fun reduce :: "('j \<Rightarrow> 'j \<Rightarrow> 'e + 'j) \<Rightarrow> 'j \<Rightarrow> 'j list \<Rightarrow> 'e + 'j" where
  "reduce comb acc [] = Inr acc"
| "reduce comb acc (j # js) =
     (case comb acc j of Inl e \<Rightarrow> Inl e | Inr acc' \<Rightarrow> reduce comb acc' js)"

section \<open>The contract of a combination\<close>

text \<open>
  What the two clients of the loop rely on, whatever is being combined: on acceptable inputs
  a combination does not raise, its strictness is the larger of the two, its remarks are the
  union, and it is in a canonical form that strictness and remarks determine.
\<close>

locale combination =
  fixes comb :: "'j \<Rightarrow> 'j \<Rightarrow> 'e + 'j"
    and unit :: 'j
    and strictness :: "'j \<Rightarrow> 'v::linorder"
    and remarks :: "'j \<Rightarrow> 'n set"
    and ok :: "'j \<Rightarrow> bool"
    and canon :: "'j \<Rightarrow> bool"
  assumes comb_spec: "ok a \<Longrightarrow> ok b \<Longrightarrow>
      \<exists>c. comb a b = Inr c \<and> ok c \<and> canon c \<and> strictness c = max (strictness a) (strictness b)
        \<and> remarks c = remarks a \<union> remarks b"
    and unit_ok: "ok unit" "canon unit"
    and unit_least: "strictness unit \<le> v"
    and unit_notes: "remarks unit = {}"
    and canon_ext: "ok a \<Longrightarrow> ok b \<Longrightarrow> canon a \<Longrightarrow> canon b \<Longrightarrow>
      strictness a = strictness b \<Longrightarrow> remarks a = remarks b \<Longrightarrow> a = b"
begin

lemma comb_commute: "ok a \<Longrightarrow> ok b \<Longrightarrow> comb a b = comb b a"
  using comb_spec [of a b] comb_spec [of b a] canon_ext by (metis max.commute sup_commute)

lemma comb_assoc:
  assumes "ok a" "ok b" "ok c" "comb a b = Inr ab" "comb b c = Inr bc"
  shows "comb ab c = comb a bc"
proof -
  from comb_spec [OF assms(1,2)] assms(4) have ab: "ok ab"
    "strictness ab = max (strictness a) (strictness b)" "remarks ab = remarks a \<union> remarks b" by auto
  from comb_spec [OF assms(2,3)] assms(5) have bc: "ok bc"
    "strictness bc = max (strictness b) (strictness c)" "remarks bc = remarks b \<union> remarks c" by auto
  from comb_spec [OF ab(1) assms(3)] comb_spec [OF assms(1) bc(1)] ab bc canon_ext show ?thesis
    by (metis max.assoc sup_assoc)
qed

lemma comb_unit: "ok a \<Longrightarrow> canon a \<Longrightarrow> comb unit a = Inr a"
  using comb_spec [OF unit_ok(1), of a] canon_ext unit_least unit_notes
  by (metis max_absorb2 sup_bot_left)

lemma comb_idem: "ok a \<Longrightarrow> canon a \<Longrightarrow> comb a a = Inr a"
  using comb_spec [of a a] canon_ext by (metis max.idem sup.idem)

lemma reduce_spec:
  assumes "ok acc" and "canon acc" and "\<forall>j \<in> set js. ok j"
  shows "\<exists>c. reduce comb acc js = Inr c \<and> ok c \<and> canon c
    \<and> strictness c = Max (strictness ` insert acc (set js)) \<and> remarks c = \<Union> (remarks ` insert acc (set js))"
  using assms
proof (induction js arbitrary: acc)
  case Nil
  then show ?case by simp
next
  case (Cons j js)
  obtain a where a: "comb acc j = Inr a" "ok a" "canon a"
    "strictness a = max (strictness acc) (strictness j)" "remarks a = remarks acc \<union> remarks j"
    using comb_spec [of acc j] Cons.prems by auto
  from Cons.IH [OF a(2,3)] Cons.prems obtain c where c: "reduce comb a js = Inr c" "ok c" "canon c"
    "strictness c = Max (strictness ` insert a (set js))" "remarks c = \<Union> (remarks ` insert a (set js))" by auto
  have "Max (insert (max x y) A) = Max (insert x (insert y A))" if "finite A" for A and x y :: 'v
    using that by (cases "A = {}") (simp_all add: Max_insert max.assoc)
  with a c show ?case by (auto simp: image_insert)
qed

lemma reduce_total: "\<forall>j \<in> set js. ok j \<Longrightarrow> \<exists>c. reduce comb unit js = Inr c \<and> ok c \<and> canon c"
  using reduce_spec [OF unit_ok] by blast

text \<open>The loop is a function of the set of judgements: neither their order nor repetitions
  show in the result.\<close>

lemma reduce_set:
  assumes "\<forall>j \<in> set js. ok j" and "set js = set ks"
  shows "reduce comb unit js = reduce comb unit ks"
  using reduce_spec [OF unit_ok, of js] reduce_spec [OF unit_ok, of ks] assms canon_ext by metis

lemma reduce_lower:
  assumes "\<forall>j \<in> set js. ok j" and "reduce comb unit js = Inr c" and "j \<in> set js"
  shows "strictness j \<le> strictness c" and "remarks j \<subseteq> remarks c"
  using reduce_spec [OF unit_ok, of js] assms by (auto intro!: Max_ge)

text \<open>Adding judgements can only tighten, and never loses a note.\<close>

lemma reduce_mono:
  assumes "\<forall>j \<in> set ks. ok j" and "set js \<subseteq> set ks"
    and "reduce comb unit js = Inr c" and "reduce comb unit ks = Inr d"
  shows "strictness c \<le> strictness d" and "remarks c \<subseteq> remarks d"
proof -
  have "\<forall>j \<in> set js. ok j" using assms by blast
  from reduce_spec [OF unit_ok this] reduce_spec [OF unit_ok assms(1)] assms
  show "strictness c \<le> strictness d" "remarks c \<subseteq> remarks d"
    by (auto intro!: Max_mono)
qed

text \<open>The loop is as strict as its strictest element, and no stricter.\<close>

lemma reduce_le:
  assumes "\<forall>j \<in> set js. ok j" and "reduce comb unit js = Inr c"
    and "\<And>j. j \<in> set js \<Longrightarrow> strictness j \<le> v"
  shows "strictness c \<le> v"
  using reduce_spec [OF unit_ok assms(1)] assms(2,3) unit_least by auto

end

section \<open>The findings of a combination are canonical\<close>

lemma sort_key_of_inj:
  assumes "finding_ok f" and "finding_ok g" and "sort_key_of f = sort_key_of g"
  shows "f = g"
  using assms
  by (cases "f_observed f"; cases "f_observed g"; cases "f_limit f"; cases "f_limit g")
     (auto simp: sort_key_of_def finding_ok_def intro: finding.equality)

lemma inj_on_sort_key_of: "\<forall>f \<in> A. finding_ok f \<Longrightarrow> inj_on sort_key_of A"
  by (auto simp: inj_on_def intro: sort_key_of_inj)

definition canonical :: "finding list \<Rightarrow> bool" where
  "canonical fs \<longleftrightarrow> sorted (map sort_key_of fs) \<and> distinct (map sort_key_of fs)"

text \<open>Whatever the inputs, every merged entry is one of them, stored under its own key.\<close>

lemma merge_findings_keys:
  "map sort_key_of (merge_findings l r) = sort (remdups (map sort_key_of (l @ r)))"
proof -
  have "sort_key_of (the (dict_by sort_key_of (l @ r) key)) = key"
    if "key \<in> set (map sort_key_of (l @ r))" for key
  proof -
    from that obtain x where "x \<in> set (l @ r)" "key = sort_key_of x" by auto
    with dict_by_ex [of x "l @ r" sort_key_of] show ?thesis by auto
  qed
  then show ?thesis
    by (auto simp: merge_findings_def Let_def intro!: map_idI)
qed

lemma merge_findings_canonical: "canonical (merge_findings l r)"
  by (simp only: canonical_def merge_findings_keys) (simp del: map_append)

lemma merge_findings_subset: "set (merge_findings l r) \<subseteq> set l \<union> set r"
proof
  fix f assume "f \<in> set (merge_findings l r)"
  then obtain key where key: "key \<in> sort_key_of ` set (l @ r)"
    and f: "f = the (dict_by sort_key_of (l @ r) key)"
    by (auto simp: merge_findings_def Let_def)
  from key have "key \<in> dom (dict_by sort_key_of (l @ r))" by (simp only: dom_dict_by)
  then obtain g where "dict_by sort_key_of (l @ r) key = Some g" by blast
  with f show "f \<in> set l \<union> set r" by (auto dest: dict_by_SomeD)
qed

lemma set_merge_findings:
  assumes "\<forall>f \<in> set l \<union> set r. finding_ok f"
  shows "set (merge_findings l r) = set l \<union> set r"
proof
  show "set l \<union> set r \<subseteq> set (merge_findings l r)"
  proof
    fix f assume f: "f \<in> set l \<union> set r"
    then have "dict_by sort_key_of (l @ r) (sort_key_of f) = Some f"
      using assms by (intro dict_by_inj inj_on_sort_key_of) auto
    moreover have "sort_key_of f \<in> set (sort (remdups (map sort_key_of (l @ r))))" using f by auto
    ultimately show "f \<in> set (merge_findings l r)"
      by (force simp: merge_findings_def Let_def simp del: map_append)
  qed
qed (rule merge_findings_subset)

lemma canonical_ext:
  assumes "canonical fs" and "canonical gs" and "set fs = set gs" and "\<forall>f \<in> set fs. finding_ok f"
  shows "fs = gs"
  using assms inj_on_sort_key_of [of "set fs"]
  by (auto simp: canonical_def intro: map_sorted_distinct_set_unique)

text \<open>A judgement in the form the combination produces.\<close>

definition judgement_canonical :: "plugin_judgement \<Rightarrow> bool" where
  "judgement_canonical j \<longleftrightarrow> j_contract_version j = CONTRACT_VERSION \<and> canonical (j_findings j)"

lemma combine_spec:
  assumes "judgement_ok l" and "judgement_ok r"
  shows "\<exists>c. combine l r = Inr c \<and> judgement_ok c \<and> judgement_canonical c
    \<and> j_verdict c = max (j_verdict l) (j_verdict r)
    \<and> set (j_findings c) = set (j_findings l) \<union> set (j_findings r)"
proof -
  let ?fs = "merge_findings (j_findings l) (j_findings r)"
  let ?v = "if j_verdict r \<le> j_verdict l then j_verdict l else j_verdict r"
  have set: "set ?fs = set (j_findings l) \<union> set (j_findings r)"
    using assms by (intro set_merge_findings) (auto simp: judgement_ok_def)
  have v: "?v = max (j_verdict l) (j_verdict r)" by (auto simp: max_def)
  have ne: "?v \<noteq> ABSTAIN \<longrightarrow> ?fs \<noteq> []"
    using assms set by (auto simp: judgement_ok_def split: if_splits simp del: set_empty2)
  then have "combine l r = Inr \<lparr>j_contract_version = CONTRACT_VERSION, j_verdict = ?v, j_findings = ?fs\<rparr>"
    by (auto simp: combine_def mk_judgement_def Let_def)
  moreover have "\<forall>f \<in> set ?fs. finding_ok f" using set assms by (auto simp: judgement_ok_def)
  ultimately show ?thesis
    using ne set v by (auto simp: judgement_ok_def judgement_canonical_def merge_findings_canonical)
qed

interpretation judgements: combination combine neutral j_verdict "\<lambda>j. set (j_findings j)"
  judgement_ok judgement_canonical
proof (unfold_locales, goal_cases)
  case (1 a b) then show ?case by (rule combine_spec)
next
  case 2 show ?case by (simp add: neutral_def judgement_ok_def)
next
  case 3 show ?case by (simp add: neutral_def judgement_canonical_def canonical_def)
next
  case (4 v) show ?case by (simp add: neutral_def)
next
  case 5 show ?case by (simp add: neutral_def)
next
  case (6 a b)
  then have "j_findings a = j_findings b"
    by (intro canonical_ext) (auto simp: judgement_canonical_def judgement_ok_def)
  with 6 show ?case by (auto simp: judgement_canonical_def intro: plugin_judgement.equality)
qed

section \<open>Running plugins\<close>

text \<open>
  A plugin is third-party code: its declared version and whether it has a callable \<open>evaluate\<close>
  are data, and what a call of \<open>evaluate\<close> does is one of the four things the runner tells
  apart: it raises, it returns something that is not a \<open>PluginJudgement\<close>, it returns an
  instance (whose fields need not satisfy the validators), or it returns an instance of a
  subclass whose \<open>model_dump\<close> raises.
\<close>

datatype plugin_answer =
    Raises
  | Other
  | Judgement plugin_judgement
  | Hostile plugin_judgement

record plugin =
  p_contract_version :: "int option"
  p_evaluate :: "(policy_view \<Rightarrow> plugin_answer) option"

definition deny_judgement :: "reason_code \<Rightarrow> plugin_judgement" where
  "deny_judgement reason =
     \<lparr>j_contract_version = CONTRACT_VERSION, j_verdict = DENY,
      j_findings = [\<lparr>f_code = reason, f_observed = None, f_limit = None\<rparr>]\<rparr>"

definition evaluate_isolated :: "plugin \<Rightarrow> policy_view \<Rightarrow> plugin_judgement" where
  "evaluate_isolated plugin view =
     (if p_contract_version plugin \<noteq> Some CONTRACT_VERSION
      then deny_judgement plugin_contract_mismatch
      else case p_evaluate plugin of
          None \<Rightarrow> deny_judgement plugin_contract_mismatch
        | Some evaluate \<Rightarrow>
            (case evaluate view of
               Raises \<Rightarrow> deny_judgement plugin_error
             | Other \<Rightarrow> deny_judgement plugin_invalid_result
             | Hostile _ \<Rightarrow> deny_judgement plugin_invalid_result
             | Judgement result \<Rightarrow>
                 if \<not> judgement_ok result then deny_judgement plugin_invalid_result
                 else if j_contract_version result \<noteq> CONTRACT_VERSION
                 then deny_judgement plugin_contract_mismatch
                 else result))"

definition run_plugins :: "plugin list \<Rightarrow> policy_view \<Rightarrow> py_error + plugin_judgement" where
  "run_plugins plugins view =
     reduce combine neutral (map (\<lambda>plugin. evaluate_isolated plugin view) plugins)"

lemma deny_judgement_ok [simp]: "judgement_ok (deny_judgement reason)"
  by (simp add: deny_judgement_def judgement_ok_def finding_ok_def)

lemma deny_judgement_verdict [simp]: "j_verdict (deny_judgement reason) = DENY"
  by (simp add: deny_judgement_def)

lemma evaluate_isolated_ok [simp]: "judgement_ok (evaluate_isolated plugin view)"
  by (auto simp: evaluate_isolated_def split: option.split plugin_answer.split)

lemma evaluated_ok: "\<forall>j \<in> set (map (\<lambda>plugin. evaluate_isolated plugin view) plugins). judgement_ok j"
  by simp

lemma run_plugins_returns: "\<exists>j. run_plugins plugins view = Inr j"
  unfolding run_plugins_def using judgements.reduce_total [OF evaluated_ok] by blast

text \<open>A plugin that answers in the contract's terms.\<close>

definition answers :: "plugin \<Rightarrow> policy_view \<Rightarrow> plugin_judgement \<Rightarrow> bool" where
  "answers plugin view j \<longleftrightarrow>
     p_contract_version plugin = Some CONTRACT_VERSION
     \<and> (\<exists>evaluate. p_evaluate plugin = Some evaluate \<and> evaluate view = Judgement j)
     \<and> judgement_ok j \<and> j_contract_version j = CONTRACT_VERSION"

lemma evaluate_isolated_answers: "answers plugin view j \<Longrightarrow> evaluate_isolated plugin view = j"
  by (auto simp: answers_def evaluate_isolated_def)

lemma evaluate_isolated_fail_closed:
  "\<nexists>j. answers plugin view j \<Longrightarrow> j_verdict (evaluate_isolated plugin view) = DENY"
  by (auto simp: answers_def evaluate_isolated_def split: option.split plugin_answer.split)

section \<open>Sentences\<close>

text \<open>A template of \<open>render.py\<close>: literal text and the two places to fill.\<close>

datatype piece = Lit py_str | Observed | Limit

fun template :: "reason_code \<Rightarrow> piece list \<times> py_str" where
  "template velocity_limit =
     ([Lit ''Recent activity reached '', Observed, Lit '' against a limit of '', Limit, Lit ''.''],
      ''Recent activity exceeded the configured limit.'')"
| "template counterparty_risk =
     ([Lit ''Counterparty risk is above the permitted band.''],
      ''Counterparty risk is above the permitted band.'')"
| "template jurisdiction_restricted =
     ([Lit ''The destination jurisdiction is restricted by policy.''],
      ''The destination jurisdiction is restricted by policy.'')"
| "template market_session_closed =
     ([Lit ''The market session does not permit this action.''],
      ''The market session does not permit this action.'')"
| "template value_band_exceeded =
     ([Lit ''Value reached '', Observed, Lit '' minor units against a limit of '', Limit, Lit ''.''],
      ''Value exceeded the configured limit.'')"
| "template new_counterparty =
     ([Lit ''This counterparty has not been paid before.''],
      ''This counterparty has not been paid before.'')"
| "template org_policy =
     ([Lit ''Organisation policy does not permit this action.''],
      ''Organisation policy does not permit this action.'')"
| "template plugin_error =
     ([Lit ''An extension failed during evaluation; denying.''],
      ''An extension failed during evaluation; denying.'')"
| "template plugin_contract_mismatch =
     ([Lit ''An extension declared an unrecognised contract version and was not consulted.''],
      ''An extension declared an unrecognised contract version and was not consulted.'')"
| "template plugin_invalid_result =
     ([Lit ''An extension returned a value that is not a judgement.''],
      ''An extension returned a value that is not a judgement.'')"

definition show_detail :: "int option \<Rightarrow> py_str" where
  "show_detail d = (case d of None \<Rightarrow> ''unspecified'' | Some n \<Rightarrow> int_str n)"

fun fill :: "int option \<Rightarrow> int option \<Rightarrow> piece \<Rightarrow> py_str" where
  "fill obs lim (Lit s) = s"
| "fill obs lim Observed = show_detail obs"
| "fill obs lim Limit = show_detail lim"

definition render_finding :: "finding \<Rightarrow> py_str" where
  "render_finding f =
     (case template (f_code f) of (quantified, plain) \<Rightarrow>
        if f_observed f = None \<and> f_limit f = None then plain
        else concat (map (fill (f_observed f) (f_limit f)) quantified))"

fun join_spaces :: "py_str list \<Rightarrow> py_str" where
  "join_spaces [] = []"
| "join_spaces [s] = s"
| "join_spaces (s # t # r) = s @ '' '' @ join_spaces (t # r)"

definition render_judgement :: "plugin_judgement \<Rightarrow> py_str" where
  "render_judgement j =
     (if j_verdict j = ABSTAIN then [] else join_spaces (map render_finding (j_findings j)))"

lemma render_finding_not_Nil: "render_finding f \<noteq> []"
  by (cases "f_code f") (auto simp: render_finding_def)

lemma join_spaces_eq_Nil: "join_spaces ss = [] \<longleftrightarrow> ss = [] \<or> ss = [[]]"
  by (induction ss rule: join_spaces.induct) auto

section \<open>Properties\<close>

text \<open>A view and two plugins to run the theorems on.\<close>

definition demo_view :: policy_view where
  "demo_view =
     \<lparr>v_contract_version = 1, v_action_class = Act_payment, v_rail_class = Rail_card,
      v_value_lower_minor = 4200, v_value_upper_minor = 4200, v_quote_currency = USD,
      v_counterparty_ref = ''fp:'' @ replicate 64 (CHR ''a''),
      v_source_account_ref = ''fp:'' @ replicate 64 (CHR ''b''),
      v_not_before = 0, v_not_after = seconds 300, v_reversibility = Irreversible,
      v_source_trust = Untrusted_data, v_scope_count = 1, v_recent_count_window = 0,
      v_counterparty_risk_band = Band_low, v_new_counterparty = True, v_cross_border = True,
      v_market_session = Session_not_applicable\<rparr>"

definition silent_plugin :: plugin where
  "silent_plugin = \<lparr>p_contract_version = Some 1, p_evaluate = Some (\<lambda>_. Judgement neutral)\<rparr>"

definition crashing_plugin :: plugin where
  "crashing_plugin = \<lparr>p_contract_version = Some 1, p_evaluate = Some (\<lambda>_. Raises)\<rparr>"

text \<open>Running any plugins on any view ends in a judgement, never in an exception: the
  result is valid, canonical, its verdict is the strictest of what the plugins said (a plugin
  that failed says DENY) and its findings are exactly theirs. In particular with no plugin
  the answer is silence.\<close>

theorem run_plugins_total:
  "\<exists>j. run_plugins plugins view = Inr j \<and> judgement_ok j \<and> judgement_canonical j
     \<and> j_verdict j = Max (insert ABSTAIN ((\<lambda>p. j_verdict (evaluate_isolated p view)) ` set plugins))
     \<and> set (j_findings j) = (\<Union>p \<in> set plugins. set (j_findings (evaluate_isolated p view)))"
  using judgements.reduce_spec [OF judgements.unit_ok evaluated_ok [of view plugins]]
  by (simp add: run_plugins_def neutral_def image_image)

text \<open>The outcome does not depend on the order in which plugins are registered, nor on
  registering one twice: two deployments with the same set of plugins compute the same
  judgement, findings in the same order.\<close>

theorem run_plugins_order:
  "set plugins = set plugins' \<Longrightarrow> run_plugins plugins view = run_plugins plugins' view"
  unfolding run_plugins_def by (rule judgements.reduce_set) auto

theorem run_plugins_order_witness:
  "run_plugins [silent_plugin, crashing_plugin, silent_plugin] demo_view
   = run_plugins [crashing_plugin, silent_plugin] demo_view"
  by (rule run_plugins_order) auto

text \<open>Fail closed, and no downgrade: a plugin that crashes, returns something else,
  returns a judgement its own validators reject, or speaks another contract version makes the
  whole verdict DENY, whatever the other plugins say.\<close>

theorem run_plugins_fail_closed:
  assumes "p \<in> set plugins" and "\<nexists>j. answers p view j"
    and "run_plugins plugins view = Inr result"
  shows "j_verdict result = DENY"
proof -
  have "j_verdict (evaluate_isolated p view) \<le> j_verdict result"
    using assms(1,3) judgements.reduce_lower(1) [OF evaluated_ok] by (force simp: run_plugins_def)
  with evaluate_isolated_fail_closed [OF assms(2)] show ?thesis by simp
qed

theorem run_plugins_fail_closed_witness:
  "\<exists>result. run_plugins [silent_plugin, crashing_plugin] demo_view = Inr result \<and> j_verdict result = DENY"
proof -
  obtain result where r: "run_plugins [silent_plugin, crashing_plugin] demo_view = Inr result"
    using run_plugins_returns by blast
  have "\<nexists>j. answers crashing_plugin demo_view j"
    by (simp add: answers_def crashing_plugin_def)
  then have "j_verdict result = DENY"
    by (rule run_plugins_fail_closed [OF _ _ r, rotated]) simp
  with r show ?thesis by blast
qed

text \<open>Adding plugins only tightens: the verdict over a larger set of plugins is at least
  as strict, and every finding of the smaller set is still reported.\<close>

theorem run_plugins_monotone:
  assumes "set plugins \<subseteq> set plugins'"
    and "run_plugins plugins view = Inr a" and "run_plugins plugins' view = Inr b"
  shows "j_verdict a \<le> j_verdict b \<and> set (j_findings a) \<subseteq> set (j_findings b)"
proof -
  have "set (map (\<lambda>p. evaluate_isolated p view) plugins)
      \<subseteq> set (map (\<lambda>p. evaluate_isolated p view) plugins')"
    using assms(1) by auto
  from judgements.reduce_mono [OF evaluated_ok this] assms(2,3) show ?thesis
    by (simp add: run_plugins_def)
qed

theorem run_plugins_monotone_witness:
  "\<exists>a b. run_plugins [silent_plugin] demo_view = Inr a
     \<and> run_plugins [crashing_plugin, silent_plugin] demo_view = Inr b
     \<and> j_verdict a \<le> j_verdict b \<and> set (j_findings a) \<subseteq> set (j_findings b)"
proof -
  obtain a b where ab: "run_plugins [silent_plugin] demo_view = Inr a"
    "run_plugins [crashing_plugin, silent_plugin] demo_view = Inr b"
    using run_plugins_returns by blast
  have "set [silent_plugin] \<subseteq> set [crashing_plugin, silent_plugin]" by simp
  from run_plugins_monotone [OF this ab] ab show ?thesis by blast
qed

text \<open>A judgement says nothing exactly when it abstains: a valid REVIEW or DENY always
  renders to a non-empty sentence.\<close>

theorem render_actionable:
  "judgement_ok j \<Longrightarrow> render_judgement j = [] \<longleftrightarrow> j_verdict j = ABSTAIN"
  by (auto simp: render_judgement_def judgement_ok_def join_spaces_eq_Nil render_finding_not_Nil)

theorem render_actionable_witness:
  "render_judgement (deny_judgement org_policy) = ''Organisation policy does not permit this action.''
   \<and> render_judgement (deny_judgement org_policy) \<noteq> []"
  using render_actionable [OF deny_judgement_ok [of org_policy]]
  by (simp add: render_judgement_def deny_judgement_def render_finding_def)

end
