(* ===== verification/Intent.thy ===== *)
theory Intent
  imports Contracts
begin

text \<open>
  \<open>secondsign.intent\<close>: the decision dimensions, the closed union of rail payloads, the
  immutable intent, and the two versioned digests over it (\<open>digest.py\<close>): the intent digest
  covers every field, the proposal digest every field but the validity window.

  How pydantic writes an aware datetime in JSON is not code of this repository: it is the
  parameter \<open>fmt\<close>, and what is used of it is that different instants are written differently
  (\<open>inj fmt\<close>).
\<close>

section \<open>Dimensions\<close>

record decision_dimensions =
  d_value_lower_minor :: int
  d_value_upper_minor :: int
  d_quote_currency :: currency
  d_counterparty_ref :: py_str
  d_source_account_ref :: py_str
  d_rail_class :: rail_class
  d_not_before :: datetime
  d_not_after :: datetime
  d_reversibility :: reversibility
  d_source_trust :: source_trust
  d_scope_count :: int

definition dimensions_ok :: "decision_dimensions \<Rightarrow> bool" where
  "dimensions_ok d \<longleftrightarrow>
     0 \<le> d_value_lower_minor d \<and> 0 \<le> d_value_upper_minor d
     \<and> is_fingerprint (d_counterparty_ref d) \<and> is_fingerprint (d_source_account_ref d)
     \<and> 0 \<le> d_scope_count d
     \<and> \<not> d_value_upper_minor d < d_value_lower_minor d
     \<and> \<not> d_not_after d \<le> d_not_before d"

definition mk_dimensions :: "decision_dimensions \<Rightarrow> py_error + decision_dimensions" where
  "mk_dimensions d = (if dimensions_ok d then Inr d else Inl Validation_Error)"

section \<open>Payloads\<close>

datatype payment_target_kind = Target_card | Target_bank_account | Target_wallet

datatype settlement_priority = Standard | Express

datatype trade_side = Buy | Sell

datatype order_type = Order_market | Order_limit

fun target_value :: "payment_target_kind \<Rightarrow> py_str" where
  "target_value Target_card = ''card''"
| "target_value Target_bank_account = ''bank_account''"
| "target_value Target_wallet = ''wallet''"

fun priority_value :: "settlement_priority \<Rightarrow> py_str" where
  "priority_value Standard = ''standard''"
| "priority_value Express = ''express''"

fun side_value :: "trade_side \<Rightarrow> py_str" where
  "side_value Buy = ''buy''"
| "side_value Sell = ''sell''"

fun order_value :: "order_type \<Rightarrow> py_str" where
  "order_value Order_market = ''market''"
| "order_value Order_limit = ''limit''"

lemma target_value_inj [enum_inj, simp]: "target_value a = target_value b \<longleftrightarrow> a = b"
  by (cases a; cases b) simp_all

lemma priority_value_inj [enum_inj, simp]: "priority_value a = priority_value b \<longleftrightarrow> a = b"
  by (cases a; cases b) simp_all

lemma side_value_inj [enum_inj, simp]: "side_value a = side_value b \<longleftrightarrow> a = b"
  by (cases a; cases b) simp_all

lemma order_value_inj [enum_inj, simp]: "order_value a = order_value b \<longleftrightarrow> a = b"
  by (cases a; cases b) simp_all

record payment_payload =
  pp_target_kind :: payment_target_kind
  pp_new_beneficiary :: bool
  pp_cross_border :: bool
  pp_settlement_priority :: settlement_priority

record trade_payload =
  tp_symbol :: py_str
  tp_quantity :: int
  tp_side :: trade_side
  tp_order_type :: order_type
  tp_limit_price_minor :: "int option"

definition is_upper :: "char \<Rightarrow> bool" where
  "is_upper c \<longleftrightarrow> 65 \<le> (of_char c :: nat) \<and> (of_char c :: nat) \<le> 90"

text \<open>The pattern \<open>^[A-Z][A-Z0-9.\-]{0,9}$\<close>.\<close>

definition is_symbol :: "py_str \<Rightarrow> bool" where
  "is_symbol s \<longleftrightarrow>
     (case s of [] \<Rightarrow> False
      | c # r \<Rightarrow> is_upper c \<and> length r \<le> 9
          \<and> (\<forall>d \<in> set r. is_upper d \<or> is_digit d \<or> d = CHR ''.'' \<or> d = CHR ''-''))"

definition trade_payload_ok :: "trade_payload \<Rightarrow> bool" where
  "trade_payload_ok t \<longleftrightarrow>
     is_symbol (tp_symbol t) \<and> 0 < tp_quantity t
     \<and> (case tp_limit_price_minor t of None \<Rightarrow> True | Some p \<Rightarrow> 0 \<le> p)"

definition mk_trade_payload :: "trade_payload \<Rightarrow> py_error + trade_payload" where
  "mk_trade_payload t = (if trade_payload_ok t then Inr t else Inl Validation_Error)"

datatype rail_payload = Payment payment_payload | Trade trade_payload

record transaction_intent =
  i_dimensions :: decision_dimensions
  i_payload :: rail_payload
  i_idempotency_key :: py_str

fun payload_ok :: "rail_payload \<Rightarrow> bool" where
  "payload_ok (Payment p) \<longleftrightarrow> True"
| "payload_ok (Trade t) \<longleftrightarrow> trade_payload_ok t"

definition intent_ok :: "transaction_intent \<Rightarrow> bool" where
  "intent_ok i \<longleftrightarrow>
     dimensions_ok (i_dimensions i) \<and> payload_ok (i_payload i) \<and> i_idempotency_key i \<noteq> []"

section \<open>The JSON form of an intent\<close>

type_synonym date_format = "datetime \<Rightarrow> py_str"

definition dimension_members :: "date_format \<Rightarrow> decision_dimensions \<Rightarrow> (py_str \<times> json) list" where
  "dimension_members fmt d =
     [(''value_lower_minor'', JInt (d_value_lower_minor d)),
      (''value_upper_minor'', JInt (d_value_upper_minor d)),
      (''quote_currency'', JStr (currency_value (d_quote_currency d))),
      (''counterparty_ref'', JStr (d_counterparty_ref d)),
      (''source_account_ref'', JStr (d_source_account_ref d)),
      (''rail_class'', JStr (rail_value (d_rail_class d))),
      (''not_before'', JStr (fmt (d_not_before d))),
      (''not_after'', JStr (fmt (d_not_after d))),
      (''reversibility'', JStr (reversibility_value (d_reversibility d))),
      (''source_trust'', JStr (trust_value (d_source_trust d))),
      (''scope_count'', JInt (d_scope_count d))]"

definition json_opt_int :: "int option \<Rightarrow> json" where
  "json_opt_int n = (case n of None \<Rightarrow> JNull | Some k \<Rightarrow> JInt k)"

definition json_opt_str :: "py_str option \<Rightarrow> json" where
  "json_opt_str s = (case s of None \<Rightarrow> JNull | Some t \<Rightarrow> JStr t)"

lemma json_opt_int_inj [simp]: "json_opt_int a = json_opt_int b \<longleftrightarrow> a = b"
  by (cases a; cases b) (simp_all add: json_opt_int_def)

lemma json_opt_str_inj [simp]: "json_opt_str a = json_opt_str b \<longleftrightarrow> a = b"
  by (cases a; cases b) (simp_all add: json_opt_str_def)

lemma sort_keys_json_opt [simp]:
  "sort_keys (json_opt_int a) = json_opt_int a" "sort_keys (json_opt_str s) = json_opt_str s"
  by (cases a; simp add: json_opt_int_def) (cases s; simp add: json_opt_str_def)

fun payload_json :: "rail_payload \<Rightarrow> json" where
  "payload_json (Payment p) = JObj
     [(''payload_kind'', JStr ''payment''),
      (''target_kind'', JStr (target_value (pp_target_kind p))),
      (''new_beneficiary'', JBool (pp_new_beneficiary p)),
      (''cross_border'', JBool (pp_cross_border p)),
      (''settlement_priority'', JStr (priority_value (pp_settlement_priority p)))]"
| "payload_json (Trade t) = JObj
     [(''payload_kind'', JStr ''trade''),
      (''symbol'', JStr (tp_symbol t)),
      (''quantity'', JInt (tp_quantity t)),
      (''side'', JStr (side_value (tp_side t))),
      (''order_type'', JStr (order_value (tp_order_type t))),
      (''limit_price_minor'', json_opt_int (tp_limit_price_minor t))]"

text \<open>\<open>intent.model_dump(mode="json")\<close>, given the members of its dimensions.\<close>

definition intent_json :: "(py_str \<times> json) list \<Rightarrow> transaction_intent \<Rightarrow> json" where
  "intent_json dims i = JObj
     [(''dimensions'', JObj dims),
      (''payload'', payload_json (i_payload i)),
      (''idempotency_key'', JStr (i_idempotency_key i))]"

section \<open>The two digests\<close>

definition DIGEST_VERSION :: int where
  "DIGEST_VERSION = 1"

definition PROPOSAL_DIGEST_VERSION :: int where
  "PROPOSAL_DIGEST_VERSION = 1"

definition WINDOW_FIELDS :: "py_str list" where
  "WINDOW_FIELDS = [''not_before'', ''not_after'']"

record intent_digest =
  id_version :: int
  id_value :: py_str

record proposal_digest =
  pd_version :: int
  pd_value :: py_str

definition canonical_text :: "date_format \<Rightarrow> transaction_intent \<Rightarrow> int \<Rightarrow> py_str" where
  "canonical_text fmt i version =
     dumps (JObj [(''digest_version'', JInt version),
                  (''intent'', intent_json (dimension_members fmt (i_dimensions i)) i)])"

definition compute_digest_v :: "date_format \<Rightarrow> transaction_intent \<Rightarrow> int \<Rightarrow> intent_digest" where
  "compute_digest_v fmt i version =
     \<lparr>id_version = version, id_value = sha256_hex (canonical_text fmt i version)\<rparr>"

definition compute_digest :: "date_format \<Rightarrow> transaction_intent \<Rightarrow> intent_digest" where
  "compute_digest fmt i = compute_digest_v fmt i DIGEST_VERSION"

text \<open>The members of the dimensions that stay after \<open>del dimensions[field]\<close> for both window
  fields; \<open>window_fields_present\<close> below says that neither \<open>del\<close> raises.\<close>

definition proposal_members :: "date_format \<Rightarrow> decision_dimensions \<Rightarrow> (py_str \<times> json) list" where
  "proposal_members fmt d = filter (\<lambda>kv. fst kv \<notin> set WINDOW_FIELDS) (dimension_members fmt d)"

definition proposal_text :: "date_format \<Rightarrow> transaction_intent \<Rightarrow> int \<Rightarrow> py_str" where
  "proposal_text fmt i version =
     dumps (JObj [(''digest_version'', JInt version),
                  (''domain'', JStr ''proposal''),
                  (''proposal'', intent_json (proposal_members fmt (i_dimensions i)) i)])"

definition compute_proposal_digest_v :: "date_format \<Rightarrow> transaction_intent \<Rightarrow> int \<Rightarrow> proposal_digest" where
  "compute_proposal_digest_v fmt i version =
     \<lparr>pd_version = version, pd_value = sha256_hex (proposal_text fmt i version)\<rparr>"

definition compute_proposal_digest :: "date_format \<Rightarrow> transaction_intent \<Rightarrow> proposal_digest" where
  "compute_proposal_digest fmt i = compute_proposal_digest_v fmt i PROPOSAL_DIGEST_VERSION"

lemma window_fields_present:
  "set WINDOW_FIELDS \<subseteq> fst ` set (dimension_members fmt d)" "distinct (map fst (dimension_members fmt d))"
  by (simp_all add: WINDOW_FIELDS_def dimension_members_def)

section \<open>The canonical texts identify what they cover\<close>

lemma payment_trade_differ:
  "sort_keys (payload_json (Payment a)) \<noteq> sort_keys (payload_json (Trade b))"
  by (auto simp del: sort_keys.simps dest: sort_keys_key [where k = "''symbol''"])

lemma sort_keys_payload_inj:
  "sort_keys (payload_json p) = sort_keys (payload_json q) \<longleftrightarrow> p = q"
proof (cases p; cases q)
  fix a b assume "p = Payment a" "q = Payment b"
  then show ?thesis
    by (auto simp: sort_keys_object_eq simp del: sort_keys.simps(6) intro: payment_payload.equality)
next
  fix a b assume "p = Trade a" "q = Trade b"
  then show ?thesis
    by (auto simp: sort_keys_object_eq simp del: sort_keys.simps(6) intro: trade_payload.equality)
qed (use payment_trade_differ in \<open>auto simp del: sort_keys.simps payload_json.simps\<close>, metis)

lemma intent_json_eq:
  assumes "map fst a = map fst b" and "distinct (map fst a)"
  shows "sort_keys (intent_json a i) = sort_keys (intent_json b j) \<longleftrightarrow>
    map (sort_keys \<circ> snd) a = map (sort_keys \<circ> snd) b
    \<and> i_payload i = i_payload j \<and> i_idempotency_key i = i_idempotency_key j"
  by (auto simp: intent_json_def sort_keys_object_eq [OF assms] sort_keys_object_eq
      sort_keys_payload_inj simp del: sort_keys.simps(6))

lemma dimension_members_eq:
  assumes "inj fmt"
  shows "map (sort_keys \<circ> snd) (dimension_members fmt d) = map (sort_keys \<circ> snd) (dimension_members fmt e)
    \<longleftrightarrow> d = e"
  using assms by (auto simp: dimension_members_def inj_eq intro: decision_dimensions.equality)

lemma dimension_members_keys: "map fst (dimension_members fmt d) = map fst (dimension_members fmt e)"
  by (simp add: dimension_members_def)

text \<open>An intent under another validity window.\<close>

definition with_window :: "transaction_intent \<Rightarrow> datetime \<Rightarrow> datetime \<Rightarrow> transaction_intent" where
  "with_window i nb na =
     i\<lparr>i_dimensions := (i_dimensions i)\<lparr>d_not_before := nb, d_not_after := na\<rparr>\<rparr>"

definition same_but_window :: "transaction_intent \<Rightarrow> transaction_intent \<Rightarrow> bool" where
  "same_but_window i j \<longleftrightarrow>
     j = with_window i (d_not_before (i_dimensions j)) (d_not_after (i_dimensions j))"

lemma same_but_window_iff:
  "same_but_window i j \<longleftrightarrow>
     d_value_lower_minor (i_dimensions i) = d_value_lower_minor (i_dimensions j)
     \<and> d_value_upper_minor (i_dimensions i) = d_value_upper_minor (i_dimensions j)
     \<and> d_quote_currency (i_dimensions i) = d_quote_currency (i_dimensions j)
     \<and> d_counterparty_ref (i_dimensions i) = d_counterparty_ref (i_dimensions j)
     \<and> d_source_account_ref (i_dimensions i) = d_source_account_ref (i_dimensions j)
     \<and> d_rail_class (i_dimensions i) = d_rail_class (i_dimensions j)
     \<and> d_reversibility (i_dimensions i) = d_reversibility (i_dimensions j)
     \<and> d_source_trust (i_dimensions i) = d_source_trust (i_dimensions j)
     \<and> d_scope_count (i_dimensions i) = d_scope_count (i_dimensions j)
     \<and> i_payload i = i_payload j \<and> i_idempotency_key i = i_idempotency_key j"
  by (cases i; cases j; cases "i_dimensions i"; cases "i_dimensions j")
     (auto simp: same_but_window_def with_window_def)

lemma proposal_members_simps:
  "proposal_members fmt d =
     [(''value_lower_minor'', JInt (d_value_lower_minor d)),
      (''value_upper_minor'', JInt (d_value_upper_minor d)),
      (''quote_currency'', JStr (currency_value (d_quote_currency d))),
      (''counterparty_ref'', JStr (d_counterparty_ref d)),
      (''source_account_ref'', JStr (d_source_account_ref d)),
      (''rail_class'', JStr (rail_value (d_rail_class d))),
      (''reversibility'', JStr (reversibility_value (d_reversibility d))),
      (''source_trust'', JStr (trust_value (d_source_trust d))),
      (''scope_count'', JInt (d_scope_count d))]"
  by (simp add: proposal_members_def dimension_members_def WINDOW_FIELDS_def)

lemma canonical_text_eq:
  assumes "inj fmt"
  shows "canonical_text fmt i v = canonical_text fmt j w \<longleftrightarrow> i = j \<and> v = w"
proof -
  have "canonical_text fmt i v = canonical_text fmt j w \<longleftrightarrow>
      v = w \<and> i_dimensions i = i_dimensions j \<and> i_payload i = i_payload j
      \<and> i_idempotency_key i = i_idempotency_key j"
    by (simp add: canonical_text_def dumps_inj sort_keys_object_eq
        intent_json_eq [OF dimension_members_keys window_fields_present(2)]
        dimension_members_eq [OF assms] del: sort_keys.simps(6))
  then show ?thesis by (auto intro: transaction_intent.equality)
qed

lemma proposal_text_eq:
  "proposal_text fmt i v = proposal_text fmt j w \<longleftrightarrow> same_but_window i j \<and> v = w"
proof -
  have "proposal_text fmt i v = proposal_text fmt j w \<longleftrightarrow>
      v = w \<and> sort_keys (intent_json (proposal_members fmt (i_dimensions i)) i)
            = sort_keys (intent_json (proposal_members fmt (i_dimensions j)) j)"
    by (simp add: proposal_text_def dumps_inj sort_keys_object_eq del: sort_keys.simps(6))
  also have "\<dots> \<longleftrightarrow> v = w \<and> same_but_window i j"
    by (subst intent_json_eq) (auto simp: proposal_members_simps same_but_window_iff)
  finally show ?thesis by blast
qed

lemma canonical_neq_proposal: "canonical_text fmt i v \<noteq> proposal_text fmt j w"
  by (auto simp: canonical_text_def proposal_text_def dumps_inj simp del: sort_keys.simps
      dest: sort_keys_key [where k = "''domain''"])

lemma digest_hex64 [simp]:
  "hex64 (id_value (compute_digest fmt i))" "hex64 (pd_value (compute_proposal_digest fmt i))"
  by (simp_all add: compute_digest_def compute_digest_v_def compute_proposal_digest_def
      compute_proposal_digest_v_def)

lemma compute_digest_eq:
  "compute_digest fmt i = compute_digest fmt j \<longleftrightarrow>
     sha256_hex (canonical_text fmt i DIGEST_VERSION) = sha256_hex (canonical_text fmt j DIGEST_VERSION)"
  by (simp add: compute_digest_def compute_digest_v_def)

lemma proposal_digest_same_but_window:
  "same_but_window i j \<Longrightarrow> compute_proposal_digest fmt i = compute_proposal_digest fmt j"
  using proposal_text_eq [of fmt i PROPOSAL_DIGEST_VERSION j PROPOSAL_DIGEST_VERSION]
  by (simp add: compute_proposal_digest_def compute_proposal_digest_v_def)

section \<open>Properties\<close>

definition demo_intent :: "int \<Rightarrow> datetime \<Rightarrow> transaction_intent" where
  "demo_intent amount now =
     \<lparr>i_dimensions =
        \<lparr>d_value_lower_minor = amount, d_value_upper_minor = amount, d_quote_currency = USD,
         d_counterparty_ref = ''fp:'' @ replicate 64 (CHR ''a''),
         d_source_account_ref = ''fp:'' @ replicate 64 (CHR ''b''),
         d_rail_class = Rail_card, d_not_before = now, d_not_after = now + seconds 300,
         d_reversibility = Irreversible, d_source_trust = Untrusted_data, d_scope_count = 1\<rparr>,
      i_payload = Payment \<lparr>pp_target_kind = Target_card, pp_new_beneficiary = True,
         pp_cross_border = True, pp_settlement_priority = Standard\<rparr>,
      i_idempotency_key = ''key''\<rparr>"

lemma inj_int_str: "inj int_str"
  by (simp add: inj_def)

text \<open>The intent digest binds every material field and the algorithm version: two digests
  have the same value only for the same intent under the same version, or else the two
  canonical texts are an explicit SHA-256 collision.\<close>

theorem intent_digest_binds:
  assumes "inj fmt"
  shows "id_value (compute_digest_v fmt i v) = id_value (compute_digest_v fmt j w) \<longleftrightarrow>
    (i = j \<and> v = w) \<or> sha256_collision (canonical_text fmt i v) (canonical_text fmt j w)"
  using canonical_text_eq [OF assms] by (auto simp: compute_digest_v_def sha256_hex_eq)

theorem intent_digest_binds_witness:
  "id_value (compute_digest_v int_str (demo_intent 4200 0) 1)
     = id_value (compute_digest_v int_str (demo_intent 4300 0) 1) \<longleftrightarrow>
   sha256_collision (canonical_text int_str (demo_intent 4200 0) 1)
     (canonical_text int_str (demo_intent 4300 0) 1)"
  using intent_digest_binds [OF inj_int_str, of "demo_intent 4200 0" 1 "demo_intent 4300 0" 1]
  by (simp add: demo_intent_def)

text \<open>The proposal digest binds everything but the validity window, and nothing less: it
  is unchanged by any change of the window, and two proposals with the same digest agree in
  every other field, or their canonical texts are an explicit SHA-256 collision.\<close>

theorem proposal_digest_binds:
  "pd_value (compute_proposal_digest_v fmt i v) = pd_value (compute_proposal_digest_v fmt j w) \<longleftrightarrow>
    (same_but_window i j \<and> v = w) \<or> sha256_collision (proposal_text fmt i v) (proposal_text fmt j w)"
  using proposal_text_eq [of fmt i v j w] by (auto simp: compute_proposal_digest_v_def sha256_hex_eq)

text \<open>The two digests never cover the same material: no intent, and no pair of intents, has
  one text under both, whatever the versions, so that a proposal digest is not usable as an
  intent digest short of a SHA-256 collision.\<close>

theorem digests_separated:
  "id_value (compute_digest_v fmt i v) = pd_value (compute_proposal_digest_v fmt j w) \<longleftrightarrow>
    sha256_collision (canonical_text fmt i v) (proposal_text fmt j w)"
  using canonical_neq_proposal [of fmt i v j w]
  by (auto simp: compute_digest_v_def compute_proposal_digest_v_def sha256_hex_eq)

end
