(* ===== verification/Policy.thy ===== *)
theory Policy
  imports Intent
begin

text \<open>
  \<open>secondsign.policy\<close>: the windowed amount limit (\<open>amount.py\<close>) and the currency coverage
  policy (\<open>coverage.py\<close>). A policy takes the intent and the redacted context and answers as
  any code called through \<open>try\<close> may (type \<open>plugin_answer\<close>): constructing a finding or a
  judgement that its validators reject is an exception.
\<close>

section \<open>The state a limit is judged on\<close>

record aggregate_key =
  k_quote_currency :: currency
  k_counterparty_ref :: py_str
  k_source_account_ref :: py_str
  k_rail_class :: rail_class

definition key_from_intent :: "transaction_intent \<Rightarrow> aggregate_key" where
  "key_from_intent intent =
     (let d = i_dimensions intent
      in \<lparr>k_quote_currency = d_quote_currency d, k_counterparty_ref = d_counterparty_ref d,
          k_source_account_ref = d_source_account_ref d, k_rail_class = d_rail_class d\<rparr>)"

record window_aggregate =
  wa_key :: aggregate_key
  wa_window_seconds :: int
  wa_aggregate_minor :: int
  wa_count :: int

definition window_aggregate_ok :: "window_aggregate \<Rightarrow> bool" where
  "window_aggregate_ok a \<longleftrightarrow> 0 < wa_window_seconds a \<and> 0 \<le> wa_aggregate_minor a \<and> 0 \<le> wa_count a"

record amount_limit =
  l_quote_currency :: currency
  l_window_seconds :: int
  l_max_aggregate_minor :: int
  l_review_above_minor :: "int option"

definition amount_limit_ok :: "amount_limit \<Rightarrow> bool" where
  "amount_limit_ok l \<longleftrightarrow>
     0 < l_window_seconds l \<and> 0 \<le> l_max_aggregate_minor l
     \<and> (case l_review_above_minor l of None \<Rightarrow> True
        | Some r \<Rightarrow> 0 \<le> r \<and> \<not> l_max_aggregate_minor l \<le> r)"

definition mk_amount_limit :: "amount_limit \<Rightarrow> py_error + amount_limit" where
  "mk_amount_limit l = (if amount_limit_ok l then Inr l else Inl Validation_Error)"

record policy_context =
  pc_window_aggregate :: "window_aggregate option"

section \<open>The policies\<close>

definition bounded :: "int option \<Rightarrow> int option" where
  "bounded value = (case value of None \<Rightarrow> None | Some n \<Rightarrow> Some (min n MAX_DETAIL_MAGNITUDE))"

text \<open>A judgement with the single finding the arguments give, or the exception of its
  construction.\<close>

definition judge_one ::
  "plugin_verdict \<Rightarrow> reason_code \<Rightarrow> int option \<Rightarrow> int option \<Rightarrow> plugin_answer" where
  "judge_one v code observed limit =
     (case mk_finding code (bounded observed) (bounded limit) of
        Inl e \<Rightarrow> Raises
      | Inr f \<Rightarrow> (case mk_judgement v [f] of Inl e \<Rightarrow> Raises | Inr j \<Rightarrow> Judgement j))"

definition amount_deny :: "reason_code \<Rightarrow> int option \<Rightarrow> int option \<Rightarrow> plugin_answer" where
  "amount_deny code observed limit = judge_one DENY code observed limit"

definition amount_evaluate ::
  "amount_limit \<Rightarrow> transaction_intent \<Rightarrow> policy_context \<Rightarrow> plugin_answer" where
  "amount_evaluate lim intent context =
     (if d_quote_currency (i_dimensions intent) \<noteq> l_quote_currency lim
      then Judgement neutral
      else case pc_window_aggregate context of
          None \<Rightarrow> amount_deny velocity_limit None None
        | Some aggregate \<Rightarrow>
            if wa_key aggregate \<noteq> key_from_intent intent
               \<or> wa_window_seconds aggregate \<noteq> l_window_seconds lim
            then amount_deny velocity_limit None None
            else let prospective = wa_aggregate_minor aggregate
                       + d_value_upper_minor (i_dimensions intent)
              in if l_max_aggregate_minor lim < prospective
                 then amount_deny value_band_exceeded (Some prospective) (Some (l_max_aggregate_minor lim))
                 else (case l_review_above_minor lim of
                     None \<Rightarrow> Judgement neutral
                   | Some review_above \<Rightarrow>
                       if review_above < prospective
                       then judge_one REVIEW value_band_exceeded (Some prospective) (Some review_above)
                       else Judgement neutral))"

definition coverage_evaluate ::
  "currency set \<Rightarrow> transaction_intent \<Rightarrow> policy_context \<Rightarrow> plugin_answer" where
  "coverage_evaluate covered intent context =
     (if d_quote_currency (i_dimensions intent) \<in> covered then Judgement neutral
      else Judgement (deny_judgement org_policy))"

section \<open>What the policies answer\<close>

lemma bounded_simps [simp]:
  "bounded None = None" "bounded (Some n) = Some (min n MAX_DETAIL_MAGNITUDE)"
  by (simp_all add: bounded_def)

lemma MAX_pos [simp]: "0 < MAX_DETAIL_MAGNITUDE" "0 \<le> MAX_DETAIL_MAGNITUDE"
  by (simp_all add: MAX_DETAIL_MAGNITUDE_def)

text \<open>Clamping is what keeps the construction of a finding from raising.\<close>

lemma detail_ok_bounded: "(\<And>n. d = Some n \<Longrightarrow> 0 \<le> n) \<Longrightarrow> detail_ok (bounded d)"
  by (cases d) auto

definition one_finding :: "plugin_verdict \<Rightarrow> reason_code \<Rightarrow> int option \<Rightarrow> int option \<Rightarrow> plugin_judgement" where
  "one_finding v code observed limit =
     \<lparr>j_contract_version = CONTRACT_VERSION, j_verdict = v,
      j_findings = [\<lparr>f_code = code, f_observed = bounded observed, f_limit = bounded limit\<rparr>]\<rparr>"

lemma one_finding_simps [simp]:
  "j_verdict (one_finding v c obs lim) = v"
  "j_contract_version (one_finding v c obs lim) = CONTRACT_VERSION"
  by (simp_all add: one_finding_def)

lemma judge_one_eq:
  assumes "\<And>n. obs = Some n \<Longrightarrow> 0 \<le> n" and "\<And>n. lim = Some n \<Longrightarrow> 0 \<le> n"
  shows "judge_one v code obs lim = Judgement (one_finding v code obs lim)"
    and "judgement_ok (one_finding v code obs lim)"
  using detail_ok_bounded [of obs] detail_ok_bounded [of lim] assms
  by (simp_all add: judge_one_def mk_finding_def mk_judgement_def one_finding_def finding_ok_def
      judgement_ok_def Let_def)

definition prospective :: "transaction_intent \<Rightarrow> window_aggregate \<Rightarrow> int" where
  "prospective intent a = wa_aggregate_minor a + d_value_upper_minor (i_dimensions intent)"

text \<open>The aggregate that applies: present, for the intent's key, over the limit's window.\<close>

definition applicable :: "amount_limit \<Rightarrow> transaction_intent \<Rightarrow> policy_context \<Rightarrow> window_aggregate option" where
  "applicable lim intent context =
     (case pc_window_aggregate context of None \<Rightarrow> None
      | Some a \<Rightarrow> if wa_key a = key_from_intent intent \<and> wa_window_seconds a = l_window_seconds lim
                 then Some a else None)"

text \<open>The specification of a limit: the band the prospective aggregate falls in, and DENY when
  the aggregate cannot be verified.\<close>

definition amount_band :: "amount_limit \<Rightarrow> transaction_intent \<Rightarrow> policy_context \<Rightarrow> plugin_verdict" where
  "amount_band lim intent context =
     (if d_quote_currency (i_dimensions intent) \<noteq> l_quote_currency lim then ABSTAIN
      else case applicable lim intent context of
          None \<Rightarrow> DENY
        | Some a \<Rightarrow>
            if l_max_aggregate_minor lim < prospective intent a then DENY
            else if \<exists>r. l_review_above_minor lim = Some r \<and> r < prospective intent a then REVIEW
            else ABSTAIN)"

definition context_ok :: "policy_context \<Rightarrow> bool" where
  "context_ok c \<longleftrightarrow> (\<forall>a. pc_window_aggregate c = Some a \<longrightarrow> window_aggregate_ok a)"

lemma neutral_ok [simp]: "judgement_ok neutral" "j_verdict neutral = ABSTAIN"
  by (simp_all add: neutral_def judgement_ok_def)

lemma amount_evaluate_spec:
  assumes lim: "amount_limit_ok lim" and c: "context_ok context" and i: "intent_ok intent"
  shows "\<exists>j. amount_evaluate lim intent context = Judgement j \<and> judgement_ok j
    \<and> j_verdict j = amount_band lim intent context"
proof (cases "d_quote_currency (i_dimensions intent) = l_quote_currency lim")
  case False
  then show ?thesis by (simp add: amount_evaluate_def amount_band_def)
next
  case cur: True
  note deny = judge_one_eq [of None None DENY velocity_limit]
  show ?thesis
  proof (cases "applicable lim intent context")
    case None
    then have "amount_evaluate lim intent context = amount_deny velocity_limit None None"
      using cur by (auto simp: amount_evaluate_def applicable_def split: option.splits if_splits)
    then show ?thesis using cur None deny by (simp add: amount_band_def amount_deny_def)
  next
    case (Some a)
    let ?p = "prospective intent a"
    from Some have a: "pc_window_aggregate context = Some a" "wa_key a = key_from_intent intent"
      "wa_window_seconds a = l_window_seconds lim"
      by (auto simp: applicable_def split: option.splits if_splits)
    have p: "0 \<le> ?p" "0 \<le> l_max_aggregate_minor lim"
      using c a i lim by (auto simp: context_ok_def window_aggregate_ok_def prospective_def
          intent_ok_def dimensions_ok_def amount_limit_ok_def)
    note over = judge_one_eq [of "Some ?p" "Some (l_max_aggregate_minor lim)" DENY value_band_exceeded]
    have review: "\<And>r. l_review_above_minor lim = Some r \<Longrightarrow> 0 \<le> r"
      using lim by (auto simp: amount_limit_ok_def)
    note held = judge_one_eq [of "Some ?p" "l_review_above_minor lim" REVIEW value_band_exceeded]
    show ?thesis
      using cur a Some p over held review
      by (auto simp: amount_evaluate_def amount_band_def amount_deny_def Let_def
          prospective_def [symmetric] split: option.splits)
  qed
qed

lemma coverage_evaluate_spec:
  "\<exists>j. coverage_evaluate covered intent context = Judgement j \<and> judgement_ok j
    \<and> j_verdict j = (if d_quote_currency (i_dimensions intent) \<in> covered then ABSTAIN else DENY)"
  by (simp add: coverage_evaluate_def)

section \<open>Properties\<close>

text \<open>[C35] The amount policy never raises and answers exactly the band of the windowed
  aggregate: no concern up to the review threshold, REVIEW above it, DENY above the inclusive
  cap, DENY when the aggregate is missing or was computed for another key or window, and no
  opinion on another currency.\<close>

theorem amount_policy_bands:
  assumes "amount_limit_ok lim" and "context_ok context" and "intent_ok intent"
  shows "\<exists>j. amount_evaluate lim intent context = Judgement j \<and> judgement_ok j
    \<and> j_verdict j = amount_band lim intent context"
  using assms by (rule amount_evaluate_spec)

text \<open>A limit of 500.00 with a review band above 200.00, and a context in which \<open>spent\<close> has
  been committed in the window.\<close>

definition demo_limit :: amount_limit where
  "demo_limit = \<lparr>l_quote_currency = USD, l_window_seconds = 3600, l_max_aggregate_minor = 50000,
                 l_review_above_minor = Some 20000\<rparr>"

definition demo_context :: "int \<Rightarrow> policy_context" where
  "demo_context spent =
     \<lparr>pc_window_aggregate = Some \<lparr>wa_key = key_from_intent (demo_intent 0 0), wa_window_seconds = 3600,
        wa_aggregate_minor = spent, wa_count = 1\<rparr>\<rparr>"

lemma demo_policy_inputs:
  "amount_limit_ok demo_limit" "0 \<le> spent \<Longrightarrow> context_ok (demo_context spent)"
  "0 \<le> amount \<Longrightarrow> intent_ok (demo_intent amount 0)"
  by (auto simp: demo_limit_def amount_limit_ok_def demo_context_def context_ok_def
      window_aggregate_ok_def demo_intent_def intent_ok_def dimensions_ok_def is_fingerprint_def
      hex64_def is_hex_char_def seconds_def)

theorem amount_policy_bands_witness:
  "amount_band demo_limit (demo_intent 4200 0) (demo_context 10000) = ABSTAIN
   \<and> amount_band demo_limit (demo_intent 30000 0) (demo_context 10000) = REVIEW
   \<and> amount_band demo_limit (demo_intent 40001 0) (demo_context 10000) = DENY
   \<and> (\<exists>j. amount_evaluate demo_limit (demo_intent 40001 0) (demo_context 10000) = Judgement j
        \<and> j_verdict j = DENY)"
proof -
  have "amount_band demo_limit (demo_intent 4200 0) (demo_context 10000) = ABSTAIN"
    "amount_band demo_limit (demo_intent 30000 0) (demo_context 10000) = REVIEW"
    "amount_band demo_limit (demo_intent 40001 0) (demo_context 10000) = DENY"
    by (simp_all add: amount_band_def applicable_def prospective_def demo_limit_def demo_context_def
        demo_intent_def key_from_intent_def)
  with amount_policy_bands [OF demo_policy_inputs(1) demo_policy_inputs(2) demo_policy_inputs(3),
      of 10000 40001] show ?thesis by auto
qed

end
