(* ===== verification/Decision.thy ===== *)
theory Decision
  imports Policy
begin

text \<open>
  \<open>secondsign.decision.engine\<close>: the engine runs a fixed list of policies, reduces their
  judgements with the combination of theory \<open>Contracts\<close> and maps the result to a decision
  bound to the intent's digest.
\<close>

section \<open>Verdicts and decisions\<close>

datatype decision_verdict = Allow | Review | Deny

fun decision_value :: "decision_verdict \<Rightarrow> int" where
  "decision_value Allow = 0"
| "decision_value Review = 1"
| "decision_value Deny = 2"

lemma decision_value_inj [enum_inj, simp]: "decision_value a = decision_value b \<longleftrightarrow> a = b"
  by (cases a; cases b) simp_all

fun verdict_map :: "plugin_verdict \<Rightarrow> decision_verdict" where
  "verdict_map ABSTAIN = Allow"
| "verdict_map REVIEW = Review"
| "verdict_map DENY = Deny"

lemma verdict_map_value: "decision_value (verdict_map v) = verdict_value v"
  by (cases v) simp_all

lemma verdict_map_iff [simp]:
  "verdict_map v = Allow \<longleftrightarrow> v = ABSTAIN" "verdict_map v = Review \<longleftrightarrow> v = REVIEW"
  "verdict_map v = Deny \<longleftrightarrow> v = DENY"
  by (cases v; simp)+

record decision =
  dec_verdict :: decision_verdict
  dec_digest :: intent_digest
  dec_findings :: "finding list"

definition decision_reasons :: "decision \<Rightarrow> reason_code list" where
  "decision_reasons d = fromkeys (map f_code (dec_findings d))"

section \<open>The engine\<close>

type_synonym policy = "transaction_intent \<Rightarrow> policy_context \<Rightarrow> plugin_answer"

text \<open>\<open>DecisionEngine._evaluate\<close>. Unlike the plugin runner it returns an instance as it is.\<close>

definition engine_evaluate ::
  "policy \<Rightarrow> transaction_intent \<Rightarrow> policy_context \<Rightarrow> plugin_judgement" where
  "engine_evaluate policy intent ctx =
     (case policy intent ctx of
        Raises \<Rightarrow> deny_judgement plugin_error
      | Other \<Rightarrow> deny_judgement plugin_invalid_result
      | Judgement result \<Rightarrow> result
      | Hostile result \<Rightarrow> result)"

definition decide ::
  "date_format \<Rightarrow> policy list \<Rightarrow> transaction_intent \<Rightarrow> policy_context \<Rightarrow> py_error + decision" where
  "decide fmt policies intent ctx =
     (case reduce combine neutral (map (\<lambda>policy. engine_evaluate policy intent ctx) policies) of
        Inl e \<Rightarrow> Inl e
      | Inr combined \<Rightarrow>
          Inr \<lparr>dec_verdict = verdict_map (j_verdict combined),
               dec_digest = compute_digest fmt intent,
               dec_findings = j_findings combined\<rparr>)"

text \<open>The policies of a deployment are the repository's own code: what the engine relies on is
  that a judgement they return is one its validators accept.\<close>

definition policy_sound :: "policy \<Rightarrow> transaction_intent \<Rightarrow> policy_context \<Rightarrow> bool" where
  "policy_sound policy intent ctx \<longleftrightarrow> judgement_ok (engine_evaluate policy intent ctx)"

lemma policy_sound_fail_closed:
  "policy intent ctx \<in> {Raises, Other} \<Longrightarrow>
     policy_sound policy intent ctx \<and> j_verdict (engine_evaluate policy intent ctx) = DENY"
  by (auto simp: policy_sound_def engine_evaluate_def)

lemma amount_policy_sound:
  assumes "amount_limit_ok lim" and "context_ok ctx" and "intent_ok intent"
  shows "policy_sound (amount_evaluate lim) intent ctx"
    and "j_verdict (engine_evaluate (amount_evaluate lim) intent ctx) = amount_band lim intent ctx"
  using amount_evaluate_spec [OF assms] by (auto simp: policy_sound_def engine_evaluate_def)

lemma coverage_policy_sound:
  "policy_sound (coverage_evaluate covered) intent ctx"
  "j_verdict (engine_evaluate (coverage_evaluate covered) intent ctx)
     = (if d_quote_currency (i_dimensions intent) \<in> covered then ABSTAIN else DENY)"
  using coverage_evaluate_spec [of covered intent ctx]
  by (auto simp: policy_sound_def engine_evaluate_def)

abbreviation policy_judgements ::
  "policy list \<Rightarrow> transaction_intent \<Rightarrow> policy_context \<Rightarrow> plugin_judgement list" where
  "policy_judgements policies intent ctx \<equiv>
     map (\<lambda>policy. engine_evaluate policy intent ctx) policies"

lemma judgements_ok:
  "\<forall>p \<in> set policies. policy_sound p intent ctx \<Longrightarrow>
     \<forall>j \<in> set (policy_judgements policies intent ctx). judgement_ok j"
  by (auto simp: policy_sound_def)

lemma decide_spec:
  assumes "\<forall>p \<in> set policies. policy_sound p intent ctx"
  shows "\<exists>d. decide fmt policies intent ctx = Inr d
    \<and> dec_verdict d = verdict_map (Max (insert ABSTAIN
        ((\<lambda>p. j_verdict (engine_evaluate p intent ctx)) ` set policies)))
    \<and> dec_digest d = compute_digest fmt intent
    \<and> canonical (dec_findings d)
    \<and> set (dec_findings d) = (\<Union>p \<in> set policies. set (j_findings (engine_evaluate p intent ctx)))"
  using judgements.reduce_spec [OF judgements.unit_ok judgements_ok [OF assms]]
  by (auto simp: decide_def image_image judgement_canonical_def neutral_def)

lemma Max_ABSTAIN_iff:
  "finite V \<Longrightarrow> Max (insert ABSTAIN V) = ABSTAIN \<longleftrightarrow> (\<forall>v \<in> V. v = ABSTAIN)"
  by (metis (no_types, lifting) Max_le_iff finite.insertI insert_not_empty insert_iff le_ABSTAIN_iff)

lemma Max_DENY_iff: "finite V \<Longrightarrow> Max (insert ABSTAIN V) = DENY \<longleftrightarrow> DENY \<in> V"
  by (metis (no_types, lifting) DENY_le_iff Max_ge Max_in finite.insertI insert_iff insert_not_empty
      plugin_verdict.distinct(3))

lemma decide_digest: "decide fmt policies intent ctx = Inr d \<Longrightarrow> dec_digest d = compute_digest fmt intent"
  by (auto simp: decide_def split: sum.splits)

text \<open>The deployment \<open>build_authorization\<close> assembles: one limit and the coverage of its
  currency.\<close>

definition deployment_policies :: "amount_limit \<Rightarrow> policy list" where
  "deployment_policies lim = [amount_evaluate lim, coverage_evaluate {l_quote_currency lim}]"

text \<open>What it decides, as a specification.\<close>

definition deployment_verdict :: "amount_limit \<Rightarrow> transaction_intent \<Rightarrow> policy_context \<Rightarrow> decision_verdict" where
  "deployment_verdict lim intent ctx =
     (if d_quote_currency (i_dimensions intent) \<noteq> l_quote_currency lim then Deny
      else verdict_map (amount_band lim intent ctx))"

lemma decide_deployment:
  assumes "amount_limit_ok lim" and "context_ok ctx" and "intent_ok intent"
  shows "\<exists>d. decide fmt (deployment_policies lim) intent ctx = Inr d
    \<and> dec_verdict d = deployment_verdict lim intent ctx
    \<and> dec_digest d = compute_digest fmt intent"
proof -
  have sound: "\<forall>p \<in> set (deployment_policies lim). policy_sound p intent ctx"
    using amount_policy_sound [OF assms] coverage_policy_sound by (simp add: deployment_policies_def)
  have "Max {ABSTAIN, amount_band lim intent ctx, v} = max (amount_band lim intent ctx) v" for v
    by (simp add: max_absorb2)
  then have "verdict_map (Max (insert ABSTAIN
      ((\<lambda>p. j_verdict (engine_evaluate p intent ctx)) ` set (deployment_policies lim))))
    = deployment_verdict lim intent ctx"
    using amount_policy_sound(2) [OF assms] coverage_policy_sound(2) [of "{l_quote_currency lim}" intent ctx]
    by (auto simp: deployment_policies_def deployment_verdict_def max_absorb1 max_absorb2)
  with decide_spec [OF sound, of fmt] show ?thesis by auto
qed

section \<open>Properties\<close>

text \<open>With sound policies a decision always exists; it is bound to the digest of the very
  intent that was judged, it is ALLOW exactly when no policy raised a concern, DENY as soon as
  one policy denied, raised or returned something else, and REVIEW otherwise.\<close>

theorem decide_total:
  assumes "\<forall>p \<in> set policies. policy_sound p intent ctx"
  shows "\<exists>d. decide fmt policies intent ctx = Inr d \<and> dec_digest d = compute_digest fmt intent
    \<and> (dec_verdict d = Allow \<longleftrightarrow> (\<forall>p \<in> set policies. j_verdict (engine_evaluate p intent ctx) = ABSTAIN))
    \<and> (dec_verdict d = Deny \<longleftrightarrow> (\<exists>p \<in> set policies. j_verdict (engine_evaluate p intent ctx) = DENY))"
proof -
  obtain d where d: "decide fmt policies intent ctx = Inr d" "dec_digest d = compute_digest fmt intent"
    and v: "dec_verdict d = verdict_map (Max (insert ABSTAIN
        ((\<lambda>p. j_verdict (engine_evaluate p intent ctx)) ` set policies)))"
    using decide_spec [OF assms, of fmt] by auto
  show ?thesis
    using d unfolding d(1) by (simp add: v Max_ABSTAIN_iff Max_DENY_iff image_iff) (metis (no_types))
qed

theorem decide_total_witness:
  "\<exists>d. decide int_str [coverage_evaluate {USD}, \<lambda>_ _. Raises] (demo_intent 100 0) (demo_context 0) = Inr d
     \<and> dec_verdict d = Deny"
proof -
  have "\<forall>p \<in> set [coverage_evaluate {USD}, \<lambda>_ _. Raises]. policy_sound p (demo_intent 100 0) (demo_context 0)"
    using coverage_policy_sound policy_sound_fail_closed by simp
  from decide_total [OF this, of int_str] show ?thesis by (auto simp: engine_evaluate_def)
qed

text \<open>Adding a policy to a deployment, in any position, only tightens its decisions, and
  the order of the policies is irrelevant.\<close>

theorem decide_monotone:
  assumes "\<forall>p \<in> set more_policies. policy_sound p intent ctx" and "set policies \<subseteq> set more_policies"
    and "decide fmt policies intent ctx = Inr d" and "decide fmt more_policies intent ctx = Inr e"
  shows "decision_value (dec_verdict d) \<le> decision_value (dec_verdict e)
    \<and> set (dec_findings d) \<subseteq> set (dec_findings e)
    \<and> (set policies = set more_policies \<longrightarrow> d = e)"
proof -
  let ?js = "policy_judgements policies intent ctx"
  let ?ks = "policy_judgements more_policies intent ctx"
  note ok = judgements_ok [OF assms(1)]
  have sub: "set ?js \<subseteq> set ?ks" using assms(2) by auto
  obtain a b where ab: "reduce combine neutral ?js = Inr a" "reduce combine neutral ?ks = Inr b"
    and d: "dec_verdict d = verdict_map (j_verdict a)" "dec_findings d = j_findings a"
    and e: "dec_verdict e = verdict_map (j_verdict b)" "dec_findings e = j_findings b"
    using assms(3,4) by (auto simp: decide_def split: sum.splits)
  have "d = e" if "set policies = set more_policies"
    using judgements.reduce_set [OF ok, of ?js] that assms(3,4) by (simp add: decide_def)
  with judgements.reduce_mono [OF ok sub ab] d e show ?thesis
    by (simp add: verdict_map_value less_eq_plugin_verdict_def)
qed

theorem decide_monotone_witness:
  "\<exists>d e. decide int_str [coverage_evaluate {USD}] (demo_intent 100 0) (demo_context 0) = Inr d
     \<and> decide int_str [\<lambda>_ _. Raises, coverage_evaluate {USD}] (demo_intent 100 0) (demo_context 0) = Inr e
     \<and> decision_value (dec_verdict d) \<le> decision_value (dec_verdict e)"
proof -
  let ?i = "demo_intent 100 0" and ?c = "demo_context 0"
  have s: "\<forall>p \<in> set [\<lambda>_ _. Raises, coverage_evaluate {USD}]. policy_sound p ?i ?c"
    using coverage_policy_sound policy_sound_fail_closed by simp
  then have s1: "\<forall>p \<in> set [coverage_evaluate {USD}]. policy_sound p ?i ?c" by simp
  from decide_spec [OF s1, of int_str] decide_spec [OF s, of int_str] decide_monotone [OF s, of "[coverage_evaluate {USD}]" int_str]
  show ?thesis by fastforce
qed

text \<open>The engine trusts the judgement instances of its policies: a DENY built without its
  validator and without a finding makes \<open>decide\<close> raise, with no decision to record, where the
  plugin runner turns the same answer into a DENY judgement.\<close>

theorem engine_does_not_revalidate:
  "decide fmt [\<lambda>_ _. Judgement \<lparr>j_contract_version = 1, j_verdict = DENY, j_findings = []\<rparr>] intent ctx
     = Inl Validation_Error
   \<and> run_plugins [\<lparr>p_contract_version = Some 1,
        p_evaluate = Some (\<lambda>_. Judgement \<lparr>j_contract_version = 1, j_verdict = DENY, j_findings = []\<rparr>)\<rparr>] view
     = Inr (deny_judgement plugin_invalid_result)"
proof -
  have "merge_findings [] [] = []" by (simp add: merge_findings_def)
  moreover have "merge_findings [] [f] = [f]" for f
    by (simp add: merge_findings_def dict_by_def)
  ultimately show ?thesis
    by (simp add: decide_def engine_evaluate_def combine_def mk_judgement_def neutral_def
        run_plugins_def evaluate_isolated_def CONTRACT_VERSION_def judgement_ok_def deny_judgement_def)
qed

end
