(* ===== verification/Approval.thy ===== *)
theory Approval
  imports Decision
begin

text \<open>
  \<open>secondsign.approval\<close>: maker and checker identities and the proposal-bound, one-shot,
  expiring maker-checker flow (\<open>maker_checker.py\<close>). The state of a \<open>MakerChecker\<close> is the set of
  the approval ids it has consumed.
\<close>

section \<open>Identities and records\<close>

datatype maker_identity = Maker (maker_subject: py_str)

datatype checker_identity = Checker (checker_subject: py_str)

datatype rejection_reason =
    Digest_mismatch
  | Expired
  | Already_consumed
  | Self_approval
  | Not_approved
  | Wrong_approval
  | Unknown_approval

record pending_approval =
  pa_approval_id :: py_str
  pa_decision :: decision
  pa_proposal :: proposal_digest
  pa_maker :: maker_identity
  pa_expires_at :: "datetime option"

record checker_verdict =
  cv_checker :: checker_identity
  cv_approval_id :: py_str
  cv_proposal :: proposal_digest
  cv_approved :: bool

record grant =
  g_approval_id :: py_str
  g_proposal :: proposal_digest
  g_checker :: checker_identity

datatype consume_result = Granted grant | Rejected rejection_reason

section \<open>The maker-checker\<close>

type_synonym maker_checker = "py_str set"

definition maker_checker_init :: maker_checker where
  "maker_checker_init = {}"

text \<open>\<open>request\<close>: \<open>PendingApproval\<close> itself refuses an empty approval id.\<close>

definition approval_request ::
  "decision \<Rightarrow> maker_identity \<Rightarrow> py_str \<Rightarrow> proposal_digest \<Rightarrow> datetime option
     \<Rightarrow> py_error + pending_approval" where
  "approval_request dec maker approval_id proposal expires_at =
     (if dec_verdict dec \<noteq> Review then Inl Value_Error
      else if approval_id = [] then Inl Validation_Error
      else Inr \<lparr>pa_approval_id = approval_id, pa_decision = dec, pa_proposal = proposal,
                pa_maker = maker, pa_expires_at = expires_at\<rparr>)"

definition approval_expired :: "pending_approval \<Rightarrow> datetime \<Rightarrow> bool" where
  "approval_expired pending now =
     (case pa_expires_at pending of None \<Rightarrow> True | Some e \<Rightarrow> e \<le> now)"

definition consume ::
  "maker_checker \<Rightarrow> pending_approval \<Rightarrow> checker_verdict \<Rightarrow> datetime \<Rightarrow> consume_result \<times> maker_checker" where
  "consume consumed pending verdict now =
     (if pa_approval_id pending \<in> consumed then (Rejected Already_consumed, consumed)
      else if approval_expired pending now then (Rejected Expired, consumed)
      else if cv_approval_id verdict \<noteq> pa_approval_id pending then (Rejected Wrong_approval, consumed)
      else if cv_proposal verdict \<noteq> pa_proposal pending then (Rejected Digest_mismatch, consumed)
      else if checker_subject (cv_checker verdict) = maker_subject (pa_maker pending)
      then (Rejected Self_approval, consumed)
      else if \<not> cv_approved verdict then (Rejected Not_approved, consumed)
      else (Granted \<lparr>g_approval_id = pa_approval_id pending, g_proposal = pa_proposal pending,
                     g_checker = cv_checker verdict\<rparr>,
            insert (pa_approval_id pending) consumed))"

section \<open>What a grant means\<close>

text \<open>The conditions of the module's documentation, as one predicate.\<close>

definition answers_approval :: "checker_verdict \<Rightarrow> pending_approval \<Rightarrow> datetime \<Rightarrow> bool" where
  "answers_approval verdict pending now \<longleftrightarrow>
     cv_approved verdict
     \<and> cv_approval_id verdict = pa_approval_id pending
     \<and> cv_proposal verdict = pa_proposal pending
     \<and> checker_subject (cv_checker verdict) \<noteq> maker_subject (pa_maker pending)
     \<and> (\<exists>e. pa_expires_at pending = Some e \<and> now < e)"

lemma not_expired_iff: "\<not> approval_expired pending now \<longleftrightarrow> (\<exists>e. pa_expires_at pending = Some e \<and> now < e)"
  by (auto simp: approval_expired_def split: option.splits)

lemma consume_granted_iff:
  "consume consumed pending verdict now = (Granted g, consumed') \<longleftrightarrow>
     pa_approval_id pending \<notin> consumed \<and> answers_approval verdict pending now
     \<and> g = \<lparr>g_approval_id = pa_approval_id pending, g_proposal = pa_proposal pending,
             g_checker = cv_checker verdict\<rparr>
     \<and> consumed' = insert (pa_approval_id pending) consumed"
  unfolding consume_def answers_approval_def
  using not_expired_iff [of pending now] by auto

lemma consume_rejected_state: "consume consumed pending verdict now = (Rejected r, consumed') \<Longrightarrow> consumed' = consumed"
  by (auto simp: consume_def split: if_splits)

lemma consume_grows: "consumed \<subseteq> snd (consume consumed pending verdict now)"
  by (auto simp: consume_def)

text \<open>What makes each rejection the answer, in the order the code checks.\<close>

lemma consume_rejected_iff:
  "fst (consume consumed pending verdict now) = Rejected r \<longleftrightarrow>
     (case r of
        Already_consumed \<Rightarrow> pa_approval_id pending \<in> consumed
      | Expired \<Rightarrow> pa_approval_id pending \<notin> consumed \<and> approval_expired pending now
      | Wrong_approval \<Rightarrow> pa_approval_id pending \<notin> consumed \<and> \<not> approval_expired pending now
          \<and> cv_approval_id verdict \<noteq> pa_approval_id pending
      | Digest_mismatch \<Rightarrow> pa_approval_id pending \<notin> consumed \<and> \<not> approval_expired pending now
          \<and> cv_approval_id verdict = pa_approval_id pending \<and> cv_proposal verdict \<noteq> pa_proposal pending
      | Self_approval \<Rightarrow> pa_approval_id pending \<notin> consumed \<and> \<not> approval_expired pending now
          \<and> cv_approval_id verdict = pa_approval_id pending \<and> cv_proposal verdict = pa_proposal pending
          \<and> checker_subject (cv_checker verdict) = maker_subject (pa_maker pending)
      | Not_approved \<Rightarrow> pa_approval_id pending \<notin> consumed \<and> \<not> approval_expired pending now
          \<and> cv_approval_id verdict = pa_approval_id pending \<and> cv_proposal verdict = pa_proposal pending
          \<and> checker_subject (cv_checker verdict) \<noteq> maker_subject (pa_maker pending)
          \<and> \<not> cv_approved verdict
      | Unknown_approval \<Rightarrow> False)"
  by (cases r) (auto simp: consume_def split: if_splits)

text \<open>A decline and an expiry are about the review; every other rejection leaves open whether
  the verdict approves.\<close>

lemma consume_declined:
  assumes "fst (consume consumed pending verdict now) = Rejected Not_approved"
  shows "\<not> cv_approved verdict" and "cv_approval_id verdict = pa_approval_id pending"
    and "cv_proposal verdict = pa_proposal pending"
  using assms by (simp_all only: consume_rejected_iff rejection_reason.case simp_thms)

section \<open>A sequence of answers to one maker-checker\<close>

fun consume_all ::
  "maker_checker \<Rightarrow> (pending_approval \<times> checker_verdict \<times> datetime) list
     \<Rightarrow> consume_result list \<times> maker_checker" where
  "consume_all consumed [] = ([], consumed)"
| "consume_all consumed ((pending, verdict, now) # calls) =
     (let (r, consumed') = consume consumed pending verdict now;
          (rs, consumed'') = consume_all consumed' calls
      in (r # rs, consumed''))"

fun granted_ids :: "consume_result list \<Rightarrow> py_str list" where
  "granted_ids [] = []"
| "granted_ids (Granted g # rs) = g_approval_id g # granted_ids rs"
| "granted_ids (Rejected r # rs) = granted_ids rs"

lemma consume_all_granted:
  "consume_all consumed calls = (rs, consumed') \<Longrightarrow>
     distinct (granted_ids rs) \<and> set (granted_ids rs) \<inter> consumed = {}
     \<and> consumed' = consumed \<union> set (granted_ids rs)"
proof (induction calls arbitrary: consumed rs consumed')
  case Nil
  then show ?case by auto
next
  case (Cons call calls)
  obtain pending verdict now where call: "call = (pending, verdict, now)" by (cases call)
  obtain r c1 where r: "consume consumed pending verdict now = (r, c1)" by fastforce
  obtain qs c2 where qs: "consume_all c1 calls = (qs, c2)" by fastforce
  from Cons.prems call r qs have rs: "rs = r # qs" "consumed' = c2" by auto
  note IH = Cons.IH [OF qs]
  show ?case
  proof (cases r)
    case (Granted g)
    with r have "pa_approval_id pending \<notin> consumed" "g_approval_id g = pa_approval_id pending"
      "c1 = insert (pa_approval_id pending) consumed"
      using consume_granted_iff by auto
    with IH rs Granted show ?thesis by auto
  next
    case (Rejected x)
    with r have "c1 = consumed" using consume_rejected_state by auto
    with IH rs Rejected show ?thesis by simp
  qed
qed

section \<open>Properties\<close>

text \<open>An approval is granted exactly when a checker other than the maker approves that very
  approval and that very proposal before its expiry (a missing expiry is an expired one) and it
  was not consumed before; the grant carries the shown proposal, the id is burnt, and every
  refused attempt leaves the one-shot unspent.\<close>

theorem grant_exactly_when:
  "((\<exists>g. fst (consume consumed pending verdict now) = Granted g) \<longleftrightarrow>
      pa_approval_id pending \<notin> consumed \<and> answers_approval verdict pending now)
   \<and> (case consume consumed pending verdict now of
        (Granted g, consumed') \<Rightarrow> g_proposal g = pa_proposal pending
          \<and> g_approval_id g = pa_approval_id pending \<and> g_checker g = cv_checker verdict
          \<and> consumed' = insert (pa_approval_id pending) consumed
      | (Rejected r, consumed') \<Rightarrow> consumed' = consumed)"
proof (cases "consume consumed pending verdict now")
  case (Pair r consumed')
  show ?thesis
  proof (cases r)
    case (Granted g)
    with Pair have c: "consume consumed pending verdict now = (Granted g, consumed')" by simp
    from iffD1 [OF consume_granted_iff c] show ?thesis by (simp add: c)
  next
    case (Rejected x)
    with Pair have "\<not> (pa_approval_id pending \<notin> consumed \<and> answers_approval verdict pending now)"
      using consume_granted_iff [of consumed pending verdict now] by auto
    with Pair Rejected show ?thesis using consume_rejected_state [of consumed pending verdict now] by simp
  qed
qed

text \<open>One-shot: however many answers arrive, in whatever order and for whatever pending
  approvals, no approval id is granted twice, and none that was consumed before is granted.\<close>

theorem grants_one_shot:
  assumes "consume_all consumed calls = (rs, consumed')"
  shows "distinct (granted_ids rs) \<and> set (granted_ids rs) \<inter> consumed = {}
    \<and> consumed' = consumed \<union> set (granted_ids rs)"
  using assms by (rule consume_all_granted)

definition demo_pending :: pending_approval where
  "demo_pending =
     \<lparr>pa_approval_id = ''a1'',
      pa_decision = \<lparr>dec_verdict = Review, dec_digest = \<lparr>id_version = 1, id_value = ''d''\<rparr>, dec_findings = []\<rparr>,
      pa_proposal = \<lparr>pd_version = 1, pd_value = ''p''\<rparr>, pa_maker = Maker ''bot'', pa_expires_at = Some 100\<rparr>"

definition demo_verdict :: "py_str \<Rightarrow> bool \<Rightarrow> checker_verdict" where
  "demo_verdict who yes =
     \<lparr>cv_checker = Checker who, cv_approval_id = ''a1'', cv_proposal = \<lparr>pd_version = 1, pd_value = ''p''\<rparr>,
      cv_approved = yes\<rparr>"

theorem grants_one_shot_witness:
  "consume_all {} [(demo_pending, demo_verdict ''bot'' True, 1), (demo_pending, demo_verdict ''ann'' False, 2),
      (demo_pending, demo_verdict ''ann'' True, 3), (demo_pending, demo_verdict ''bob'' True, 4)]
    = ([Rejected Self_approval, Rejected Not_approved,
        Granted \<lparr>g_approval_id = ''a1'', g_proposal = \<lparr>pd_version = 1, pd_value = ''p''\<rparr>, g_checker = Checker ''ann''\<rparr>,
        Rejected Already_consumed], {''a1''})
   \<and> distinct [''a1'']"
proof -
  let ?calls = "[(demo_pending, demo_verdict ''bot'' True, 1), (demo_pending, demo_verdict ''ann'' False, 2),
      (demo_pending, demo_verdict ''ann'' True, 3), (demo_pending, demo_verdict ''bob'' True, 4)]"
  have run: "consume_all {} ?calls
    = ([Rejected Self_approval, Rejected Not_approved,
        Granted \<lparr>g_approval_id = ''a1'', g_proposal = \<lparr>pd_version = 1, pd_value = ''p''\<rparr>, g_checker = Checker ''ann''\<rparr>,
        Rejected Already_consumed], {''a1''})"
    by (simp add: consume_def approval_expired_def demo_pending_def demo_verdict_def)
  with grants_one_shot [OF run] show ?thesis by simp
qed

end
