(* ===== verification/Execution.thy ===== *)
theory Execution
  imports Approval
begin

text \<open>
  \<open>secondsign.gateway.execution\<close>: the last check before money moves. The idempotency store is
  an interface (locale \<open>idempotency_store\<close>) with the in-memory reference implementation as its
  interpretation. A rail executor is code of the deployment: it is the parameter \<open>rail\<close>, which
  may answer anything, depending on everything it was sent before; the intents it was sent are
  the component \<open>gw_dispatched\<close> of the gateway's state.
\<close>

section \<open>Outcomes\<close>

datatype execution_status = Ex_success | Ex_failure | Ex_unknown

fun execution_value :: "execution_status \<Rightarrow> py_str" where
  "execution_value Ex_success = ''success''"
| "execution_value Ex_failure = ''failure''"
| "execution_value Ex_unknown = ''unknown''"

lemma execution_value_inj [enum_inj, simp]: "execution_value a = execution_value b \<longleftrightarrow> a = b"
  by (cases a; cases b) simp_all

datatype refusal_reason =
    Refuse_digest_mismatch
  | Refuse_denied
  | Refuse_not_approved
  | Refuse_window_expired

record rail_result =
  rr_status :: execution_status
  rr_reference :: "py_str option"

record execution_outcome =
  eo_status :: execution_status
  eo_digest :: intent_digest
  eo_reference :: "py_str option"

datatype gateway_result = Executed execution_outcome | Refused refusal_reason

text \<open>What calling an executor can come to: an exception, a value that is not a rail result, or
  a rail result.\<close>

datatype rail_answer = Rail_raises | Rail_garbage | Rail_returns rail_result

type_synonym rail = "transaction_intent list \<Rightarrow> transaction_intent \<Rightarrow> rail_answer"

section \<open>The idempotency store\<close>

record 't store_ops =
  st_reserve :: "'t \<Rightarrow> py_str \<Rightarrow> bool \<times> 't"
  st_finalize :: "'t \<Rightarrow> py_str \<Rightarrow> execution_outcome \<Rightarrow> 't"
  st_outcome :: "'t \<Rightarrow> py_str \<Rightarrow> execution_outcome option"

text \<open>\<open>InMemoryIdempotencyStore\<close>: a dict from keys to an outcome or \<open>None\<close>.\<close>

type_synonym memory_store = "py_str \<rightharpoonup> execution_outcome option"

definition memory_reserve :: "memory_store \<Rightarrow> py_str \<Rightarrow> bool \<times> memory_store" where
  "memory_reserve m key = (if m key \<noteq> None then (False, m) else (True, m(key \<mapsto> None)))"

definition memory_finalize :: "memory_store \<Rightarrow> py_str \<Rightarrow> execution_outcome \<Rightarrow> memory_store" where
  "memory_finalize m key outcome = m(key \<mapsto> Some outcome)"

definition memory_outcome :: "memory_store \<Rightarrow> py_str \<Rightarrow> execution_outcome option" where
  "memory_outcome m key = (case m key of None \<Rightarrow> None | Some recorded \<Rightarrow> recorded)"

definition memory_ops :: "memory_store store_ops" where
  "memory_ops = \<lparr>st_reserve = memory_reserve, st_finalize = memory_finalize, st_outcome = memory_outcome\<rparr>"

section \<open>The gateway\<close>

record 't gateway =
  gw_store :: 't
  gw_dispatched :: "transaction_intent list"

text \<open>Reading the result of a dispatch, under \<open>try\<close>.\<close>

definition outcome_of :: "intent_digest \<Rightarrow> rail_answer \<Rightarrow> execution_outcome" where
  "outcome_of digest answer =
     (case answer of
        Rail_returns result \<Rightarrow>
          \<lparr>eo_status = rr_status result, eo_digest = digest, eo_reference = rr_reference result\<rparr>
      | _ \<Rightarrow> \<lparr>eo_status = Ex_unknown, eo_digest = digest, eo_reference = None\<rparr>)"

definition execute ::
  "date_format \<Rightarrow> 't store_ops \<Rightarrow> rail \<Rightarrow> 't gateway \<Rightarrow> transaction_intent \<Rightarrow> decision \<Rightarrow> grant option
     \<Rightarrow> datetime \<Rightarrow> gateway_result \<times> 't gateway" where
  "execute fmt ops rail gw intent dec grant now =
     (if compute_digest fmt intent \<noteq> dec_digest dec then (Refused Refuse_digest_mismatch, gw)
      else if dec_verdict dec = Deny then (Refused Refuse_denied, gw)
      else if dec_verdict dec = Review
              \<and> (case grant of None \<Rightarrow> True
                 | Some g \<Rightarrow> g_proposal g \<noteq> compute_proposal_digest fmt intent)
      then (Refused Refuse_not_approved, gw)
      else if now < d_not_before (i_dimensions intent) \<or> d_not_after (i_dimensions intent) \<le> now
      then (Refused Refuse_window_expired, gw)
      else
        let key = i_idempotency_key intent;
            (reserved, store) = st_reserve ops (gw_store gw) key
        in if \<not> reserved
           then (case st_outcome ops store key of
                   Some recorded \<Rightarrow> (Executed recorded, gw\<lparr>gw_store := store\<rparr>)
                 | None \<Rightarrow>
                     (Executed \<lparr>eo_status = Ex_unknown, eo_digest = dec_digest dec, eo_reference = None\<rparr>,
                      gw\<lparr>gw_store := store\<rparr>))
           else
             let outcome = outcome_of (dec_digest dec) (rail (gw_dispatched gw) intent)
             in (Executed outcome,
                 \<lparr>gw_store = st_finalize ops store key outcome,
                  gw_dispatched = gw_dispatched gw @ [intent]\<rparr>))"

section \<open>When the gateway may dispatch\<close>

text \<open>The four checks of the documentation: the decided intent, the approved proposal, the
  verdict, the window.\<close>

definition permitted ::
  "date_format \<Rightarrow> transaction_intent \<Rightarrow> decision \<Rightarrow> grant option \<Rightarrow> datetime \<Rightarrow> bool" where
  "permitted fmt intent dec grant now \<longleftrightarrow>
     compute_digest fmt intent = dec_digest dec
     \<and> (dec_verdict dec = Allow
        \<or> dec_verdict dec = Review
          \<and> (\<exists>g. grant = Some g \<and> g_proposal g = compute_proposal_digest fmt intent))
     \<and> d_not_before (i_dimensions intent) \<le> now \<and> now < d_not_after (i_dimensions intent)"

lemma execute_not_permitted:
  "\<not> permitted fmt intent dec grant now \<Longrightarrow>
     \<exists>r. execute fmt ops rail gw intent dec grant now = (Refused r, gw)"
  by (cases "dec_verdict dec") (auto simp: permitted_def execute_def split: option.splits)

lemma execute_permitted:
  assumes "permitted fmt intent dec grant now"
  shows "execute fmt ops rail gw intent dec grant now =
     (let key = i_idempotency_key intent;
          (reserved, store) = st_reserve ops (gw_store gw) key
      in if \<not> reserved
         then (case st_outcome ops store key of
                 Some recorded \<Rightarrow> (Executed recorded, gw\<lparr>gw_store := store\<rparr>)
               | None \<Rightarrow>
                   (Executed \<lparr>eo_status = Ex_unknown, eo_digest = dec_digest dec, eo_reference = None\<rparr>,
                    gw\<lparr>gw_store := store\<rparr>))
         else
           let outcome = outcome_of (dec_digest dec) (rail (gw_dispatched gw) intent)
           in (Executed outcome,
               \<lparr>gw_store = st_finalize ops store key outcome,
                gw_dispatched = gw_dispatched gw @ [intent]\<rparr>))"
  using assms by (auto simp: permitted_def execute_def)

lemma outcome_of_simps [simp]:
  "eo_digest (outcome_of digest answer) = digest"
  "eo_status (outcome_of digest Rail_raises) = Ex_unknown"
  "eo_status (outcome_of digest Rail_garbage) = Ex_unknown"
  "eo_status (outcome_of digest (Rail_returns r)) = rr_status r"
  by (auto simp: outcome_of_def split: rail_answer.splits)

text \<open>A run of the gateway: the calls in the order they take effect.\<close>

type_synonym gateway_call = "transaction_intent \<times> decision \<times> grant option \<times> datetime"

fun execute_all ::
  "date_format \<Rightarrow> 't store_ops \<Rightarrow> rail \<Rightarrow> 't gateway \<Rightarrow> gateway_call list
     \<Rightarrow> gateway_result list \<times> 't gateway" where
  "execute_all fmt ops rail gw [] = ([], gw)"
| "execute_all fmt ops rail gw ((intent, dec, grant, now) # calls) =
     (let (r, gw1) = execute fmt ops rail gw intent dec grant now;
          (rs, gw2) = execute_all fmt ops rail gw1 calls
      in (r # rs, gw2))"

section \<open>The contract of an idempotency store\<close>

text \<open>\<open>abs\<close> reads a store as a map from the reserved keys to the recorded outcome, if any.\<close>

locale idempotency_store =
  fixes ops :: "'t store_ops"
    and abs :: "'t \<Rightarrow> py_str \<rightharpoonup> execution_outcome option"
    and inv :: "'t \<Rightarrow> bool"
  assumes reserve_result: "inv s \<Longrightarrow> fst (st_reserve ops s key) \<longleftrightarrow> abs s key = None"
    and reserve_abs: "inv s \<Longrightarrow> abs (snd (st_reserve ops s key))
          = (if abs s key = None then (abs s)(key \<mapsto> None) else abs s)"
    and reserve_inv: "inv s \<Longrightarrow> inv (snd (st_reserve ops s key))"
    and finalize_abs: "inv s \<Longrightarrow> abs (st_finalize ops s key outcome) = (abs s)(key \<mapsto> Some outcome)"
    and finalize_inv: "inv s \<Longrightarrow> inv (st_finalize ops s key outcome)"
    and outcome_abs: "inv s \<Longrightarrow> st_outcome ops s key = (case abs s key of None \<Rightarrow> None | Some r \<Rightarrow> r)"
begin

text \<open>One call: either the intent is sent to the rail, its key is fresh and its outcome is
  recorded under that key, or nothing observable changes.\<close>

lemma execute_cases:
  assumes inv: "inv (gw_store gw)" and ex: "execute fmt ops rail gw intent dec grant now = (r, gw')"
  obtains (dispatched) outcome where "permitted fmt intent dec grant now"
      "abs (gw_store gw) (i_idempotency_key intent) = None"
      "outcome = outcome_of (dec_digest dec) (rail (gw_dispatched gw) intent)"
      "r = Executed outcome" "inv (gw_store gw')"
      "abs (gw_store gw') = (abs (gw_store gw))(i_idempotency_key intent \<mapsto> Some outcome)"
      "gw_dispatched gw' = gw_dispatched gw @ [intent]"
    | (repeated) recorded where "permitted fmt intent dec grant now"
      "abs (gw_store gw) (i_idempotency_key intent) = Some recorded"
      "r = Executed (case recorded of Some outcome \<Rightarrow> outcome
             | None \<Rightarrow> \<lparr>eo_status = Ex_unknown, eo_digest = dec_digest dec, eo_reference = None\<rparr>)"
      "inv (gw_store gw')" "abs (gw_store gw') = abs (gw_store gw)"
      "gw_dispatched gw' = gw_dispatched gw"
    | (refused) reason where "\<not> permitted fmt intent dec grant now" "r = Refused reason" "gw' = gw"
proof (cases "permitted fmt intent dec grant now")
  case False
  with execute_not_permitted [OF False, of ops rail gw] ex refused show ?thesis by auto
next
  case True
  let ?key = "i_idempotency_key intent"
  obtain b s where s: "st_reserve ops (gw_store gw) ?key = (b, s)" by fastforce
  note laws = reserve_result [OF inv, of ?key] reserve_abs [OF inv, of ?key] reserve_inv [OF inv, of ?key]
  show ?thesis
  proof (cases b)
    case b: True
    let ?o = "outcome_of (dec_digest dec) (rail (gw_dispatched gw) intent)"
    from True b s ex have "r = Executed ?o"
      "gw' = \<lparr>gw_store = st_finalize ops s ?key ?o, gw_dispatched = gw_dispatched gw @ [intent]\<rparr>"
      by (simp_all add: execute_permitted Let_def)
    with b s laws show ?thesis
      by (intro dispatched [of ?o]) (auto simp: True finalize_abs finalize_inv)
  next
    case b: False
    with s laws obtain recorded where rec: "abs (gw_store gw) ?key = Some recorded"
      "inv s" "abs s = abs (gw_store gw)" by auto
    from True b s ex have "r = Executed (case st_outcome ops s ?key of Some outcome \<Rightarrow> outcome
             | None \<Rightarrow> \<lparr>eo_status = Ex_unknown, eo_digest = dec_digest dec, eo_reference = None\<rparr>)"
      "gw' = gw\<lparr>gw_store := s\<rparr>"
      by (auto simp: execute_permitted Let_def split: option.splits)
    with rec show ?thesis
      by (intro repeated [of recorded]) (auto simp: True outcome_abs)
  qed
qed

text \<open>The rail log and the store agree: every key that was sent is reserved, at most once.\<close>

definition sent_once :: "'t gateway \<Rightarrow> bool" where
  "sent_once gw \<longleftrightarrow>
     inv (gw_store gw) \<and> distinct (map i_idempotency_key (gw_dispatched gw))
     \<and> (\<forall>i \<in> set (gw_dispatched gw). abs (gw_store gw) (i_idempotency_key i) \<noteq> None)"

lemma execute_sent_once:
  assumes "sent_once gw" and "execute fmt ops rail gw intent dec grant now = (r, gw')"
  shows "sent_once gw'"
proof -
  from assms have "inv (gw_store gw)" by (simp add: sent_once_def)
  from this assms(2) show ?thesis
  proof (cases rule: execute_cases)
    case (dispatched outcome)
    with assms(1) show ?thesis by (auto simp: sent_once_def)
  next
    case (repeated recorded)
    with assms(1) show ?thesis by (simp add: sent_once_def)
  next
    case (refused reason)
    with assms(1) show ?thesis by simp
  qed
qed

lemma execute_all_sent_once:
  "sent_once gw \<Longrightarrow> execute_all fmt ops rail gw calls = (rs, gw') \<Longrightarrow> sent_once gw'"
proof (induction calls arbitrary: gw rs gw')
  case Nil
  then show ?case by simp
next
  case (Cons call calls)
  obtain intent dec grant now where call: "call = (intent, dec, grant, now)" by (cases call)
  obtain r gw1 where ex: "execute fmt ops rail gw intent dec grant now = (r, gw1)" by fastforce
  obtain qs gw2 where rest: "execute_all fmt ops rail gw1 calls = (qs, gw2)" by fastforce
  from Cons.IH [OF execute_sent_once [OF Cons.prems(1) ex] rest] Cons.prems(2) call ex rest
  show ?case by simp
qed

text \<open>A recorded outcome is final: later calls neither change it nor send the key again.\<close>

lemma execute_keeps:
  assumes "inv (gw_store gw)" and "abs (gw_store gw) key = Some (Some outcome)"
    and "execute fmt ops rail gw intent dec grant now = (r, gw')"
  shows "inv (gw_store gw') \<and> abs (gw_store gw') key = Some (Some outcome)
    \<and> filter (\<lambda>i. i_idempotency_key i = key) (gw_dispatched gw')
        = filter (\<lambda>i. i_idempotency_key i = key) (gw_dispatched gw)
    \<and> (i_idempotency_key intent = key \<and> permitted fmt intent dec grant now \<longrightarrow> r = Executed outcome)"
  using assms(1,3)
proof (cases rule: execute_cases)
  case (dispatched out)
  with assms(2) show ?thesis by auto
next
  case (repeated recorded)
  with assms(2) show ?thesis by auto
next
  case (refused reason)
  with assms(1,2) show ?thesis by simp
qed

lemma execute_all_keeps:
  "inv (gw_store gw) \<Longrightarrow> abs (gw_store gw) key = Some (Some outcome) \<Longrightarrow>
   execute_all fmt ops rail gw calls = (rs, gw') \<Longrightarrow>
   inv (gw_store gw') \<and> abs (gw_store gw') key = Some (Some outcome)
    \<and> filter (\<lambda>i. i_idempotency_key i = key) (gw_dispatched gw')
        = filter (\<lambda>i. i_idempotency_key i = key) (gw_dispatched gw)"
proof (induction calls arbitrary: gw rs gw')
  case Nil
  then show ?case by simp
next
  case (Cons call calls)
  obtain intent dec grant now where call: "call = (intent, dec, grant, now)" by (cases call)
  obtain r gw1 where ex: "execute fmt ops rail gw intent dec grant now = (r, gw1)" by fastforce
  obtain qs gw2 where rest: "execute_all fmt ops rail gw1 calls = (qs, gw2)" by fastforce
  from execute_keeps [OF Cons.prems(1,2) ex] Cons.IH [of gw1 qs gw2] rest Cons.prems(3) call ex
  show ?case by simp
qed

end

interpretation memory: idempotency_store memory_ops "\<lambda>m. m" "\<lambda>m. True"
  by unfold_locales
    (auto simp: memory_ops_def memory_reserve_def memory_finalize_def memory_outcome_def)

section \<open>Properties\<close>

text \<open>[C15] The gateway sends an intent to the rail exactly when it is the decided intent, the
  verdict allows it (REVIEW only with a grant for this very proposal), the clock is inside its
  window and its key was never reserved; then that one intent is sent and its outcome is
  recorded under the key, where an exception or a malformed answer of the rail is recorded as
  unknown. In every other case nothing is sent and no record changes.\<close>

theorem execute_dispatches_exactly_when:
  fixes gw :: "memory_store gateway"
  assumes "execute fmt memory_ops rail gw intent dec grant now = (r, gw')"
  shows "if permitted fmt intent dec grant now \<and> gw_store gw (i_idempotency_key intent) = None
    then (\<exists>outcome. r = Executed outcome
        \<and> outcome = outcome_of (dec_digest dec) (rail (gw_dispatched gw) intent)
        \<and> gw_store gw' = (gw_store gw)(i_idempotency_key intent \<mapsto> Some outcome)
        \<and> gw_dispatched gw' = gw_dispatched gw @ [intent])
    else gw_store gw' = gw_store gw \<and> gw_dispatched gw' = gw_dispatched gw"
  using TrueI assms
  by (cases rule: memory.execute_cases) auto

text \<open>Exactly once: through any sequence of calls, with any decisions, grants and clocks and
  any behaviour of the rail, no idempotency key is sent to the rail twice.\<close>

theorem execute_at_most_once:
  assumes "execute_all fmt memory_ops rail \<lparr>gw_store = Map.empty, gw_dispatched = []\<rparr> calls = (rs, gw')"
  shows "distinct (map i_idempotency_key (gw_dispatched gw'))"
proof -
  have "memory.sent_once \<lparr>gw_store = Map.empty, gw_dispatched = []\<rparr>"
    by (simp add: memory.sent_once_def)
  from memory.execute_all_sent_once [OF this assms] show ?thesis by (simp add: memory.sent_once_def)
qed

text \<open>A retry is answered, not re-executed: once an outcome is recorded under a key, every
  permitted call with that key, after any other calls, returns that outcome and sends nothing.\<close>

theorem execute_retry_same_answer:
  assumes first: "execute fmt memory_ops rail gw intent dec grant now = (Executed outcome, gw1)"
    and sent: "gw_dispatched gw1 = gw_dispatched gw @ [intent]"
    and between: "execute_all fmt memory_ops rail gw1 calls = (rs, gw2)"
    and again: "permitted fmt intent2 dec2 grant2 now2" "i_idempotency_key intent2 = i_idempotency_key intent"
  shows "execute fmt memory_ops rail gw2 intent2 dec2 grant2 now2 = (Executed outcome, gw2)"
proof -
  have "gw_store gw1 (i_idempotency_key intent) = Some (Some outcome)"
    using TrueI first by (cases rule: memory.execute_cases) (use sent in auto)
  from memory.execute_all_keeps [OF TrueI this between]
  have rec: "gw_store gw2 (i_idempotency_key intent) = Some (Some outcome)" by simp
  obtain r gw3 where ex: "execute fmt memory_ops rail gw2 intent2 dec2 grant2 now2 = (r, gw3)" by fastforce
  from TrueI ex show ?thesis
    by (cases rule: memory.execute_cases) (use rec again ex in \<open>auto intro: gateway.equality\<close>)
qed

definition demo_allow :: "date_format \<Rightarrow> transaction_intent \<Rightarrow> decision" where
  "demo_allow fmt intent = \<lparr>dec_verdict = Allow, dec_digest = compute_digest fmt intent, dec_findings = []\<rparr>"

definition demo_rail :: rail where
  "demo_rail sent intent =
     (if sent = [] then Rail_returns \<lparr>rr_status = Ex_success, rr_reference = None\<rparr> else Rail_raises)"

abbreviation empty_gateway :: "memory_store gateway" where
  "empty_gateway \<equiv> \<lparr>gw_store = Map.empty, gw_dispatched = []\<rparr>"

lemma demo_permitted: "permitted fmt (demo_intent 5 0) (demo_allow fmt (demo_intent 5 0)) None 7"
  by (simp add: permitted_def demo_allow_def) (simp add: demo_intent_def seconds_def)

lemma demo_execute:
  "execute fmt memory_ops demo_rail empty_gateway (demo_intent 5 0) (demo_allow fmt (demo_intent 5 0)) None 7
    = (Executed \<lparr>eo_status = Ex_success, eo_digest = compute_digest fmt (demo_intent 5 0), eo_reference = None\<rparr>,
       \<lparr>gw_store = [i_idempotency_key (demo_intent 5 0) \<mapsto> Some \<lparr>eo_status = Ex_success,
          eo_digest = compute_digest fmt (demo_intent 5 0), eo_reference = None\<rparr>],
        gw_dispatched = [demo_intent 5 0]\<rparr>)"
  by (simp add: execute_permitted [OF demo_permitted] memory_ops_def memory_reserve_def memory_finalize_def
      outcome_of_def demo_rail_def Let_def) (simp add: demo_allow_def)

theorem execute_dispatches_exactly_when_witness:
  "\<exists>gw'. execute int_str memory_ops demo_rail empty_gateway (demo_intent 5 0)
      (demo_allow int_str (demo_intent 5 0)) None 7
    = (Executed \<lparr>eo_status = Ex_success, eo_digest = compute_digest int_str (demo_intent 5 0), eo_reference = None\<rparr>, gw')
    \<and> gw_dispatched gw' = [demo_intent 5 0]"
  using execute_dispatches_exactly_when [OF demo_execute, of int_str] demo_permitted [of int_str]
  unfolding demo_execute by simp

theorem execute_at_most_once_witness:
  "\<exists>rs gw'. execute_all int_str memory_ops demo_rail empty_gateway
      [(demo_intent 5 0, demo_allow int_str (demo_intent 5 0), None, 7),
       (demo_intent 5 0, demo_allow int_str (demo_intent 5 0), None, 8)] = (rs, gw')
    \<and> distinct (map i_idempotency_key (gw_dispatched gw'))"
proof -
  obtain rs gw' where run: "execute_all int_str memory_ops demo_rail empty_gateway
      [(demo_intent 5 0, demo_allow int_str (demo_intent 5 0), None, 7),
       (demo_intent 5 0, demo_allow int_str (demo_intent 5 0), None, 8)] = (rs, gw')" by fastforce
  from execute_at_most_once [OF run] run show ?thesis by blast
qed

theorem execute_retry_same_answer_witness:
  "\<exists>gw1. execute int_str memory_ops demo_rail gw1 (demo_intent 5 0) (demo_allow int_str (demo_intent 5 0)) None 7
    = (Executed \<lparr>eo_status = Ex_success, eo_digest = compute_digest int_str (demo_intent 5 0), eo_reference = None\<rparr>, gw1)
    \<and> gw_dispatched gw1 = [demo_intent 5 0]"
proof -
  let ?i = "demo_intent 5 0"
  let ?o = "\<lparr>eo_status = Ex_success, eo_digest = compute_digest int_str ?i, eo_reference = None\<rparr>"
  let ?gw1 = "\<lparr>gw_store = [i_idempotency_key ?i \<mapsto> Some ?o], gw_dispatched = [?i]\<rparr>"
  have "execute int_str memory_ops demo_rail ?gw1 ?i (demo_allow int_str ?i) None 7 = (Executed ?o, ?gw1)"
    by (rule execute_retry_same_answer [OF demo_execute _ _ demo_permitted, where calls = "[]"]) simp_all
  moreover have "gw_dispatched ?gw1 = [?i]" by simp
  ultimately show ?thesis by blast
qed

end
