(* ===== verification/Receipts.thy ===== *)
theory Receipts
  imports Execution "HOL-Library.Sublist"
begin

text \<open>
  \<open>secondsign.audit\<close>: the hash-chained receipt (\<open>receipt.py\<close>) and the log that derives a
  receipt from the tail of a sink and appends it (\<open>log.py\<close>). A sink is an interface: the
  locale \<open>audit_sink\<close> states what \<open>conformance/audit_sink.py\<close> certifies and, beyond it, that a
  sink whose \<open>append\<close> raises has either stored the receipt or not.
\<close>

section \<open>Receipts\<close>

definition GENESIS_HASH :: py_str where
  "GENESIS_HASH = replicate 64 (CHR ''0'')"

record audit_receipt =
  ar_sequence :: int
  ar_prev_hash :: py_str
  ar_digest :: intent_digest
  ar_verdict :: decision_verdict
  ar_reasons :: "reason_code list"
  ar_outcome_status :: "execution_status option"
  ar_approval_id :: "py_str option"
  ar_principal_ref :: "py_str option"
  ar_receipt_hash :: py_str

definition receipt_ok :: "audit_receipt \<Rightarrow> bool" where
  "receipt_ok r \<longleftrightarrow>
     0 \<le> ar_sequence r \<and> hex64 (ar_prev_hash r)
     \<and> (case ar_principal_ref r of None \<Rightarrow> True | Some p \<Rightarrow> is_fingerprint p)
     \<and> hex64 (ar_receipt_hash r)"

definition mk_receipt :: "audit_receipt \<Rightarrow> py_error + audit_receipt" where
  "mk_receipt r = (if receipt_ok r then Inr r else Inl Validation_Error)"

text \<open>The hashed material, every field but the stored hash.\<close>

definition content_text ::
  "int \<Rightarrow> py_str \<Rightarrow> intent_digest \<Rightarrow> decision_verdict \<Rightarrow> reason_code list \<Rightarrow> execution_status option
     \<Rightarrow> py_str option \<Rightarrow> py_str option \<Rightarrow> py_str" where
  "content_text sequence prev_hash digest verdict reasons outcome_status approval_id principal_ref =
     dumps (JObj
       [(''sequence'', JInt sequence),
        (''prev_hash'', JStr prev_hash),
        (''digest'', JStr (id_value digest)),
        (''digest_version'', JInt (id_version digest)),
        (''verdict'', JInt (decision_value verdict)),
        (''reasons'', JList (map (\<lambda>code. JStr (reason_value code)) reasons)),
        (''outcome_status'', json_opt_str (map_option execution_value outcome_status)),
        (''approval_id'', json_opt_str approval_id),
        (''principal_ref'', json_opt_str principal_ref)])"

definition content_hash ::
  "int \<Rightarrow> py_str \<Rightarrow> intent_digest \<Rightarrow> decision_verdict \<Rightarrow> reason_code list \<Rightarrow> execution_status option
     \<Rightarrow> py_str option \<Rightarrow> py_str option \<Rightarrow> py_str" where
  "content_hash sequence prev_hash digest verdict reasons outcome_status approval_id principal_ref =
     sha256_hex (content_text sequence prev_hash digest verdict reasons outcome_status approval_id
       principal_ref)"

definition receipt_text :: "audit_receipt \<Rightarrow> py_str" where
  "receipt_text r =
     content_text (ar_sequence r) (ar_prev_hash r) (ar_digest r) (ar_verdict r) (ar_reasons r)
       (ar_outcome_status r) (ar_approval_id r) (ar_principal_ref r)"

definition hash_of :: "audit_receipt \<Rightarrow> py_str" where
  "hash_of r =
     content_hash (ar_sequence r) (ar_prev_hash r) (ar_digest r) (ar_verdict r) (ar_reasons r)
       (ar_outcome_status r) (ar_approval_id r) (ar_principal_ref r)"

lemma hash_of_text: "hash_of r = sha256_hex (receipt_text r)"
  by (simp add: hash_of_def content_hash_def receipt_text_def)

section \<open>Verification of a chain\<close>

fun verify_from :: "int \<Rightarrow> py_str \<Rightarrow> audit_receipt list \<Rightarrow> bool" where
  "verify_from index previous [] = True"
| "verify_from index previous (receipt # receipts) =
     (if ar_sequence receipt \<noteq> index then False
      else if ar_prev_hash receipt \<noteq> previous then False
      else if hash_of receipt \<noteq> ar_receipt_hash receipt then False
      else verify_from (index + 1) (ar_receipt_hash receipt) receipts)"

definition verify_chain :: "audit_receipt list \<Rightarrow> bool" where
  "verify_chain receipts = verify_from 0 GENESIS_HASH receipts"

text \<open>The hash the next receipt links to.\<close>

definition chain_head :: "py_str \<Rightarrow> audit_receipt list \<Rightarrow> py_str" where
  "chain_head previous rs = (if rs = [] then previous else ar_receipt_hash (last rs))"

lemma chain_head_simps [simp]:
  "chain_head p [] = p" "chain_head p (r # rs) = chain_head (ar_receipt_hash r) rs"
  "chain_head p (rs @ [r]) = ar_receipt_hash r"
  by (simp_all add: chain_head_def)

lemma verify_from_append:
  "verify_from i p (xs @ ys) \<longleftrightarrow>
     verify_from i p xs \<and> verify_from (i + int (length xs)) (chain_head p xs) ys"
  by (induction xs arbitrary: i p) (auto simp: ac_simps)

lemma verify_from_take: "verify_from i p xs \<Longrightarrow> verify_from i p (take n xs)"
  using verify_from_append [of i p "take n xs" "drop n xs"] by simp

lemma verify_chain_snoc:
  "verify_chain (xs @ [r]) \<longleftrightarrow>
     verify_chain xs \<and> ar_sequence r = int (length xs) \<and> ar_prev_hash r = chain_head GENESIS_HASH xs
     \<and> hash_of r = ar_receipt_hash r"
  by (simp add: verify_chain_def verify_from_append)

lemma hex64_genesis [simp]: "hex64 GENESIS_HASH"
  by (simp add: hex64_def GENESIS_HASH_def is_hex_char_def)

lemma verify_from_hex64: "verify_from i p xs \<Longrightarrow> hex64 p \<Longrightarrow> hex64 (chain_head p xs)"
proof (induction xs arbitrary: i p)
  case (Cons r xs)
  then have "verify_from (i + 1) (ar_receipt_hash r) xs" "hash_of r = ar_receipt_hash r"
    by (auto split: if_splits)
  moreover have "hex64 (hash_of r)" by (simp add: hash_of_text)
  ultimately show ?case using Cons.IH [of "i + 1" "ar_receipt_hash r"] by simp
qed simp

section \<open>What a hash covers\<close>

lemma map_reason_eq: "map (\<lambda>code. JStr (reason_value code)) xs = map (\<lambda>code. JStr (reason_value code)) ys \<longleftrightarrow> xs = ys"
  by (rule inj_map_eq_map) (simp add: inj_def)

lemma sort_keys_reasons: "map (sort_keys \<circ> (\<lambda>code. JStr (reason_value code))) xs = map (\<lambda>code. JStr (reason_value code)) xs"
  by simp

lemma map_execution_eq: "map_option execution_value a = map_option execution_value b \<longleftrightarrow> a = b"
  by (cases a; cases b) simp_all

lemma content_text_eq:
  "content_text s p d v rs ex a q = content_text s' p' d' v' rs' ex' a' q' \<longleftrightarrow>
     s = s' \<and> p = p' \<and> d = d' \<and> v = v' \<and> rs = rs' \<and> ex = ex' \<and> a = a' \<and> q = q'"
  by (auto simp: content_text_def dumps_inj sort_keys_object_eq map_reason_eq sort_keys_reasons
      map_execution_eq simp del: sort_keys.simps(6) intro: intent_digest.equality)

lemma receipt_text_eq:
  assumes "receipt_text r = receipt_text q" and "ar_receipt_hash r = ar_receipt_hash q"
  shows "r = q"
  using assms by (auto simp: receipt_text_def content_text_eq intro: audit_receipt.equality)

text \<open>A collision between two receipts' hashed texts.\<close>

definition receipts_collide :: "audit_receipt \<Rightarrow> audit_receipt \<Rightarrow> bool" where
  "receipts_collide r q \<longleftrightarrow> sha256_collision (receipt_text r) (receipt_text q)"

lemma same_hash:
  assumes "hash_of r = ar_receipt_hash r" and "hash_of q = ar_receipt_hash q"
    and "ar_receipt_hash r = ar_receipt_hash q"
  shows "r = q \<or> receipts_collide r q"
  using assms receipt_text_eq [of r q] sha256_hex_eq [of "receipt_text r" "receipt_text q"]
  by (auto simp: receipts_collide_def hash_of_text)

text \<open>Walking back from a common head.\<close>

lemma heads_determine_chains:
  assumes "verify_chain xs" and "verify_chain ys" and "length xs = length ys"
    and "chain_head GENESIS_HASH xs = chain_head GENESIS_HASH ys"
  shows "xs = ys \<or> (\<exists>r \<in> set xs. \<exists>q \<in> set ys. receipts_collide r q)"
  using assms
proof (induction xs arbitrary: ys rule: rev_induct)
  case Nil
  then show ?case by simp
next
  case (snoc x xs)
  from snoc.prems(3) obtain zs y where ys: "ys = zs @ [y]" by (cases ys rule: rev_cases) auto
  have vx: "verify_chain xs" "ar_prev_hash x = chain_head GENESIS_HASH xs" "hash_of x = ar_receipt_hash x"
    using snoc.prems(1) by (simp_all add: verify_chain_snoc)
  have vy: "verify_chain zs" "ar_prev_hash y = chain_head GENESIS_HASH zs" "hash_of y = ar_receipt_hash y"
    using snoc.prems(2) ys by (simp_all add: verify_chain_snoc)
  have "x = y \<or> receipts_collide x y"
    using same_hash [OF vx(3) vy(3)] snoc.prems(4) ys by simp
  moreover have "xs = zs \<or> (\<exists>r \<in> set xs. \<exists>q \<in> set zs. receipts_collide r q)" if "x = y"
    using snoc.IH [OF vx(1) vy(1)] snoc.prems(3) ys vx(2) vy(2) that by simp
  ultimately show ?case using ys by auto
qed

section \<open>Sinks\<close>

text \<open>\<open>append\<close> answers whether it returned; a call that did not return raised. \<open>entries\<close> reads the
  ledger back.\<close>

record 's sink_ops =
  sk_append :: "'s \<Rightarrow> audit_receipt \<Rightarrow> bool \<times> 's"
  sk_entries :: "'s \<Rightarrow> audit_receipt list"

type_synonym memory_sink = "audit_receipt list"

definition memory_sink_ops :: "memory_sink sink_ops" where
  "memory_sink_ops = \<lparr>sk_append = (\<lambda>s r. (True, s @ [r])), sk_entries = (\<lambda>s. s)\<rparr>"

section \<open>The log\<close>

text \<open>\<open>AuditLog.record\<close>, with what is left of the sink whether or not it raised.\<close>

definition audit_record ::
  "'s sink_ops \<Rightarrow> 's \<Rightarrow> intent_digest \<Rightarrow> decision_verdict \<Rightarrow> reason_code list \<Rightarrow> execution_status option
     \<Rightarrow> py_str option \<Rightarrow> py_str option \<Rightarrow> (py_error + audit_receipt) \<times> 's" where
  "audit_record ops sink digest verdict reasons outcome_status approval_id principal_ref =
     (let entries = sk_entries ops sink;
          sequence = int (length entries);
          prev_hash = (if entries \<noteq> [] then ar_receipt_hash (last entries) else GENESIS_HASH);
          receipt_hash = content_hash sequence prev_hash digest verdict reasons outcome_status
            approval_id principal_ref
      in case mk_receipt
            \<lparr>ar_sequence = sequence, ar_prev_hash = prev_hash, ar_digest = digest, ar_verdict = verdict,
             ar_reasons = reasons, ar_outcome_status = outcome_status, ar_approval_id = approval_id,
             ar_principal_ref = principal_ref, ar_receipt_hash = receipt_hash\<rparr> of
          Inl e \<Rightarrow> (Inl e, sink)
        | Inr receipt \<Rightarrow>
            (let (returned, sink') = sk_append ops sink receipt
             in (if returned then Inr receipt else Inl Sink_Error, sink')))"

lemma audit_record_refused:
  assumes "\<And>r. sk_append ops s r = (False, s)" and "audit_record ops s d v rs st a p = (q, s')"
  shows "\<exists>e. q = Inl e \<and> s' = s"
proof -
  have "snd (audit_record ops s d v rs st a p) = s \<and> (\<exists>e. fst (audit_record ops s d v rs st a p) = Inl e)"
    by (simp add: audit_record_def Let_def assms(1) split: sum.split)
  with assms(2) show ?thesis by auto
qed

section \<open>The contract of a sink\<close>

locale audit_sink =
  fixes ops :: "'s sink_ops"
    and inv :: "'s \<Rightarrow> bool"
  assumes append_returned: "inv s \<Longrightarrow> sk_append ops s r = (True, s') \<Longrightarrow> sk_entries ops s' = sk_entries ops s @ [r]"
    and append_raised: "inv s \<Longrightarrow> sk_append ops s r = (False, s') \<Longrightarrow>
          sk_entries ops s' = sk_entries ops s \<or> sk_entries ops s' = sk_entries ops s @ [r]"
    and append_inv: "inv s \<Longrightarrow> sk_append ops s r = (b, s') \<Longrightarrow> inv s'"
begin

definition chained :: "'s \<Rightarrow> bool" where
  "chained s \<longleftrightarrow> inv s \<and> verify_chain (sk_entries ops s)"

text \<open>A call that records appends exactly one receipt carrying what it was given, linked to the
  head; the chain stays verified whether or not the sink raises.\<close>

lemma record_cases:
  assumes "chained s"
    and "audit_record ops s digest verdict reasons outcome approval_id principal_ref = (result, s')"
  shows "chained s'"
    and "result = Inr r \<Longrightarrow> sk_entries ops s' = sk_entries ops s @ [r]
      \<and> ar_digest r = digest \<and> ar_verdict r = verdict \<and> ar_reasons r = reasons
      \<and> ar_outcome_status r = outcome \<and> ar_approval_id r = approval_id
      \<and> ar_principal_ref r = principal_ref"
    and "\<exists>new. sk_entries ops s' = sk_entries ops s @ new \<and> length new \<le> 1"
proof -
  let ?es = "sk_entries ops s"
  let ?prev = "if ?es \<noteq> [] then ar_receipt_hash (last ?es) else GENESIS_HASH"
  let ?r = "\<lparr>ar_sequence = int (length ?es), ar_prev_hash = ?prev, ar_digest = digest,
     ar_verdict = verdict, ar_reasons = reasons, ar_outcome_status = outcome,
     ar_approval_id = approval_id, ar_principal_ref = principal_ref,
     ar_receipt_hash = content_hash (int (length ?es)) ?prev digest verdict reasons outcome
       approval_id principal_ref\<rparr>"
  have chain: "inv s" "verify_chain ?es" using assms(1) by (simp_all add: chained_def)
  have next_ok: "verify_chain (?es @ [?r])"
    using chain(2) by (simp add: verify_chain_snoc chain_head_def hash_of_def)
  have "chained s' \<and> (\<forall>r. result = Inr r \<longrightarrow> r = ?r \<and> sk_entries ops s' = ?es @ [r])
    \<and> (\<exists>new. sk_entries ops s' = ?es @ new \<and> length new \<le> 1)"
  proof (cases "receipt_ok ?r")
    case False
    with assms(2) have "result = Inl Validation_Error" "s' = s"
      by (simp_all add: audit_record_def Let_def mk_receipt_def)
    with assms(1) show ?thesis by simp
  next
    case True
    obtain b t where t: "sk_append ops s ?r = (b, t)" by fastforce
    with True assms(2) have res: "s' = t" "result = (if b then Inr ?r else Inl Sink_Error)"
      by (simp_all add: audit_record_def Let_def mk_receipt_def)
    have "sk_entries ops t = ?es @ [?r] \<or> (\<not> b \<and> sk_entries ops t = ?es)"
      using append_returned [OF chain(1), of ?r t] append_raised [OF chain(1), of ?r t] t by (cases b) auto
    moreover have "inv t" using append_inv [OF chain(1) t] .
    ultimately show ?thesis using chain(2) next_ok res by (auto simp: chained_def)
  qed
  then show "chained s'" "\<exists>new. sk_entries ops s' = sk_entries ops s @ new \<and> length new \<le> 1"
    "result = Inr r \<Longrightarrow> sk_entries ops s' = sk_entries ops s @ [r]
      \<and> ar_digest r = digest \<and> ar_verdict r = verdict \<and> ar_reasons r = reasons
      \<and> ar_outcome_status r = outcome \<and> ar_approval_id r = approval_id
      \<and> ar_principal_ref r = principal_ref"
    by auto
qed

text \<open>With a well-formed principal reference the log itself never refuses a receipt.\<close>

lemma record_error:
  assumes "chained s" and "\<And>p. principal_ref = Some p \<Longrightarrow> is_fingerprint p"
    and "audit_record ops s digest verdict reasons outcome approval_id principal_ref = (Inl e, s')"
  shows "e = Sink_Error"
proof -
  have "hex64 (chain_head GENESIS_HASH (sk_entries ops s))"
    using assms(1) verify_from_hex64 by (auto simp: chained_def verify_chain_def)
  then have "sk_entries ops s \<noteq> [] \<longrightarrow> hex64 (ar_receipt_hash (last (sk_entries ops s)))"
    by (auto simp: chain_head_def)
  with assms(2,3) show ?thesis
    by (auto simp: audit_record_def Let_def mk_receipt_def receipt_ok_def content_hash_def
        split: if_splits option.splits prod.splits)
qed

end

interpretation memory_log: audit_sink memory_sink_ops "\<lambda>s. True"
  by unfold_locales (auto simp: memory_sink_ops_def)

lemma memory_chained_iff: "memory_log.chained s \<longleftrightarrow> verify_chain s"
  by (simp add: memory_log.chained_def) (simp add: memory_sink_ops_def)

lemma memory_record_returns:
  assumes "verify_chain s" and "\<And>p. principal_ref = Some p \<Longrightarrow> is_fingerprint p"
  shows "\<exists>receipt. audit_record memory_sink_ops s d v rs st a principal_ref = (Inr receipt, s @ [receipt])"
proof -
  obtain q s' where run: "audit_record memory_sink_ops s d v rs st a principal_ref = (q, s')" by fastforce
  have ch: "memory_log.chained s" using assms(1) by (simp add: memory_chained_iff)
  show ?thesis
  proof (cases q)
    case (Inl e)
    from memory_log.record_error [OF ch assms(2) run [unfolded Inl]] Inl run show ?thesis
      by (auto simp: audit_record_def memory_sink_ops_def Let_def mk_receipt_def split: if_splits)
  next
    case (Inr receipt)
    with run memory_log.record_cases(2) [OF ch run Inr] show ?thesis by (simp add: memory_sink_ops_def)
  qed
qed

section \<open>A run of the log\<close>

record record_call =
  rc_digest :: intent_digest
  rc_verdict :: decision_verdict
  rc_reasons :: "reason_code list"
  rc_outcome_status :: "execution_status option"
  rc_approval_id :: "py_str option"
  rc_principal_ref :: "py_str option"

definition record_with :: "'s sink_ops \<Rightarrow> 's \<Rightarrow> record_call \<Rightarrow> (py_error + audit_receipt) \<times> 's" where
  "record_with ops s c =
     audit_record ops s (rc_digest c) (rc_verdict c) (rc_reasons c) (rc_outcome_status c)
       (rc_approval_id c) (rc_principal_ref c)"

text \<open>The receipts the calls returned, and the sink they left.\<close>

fun record_all :: "'s sink_ops \<Rightarrow> 's \<Rightarrow> record_call list \<Rightarrow> audit_receipt list \<times> 's" where
  "record_all ops s [] = ([], s)"
| "record_all ops s (c # cs) =
     (let (result, s1) = record_with ops s c;
          (receipts, s2) = record_all ops s1 cs
      in (case result of Inl e \<Rightarrow> receipts | Inr r \<Rightarrow> r # receipts, s2))"

lemma subseq_append_left: "subseq xs ys \<Longrightarrow> subseq xs (zs @ ys)"
  by (induction zs) auto

context audit_sink
begin

lemma record_all_chained:
  "chained s \<Longrightarrow> record_all ops s cs = (rs, s') \<Longrightarrow>
     chained s' \<and> (\<exists>new. sk_entries ops s' = sk_entries ops s @ new \<and> subseq rs new)"
proof (induction cs arbitrary: s rs s')
  case Nil
  then show ?case by simp
next
  case (Cons c cs)
  obtain result s1 where one: "record_with ops s c = (result, s1)" by fastforce
  obtain qs s2 where rest: "record_all ops s1 cs = (qs, s2)" by fastforce
  from Cons.prems(2) one rest have rs: "s' = s2" "rs = (case result of Inl e \<Rightarrow> qs | Inr r \<Rightarrow> r # qs)" by auto
  note step = record_cases [OF Cons.prems(1) one [unfolded record_with_def]]
  from Cons.IH [OF step(1) rest] obtain tail where tail: "chained s2"
    "sk_entries ops s2 = sk_entries ops s1 @ tail" "subseq qs tail" by auto
  show ?case
  proof (cases result)
    case (Inl e)
    from step(3) obtain new where "sk_entries ops s1 = sk_entries ops s @ new" by auto
    with tail rs Inl show ?thesis using subseq_append_left [of qs tail new] by auto
  next
    case (Inr r)
    from step(2) [OF Inr] tail rs Inr show ?thesis by auto
  qed
qed

end

section \<open>Properties\<close>

text \<open>[C34] The head of the ledger commits to the whole ledger: two intact chains with the same last
  hash are the same chain, receipt for receipt, unless two of their receipts are an explicit
  SHA-256 collision. Editing, dropping, inserting or reordering receipts under a known head is
  detected.\<close>

theorem chain_head_commits:
  assumes "verify_chain xs" and "verify_chain ys" and "xs \<noteq> []" and "ys \<noteq> []"
    and "ar_receipt_hash (last xs) = ar_receipt_hash (last ys)"
  shows "xs = ys \<or> (\<exists>r \<in> set xs. \<exists>q \<in> set ys. receipts_collide r q)"
proof -
  obtain xi x yi y where xy: "xs = xi @ [x]" "ys = yi @ [y]"
    using assms(3,4) by (metis append_butlast_last_id)
  have x: "hash_of x = ar_receipt_hash x" "ar_sequence x = int (length xi)"
    and y: "hash_of y = ar_receipt_hash y" "ar_sequence y = int (length yi)"
    using assms(1,2) xy by (simp_all add: verify_chain_snoc)
  have heads: "ar_receipt_hash x = ar_receipt_hash y" using assms(5) xy by simp
  show ?thesis
  proof (cases "x = y")
    case True
    with x y xy have "length xs = length ys" by simp
    with heads_determine_chains [OF assms(1,2) this] heads xy show ?thesis by simp
  next
    case False
    with same_hash [OF x(1) y(1) heads] xy show ?thesis by auto
  qed
qed

text \<open>Whatever is recorded, and however often the sink raises, the ledger of a sink that keeps
  its contract stays an intact chain that only grows, and it holds every receipt a call
  returned, in the order of the calls.\<close>

theorem log_keeps_chain:
  assumes "audit_sink ops usable" and "usable s" and "verify_chain (sk_entries ops s)"
    and "record_all ops s cs = (rs, s')"
  shows "verify_chain (sk_entries ops s')
    \<and> (\<exists>new. sk_entries ops s' = sk_entries ops s @ new \<and> subseq rs new)"
  using audit_sink.record_all_chained [OF assms(1) _ assms(4)] assms(2,3)
  by (simp add: audit_sink.chained_def [OF assms(1)])

definition demo_call :: record_call where
  "demo_call = \<lparr>rc_digest = \<lparr>id_version = 1, id_value = ''d''\<rparr>, rc_verdict = Allow, rc_reasons = [],
     rc_outcome_status = Some Ex_success, rc_approval_id = None, rc_principal_ref = None\<rparr>"

theorem log_keeps_chain_witness:
  "\<exists>rs s'. record_all memory_sink_ops [] [demo_call, demo_call] = (rs, s')
     \<and> verify_chain (sk_entries memory_sink_ops s')"
proof -
  obtain rs s' where run: "record_all memory_sink_ops [] [demo_call, demo_call] = (rs, s')" by fastforce
  have "verify_chain (sk_entries memory_sink_ops [])" by (simp add: memory_sink_ops_def verify_chain_def)
  from log_keeps_chain [OF memory_log.audit_sink_axioms TrueI this run] run show ?thesis by blast
qed

definition demo_receipt :: audit_receipt where
  "demo_receipt =
     (let r = \<lparr>ar_sequence = 0, ar_prev_hash = GENESIS_HASH, ar_digest = \<lparr>id_version = 1, id_value = ''d''\<rparr>,
        ar_verdict = Deny, ar_reasons = [org_policy], ar_outcome_status = None, ar_approval_id = None,
        ar_principal_ref = None, ar_receipt_hash = []\<rparr>
      in r\<lparr>ar_receipt_hash := hash_of r\<rparr>)"

theorem chain_head_commits_witness:
  "verify_chain [demo_receipt] \<and> ([demo_receipt] = [demo_receipt]
     \<or> (\<exists>r \<in> set [demo_receipt]. \<exists>q \<in> set [demo_receipt]. receipts_collide r q))"
proof -
  have "verify_chain [demo_receipt]"
    by (simp add: verify_chain_def demo_receipt_def hash_of_def)
  with chain_head_commits [of "[demo_receipt]" "[demo_receipt]"] show ?thesis by simp
qed

end
