(* ===== verification/Agent.thy ===== *)
theory Agent
  imports Receipts
begin

text \<open>
  \<open>secondsign.agent\<close>: the proposal an agent sends, the three-state answer it reads
  (\<open>surface.py\<close>), and the dialect of the boundary (\<open>wire.py\<close>).
\<close>

section \<open>The surface\<close>

datatype agent_outcome_status = Completed | Answer_refused | Awaiting_review

fun agent_status_value :: "agent_outcome_status \<Rightarrow> py_str" where
  "agent_status_value Completed = ''completed''"
| "agent_status_value Answer_refused = ''refused''"
| "agent_status_value Awaiting_review = ''awaiting_review''"

lemma agent_status_value_inj [enum_inj, simp]: "agent_status_value a = agent_status_value b \<longleftrightarrow> a = b"
  by (cases a; cases b) simp_all

record authorization_request =
  rq_action :: action_class
  rq_rail :: rail_class
  rq_currency :: currency
  rq_amount_minor :: int
  rq_reversibility :: reversibility
  rq_counterparty_ref :: py_str
  rq_source_account_ref :: py_str
  rq_request_ref :: py_str

definition request_ok :: "authorization_request \<Rightarrow> bool" where
  "request_ok r \<longleftrightarrow>
     0 \<le> rq_amount_minor r
     \<and> is_fingerprint (rq_counterparty_ref r) \<and> is_fingerprint (rq_source_account_ref r)
     \<and> is_fingerprint (rq_request_ref r)"

record authorization_outcome =
  ao_status :: agent_outcome_status
  ao_decision_ref :: py_str
  ao_decided_at :: datetime
  ao_reasons :: "reason_code list"

section \<open>The dialect\<close>

definition WIRE_VERSION :: int where
  "WIRE_VERSION = 1"

definition SUPPORTED_WIRE_VERSIONS :: "int set" where
  "SUPPORTED_WIRE_VERSIONS = {WIRE_VERSION}"

definition PRINCIPAL_FIELDS :: "py_str list" where
  "PRINCIPAL_FIELDS = [''client_principal'', ''principal'']"

section \<open>References contain no NUL\<close>

text \<open>What the namespace of reservation keys rests on: a reference has a fixed alphabet.\<close>

lemma hex_char_not_NUL: "is_hex_char c \<Longrightarrow> c \<noteq> CHR 0x00"
  by (auto simp: is_hex_char_def)

lemma fingerprint_no_NUL: "is_fingerprint s \<Longrightarrow> CHR 0x00 \<notin> set s"
proof -
  assume "is_fingerprint s"
  then have s: "take 3 s = ''fp:''" "\<forall>c \<in> set (drop 3 s). is_hex_char c"
    by (auto simp: is_fingerprint_def hex64_def)
  have "set s = set (take 3 s) \<union> set (drop 3 s)"
    by (metis append_take_drop_id set_append)
  with s hex_char_not_NUL show ?thesis by auto
qed

lemma fingerprint_not_Nil: "is_fingerprint s \<Longrightarrow> s \<noteq> []"
  by (auto simp: is_fingerprint_def)

end
