(* ===== verification/Control_Plane.thy ===== *)
theory Control_Plane
  imports Agent
begin

text \<open>
  \<open>secondsign.controlplane\<close>: keyed fingerprints (\<open>fingerprint.py\<close>), the trailing-window spend
  ledger (\<open>window.py\<close>), the store of open reviews (\<open>pending.py\<close>, an interface with the
  in-memory implementation as its interpretation) and the resolution of control-plane settings
  against relaxation records (\<open>relaxation.py\<close>).
\<close>

section \<open>Fingerprints\<close>

definition KEY_BYTES :: nat where
  "KEY_BYTES = 32"

definition PRINCIPAL_DOMAIN :: py_str where "PRINCIPAL_DOMAIN = ''principal''"
definition DECISION_DOMAIN :: py_str where "DECISION_DOMAIN = ''decision''"
definition APPROVAL_DOMAIN :: py_str where "APPROVAL_DOMAIN = ''approval''"
definition MAKER_DOMAIN :: py_str where "MAKER_DOMAIN = ''maker''"

lemmas domain_defs = PRINCIPAL_DOMAIN_def DECISION_DOMAIN_def APPROVAL_DOMAIN_def MAKER_DOMAIN_def

definition mk_fingerprint_key :: "bytes \<Rightarrow> py_error + bytes" where
  "mk_fingerprint_key material =
     (if length material < KEY_BYTES then Inl Value_Error else Inr material)"

definition fingerprint_text :: "py_str \<Rightarrow> py_str \<Rightarrow> py_str" where
  "fingerprint_text domain v = domain @ [CHR 0x00] @ v"

definition fingerprint :: "bytes \<Rightarrow> py_str \<Rightarrow> py_str \<Rightarrow> py_str" where
  "fingerprint key domain v = ''fp:'' @ hex (hmac_sha256 key (utf8 (fingerprint_text domain v)))"

lemma is_fingerprint_fingerprint [simp]: "is_fingerprint (fingerprint key domain v)"
  by (simp add: is_fingerprint_def fingerprint_def)

lemma fingerprint_nonempty [simp]: "fingerprint key domain v \<noteq> []"
  by (simp add: fingerprint_def)

lemma fingerprint_eq:
  "fingerprint key d v = fingerprint key d' v' \<longleftrightarrow>
     fingerprint_text d v = fingerprint_text d' v'
     \<or> hmac_collision key (fingerprint_text d v) (fingerprint_text d' v')"
  using hmac_hex_eq [of key "fingerprint_text d v" "fingerprint_text d' v'"]
  by (simp add: fingerprint_def)

lemma split_at_first:
  "c \<notin> set d \<Longrightarrow> c \<notin> set d' \<Longrightarrow> d @ c # v = d' @ c # v' \<longleftrightarrow> d = d' \<and> v = v'"
proof (induction d arbitrary: d')
  case Nil
  then show ?case by (cases d') auto
next
  case (Cons x d)
  then show ?case by (cases d') auto
qed

lemma split_at_last:
  assumes "c \<notin> set v" and "c \<notin> set v'"
  shows "d @ c # v = d' @ c # v' \<longleftrightarrow> d = d' \<and> v = v'"
proof -
  have "d @ c # v = d' @ c # v' \<longleftrightarrow> rev v @ c # rev d = rev v' @ c # rev d'"
    by (metis (no_types, opaque_lifting) append.assoc append_Cons append_Nil rev_append rev_rev_ident
        rev.simps(2))
  also have "\<dots> \<longleftrightarrow> rev v = rev v' \<and> rev d = rev d'"
    using assms by (intro split_at_first) simp_all
  finally show ?thesis by auto
qed

text \<open>Domain separation: with domains that contain no NUL, and the four of the module do not,
  the fingerprinted text determines both parts.\<close>

lemma fingerprint_text_eq:
  "CHR 0x00 \<notin> set d \<Longrightarrow> CHR 0x00 \<notin> set d' \<Longrightarrow>
     fingerprint_text d v = fingerprint_text d' v' \<longleftrightarrow> d = d' \<and> v = v'"
  by (simp add: fingerprint_text_def split_at_first)

lemma domains_no_NUL [simp]:
  "CHR 0x00 \<notin> set PRINCIPAL_DOMAIN" "CHR 0x00 \<notin> set DECISION_DOMAIN"
  "CHR 0x00 \<notin> set APPROVAL_DOMAIN" "CHR 0x00 \<notin> set MAKER_DOMAIN"
  by (simp_all add: domain_defs)

section \<open>The spend window\<close>

record window_entry =
  we_key :: aggregate_key
  we_amount_minor :: int
  we_at :: datetime

record window_ledger =
  wl_window_seconds :: int
  wl_entries :: "window_entry list"

definition window_record ::
  "window_ledger \<Rightarrow> aggregate_key \<Rightarrow> int \<Rightarrow> datetime \<Rightarrow> window_ledger" where
  "window_record ledger key amount_minor at_time =
     ledger\<lparr>wl_entries := wl_entries ledger
       @ [\<lparr>we_key = key, we_amount_minor = amount_minor, we_at = at_time\<rparr>]\<rparr>"

definition inside_window :: "window_ledger \<Rightarrow> aggregate_key \<Rightarrow> datetime \<Rightarrow> window_entry list" where
  "inside_window ledger key now =
     filter (\<lambda>e. we_key e = key \<and> now - seconds (wl_window_seconds ledger) \<le> we_at e \<and> we_at e \<le> now)
       (wl_entries ledger)"

definition window_aggregate_at :: "window_ledger \<Rightarrow> aggregate_key \<Rightarrow> datetime \<Rightarrow> window_aggregate" where
  "window_aggregate_at ledger key now =
     \<lparr>wa_key = key, wa_window_seconds = wl_window_seconds ledger,
      wa_aggregate_minor = sum_list (map we_amount_minor (inside_window ledger key now)),
      wa_count = int (length (inside_window ledger key now))\<rparr>"

definition ledger_ok :: "window_ledger \<Rightarrow> bool" where
  "ledger_ok l \<longleftrightarrow> 0 < wl_window_seconds l \<and> (\<forall>e \<in> set (wl_entries l). 0 \<le> we_amount_minor e)"

lemma ledger_ok_aggregate: "ledger_ok l \<Longrightarrow> window_aggregate_ok (window_aggregate_at l key now)"
  by (auto simp: ledger_ok_def window_aggregate_ok_def window_aggregate_at_def inside_window_def
      intro!: sum_list_nonneg_int)

lemma ledger_ok_record: "ledger_ok l \<Longrightarrow> 0 \<le> n \<Longrightarrow> ledger_ok (window_record l key n t)"
  by (auto simp: ledger_ok_def window_record_def)

lemma window_record_simps [simp]:
  "wl_window_seconds (window_record l key n t) = wl_window_seconds l"
  "wl_entries (window_record l key n t)
     = wl_entries l @ [\<lparr>we_key = key, we_amount_minor = n, we_at = t\<rparr>]"
  by (simp_all add: window_record_def)

text \<open>What was spent against a key in the window that ends at \<open>t\<close>, the quantity a limit bounds.\<close>

definition spent :: "window_ledger \<Rightarrow> aggregate_key \<Rightarrow> datetime \<Rightarrow> int" where
  "spent l key t = wa_aggregate_minor (window_aggregate_at l key t)"

lemma spent_record:
  "spent (window_record l key n at_time) k t =
     spent l k t + (if k = key \<and> t - seconds (wl_window_seconds l) \<le> at_time \<and> at_time \<le> t then n else 0)"
  by (auto simp: spent_def window_aggregate_at_def inside_window_def window_record_def)

section \<open>Open reviews\<close>

record pending_review =
  pr_approval_id :: py_str
  pr_reservation_key :: py_str
  pr_principal_ref :: py_str
  pr_request :: authorization_request
  pr_approval :: pending_approval

text \<open>The reference store is a dict, which keeps the order of insertion: an association list in
  which an existing key keeps its place.\<close>

type_synonym pending_store = "(py_str \<times> pending_review) list"

fun pending_put :: "pending_store \<Rightarrow> py_str \<Rightarrow> pending_review \<Rightarrow> pending_store" where
  "pending_put [] key review = [(key, review)]"
| "pending_put ((k, r) # rest) key review =
     (if k = key then (k, review) # rest else (k, r) # pending_put rest key review)"

definition pending_hold :: "pending_store \<Rightarrow> pending_review \<Rightarrow> pending_store" where
  "pending_hold store review = pending_put store (pr_approval_id review) review"

definition pending_get :: "pending_store \<Rightarrow> py_str \<Rightarrow> pending_review option" where
  "pending_get store approval_id = map_of store approval_id"

definition pending_release :: "pending_store \<Rightarrow> py_str \<Rightarrow> pending_store" where
  "pending_release store approval_id = filter (\<lambda>kv. fst kv \<noteq> approval_id) store"

definition pending_open_reviews :: "pending_store \<Rightarrow> pending_review list" where
  "pending_open_reviews store = map snd store"

text \<open>What the service relies on in any store of open reviews.\<close>

locale pending_reviews =
  fixes hold :: "'p \<Rightarrow> pending_review \<Rightarrow> 'p"
    and get :: "'p \<Rightarrow> py_str \<Rightarrow> pending_review option"
    and release :: "'p \<Rightarrow> py_str \<Rightarrow> 'p"
    and open_reviews :: "'p \<Rightarrow> pending_review list"
    and wf :: "'p \<Rightarrow> bool"
  assumes get_hold: "get (hold s review) key = (if key = pr_approval_id review then Some review else get s key)"
    and get_release: "get (release s approval_id) key = (if key = approval_id then None else get s key)"
    and set_open: "wf s \<Longrightarrow> set (open_reviews s) = ran (get s)"
    and wf_hold: "wf s \<Longrightarrow> wf (hold s review)"
    and wf_release: "wf s \<Longrightarrow> wf (release s approval_id)"
begin

lemma release_gone: "get (release s approval_id) approval_id = None"
  by (simp add: get_release)

lemma release_idempotent: "get (release (release s a) a) = get (release s a)"
  by (rule ext) (simp add: get_release)

lemma release_other: "a \<noteq> b \<Longrightarrow> get (release s a) b = get s b"
  by (simp add: get_release)

lemma hold_release: "get s (pr_approval_id review) = None \<Longrightarrow> get (release (hold s review) (pr_approval_id review)) = get s"
  by (rule ext) (simp add: get_release get_hold)

lemma open_iff: "wf s \<Longrightarrow> review \<in> set (open_reviews s) \<longleftrightarrow> (\<exists>key. get s key = Some review)"
  by (auto simp: set_open ran_def)

end

lemma pending_get_map_of: "pending_get s = map_of s"
  by (rule ext) (simp add: pending_get_def)

lemma map_of_pending_put: "map_of (pending_put s k r) = (map_of s)(k \<mapsto> r)"
  by (induction s k r rule: pending_put.induct) auto

lemma keys_pending_put: "fst ` set (pending_put s k r) = insert k (fst ` set s)"
  by (induction s k r rule: pending_put.induct) auto

lemma distinct_pending_put: "distinct (map fst s) \<Longrightarrow> distinct (map fst (pending_put s k r))"
  by (induction s k r rule: pending_put.induct) (auto simp: keys_pending_put)

lemma map_of_pending_release: "map_of (filter (\<lambda>kv. fst kv \<noteq> a) s) k = (if k = a then None else map_of s k)"
  by (induction s) auto

lemma distinct_pending_release: "distinct (map fst s) \<Longrightarrow> distinct (map fst (pending_release s a))"
  by (induction s) (auto simp: pending_release_def)

interpretation pending: pending_reviews pending_hold pending_get pending_release pending_open_reviews
  "\<lambda>s. distinct (map fst s)"
proof
  fix s review key
  show "pending_get (pending_hold s review) key
      = (if key = pr_approval_id review then Some review else pending_get s key)"
    by (simp add: pending_get_def pending_hold_def map_of_pending_put)
next
  fix s a key
  show "pending_get (pending_release s a) key = (if key = a then None else pending_get s key)"
    by (simp add: pending_get_def pending_release_def map_of_pending_release)
next
  fix s :: pending_store assume "distinct (map fst s)"
  then show "set (pending_open_reviews s) = ran (pending_get s)"
    by (simp add: pending_open_reviews_def pending_get_map_of ran_distinct)
next
  fix s :: pending_store and review assume "distinct (map fst s)"
  then show "distinct (map fst (pending_hold s review))"
    by (simp add: pending_hold_def distinct_pending_put)
next
  fix s :: pending_store and a assume "distinct (map fst s)"
  then show "distinct (map fst (pending_release s a))"
    by (rule distinct_pending_release)
qed

section \<open>Relaxation of control-plane settings\<close>

datatype setting = Approval_ttl_seconds | Window_lookback_seconds | Rail_retry_attempts

fun strictest :: "setting \<Rightarrow> int" where
  "strictest Approval_ttl_seconds = 300"
| "strictest Window_lookback_seconds = 86400"
| "strictest Rail_retry_attempts = 0"

datatype resolution =
    As_requested
  | Relaxed_by_authority
  | Refused_no_record
  | Refused_expired
  | Refused_insufficient

record relaxation =
  rx_setting :: setting
  rx_relaxed_to :: int
  rx_approver_ref :: py_str
  rx_approved_at :: datetime
  rx_expires_at :: "datetime option"

definition relaxation_ok :: "relaxation \<Rightarrow> bool" where
  "relaxation_ok r \<longleftrightarrow> 0 \<le> rx_relaxed_to r \<and> rx_approver_ref r \<noteq> []"

record relaxation_decision =
  rd_setting :: setting
  rd_value :: int
  rd_resolution :: resolution
  rd_authority :: "relaxation option"

definition mk_relaxation_decision :: "relaxation_decision \<Rightarrow> py_error + relaxation_decision" where
  "mk_relaxation_decision d = (if 0 \<le> rd_value d then Inr d else Inl Validation_Error)"

definition rd_relaxed :: "relaxation_decision \<Rightarrow> bool" where
  "rd_relaxed d \<longleftrightarrow> rd_resolution d = Relaxed_by_authority"

definition rd_refused :: "relaxation_decision \<Rightarrow> bool" where
  "rd_refused d \<longleftrightarrow> rd_resolution d \<in> {Refused_no_record, Refused_expired, Refused_insufficient}"

definition is_live :: "relaxation \<Rightarrow> datetime \<Rightarrow> bool" where
  "is_live r now \<longleftrightarrow> (case rx_expires_at r of None \<Rightarrow> False | Some e \<Rightarrow> now < e)"

definition is_looser_than :: "setting \<Rightarrow> int \<Rightarrow> int \<Rightarrow> bool" where
  "is_looser_than setting v reference =
     (if setting = Window_lookback_seconds then v < reference else reference < v)"

definition is_looser :: "setting \<Rightarrow> int \<Rightarrow> bool" where
  "is_looser setting v = is_looser_than setting v (strictest setting)"

definition authorises :: "relaxation \<Rightarrow> setting \<Rightarrow> int \<Rightarrow> datetime \<Rightarrow> bool" where
  "authorises r setting v now \<longleftrightarrow>
     (if rx_setting r \<noteq> setting then False
      else if \<not> is_live r now then False
      else \<not> is_looser_than setting v (rx_relaxed_to r))"

definition looseness :: "setting \<Rightarrow> int \<Rightarrow> int" where
  "looseness setting v = (if setting = Window_lookback_seconds then - v else v)"

definition resolve_setting ::
  "setting \<Rightarrow> int \<Rightarrow> relaxation list \<Rightarrow> datetime \<Rightarrow> py_error + relaxation_decision" where
  "resolve_setting setting requested records now =
     (if \<not> is_looser setting requested
      then mk_relaxation_decision
        \<lparr>rd_setting = setting, rd_value = requested, rd_resolution = As_requested, rd_authority = None\<rparr>
      else case filter (\<lambda>r. authorises r setting requested now) records of
          first # rest \<Rightarrow>
            mk_relaxation_decision
              \<lparr>rd_setting = setting, rd_value = requested, rd_resolution = Relaxed_by_authority,
               rd_authority = Some (min_by (\<lambda>r. (looseness setting (rx_relaxed_to r), rx_approver_ref r))
                 first rest)\<rparr>
        | [] \<Rightarrow>
            (let for_setting = filter (\<lambda>r. rx_setting r = setting) records;
                 why = (if \<exists>r \<in> set for_setting. is_live r now then Refused_insufficient
                        else if for_setting \<noteq> [] then Refused_expired
                        else Refused_no_record)
             in mk_relaxation_decision
                  \<lparr>rd_setting = setting, rd_value = strictest setting, rd_resolution = why,
                   rd_authority = None\<rparr>))"

lemma is_looser_than_looseness: "is_looser_than s v w \<longleftrightarrow> looseness s w < looseness s v"
  by (simp add: is_looser_than_def looseness_def)

lemma authorises_iff:
  "authorises r s v now \<longleftrightarrow>
     rx_setting r = s \<and> is_live r now \<and> looseness s v \<le> looseness s (rx_relaxed_to r)"
  by (auto simp: authorises_def is_looser_than_looseness)

lemma strictest_nonneg [simp]: "0 \<le> strictest s"
  by (cases s) simp_all

text \<open>The narrowest sufficient record is one of the sufficient ones, and none of them is narrower.\<close>

lemma narrowest:
  assumes "filter P xs = first # rest" and "r = min_by (\<lambda>r. (f r, g r)) first rest"
  shows "r \<in> set xs \<and> P r \<and> (\<forall>q \<in> set xs. P q \<longrightarrow> f r \<le> f q)"
proof -
  have mem: "r \<in> set (filter P xs)" using min_by_mem [of "\<lambda>r. (f r, g r)" first rest] assms by simp
  moreover have "f r \<le> f q" if "q \<in> set (filter P xs)" for q
    using min_by_le [of q first rest "\<lambda>r. (f r, g r)"] that assms by (auto simp: less_eq_prod_def)
  ultimately show ?thesis by auto
qed

section \<open>Properties\<close>

text \<open>References are domain-separated: under one key two fingerprints are equal only for the
  same domain and the same value, or else their texts are an explicit HMAC collision; and every
  fingerprint has the one shape the boundary accepts.\<close>

theorem fingerprint_separates:
  assumes "CHR 0x00 \<notin> set d" and "CHR 0x00 \<notin> set d'"
  shows "(fingerprint key d v = fingerprint key d' v' \<longleftrightarrow>
      d = d' \<and> v = v' \<or> hmac_collision key (fingerprint_text d v) (fingerprint_text d' v'))
    \<and> is_fingerprint (fingerprint key d v)"
  using fingerprint_eq [of key d v d' v'] fingerprint_text_eq [OF assms] by simp

theorem fingerprint_separates_witness:
  "fingerprint [] PRINCIPAL_DOMAIN ''alice'' = fingerprint [] MAKER_DOMAIN ''alice'' \<longleftrightarrow>
     hmac_collision [] (fingerprint_text PRINCIPAL_DOMAIN ''alice'') (fingerprint_text MAKER_DOMAIN ''alice'')"
  using fingerprint_separates [OF domains_no_NUL(1) domains_no_NUL(4), of "[]" "''alice''" "''alice''"]
  by (simp add: domain_defs)

text \<open>The authority a decision names: live, for this setting, sufficient for the resolved value,
  and no broader than any other sufficient record.\<close>

definition sufficient_authority ::
  "relaxation list \<Rightarrow> datetime \<Rightarrow> setting \<Rightarrow> int \<Rightarrow> relaxation \<Rightarrow> bool" where
  "sufficient_authority records now s v r \<longleftrightarrow>
     r \<in> set records \<and> rx_setting r = s \<and> (\<exists>e. rx_expires_at r = Some e \<and> now < e)
     \<and> \<not> is_looser_than s v (rx_relaxed_to r)
     \<and> (\<forall>q \<in> set records. authorises q s v now \<longrightarrow> \<not> is_looser_than s (rx_relaxed_to r) (rx_relaxed_to q))"

text \<open>[C37] A setting is never looser than its strictest default without authority: what
  \<open>resolve\<close> returns is either no looser than the default, or the decision names a live record
  for this setting whose ceiling covers the value and which is the narrowest sufficient one.
  Asking for something no looser than the default is always granted as asked.\<close>

theorem resolve_needs_authority:
  assumes "resolve_setting s requested records now = Inr d"
  shows "rd_setting d = s
    \<and> (\<not> is_looser s (rd_value d) \<and> rd_authority d = None \<and> \<not> rd_relaxed d
       \<or> rd_value d = requested \<and> rd_relaxed d
         \<and> (\<exists>r. rd_authority d = Some r \<and> sufficient_authority records now s requested r))
    \<and> (\<not> is_looser s requested \<longrightarrow> rd_value d = requested \<and> rd_resolution d = As_requested)"
proof (cases "is_looser s requested")
  case False
  with assms show ?thesis
    by (auto simp: resolve_setting_def mk_relaxation_decision_def rd_relaxed_def split: if_splits)
next
  case True
  show ?thesis
  proof (cases "filter (\<lambda>r. authorises r s requested now) records")
    case Nil
    with True assms show ?thesis
      by (auto simp: resolve_setting_def mk_relaxation_decision_def rd_relaxed_def Let_def is_looser_def
          is_looser_than_looseness split: if_splits)
  next
    case (Cons first rest)
    let ?r = "min_by (\<lambda>r. (looseness s (rx_relaxed_to r), rx_approver_ref r)) first rest"
    note narrow = narrowest [OF Cons refl, of "\<lambda>r. looseness s (rx_relaxed_to r)" "rx_approver_ref"]
    have "sufficient_authority records now s requested ?r"
      using narrow by (auto simp: sufficient_authority_def authorises_iff is_live_def
          is_looser_than_looseness not_less split: option.splits)
    with True assms Cons show ?thesis
      by (auto simp: resolve_setting_def mk_relaxation_decision_def rd_relaxed_def split: if_splits)
  qed
qed

text \<open>A refusal says what an operator has to do: a looser request that no record authorises
  resolves, without raising, to the strictest value, and the reason tells apart a live record
  that is too narrow, records that all lapsed (no expiry counts as lapsed), and none at all.
  \<open>resolve\<close> raises only on a negative request that is no looser than the default.\<close>

theorem resolve_refusal_reason:
  assumes "\<forall>r \<in> set records. relaxation_ok r"
  shows "((\<exists>e. resolve_setting s requested records now = Inl e) \<longleftrightarrow> requested < 0 \<and> \<not> is_looser s requested)
    \<and> (is_looser s requested \<and> \<not> (\<exists>r \<in> set records. authorises r s requested now) \<longrightarrow>
        resolve_setting s requested records now = Inr \<lparr>rd_setting = s, rd_value = strictest s,
          rd_resolution =
            (if \<exists>r \<in> set records. rx_setting r = s \<and> is_live r now then Refused_insufficient
             else if \<exists>r \<in> set records. rx_setting r = s then Refused_expired
             else Refused_no_record),
          rd_authority = None\<rparr>)"
proof (cases "is_looser s requested")
  case False
  then show ?thesis by (auto simp: resolve_setting_def mk_relaxation_decision_def)
next
  case looser: True
  show ?thesis
  proof (cases "filter (\<lambda>r. authorises r s requested now) records")
    case Nil
    then have "\<not> (\<exists>r \<in> set records. authorises r s requested now)" by (simp add: filter_empty_conv)
    moreover have "filter (\<lambda>r. rx_setting r = s) records \<noteq> [] \<longleftrightarrow> (\<exists>r \<in> set records. rx_setting r = s)"
      by (auto simp: filter_empty_conv)
    ultimately show ?thesis using looser Nil
      by (auto simp: resolve_setting_def mk_relaxation_decision_def Let_def)
  next
    case (Cons first rest)
    then have "first \<in> set (filter (\<lambda>r. authorises r s requested now) records)" by simp
    then have first: "first \<in> set records" "authorises first s requested now" by auto
    have "0 \<le> rx_relaxed_to first" using first assms by (simp add: relaxation_ok_def)
    then have "0 \<le> requested"
      using looser first(2) strictest_nonneg [of s]
      by (cases s) (auto simp: authorises_iff is_looser_def is_looser_than_def looseness_def split: if_splits)
    with looser Cons first show ?thesis
      by (auto simp: resolve_setting_def mk_relaxation_decision_def)
  qed
qed

definition demo_relaxation :: "int \<Rightarrow> datetime option \<Rightarrow> relaxation" where
  "demo_relaxation value expires =
     \<lparr>rx_setting = Window_lookback_seconds, rx_relaxed_to = value, rx_approver_ref = ''ops'',
      rx_approved_at = 0, rx_expires_at = expires\<rparr>"

theorem resolve_needs_authority_witness:
  "resolve_setting Window_lookback_seconds 43200
      [demo_relaxation 60 (Some 50), demo_relaxation 43200 (Some 50), demo_relaxation 80000 None] 10
    = Inr \<lparr>rd_setting = Window_lookback_seconds, rd_value = 43200, rd_resolution = Relaxed_by_authority,
        rd_authority = Some (demo_relaxation 43200 (Some 50))\<rparr>
   \<and> sufficient_authority [demo_relaxation 60 (Some 50), demo_relaxation 43200 (Some 50), demo_relaxation 80000 None]
       10 Window_lookback_seconds 43200 (demo_relaxation 43200 (Some 50))"
proof -
  let ?rs = "[demo_relaxation 60 (Some 50), demo_relaxation 43200 (Some 50), demo_relaxation 80000 None]"
  have run: "resolve_setting Window_lookback_seconds 43200 ?rs 10
    = Inr \<lparr>rd_setting = Window_lookback_seconds, rd_value = 43200, rd_resolution = Relaxed_by_authority,
        rd_authority = Some (demo_relaxation 43200 (Some 50))\<rparr>"
    by (simp add: resolve_setting_def is_looser_def is_looser_than_def authorises_def is_live_def
        mk_relaxation_decision_def looseness_def demo_relaxation_def)
  from resolve_needs_authority [OF run] run show ?thesis by (simp add: is_looser_def is_looser_than_def)
qed

theorem resolve_refusal_reason_witness:
  "resolve_setting Window_lookback_seconds 60 [demo_relaxation 43200 (Some 50)] 10
     = Inr \<lparr>rd_setting = Window_lookback_seconds, rd_value = 86400, rd_resolution = Refused_insufficient,
         rd_authority = None\<rparr>
   \<and> resolve_setting Window_lookback_seconds 60 [demo_relaxation 43200 None] 10
     = Inr \<lparr>rd_setting = Window_lookback_seconds, rd_value = 86400, rd_resolution = Refused_expired,
         rd_authority = None\<rparr>"
  using resolve_refusal_reason [of "[demo_relaxation 43200 (Some 50)]" Window_lookback_seconds 60 10]
    resolve_refusal_reason [of "[demo_relaxation 43200 None]" Window_lookback_seconds 60 10]
  by (simp add: demo_relaxation_def relaxation_ok_def is_looser_def is_looser_than_def authorises_def is_live_def)

end
