(* ===== verification/Authorization.thy ===== *)
theory Authorization
  imports Control_Plane
begin

text \<open>
  \<open>secondsign.gateway.authorization\<close>: from an authenticated request to an answer. The state of
  an \<open>AuthorizationService\<close> is the record \<open>service\<close>; what it is constructed with and never
  changes is the record \<open>deployment\<close>. Both entry points run under the service's lock, so a run
  is a sequence of whole calls (theory \<open>Service\<close>).

  An operation returns its result and the state it leaves. A failure of the audit log is an
  exception that leaves the operation where it stands: the result is \<open>Inl\<close>, and the state keeps
  every change made before it.
\<close>

section \<open>Constants and results\<close>

definition INTENT_TTL :: timedelta where
  "INTENT_TTL = seconds (5 * 60)"

definition REVIEW_TTL :: timedelta where
  "REVIEW_TTL = seconds (4 * 60 * 60)"

text \<open>\<open>datetime.min\<close> in UTC, in microseconds since the epoch.\<close>

definition DATETIME_MIN :: datetime where
  "DATETIME_MIN = seconds (- 62135596800)"

datatype review_outcome_status = Review_executed | Review_refused | Review_rejected

record review_resolution =
  rs_status :: review_outcome_status
  rs_reason :: "rejection_reason option"
  rs_outcome :: "authorization_outcome option"

definition TERMINAL_REJECTIONS :: "rejection_reason set" where
  "TERMINAL_REJECTIONS = {Not_approved, Expired}"

fun target_by_rail :: "rail_class \<Rightarrow> payment_target_kind option" where
  "target_by_rail Rail_card = Some Target_card"
| "target_by_rail Rail_bank_transfer = Some Target_bank_account"
| "target_by_rail Rail_wallet = Some Target_wallet"
| "target_by_rail Rail_brokerage = None"
| "target_by_rail Rail_other = None"

definition PAYMENT_ACTIONS :: "action_class set" where
  "PAYMENT_ACTIONS = {Act_payment, Act_refund, Act_payout, Act_transfer}"

fun reversibility_index :: "reversibility \<Rightarrow> nat" where
  "reversibility_index Irreversible = 0"
| "reversibility_index Delayed_reversible = 1"
| "reversibility_index Reversible = 2"

section \<open>Completing an intent\<close>

definition strictest_reversibility :: "reversibility \<Rightarrow> reversibility" where
  "strictest_reversibility claimed = min_by reversibility_index claimed [Irreversible]"

definition complete_intent ::
  "authorization_request \<Rightarrow> py_str \<Rightarrow> datetime \<Rightarrow> py_error + transaction_intent" where
  "complete_intent request idempotency_key now =
     (if rq_action request \<notin> PAYMENT_ACTIONS then Inl Unmappable_Action
      else case target_by_rail (rq_rail request) of
          None \<Rightarrow> Inl Unmappable_Action
        | Some target_kind \<Rightarrow>
            (case mk_dimensions
                \<lparr>d_value_lower_minor = rq_amount_minor request,
                 d_value_upper_minor = rq_amount_minor request,
                 d_quote_currency = rq_currency request,
                 d_counterparty_ref = rq_counterparty_ref request,
                 d_source_account_ref = rq_source_account_ref request,
                 d_rail_class = rq_rail request,
                 d_not_before = now,
                 d_not_after = now + INTENT_TTL,
                 d_reversibility = strictest_reversibility (rq_reversibility request),
                 d_source_trust = Untrusted_data,
                 d_scope_count = 1\<rparr> of
               Inl e \<Rightarrow> Inl e
             | Inr dimensions \<Rightarrow>
                 if idempotency_key = [] then Inl Validation_Error
                 else Inr
                   \<lparr>i_dimensions = dimensions,
                    i_payload = Payment
                      \<lparr>pp_target_kind = target_kind, pp_new_beneficiary = True,
                       pp_cross_border = True, pp_settlement_priority = Standard\<rparr>,
                    i_idempotency_key = idempotency_key\<rparr>))"

section \<open>The state of the service\<close>

record reservation =
  rv_proposal :: proposal_digest
  rv_answer :: authorization_outcome
  rv_approval_id :: "py_str option"

record 's deployment =
  dp_format :: date_format
  dp_policies :: "policy list"
  dp_rail :: rail
  dp_sink :: "'s sink_ops"
  dp_key :: bytes

record 's service =
  sv_gateway :: "memory_store gateway"
  sv_ledger :: window_ledger
  sv_sink :: 's
  sv_pending :: pending_store
  sv_consumed :: maker_checker
  sv_reservations :: "py_str \<rightharpoonup> reservation"
  sv_now_floor :: datetime

definition service_init :: "int \<Rightarrow> 's \<Rightarrow> 's service" where
  "service_init window_seconds sink =
     \<lparr>sv_gateway = \<lparr>gw_store = Map.empty, gw_dispatched = []\<rparr>,
      sv_ledger = \<lparr>wl_window_seconds = window_seconds, wl_entries = []\<rparr>,
      sv_sink = sink, sv_pending = [], sv_consumed = maker_checker_init,
      sv_reservations = Map.empty, sv_now_floor = DATETIME_MIN\<rparr>"

definition principal_fingerprint :: "'s deployment \<Rightarrow> py_str \<Rightarrow> py_str" where
  "principal_fingerprint dep caller = fingerprint (dp_key dep) PRINCIPAL_DOMAIN caller"

definition reservation_key_of :: "'s deployment \<Rightarrow> py_str \<Rightarrow> py_str \<Rightarrow> py_str" where
  "reservation_key_of dep caller request_ref =
     fingerprint (dp_key dep) PRINCIPAL_DOMAIN (caller @ [CHR 0x00] @ request_ref)"

section \<open>The steps of the service\<close>

definition service_decide ::
  "'s deployment \<Rightarrow> 's service \<Rightarrow> transaction_intent \<Rightarrow> datetime \<Rightarrow> py_error + decision" where
  "service_decide dep sv intent now =
     (let aggregate = window_aggregate_at (sv_ledger sv) (key_from_intent intent) now
      in decide (dp_format dep) (dp_policies dep) intent \<lparr>pc_window_aggregate = Some aggregate\<rparr>)"

definition service_dispatch ::
  "'s deployment \<Rightarrow> 's service \<Rightarrow> transaction_intent \<Rightarrow> decision \<Rightarrow> datetime \<Rightarrow> grant option
     \<Rightarrow> gateway_result \<times> 's service" where
  "service_dispatch dep sv intent dec now grant =
     (let (result, gateway) =
        execute (dp_format dep) memory_ops (dp_rail dep) (sv_gateway sv) intent dec grant now;
          sv1 = sv\<lparr>sv_gateway := gateway\<rparr>
      in case result of
           Executed outcome \<Rightarrow>
             if eo_status outcome \<noteq> Ex_failure
             then (result, sv1\<lparr>sv_ledger := window_record (sv_ledger sv) (key_from_intent intent)
                     (d_value_upper_minor (i_dimensions intent)) now\<rparr>)
             else (result, sv1)
         | Refused _ \<Rightarrow> (result, sv1))"

definition agent_status ::
  "decision_verdict \<Rightarrow> execution_status option \<Rightarrow> bool \<Rightarrow> agent_outcome_status" where
  "agent_status verdict execution granted =
     (if verdict = Review \<and> \<not> granted then Awaiting_review
      else if execution = Some Ex_success then Completed
      else Answer_refused)"

text \<open>The status of an outcome handed to \<open>_record\<close>: \<open>None\<close> unless it is an execution outcome.\<close>

definition status_of :: "gateway_result option \<Rightarrow> execution_status option" where
  "status_of outcome =
     (case outcome of Some (Executed executed) \<Rightarrow> Some (eo_status executed) | _ \<Rightarrow> None)"

definition service_audit ::
  "'s deployment \<Rightarrow> 's service \<Rightarrow> decision \<Rightarrow> execution_status option \<Rightarrow> py_str option \<Rightarrow> py_str
     \<Rightarrow> (py_error + audit_receipt) \<times> 's service" where
  "service_audit dep sv dec status approval_id principal_ref =
     (let (result, sink) = audit_record (dp_sink dep) (sv_sink sv) (dec_digest dec) (dec_verdict dec)
        (decision_reasons dec) status approval_id (Some principal_ref)
      in (result, sv\<lparr>sv_sink := sink\<rparr>))"

definition service_record ::
  "'s deployment \<Rightarrow> 's service \<Rightarrow> decision \<Rightarrow> py_str \<Rightarrow> datetime \<Rightarrow> gateway_result option
     \<Rightarrow> py_str option \<Rightarrow> (py_error + authorization_outcome) \<times> 's service" where
  "service_record dep sv dec principal_ref now outcome approval_id =
     (let status = status_of outcome
      in case service_audit dep sv dec status approval_id principal_ref of
           (Inl e, sv1) \<Rightarrow> (Inl e, sv1)
         | (Inr receipt, sv1) \<Rightarrow>
             (Inr \<lparr>ao_status = agent_status (dec_verdict dec) status (approval_id \<noteq> None),
                   ao_decision_ref = fingerprint (dp_key dep) DECISION_DOMAIN (id_value (dec_digest dec)),
                   ao_decided_at = now,
                   ao_reasons = decision_reasons dec\<rparr>, sv1))"

definition reserve_answer ::
  "'s service \<Rightarrow> py_str \<Rightarrow> proposal_digest \<Rightarrow> authorization_outcome \<Rightarrow> py_str option \<Rightarrow> 's service" where
  "reserve_answer sv reservation_key proposal answer approval_id =
     sv\<lparr>sv_reservations := (sv_reservations sv)(reservation_key \<mapsto>
          \<lparr>rv_proposal = proposal, rv_answer = answer, rv_approval_id = approval_id\<rparr>)\<rparr>"

definition service_settle ::
  "'s deployment \<Rightarrow> 's service \<Rightarrow> py_str \<Rightarrow> proposal_digest \<Rightarrow> decision \<Rightarrow> py_str \<Rightarrow> datetime
     \<Rightarrow> gateway_result option \<Rightarrow> py_str option \<Rightarrow> (py_error + authorization_outcome) \<times> 's service" where
  "service_settle dep sv reservation_key proposal dec principal_ref now outcome approval_id =
     (case service_record dep sv dec principal_ref now outcome approval_id of
        (Inl e, sv1) \<Rightarrow> (Inl e, sv1)
      | (Inr answer, sv1) \<Rightarrow> (Inr answer, reserve_answer sv1 reservation_key proposal answer None))"

definition service_refuse ::
  "'s deployment \<Rightarrow> py_str \<Rightarrow> datetime \<Rightarrow> intent_digest option \<Rightarrow> authorization_outcome" where
  "service_refuse dep reservation_key now digest =
     (let material = (case digest of Some d \<Rightarrow> id_value d | None \<Rightarrow> reservation_key)
      in \<lparr>ao_status = Answer_refused,
          ao_decision_ref = fingerprint (dp_key dep) DECISION_DOMAIN material,
          ao_decided_at = now, ao_reasons = [org_policy]\<rparr>)"

definition service_hold ::
  "'s deployment \<Rightarrow> 's service \<Rightarrow> authorization_request \<Rightarrow> decision \<Rightarrow> proposal_digest \<Rightarrow> py_str
     \<Rightarrow> py_str \<Rightarrow> datetime \<Rightarrow> (py_error + authorization_outcome) \<times> 's service" where
  "service_hold dep sv request dec proposal reservation_key principal_ref now =
     (let approval_id = fingerprint (dp_key dep) APPROVAL_DOMAIN reservation_key
      in case approval_request dec (Maker (fingerprint (dp_key dep) MAKER_DOMAIN principal_ref))
                approval_id proposal (Some (now + REVIEW_TTL)) of
           Inl e \<Rightarrow> (Inl e, sv)
         | Inr approval \<Rightarrow>
             let sv1 = sv\<lparr>sv_pending := pending_hold (sv_pending sv)
                   \<lparr>pr_approval_id = approval_id, pr_reservation_key = reservation_key,
                    pr_principal_ref = principal_ref, pr_request = request, pr_approval = approval\<rparr>\<rparr>
             in case service_settle dep sv1 reservation_key proposal dec principal_ref now None None of
                  (Inl e, sv2) \<Rightarrow> (Inl e, sv2)
                | (Inr answer, sv2) \<Rightarrow>
                    (Inr answer, reserve_answer sv2 reservation_key proposal answer (Some approval_id)))"

section \<open>The two entry points\<close>

text \<open>The part of \<open>authorize\<close> that decides: no reservation is held under the key.\<close>

definition authorize_fresh ::
  "'s deployment \<Rightarrow> 's service \<Rightarrow> authorization_request \<Rightarrow> transaction_intent \<Rightarrow> py_str \<Rightarrow> py_str
     \<Rightarrow> datetime \<Rightarrow> (py_error + authorization_outcome) \<times> 's service" where
  "authorize_fresh dep sv request intent reservation_key principal_ref now =
     (let proposal = compute_proposal_digest (dp_format dep) intent
      in case service_decide dep sv intent now of
           Inl e \<Rightarrow> (Inl e, sv)
         | Inr dec \<Rightarrow>
             if dec_verdict dec = Review
             then service_hold dep sv request dec proposal reservation_key principal_ref now
             else if dec_verdict dec \<noteq> Allow
             then service_settle dep sv reservation_key proposal dec principal_ref now None None
             else
               let (result, sv1) = service_dispatch dep sv intent dec now None
               in service_settle dep sv1 reservation_key proposal dec principal_ref now (Some result) None)"

definition authorize ::
  "'s deployment \<Rightarrow> 's service \<Rightarrow> py_str \<Rightarrow> authorization_request \<Rightarrow> datetime
     \<Rightarrow> (py_error + authorization_outcome) \<times> 's service" where
  "authorize dep sv caller request now =
     (let principal_ref = principal_fingerprint dep caller;
          reservation_key = reservation_key_of dep caller (rq_request_ref request)
      in case complete_intent request reservation_key now of
           Inl Unmappable_Action \<Rightarrow> (Inr (service_refuse dep reservation_key now None), sv)
         | Inl e \<Rightarrow> (Inl e, sv)
         | Inr intent \<Rightarrow>
             let now1 = max now (sv_now_floor sv);
                 sv1 = sv\<lparr>sv_now_floor := now1\<rparr>
             in case sv_reservations sv1 reservation_key of
                  Some held \<Rightarrow>
                    if rv_proposal held \<noteq> compute_proposal_digest (dp_format dep) intent
                    then (Inr (service_refuse dep reservation_key now1
                            (Some (compute_digest (dp_format dep) intent))), sv1)
                    else (Inr (rv_answer held), sv1)
                | None \<Rightarrow>
                    authorize_fresh dep sv1 request intent reservation_key principal_ref now1)"

definition service_open_reviews :: "'s service \<Rightarrow> pending_review list" where
  "service_open_reviews sv = pending_open_reviews (sv_pending sv)"

abbreviation rejected_with :: "rejection_reason \<Rightarrow> review_resolution" where
  "rejected_with reason \<equiv> \<lparr>rs_status = Review_rejected, rs_reason = Some reason, rs_outcome = None\<rparr>"

abbreviation review_refused :: review_resolution where
  "review_refused \<equiv> \<lparr>rs_status = Review_refused, rs_reason = None, rs_outcome = None\<rparr>"

text \<open>After the answer was consumed: either branch of \<open>isinstance(consumed, Rejected)\<close>.\<close>

definition resolve_rejected ::
  "'s deployment \<Rightarrow> 's service \<Rightarrow> pending_review \<Rightarrow> py_str \<Rightarrow> proposal_digest \<Rightarrow> decision
     \<Rightarrow> rejection_reason \<Rightarrow> datetime \<Rightarrow> (py_error + review_resolution) \<times> 's service" where
  "resolve_rejected dep sv review approval_id proposal dec reason now =
     (if reason \<in> TERMINAL_REJECTIONS
      then case service_audit dep sv dec None (Some (pr_approval_id review)) (pr_principal_ref review) of
          (Inl e, sv1) \<Rightarrow> (Inl e, sv1)
        | (Inr receipt, sv1) \<Rightarrow>
            let answer = service_refuse dep (pr_reservation_key review) now (Some (dec_digest dec));
                sv2 = reserve_answer sv1 (pr_reservation_key review) proposal answer None
            in (Inr (rejected_with reason),
                sv2\<lparr>sv_pending := pending_release (sv_pending sv2) approval_id\<rparr>)
      else (Inr (rejected_with reason), sv))"

definition resolve_granted ::
  "'s deployment \<Rightarrow> 's service \<Rightarrow> pending_review \<Rightarrow> py_str \<Rightarrow> transaction_intent \<Rightarrow> proposal_digest
     \<Rightarrow> decision \<Rightarrow> grant \<Rightarrow> datetime \<Rightarrow> (py_error + review_resolution) \<times> 's service" where
  "resolve_granted dep sv review approval_id intent proposal dec grant now =
     (let (result, sv1) = service_dispatch dep sv intent dec now (Some grant)
      in case service_settle dep sv1 (pr_reservation_key review) proposal dec (pr_principal_ref review)
                now (Some result) (Some (g_approval_id grant)) of
           (Inl e, sv2) \<Rightarrow> (Inl e, sv2)
         | (Inr outcome, sv2) \<Rightarrow>
             (Inr \<lparr>rs_status = (if ao_status outcome = Completed then Review_executed else Review_refused),
                   rs_reason = None, rs_outcome = Some outcome\<rparr>,
              sv2\<lparr>sv_pending := pending_release (sv_pending sv2) approval_id\<rparr>))"

definition resolve_review ::
  "'s deployment \<Rightarrow> 's service \<Rightarrow> py_str \<Rightarrow> checker_verdict \<Rightarrow> datetime
     \<Rightarrow> (py_error + review_resolution) \<times> 's service" where
  "resolve_review dep sv0 approval_id verdict now0 =
     (let now = max now0 (sv_now_floor sv0);
          sv = sv0\<lparr>sv_now_floor := now\<rparr>
      in case pending_get (sv_pending sv) approval_id of
           None \<Rightarrow> (Inr (rejected_with Unknown_approval), sv)
         | Some review \<Rightarrow>
             (case complete_intent (pr_request review) (pr_reservation_key review) now of
                Inl e \<Rightarrow> (Inl e, sv)
              | Inr intent \<Rightarrow>
                  let proposal = compute_proposal_digest (dp_format dep) intent
                  in if proposal \<noteq> pa_proposal (pr_approval review)
                     then (Inr (rejected_with Digest_mismatch), sv)
                     else
                       case service_decide dep sv intent now of
                         Inl e \<Rightarrow> (Inl e, sv)
                       | Inr dec \<Rightarrow>
                           if dec_verdict dec = Deny
                           then case service_audit dep sv dec None None (pr_principal_ref review) of
                               (Inl e, sv1) \<Rightarrow> (Inl e, sv1)
                             | (Inr receipt, sv1) \<Rightarrow> (Inr review_refused, sv1)
                           else
                             let (consumed, maker_checker) =
                                   consume (sv_consumed sv) (pr_approval review) verdict now;
                                 sv1 = sv\<lparr>sv_consumed := maker_checker\<rparr>
                             in case consumed of
                                  Rejected reason \<Rightarrow>
                                    resolve_rejected dep sv1 review approval_id proposal dec reason now
                                | Granted grant \<Rightarrow>
                                    resolve_granted dep sv1 review approval_id intent proposal dec grant now))"

end
