(* ===== verification/Service.thy ===== *)
theory Service
  imports Authorization
begin

text \<open>
  What holds of the authorization service in every state it can reach: the frame of each step,
  the case analysis of the two entry points, the inductive predicate \<open>reachable\<close> over whole
  calls, the invariants, and the properties of a deployment.
\<close>

section \<open>Intents completed from a request\<close>

lemma strictest_is_irreversible [simp]: "strictest_reversibility r = Irreversible"
  by (cases r) (simp_all add: strictest_reversibility_def)

lemma INTENT_TTL_pos [simp]: "0 < INTENT_TTL"
  by (simp add: INTENT_TTL_def)

lemma REVIEW_TTL_pos [simp]: "0 < REVIEW_TTL"
  by (simp add: REVIEW_TTL_def)

text \<open>What wire v1 can express.\<close>

definition mappable :: "authorization_request \<Rightarrow> bool" where
  "mappable request \<longleftrightarrow> rq_action request \<in> PAYMENT_ACTIONS \<and> target_by_rail (rq_rail request) \<noteq> None"

definition completed :: "authorization_request \<Rightarrow> py_str \<Rightarrow> datetime \<Rightarrow> transaction_intent" where
  "completed request key now =
     \<lparr>i_dimensions =
        \<lparr>d_value_lower_minor = rq_amount_minor request, d_value_upper_minor = rq_amount_minor request,
         d_quote_currency = rq_currency request, d_counterparty_ref = rq_counterparty_ref request,
         d_source_account_ref = rq_source_account_ref request, d_rail_class = rq_rail request,
         d_not_before = now, d_not_after = now + INTENT_TTL, d_reversibility = Irreversible,
         d_source_trust = Untrusted_data, d_scope_count = 1\<rparr>,
      i_payload = Payment \<lparr>pp_target_kind = the (target_by_rail (rq_rail request)),
        pp_new_beneficiary = True, pp_cross_border = True, pp_settlement_priority = Standard\<rparr>,
      i_idempotency_key = key\<rparr>"

lemma completed_simps [simp]:
  "i_idempotency_key (completed request key now) = key"
  "d_value_upper_minor (i_dimensions (completed request key now)) = rq_amount_minor request"
  "d_quote_currency (i_dimensions (completed request key now)) = rq_currency request"
  "d_not_before (i_dimensions (completed request key now)) = now"
  "d_not_after (i_dimensions (completed request key now)) = now + INTENT_TTL"
  by (simp_all add: completed_def)

lemma complete_intent_eq:
  assumes "request_ok request" and "key \<noteq> []"
  shows "complete_intent request key now =
    (if mappable request then Inr (completed request key now) else Inl Unmappable_Action)"
  using assms
  by (auto simp: complete_intent_def mappable_def completed_def mk_dimensions_def dimensions_ok_def
      request_ok_def not_le split: option.splits)

lemma completed_ok: "request_ok request \<Longrightarrow> key \<noteq> [] \<Longrightarrow> intent_ok (completed request key now)"
  by (auto simp: completed_def intent_ok_def dimensions_ok_def request_ok_def not_le)

lemma completed_same_but_window: "same_but_window (completed request key t) (completed request key t')"
  by (simp add: completed_def same_but_window_iff)

lemma completed_proposal:
  "compute_proposal_digest fmt (completed request key t) = compute_proposal_digest fmt (completed request key t')"
  by (rule proposal_digest_same_but_window [OF completed_same_but_window])

lemma completed_key_from: "key_from_intent (completed request key t) = key_from_intent (completed request key t')"
  by (simp add: completed_def key_from_intent_def)

lemma reservation_key_ok [simp]: "reservation_key_of dep c r \<noteq> []"
  by (simp add: reservation_key_of_def)

section \<open>Frames\<close>

lemma service_audit_frame:
  assumes "service_audit dep sv dec status a p = (r, sv')"
  shows "sv_gateway sv' = sv_gateway sv" "sv_ledger sv' = sv_ledger sv" "sv_pending sv' = sv_pending sv"
    "sv_consumed sv' = sv_consumed sv" "sv_reservations sv' = sv_reservations sv"
    "sv_now_floor sv' = sv_now_floor sv"
    "audit_record (dp_sink dep) (sv_sink sv) (dec_digest dec) (dec_verdict dec)
       (decision_reasons dec) status a (Some p) = (r, sv_sink sv')"
  using assms by (auto simp: service_audit_def split: prod.splits)

lemma service_record_frame:
  assumes "service_record dep sv dec p now out a = (r, sv')"
  obtains q where "service_audit dep sv dec (status_of out) a p = (q, sv')"
    and "\<And>e. r = Inl e \<longleftrightarrow> q = Inl e"
    and "\<And>answer. r = Inr answer \<Longrightarrow> (\<exists>receipt. q = Inr receipt) \<and>
       answer = \<lparr>ao_status = agent_status (dec_verdict dec) (status_of out) (a \<noteq> None),
         ao_decision_ref = fingerprint (dp_key dep) DECISION_DOMAIN (id_value (dec_digest dec)),
         ao_decided_at = now, ao_reasons = decision_reasons dec\<rparr>"
  using assms
  by (cases "service_audit dep sv dec (status_of out) a p"; cases "fst (service_audit dep sv dec (status_of out) a p)")
    (auto simp: service_record_def Let_def)

lemma service_settle_frame:
  assumes "service_settle dep sv k prop dec p now out a = (r, sv')"
  shows "sv_gateway sv' = sv_gateway sv" "sv_ledger sv' = sv_ledger sv" "sv_pending sv' = sv_pending sv"
    "sv_consumed sv' = sv_consumed sv" "sv_now_floor sv' = sv_now_floor sv"
    "r = Inl e \<Longrightarrow> sv_reservations sv' = sv_reservations sv"
    "r = Inr answer \<Longrightarrow> sv_reservations sv' = (sv_reservations sv)
       (k \<mapsto> \<lparr>rv_proposal = prop, rv_answer = answer, rv_approval_id = None\<rparr>)"
    "r = Inr answer \<Longrightarrow> ao_status answer = agent_status (dec_verdict dec) (status_of out) (a \<noteq> None)"
    "\<exists>q. audit_record (dp_sink dep) (sv_sink sv) (dec_digest dec) (dec_verdict dec)
       (decision_reasons dec) (status_of out) a (Some p) = (q, sv_sink sv')
       \<and> (\<forall>e. r = Inl e \<longleftrightarrow> q = Inl e)"
proof -
  obtain r1 sv1 where one: "service_record dep sv dec p now out a = (r1, sv1)" by fastforce
  obtain q where q: "service_audit dep sv dec (status_of out) a p = (q, sv1)"
    "\<And>e. r1 = Inl e \<longleftrightarrow> q = Inl e"
    "\<And>answer. r1 = Inr answer \<Longrightarrow> (\<exists>receipt. q = Inr receipt) \<and>
       answer = \<lparr>ao_status = agent_status (dec_verdict dec) (status_of out) (a \<noteq> None),
         ao_decision_ref = fingerprint (dp_key dep) DECISION_DOMAIN (id_value (dec_digest dec)),
         ao_decided_at = now, ao_reasons = decision_reasons dec\<rparr>"
    using service_record_frame [OF one] by blast
  note frame = service_audit_frame [OF q(1)]
  have r: "r = r1" and sv': "sv' = (case r1 of Inl e \<Rightarrow> sv1 | Inr answer \<Rightarrow> reserve_answer sv1 k prop answer None)"
    using assms one by (auto simp: service_settle_def split: sum.splits)
  show "sv_gateway sv' = sv_gateway sv" "sv_ledger sv' = sv_ledger sv" "sv_pending sv' = sv_pending sv"
    "sv_consumed sv' = sv_consumed sv" "sv_now_floor sv' = sv_now_floor sv"
    using sv' frame by (simp_all add: reserve_answer_def split: sum.splits)
  show "r = Inl e \<Longrightarrow> sv_reservations sv' = sv_reservations sv"
    "r = Inr answer \<Longrightarrow> sv_reservations sv' = (sv_reservations sv)
       (k \<mapsto> \<lparr>rv_proposal = prop, rv_answer = answer, rv_approval_id = None\<rparr>)"
    using r sv' frame by (simp_all add: reserve_answer_def)
  show "r = Inr answer \<Longrightarrow> ao_status answer = agent_status (dec_verdict dec) (status_of out) (a \<noteq> None)"
    using q(3) r by auto
  have "sv_sink sv' = sv_sink sv1" using sv' by (simp add: reserve_answer_def split: sum.splits)
  moreover have "\<forall>e. r = Inl e \<longleftrightarrow> q = Inl e" using q(2) r by simp
  ultimately show "\<exists>q. audit_record (dp_sink dep) (sv_sink sv) (dec_digest dec) (dec_verdict dec)
       (decision_reasons dec) (status_of out) a (Some p) = (q, sv_sink sv')
       \<and> (\<forall>e. r = Inl e \<longleftrightarrow> q = Inl e)"
    using frame(7) by auto
qed

text \<open>What a held review is, for a given reservation.\<close>

definition held_review ::
  "'s deployment \<Rightarrow> authorization_request \<Rightarrow> decision \<Rightarrow> proposal_digest \<Rightarrow> py_str \<Rightarrow> py_str
     \<Rightarrow> datetime \<Rightarrow> pending_review" where
  "held_review dep request dec prop k p now =
     \<lparr>pr_approval_id = fingerprint (dp_key dep) APPROVAL_DOMAIN k, pr_reservation_key = k,
      pr_principal_ref = p, pr_request = request,
      pr_approval = \<lparr>pa_approval_id = fingerprint (dp_key dep) APPROVAL_DOMAIN k, pa_decision = dec,
        pa_proposal = prop, pa_maker = Maker (fingerprint (dp_key dep) MAKER_DOMAIN p),
        pa_expires_at = Some (now + REVIEW_TTL)\<rparr>\<rparr>"

lemma service_hold_frame:
  assumes "service_hold dep sv request dec prop k p now = (r, sv')" and "dec_verdict dec = Review"
  shows "sv_gateway sv' = sv_gateway sv" "sv_ledger sv' = sv_ledger sv"
    "sv_pending sv' = pending_hold (sv_pending sv) (held_review dep request dec prop k p now)"
    "sv_consumed sv' = sv_consumed sv" "sv_now_floor sv' = sv_now_floor sv"
    "r = Inl e \<Longrightarrow> sv_reservations sv' = sv_reservations sv"
    "r = Inr answer \<Longrightarrow> sv_reservations sv' = (sv_reservations sv)
       (k \<mapsto> \<lparr>rv_proposal = prop, rv_answer = answer,
              rv_approval_id = Some (fingerprint (dp_key dep) APPROVAL_DOMAIN k)\<rparr>)"
    "r = Inr answer \<Longrightarrow> ao_status answer = Awaiting_review"
    "\<exists>q. audit_record (dp_sink dep) (sv_sink sv) (dec_digest dec) (dec_verdict dec)
       (decision_reasons dec) None None (Some p) = (q, sv_sink sv') \<and> (\<forall>e. r = Inl e \<longleftrightarrow> q = Inl e)"
proof -
  let ?sv1 = "sv\<lparr>sv_pending := pending_hold (sv_pending sv) (held_review dep request dec prop k p now)\<rparr>"
  obtain r1 sv2 where one: "service_settle dep ?sv1 k prop dec p now None None = (r1, sv2)" by fastforce
  note frame = service_settle_frame [OF one]
  have r: "r = r1" and sv': "sv' = (case r1 of Inl e \<Rightarrow> sv2 | Inr answer \<Rightarrow>
      reserve_answer sv2 k prop answer (Some (fingerprint (dp_key dep) APPROVAL_DOMAIN k)))"
    using assms one
    by (auto simp: service_hold_def approval_request_def held_review_def Let_def split: sum.splits)
  show "sv_gateway sv' = sv_gateway sv" "sv_ledger sv' = sv_ledger sv"
    "sv_pending sv' = pending_hold (sv_pending sv) (held_review dep request dec prop k p now)"
    "sv_consumed sv' = sv_consumed sv" "sv_now_floor sv' = sv_now_floor sv"
    using sv' frame(1-5) by (simp_all add: reserve_answer_def split: sum.splits)
  show "r = Inl e \<Longrightarrow> sv_reservations sv' = sv_reservations sv"
    "r = Inr answer \<Longrightarrow> sv_reservations sv' = (sv_reservations sv)
       (k \<mapsto> \<lparr>rv_proposal = prop, rv_answer = answer,
              rv_approval_id = Some (fingerprint (dp_key dep) APPROVAL_DOMAIN k)\<rparr>)"
    using r sv' frame(6,7) by (simp_all add: reserve_answer_def)
  show "r = Inr answer \<Longrightarrow> ao_status answer = Awaiting_review"
    using r frame(8) assms(2) by (simp add: agent_status_def)
  have "sv_sink sv' = sv_sink sv2" using sv' by (simp add: reserve_answer_def split: sum.splits)
  with frame(9) r show "\<exists>q. audit_record (dp_sink dep) (sv_sink sv) (dec_digest dec) (dec_verdict dec)
       (decision_reasons dec) None None (Some p) = (q, sv_sink sv') \<and> (\<forall>e. r = Inl e \<longleftrightarrow> q = Inl e)"
    by (simp add: status_of_def)
qed

text \<open>A dispatch touches the gateway and, unless it is known to have failed, the spend window.\<close>

definition counts :: "gateway_result \<Rightarrow> bool" where
  "counts result \<longleftrightarrow> (\<exists>outcome. result = Executed outcome \<and> eo_status outcome \<noteq> Ex_failure)"

lemma service_dispatch_frame:
  assumes "service_dispatch dep sv intent dec now g = (result, sv')"
  shows "execute (dp_format dep) memory_ops (dp_rail dep) (sv_gateway sv) intent dec g now
      = (result, sv_gateway sv')"
    "sv_ledger sv' = (if counts result then window_record (sv_ledger sv) (key_from_intent intent)
        (d_value_upper_minor (i_dimensions intent)) now else sv_ledger sv)"
    "sv_pending sv' = sv_pending sv" "sv_consumed sv' = sv_consumed sv"
    "sv_reservations sv' = sv_reservations sv" "sv_now_floor sv' = sv_now_floor sv"
    "sv_sink sv' = sv_sink sv"
  using assms
  by (auto simp: service_dispatch_def Let_def counts_def split: prod.splits gateway_result.splits if_splits)

section \<open>What an entry point can do\<close>

text \<open>The state with its clock moved up to \<open>now\<close>, never back.\<close>

definition clocked :: "'s service \<Rightarrow> datetime \<Rightarrow> 's service" where
  "clocked sv now = sv\<lparr>sv_now_floor := max now (sv_now_floor sv)\<rparr>"

lemma clocked_simps [simp]:
  "sv_gateway (clocked sv now) = sv_gateway sv" "sv_ledger (clocked sv now) = sv_ledger sv"
  "sv_sink (clocked sv now) = sv_sink sv" "sv_pending (clocked sv now) = sv_pending sv"
  "sv_consumed (clocked sv now) = sv_consumed sv" "sv_reservations (clocked sv now) = sv_reservations sv"
  "sv_now_floor (clocked sv now) = max now (sv_now_floor sv)"
  by (simp_all add: clocked_def)

lemma authorize_cases:
  assumes "authorize dep sv c request now = (r, sv')" and "request_ok request"
  obtains (unmappable) "\<not> mappable request"
      "r = Inr (service_refuse dep (reservation_key_of dep c (rq_request_ref request)) now None)" "sv' = sv"
    | (held) k intent rv where "mappable request" "k = reservation_key_of dep c (rq_request_ref request)"
      "intent = completed request k now" "sv_reservations sv k = Some rv" "sv' = clocked sv now"
      "r = Inr (if rv_proposal rv = compute_proposal_digest (dp_format dep) intent then rv_answer rv
                else service_refuse dep k (max now (sv_now_floor sv))
                       (Some (compute_digest (dp_format dep) intent)))"
    | (undecided) k intent e where "mappable request" "k = reservation_key_of dep c (rq_request_ref request)"
      "intent = completed request k now" "sv_reservations sv k = None"
      "service_decide dep (clocked sv now) intent (max now (sv_now_floor sv)) = Inl e"
      "r = Inl e" "sv' = clocked sv now"
    | (review) k intent dec where "mappable request" "k = reservation_key_of dep c (rq_request_ref request)"
      "intent = completed request k now" "sv_reservations sv k = None"
      "service_decide dep (clocked sv now) intent (max now (sv_now_floor sv)) = Inr dec"
      "dec_verdict dec = Review"
      "service_hold dep (clocked sv now) request dec (compute_proposal_digest (dp_format dep) intent) k
         (principal_fingerprint dep c) (max now (sv_now_floor sv)) = (r, sv')"
    | (denied) k intent dec where "mappable request" "k = reservation_key_of dep c (rq_request_ref request)"
      "intent = completed request k now" "sv_reservations sv k = None"
      "service_decide dep (clocked sv now) intent (max now (sv_now_floor sv)) = Inr dec"
      "dec_verdict dec = Deny"
      "service_settle dep (clocked sv now) k (compute_proposal_digest (dp_format dep) intent) dec
         (principal_fingerprint dep c) (max now (sv_now_floor sv)) None None = (r, sv')"
    | (allowed) k intent dec result sv1 where "mappable request"
      "k = reservation_key_of dep c (rq_request_ref request)"
      "intent = completed request k now" "sv_reservations sv k = None"
      "service_decide dep (clocked sv now) intent (max now (sv_now_floor sv)) = Inr dec"
      "dec_verdict dec = Allow"
      "service_dispatch dep (clocked sv now) intent dec (max now (sv_now_floor sv)) None = (result, sv1)"
      "service_settle dep sv1 k (compute_proposal_digest (dp_format dep) intent) dec
         (principal_fingerprint dep c) (max now (sv_now_floor sv)) (Some result) None = (r, sv')"
proof (cases "mappable request")
  case False
  with assms unmappable show ?thesis
    by (simp add: authorize_def Let_def complete_intent_eq)
next
  case True
  let ?k = "reservation_key_of dep c (rq_request_ref request)"
  let ?i = "completed request ?k now"
  note eq = assms(1) [unfolded authorize_def Let_def complete_intent_eq [OF assms(2) reservation_key_ok]]
  show ?thesis
  proof (cases "sv_reservations sv ?k")
    case (Some rv)
    from eq True Some show ?thesis
      by (intro held [of ?k ?i rv]) (auto simp: clocked_def split: if_splits)
  next
    case None
    have run: "authorize_fresh dep (clocked sv now) request ?i ?k (principal_fingerprint dep c)
        (max now (sv_now_floor sv)) = (r, sv')"
      using eq True None by (simp add: clocked_def)
    show ?thesis
    proof (cases "service_decide dep (clocked sv now) ?i (max now (sv_now_floor sv))")
      case (Inl e)
      with run True None show ?thesis
        by (intro undecided [of ?k ?i e]) (auto simp: authorize_fresh_def)
    next
      case (Inr dec)
      note run = run [unfolded authorize_fresh_def Let_def Inr sum.case]
      show ?thesis
      proof (cases "dec_verdict dec")
        case Allow
        obtain result sv1 where d: "service_dispatch dep (clocked sv now) ?i dec
          (max now (sv_now_floor sv)) None = (result, sv1)" by fastforce
        from run Allow d show ?thesis by (intro allowed [OF True refl refl None Inr Allow d]) simp
      next
        case Review
        from run Review show ?thesis by (intro review [OF True refl refl None Inr Review]) simp
      next
        case Deny
        from run Deny show ?thesis by (intro denied [OF True refl refl None Inr Deny]) simp
      qed
    qed
  qed
qed

text \<open>The reviews a service holds are the ones \<open>_hold\<close> put there.\<close>

definition review_ok :: "'s deployment \<Rightarrow> py_str \<Rightarrow> pending_review \<Rightarrow> bool" where
  "review_ok dep a review \<longleftrightarrow>
     request_ok (pr_request review) \<and> mappable (pr_request review)
     \<and> pr_reservation_key review \<noteq> []
     \<and> is_fingerprint (pr_principal_ref review)
     \<and> a = fingerprint (dp_key dep) APPROVAL_DOMAIN (pr_reservation_key review)
     \<and> pr_approval_id review = a \<and> pa_approval_id (pr_approval review) = a
     \<and> pa_maker (pr_approval review) = Maker (fingerprint (dp_key dep) MAKER_DOMAIN (pr_principal_ref review))
     \<and> (\<forall>t. pa_proposal (pr_approval review) = compute_proposal_digest (dp_format dep)
          (completed (pr_request review) (pr_reservation_key review) t))"

definition reviews_ok :: "'s deployment \<Rightarrow> 's service \<Rightarrow> bool" where
  "reviews_ok dep sv \<longleftrightarrow>
     distinct (map fst (sv_pending sv))
     \<and> (\<forall>a review. pending_get (sv_pending sv) a = Some review \<longrightarrow> review_ok dep a review)"

lemma reviews_okD: "reviews_ok dep sv \<Longrightarrow> pending_get (sv_pending sv) a = Some review \<Longrightarrow> review_ok dep a review"
  by (simp add: reviews_ok_def)

lemma resolve_cases:
  assumes run: "resolve_review dep sv a verdict now = (r, sv')" and ok: "reviews_ok dep sv"
  obtains (unknown) "pending_get (sv_pending sv) a = None" "r = Inr (rejected_with Unknown_approval)"
      "sv' = clocked sv now"
    | (undecided) review intent e where "pending_get (sv_pending sv) a = Some review"
      "intent = completed (pr_request review) (pr_reservation_key review) (max now (sv_now_floor sv))"
      "service_decide dep (clocked sv now) intent (max now (sv_now_floor sv)) = Inl e"
      "r = Inl e" "sv' = clocked sv now"
    | (denied) review intent dec q where "pending_get (sv_pending sv) a = Some review"
      "intent = completed (pr_request review) (pr_reservation_key review) (max now (sv_now_floor sv))"
      "service_decide dep (clocked sv now) intent (max now (sv_now_floor sv)) = Inr dec"
      "dec_verdict dec = Deny"
      "service_audit dep (clocked sv now) dec None None (pr_principal_ref review) = (q, sv')"
      "r = (case q of Inl e \<Rightarrow> Inl e | Inr _ \<Rightarrow> Inr review_refused)"
    | (rejected) review intent dec reason where "pending_get (sv_pending sv) a = Some review"
      "intent = completed (pr_request review) (pr_reservation_key review) (max now (sv_now_floor sv))"
      "service_decide dep (clocked sv now) intent (max now (sv_now_floor sv)) = Inr dec"
      "dec_verdict dec \<noteq> Deny"
      "consume (sv_consumed sv) (pr_approval review) verdict (max now (sv_now_floor sv))
         = (Rejected reason, sv_consumed sv)"
      "resolve_rejected dep (clocked sv now) review a (pa_proposal (pr_approval review)) dec reason
         (max now (sv_now_floor sv)) = (r, sv')"
    | (granted) review intent dec g where "pending_get (sv_pending sv) a = Some review"
      "intent = completed (pr_request review) (pr_reservation_key review) (max now (sv_now_floor sv))"
      "service_decide dep (clocked sv now) intent (max now (sv_now_floor sv)) = Inr dec"
      "dec_verdict dec \<noteq> Deny" "a \<notin> sv_consumed sv"
      "answers_approval verdict (pr_approval review) (max now (sv_now_floor sv))"
      "g = \<lparr>g_approval_id = a, g_proposal = pa_proposal (pr_approval review), g_checker = cv_checker verdict\<rparr>"
      "resolve_granted dep ((clocked sv now)\<lparr>sv_consumed := insert a (sv_consumed sv)\<rparr>) review a intent
         (pa_proposal (pr_approval review)) dec g (max now (sv_now_floor sv)) = (r, sv')"
proof (cases "pending_get (sv_pending sv) a")
  case None
  with run unknown show ?thesis by (simp add: resolve_review_def Let_def clocked_def)
next
  case (Some review)
  note rok = reviews_okD [OF ok Some]
  let ?now = "max now (sv_now_floor sv)"
  let ?i = "completed (pr_request review) (pr_reservation_key review) ?now"
  have ci: "complete_intent (pr_request review) (pr_reservation_key review) ?now = Inr ?i"
    using rok by (simp add: review_ok_def complete_intent_eq)
  have pd: "compute_proposal_digest (dp_format dep) ?i = pa_proposal (pr_approval review)"
    using rok by (simp add: review_ok_def)
  have id: "pa_approval_id (pr_approval review) = a" using rok by (simp add: review_ok_def)
  note run = run [unfolded resolve_review_def Let_def, folded clocked_def, simplified clocked_simps Some option.case
      ci sum.case pd, simplified]
  show ?thesis
  proof (cases "service_decide dep (clocked sv now) ?i ?now")
    case (Inl e)
    with run Some show ?thesis by (intro undecided [OF Some refl Inl]) auto
  next
    case (Inr dec)
    note run = run [unfolded Inr sum.case]
    show ?thesis
    proof (cases "dec_verdict dec = Deny")
      case True
      obtain q sv1 where q: "service_audit dep (clocked sv now) dec None None (pr_principal_ref review) = (q, sv1)"
        by fastforce
      from run True q have "sv' = sv1" "r = (case q of Inl e \<Rightarrow> Inl e | Inr _ \<Rightarrow> Inr review_refused)"
        by (auto split: sum.splits)
      with q show ?thesis by (intro denied [OF Some refl Inr True]) auto
    next
      case False
      obtain consumed cs where c: "consume (sv_consumed sv) (pr_approval review) verdict ?now = (consumed, cs)"
        by fastforce
      show ?thesis
      proof (cases consumed)
        case (Rejected reason)
        with c have cs: "cs = sv_consumed sv" using consume_rejected_state by auto
        have "(clocked sv now)\<lparr>sv_consumed := sv_consumed sv\<rparr> = clocked sv now" by (simp add: clocked_def)
        with run False c Rejected cs show ?thesis
          by (intro rejected [OF Some refl Inr False, of reason]) auto
      next
        case (Granted g)
        note g = iffD1 [OF consume_granted_iff c [unfolded Granted]]
        with run False c Granted id show ?thesis
          by (intro granted [OF Some refl Inr False, of g]) auto
      qed
    qed
  qed
qed

lemma resolve_rejected_frame:
  assumes "resolve_rejected dep sv review a prop dec reason now = (r, sv')"
  shows "sv_gateway sv' = sv_gateway sv" "sv_ledger sv' = sv_ledger sv" "sv_consumed sv' = sv_consumed sv"
    "sv_now_floor sv' = sv_now_floor sv"
    "reason \<notin> TERMINAL_REJECTIONS \<Longrightarrow> sv' = sv \<and> r = Inr (rejected_with reason)"
    "r = Inl e \<Longrightarrow> sv_pending sv' = sv_pending sv \<and> sv_reservations sv' = sv_reservations sv"
    "reason \<in> TERMINAL_REJECTIONS \<Longrightarrow> r = Inr res \<Longrightarrow>
       res = rejected_with reason \<and> sv_pending sv' = pending_release (sv_pending sv) a
       \<and> sv_reservations sv' = (sv_reservations sv)(pr_reservation_key review \<mapsto>
           \<lparr>rv_proposal = prop,
            rv_answer = service_refuse dep (pr_reservation_key review) now (Some (dec_digest dec)),
            rv_approval_id = None\<rparr>)"
    "sv_sink sv' = sv_sink sv \<or> (\<exists>q. audit_record (dp_sink dep) (sv_sink sv) (dec_digest dec) (dec_verdict dec)
       (decision_reasons dec) None (Some (pr_approval_id review)) (Some (pr_principal_ref review))
         = (q, sv_sink sv'))"
proof -
  obtain q sv1 where q: "service_audit dep sv dec None (Some (pr_approval_id review)) (pr_principal_ref review) = (q, sv1)"
    by fastforce
  note frame = service_audit_frame [OF q]
  have run: "(r, sv') = (if reason \<notin> TERMINAL_REJECTIONS then (Inr (rejected_with reason), sv)
      else case q of Inl e \<Rightarrow> (Inl e, sv1)
        | Inr _ \<Rightarrow> (Inr (rejected_with reason),
            (reserve_answer sv1 (pr_reservation_key review) prop
               (service_refuse dep (pr_reservation_key review) now (Some (dec_digest dec))) None)
              \<lparr>sv_pending := pending_release (sv_pending sv) a\<rparr>))"
    using assms q frame(3) by (auto simp: resolve_rejected_def Let_def reserve_answer_def split: sum.splits if_splits)
  show "sv_gateway sv' = sv_gateway sv" "sv_ledger sv' = sv_ledger sv" "sv_consumed sv' = sv_consumed sv"
    "sv_now_floor sv' = sv_now_floor sv"
    "reason \<notin> TERMINAL_REJECTIONS \<Longrightarrow> sv' = sv \<and> r = Inr (rejected_with reason)"
    "r = Inl e \<Longrightarrow> sv_pending sv' = sv_pending sv \<and> sv_reservations sv' = sv_reservations sv"
    "reason \<in> TERMINAL_REJECTIONS \<Longrightarrow> r = Inr res \<Longrightarrow>
       res = rejected_with reason \<and> sv_pending sv' = pending_release (sv_pending sv) a
       \<and> sv_reservations sv' = (sv_reservations sv)(pr_reservation_key review \<mapsto>
           \<lparr>rv_proposal = prop,
            rv_answer = service_refuse dep (pr_reservation_key review) now (Some (dec_digest dec)),
            rv_approval_id = None\<rparr>)"
    using run frame by (auto simp: reserve_answer_def split: if_splits sum.splits)
  have "sv_sink sv' = sv_sink sv \<or> sv_sink sv' = sv_sink sv1"
    using run by (auto simp: reserve_answer_def split: if_splits sum.splits)
  with frame(7) show "sv_sink sv' = sv_sink sv \<or> (\<exists>q. audit_record (dp_sink dep) (sv_sink sv) (dec_digest dec)
       (dec_verdict dec) (decision_reasons dec) None (Some (pr_approval_id review))
       (Some (pr_principal_ref review)) = (q, sv_sink sv'))" by auto
qed

lemma resolve_rejected_pending:
  assumes "resolve_rejected dep sv review a prop dec reason now = (r, sv')"
  shows "sv_pending sv' = sv_pending sv \<or> sv_pending sv' = pending_release (sv_pending sv) a"
proof (cases "reason \<in> TERMINAL_REJECTIONS")
  case False
  from resolve_rejected_frame(5) [OF assms this] show ?thesis by simp
next
  case True
  show ?thesis
  proof (cases r)
    case (Inl e)
    from resolve_rejected_frame(6) [OF assms this] show ?thesis by simp
  next
    case (Inr res)
    from resolve_rejected_frame(7) [OF assms True this] show ?thesis by simp
  qed
qed

lemma resolve_granted_frame:
  assumes "resolve_granted dep sv review a intent prop dec g now = (r, sv')"
  obtains result sv1 q sv2 where
    "service_dispatch dep sv intent dec now (Some g) = (result, sv1)"
    "service_settle dep sv1 (pr_reservation_key review) prop dec (pr_principal_ref review) now
       (Some result) (Some (g_approval_id g)) = (q, sv2)"
    "\<And>e. r = Inl e \<longleftrightarrow> q = Inl e"
    "sv' = (case q of Inl e \<Rightarrow> sv2 | Inr _ \<Rightarrow> sv2\<lparr>sv_pending := pending_release (sv_pending sv2) a\<rparr>)"
    "\<And>res. r = Inr res \<Longrightarrow> \<exists>outcome. q = Inr outcome \<and> rs_outcome res = Some outcome \<and> rs_reason res = None
       \<and> rs_status res = (if ao_status outcome = Completed then Review_executed else Review_refused)"
proof -
  obtain result sv1 where d: "service_dispatch dep sv intent dec now (Some g) = (result, sv1)" by fastforce
  obtain q sv2 where s: "service_settle dep sv1 (pr_reservation_key review) prop dec (pr_principal_ref review) now
       (Some result) (Some (g_approval_id g)) = (q, sv2)" by fastforce
  from assms d s show ?thesis
    by (intro that [OF d s]) (auto simp: resolve_granted_def split: sum.splits)
qed

end
