(* ===== verification/Service_Runs.thy ===== *)
theory Service_Runs
  imports Service
begin

text \<open>
  Runs of the authorization service: sequences of whole calls, in any order, from any callers,
  with any clocks, any behaviour of the rail and any failures of the audit sink. The invariants
  below hold in every state of a run; the properties of the service rest on them.
\<close>

section \<open>Runs\<close>

inductive runs :: "'s deployment \<Rightarrow> 's service \<Rightarrow> 's service \<Rightarrow> bool" for dep start where
  runs_refl: "runs dep start start"
| runs_authorize: "runs dep start sv \<Longrightarrow> request_ok request \<Longrightarrow>
    authorize dep sv c request now = (r, sv') \<Longrightarrow> runs dep start sv'"
| runs_resolve: "runs dep start sv \<Longrightarrow> resolve_review dep sv a verdict now = (r, sv') \<Longrightarrow> runs dep start sv'"

definition reachable :: "'s deployment \<Rightarrow> int \<Rightarrow> 's \<Rightarrow> 's service \<Rightarrow> bool" where
  "reachable dep window_seconds sink sv \<longleftrightarrow> runs dep (service_init window_seconds sink) sv"

lemma runs_trans: "runs dep b c \<Longrightarrow> runs dep a b \<Longrightarrow> runs dep a c"
proof (induction rule: runs.induct)
  case runs_refl
  then show ?case .
next
  case (runs_authorize sv request c now r sv')
  then show ?case by (blast intro: runs.runs_authorize)
next
  case (runs_resolve sv a verdict now r sv')
  then show ?case by (blast intro: runs.runs_resolve)
qed

section \<open>Held reviews\<close>

lemma reviews_ok_cong: "sv_pending sv' = sv_pending sv \<Longrightarrow> reviews_ok dep sv \<Longrightarrow> reviews_ok dep sv'"
  by (simp add: reviews_ok_def)

lemma reviews_ok_release:
  "sv_pending sv' = pending_release (sv_pending sv) a \<Longrightarrow> reviews_ok dep sv \<Longrightarrow> reviews_ok dep sv'"
  using pending.wf_release by (auto simp: reviews_ok_def pending.get_release split: if_splits)

lemma held_review_ok:
  assumes "request_ok request" and "mappable request" and "k \<noteq> []"
    and "prop = compute_proposal_digest (dp_format dep) (completed request k t)"
  shows "review_ok dep (fingerprint (dp_key dep) APPROVAL_DOMAIN k)
    (held_review dep request dec prop k (principal_fingerprint dep c) now)"
  using assms completed_proposal [of "dp_format dep" request k t]
  by (auto simp: review_ok_def held_review_def principal_fingerprint_def)

lemma held_review_id [simp]:
  "pr_approval_id (held_review dep request dec prop k p now) = fingerprint (dp_key dep) APPROVAL_DOMAIN k"
  "pr_reservation_key (held_review dep request dec prop k p now) = k"
  by (simp_all add: held_review_def)

lemma reviews_ok_authorize:
  assumes "reviews_ok dep sv" and "request_ok request" and "authorize dep sv c request now = (r, sv')"
  shows "reviews_ok dep sv'"
  using assms(3,2)
proof (cases rule: authorize_cases)
  case (review k intent dec)
  note hold = service_hold_frame(3) [OF review(7,6)]
  have "review_ok dep (fingerprint (dp_key dep) APPROVAL_DOMAIN k)
    (held_review dep request dec (compute_proposal_digest (dp_format dep) intent) k
       (principal_fingerprint dep c) (max now (sv_now_floor sv)))"
    using review assms(2) by (intro held_review_ok) simp_all
  with assms(1) hold show ?thesis
    by (auto simp: reviews_ok_def pending.get_hold intro: pending.wf_hold)
next
  case (allowed k intent dec result sv1)
  show ?thesis
    using service_settle_frame(3) [OF allowed(8)] service_dispatch_frame(3) [OF allowed(7)] assms(1)
    by (intro reviews_ok_cong [OF _ assms(1)]) simp
next
  case (denied k intent dec)
  show ?thesis
    using service_settle_frame(3) [OF denied(7)] by (intro reviews_ok_cong [OF _ assms(1)]) simp
qed (use assms(1) in \<open>auto simp: reviews_ok_def\<close>)

lemma reviews_ok_resolve:
  assumes ok: "reviews_ok dep sv" and run: "resolve_review dep sv a verdict now = (r, sv')"
  shows "reviews_ok dep sv'"
  using run ok
proof (cases rule: resolve_cases)
  case (denied review intent dec q)
  show ?thesis
    using service_audit_frame(3) [OF denied(5)] by (intro reviews_ok_cong [OF _ ok]) simp
next
  case (rejected review intent dec reason)
  have "sv_pending sv' = sv_pending sv \<or> sv_pending sv' = pending_release (sv_pending sv) a"
    using resolve_rejected_pending [OF rejected(6)] by simp
  with ok show ?thesis using reviews_ok_cong reviews_ok_release by blast
next
  case (granted review intent dec g)
  from granted(8) show ?thesis
  proof (cases rule: resolve_granted_frame)
    case (1 result sv1 q sv2)
    have "sv_pending sv2 = sv_pending sv"
      using service_settle_frame(3) [OF 1(2)] service_dispatch_frame(3) [OF 1(1)] by simp
    then have "sv_pending sv' = sv_pending sv \<or> sv_pending sv' = pending_release (sv_pending sv) a"
      using 1(4) by (auto split: sum.splits)
    with ok show ?thesis using reviews_ok_cong reviews_ok_release by blast
  qed
qed (use ok in \<open>auto simp: reviews_ok_def\<close>)

lemma runs_reviews_ok: "runs dep start sv \<Longrightarrow> reviews_ok dep start \<Longrightarrow> reviews_ok dep sv"
  by (induction rule: runs.induct) (auto intro: reviews_ok_authorize reviews_ok_resolve)

lemma reviews_ok_init [simp]: "reviews_ok dep (service_init w s)"
  by (simp add: reviews_ok_def service_init_def pending_get_def)

lemma reachable_reviews_ok: "reachable dep w s sv \<Longrightarrow> reviews_ok dep sv"
  by (auto simp: reachable_def intro: runs_reviews_ok)

section \<open>Every way money can move\<close>

text \<open>A call either leaves gateway and ledger alone or is one dispatch of a decided intent: by
  \<open>authorize\<close> under ALLOW, by \<open>resolve\<close> under a grant.\<close>

definition money_moves ::
  "'s deployment \<Rightarrow> 's service \<Rightarrow> 's service \<Rightarrow> transaction_intent \<Rightarrow> decision \<Rightarrow> grant option \<Rightarrow> bool" where
  "money_moves dep sv sv' intent dec g \<longleftrightarrow>
     intent_ok intent
     \<and> service_decide dep sv intent (sv_now_floor sv) = Inr dec \<and> dec_verdict dec \<noteq> Deny
     \<and> (\<exists>sv0 sv1 result. sv_gateway sv0 = sv_gateway sv \<and> sv_ledger sv0 = sv_ledger sv
          \<and> service_dispatch dep sv0 intent dec (sv_now_floor sv) g = (result, sv1)
          \<and> sv_gateway sv' = sv_gateway sv1 \<and> sv_ledger sv' = sv_ledger sv1)"

lemma money_movesI:
  assumes "service_dispatch dep sv0 intent dec (sv_now_floor sv) g = (result, sv1)"
    and "sv_gateway sv0 = sv_gateway sv" and "sv_ledger sv0 = sv_ledger sv"
    and "sv_gateway sv' = sv_gateway sv1" and "sv_ledger sv' = sv_ledger sv1"
    and "intent_ok intent" and "service_decide dep sv intent (sv_now_floor sv) = Inr dec"
    and "dec_verdict dec \<noteq> Deny"
  shows "money_moves dep sv sv' intent dec g"
  using assms unfolding money_moves_def by blast

lemma authorize_money:
  assumes run: "authorize dep sv c request now = (r, sv')" and rok: "request_ok request"
  obtains (idle) "sv_gateway sv' = sv_gateway sv" "sv_ledger sv' = sv_ledger sv"
      "sv_now_floor sv \<le> sv_now_floor sv'"
    | (moves) intent dec where "money_moves dep (clocked sv now) sv' intent dec None"
      "sv_now_floor sv' = sv_now_floor (clocked sv now)"
      "intent = completed request (reservation_key_of dep c (rq_request_ref request)) now"
      "mappable request" "sv_reservations sv (i_idempotency_key intent) = None"
      "dec_verdict dec = Allow"
  using run rok
proof (cases rule: authorize_cases)
  case (review k intent dec)
  show ?thesis using service_hold_frame [OF review(7,6)] by (intro idle) simp_all
next
  case (denied k intent dec)
  show ?thesis using service_settle_frame [OF denied(7)] by (intro idle) simp_all
next
  case (allowed k intent dec result sv1)
  note frame = service_settle_frame [OF allowed(8)] service_dispatch_frame [OF allowed(7)]
  have "money_moves dep (clocked sv now) sv' intent dec None"
    by (rule money_movesI [where ?sv0.0 = "clocked sv now" and result = result and ?sv1.0 = sv1])
      (use allowed frame completed_ok [OF rok reservation_key_ok] in simp_all)
  with allowed frame show ?thesis by (intro moves) auto
qed (auto intro: idle)

lemma resolve_money:
  assumes run: "resolve_review dep sv a verdict now = (r, sv')" and ok: "reviews_ok dep sv"
  obtains (idle) "sv_gateway sv' = sv_gateway sv" "sv_ledger sv' = sv_ledger sv"
      "sv_now_floor sv \<le> sv_now_floor sv'"
    | (moves) review intent dec g where "money_moves dep (clocked sv now) sv' intent dec (Some g)"
      "sv_now_floor sv' = sv_now_floor (clocked sv now)"
      "pending_get (sv_pending sv) a = Some review" "review_ok dep a review"
      "intent = completed (pr_request review) (pr_reservation_key review) (sv_now_floor (clocked sv now))"
      "a \<notin> sv_consumed sv"
      "answers_approval verdict (pr_approval review) (sv_now_floor (clocked sv now))"
      "sv_consumed sv' = insert a (sv_consumed sv)"
      "g_proposal g = compute_proposal_digest (dp_format dep) intent"
  using run ok
proof (cases rule: resolve_cases)
  case (denied review intent dec q)
  show ?thesis using service_audit_frame [OF denied(5)] by (intro idle) simp_all
next
  case (rejected review intent dec reason)
  show ?thesis using resolve_rejected_frame [OF rejected(6)] by (intro idle) simp_all
next
  case (granted review intent dec g)
  have rok: "review_ok dep a review" using reviews_okD [OF ok granted(1)] .
  from granted(8) show ?thesis
  proof (cases rule: resolve_granted_frame)
    case (1 result sv1 q sv2)
    note frame = service_settle_frame [OF 1(2)] service_dispatch_frame [OF 1(1)]
    have sv': "sv_gateway sv' = sv_gateway sv1" "sv_ledger sv' = sv_ledger sv1"
      "sv_now_floor sv' = sv_now_floor (clocked sv now)" "sv_consumed sv' = insert a (sv_consumed sv)"
      using 1(4) frame by (auto split: sum.splits)
    have "intent_ok intent" using rok granted(2) by (auto simp: review_ok_def intro: completed_ok)
    then have "money_moves dep (clocked sv now) sv' intent dec (Some g)"
      using granted sv'
      by (intro money_movesI [OF 1(1) [folded clocked_simps(7)]]) simp_all
    moreover have "g_proposal g = compute_proposal_digest (dp_format dep) intent"
      using rok granted(2,7) by (simp add: review_ok_def)
    ultimately show ?thesis using granted rok sv' by (intro moves) auto
  qed
qed (auto intro: idle)

end
