(* ===== verification/Service_Money.thy ===== *)
theory Service_Money
  imports Service_Runs
begin

text \<open>
  The money invariants of a run: every reservation key is dispatched at most once, the spend
  window covers everything that may have moved, and no window of any placement holds more than
  the limit's cap.
\<close>

section \<open>A verdict is at least as strict as every policy\<close>

lemma combine_verdict: "combine l r = Inr c \<Longrightarrow> j_verdict c = max (j_verdict l) (j_verdict r)"
  by (auto simp: combine_def mk_judgement_def Let_def max_def split: if_splits)

lemma reduce_at_least:
  "reduce combine acc js = Inr c \<Longrightarrow> j_verdict acc \<le> j_verdict c \<and> (\<forall>j \<in> set js. j_verdict j \<le> j_verdict c)"
proof (induction js arbitrary: acc)
  case Nil
  then show ?case by simp
next
  case (Cons j js)
  then obtain a where a: "combine acc j = Inr a" "reduce combine a js = Inr c" by (auto split: sum.splits)
  from Cons.IH [OF a(2)] combine_verdict [OF a(1)] show ?case by auto
qed

lemma not_denied:
  assumes "decide fmt policies intent ctx = Inr dec" and "dec_verdict dec \<noteq> Deny" and "p \<in> set policies"
  shows "j_verdict (engine_evaluate p intent ctx) \<noteq> DENY"
proof -
  from assms(1) obtain c where c: "reduce combine neutral (policy_judgements policies intent ctx) = Inr c"
    "dec_verdict dec = verdict_map (j_verdict c)" by (auto simp: decide_def split: sum.splits)
  have "j_verdict (engine_evaluate p intent ctx) \<le> j_verdict c"
    using reduce_at_least [OF c(1)] assms(3) by simp
  with c(2) assms(2) show ?thesis by auto
qed

section \<open>What may have moved\<close>

text \<open>The dispatched intents whose recorded outcome is not a failure.\<close>

definition moved :: "memory_store gateway \<Rightarrow> transaction_intent list" where
  "moved gw = filter (\<lambda>i. \<exists>outcome. gw_store gw (i_idempotency_key i) = Some (Some outcome)
     \<and> eo_status outcome \<noteq> Ex_failure) (gw_dispatched gw)"

definition spend_of :: "transaction_intent \<Rightarrow> aggregate_key \<times> int" where
  "spend_of i = (key_from_intent i, d_value_upper_minor (i_dimensions i))"

definition entry_spend :: "window_entry \<Rightarrow> aggregate_key \<times> int" where
  "entry_spend e = (we_key e, we_amount_minor e)"

definition covers :: "window_ledger \<Rightarrow> memory_store gateway \<Rightarrow> bool" where
  "covers l gw \<longleftrightarrow> image_mset spend_of (mset (moved gw)) \<subseteq># image_mset entry_spend (mset (wl_entries l))"

lemma moved_dispatch:
  assumes "memory.sent_once gw" and "gw_store gw (i_idempotency_key intent) = None"
    and "gw_store gw' = (gw_store gw)(i_idempotency_key intent \<mapsto> Some outcome)"
    and "gw_dispatched gw' = gw_dispatched gw @ [intent]"
  shows "moved gw' = moved gw @ (if eo_status outcome = Ex_failure then [] else [intent])"
proof -
  have "\<forall>i \<in> set (gw_dispatched gw). i_idempotency_key i \<noteq> i_idempotency_key intent"
    using assms(1,2) by (auto simp: memory.sent_once_def)
  with assms(3,4) show ?thesis by (auto simp: moved_def intro!: filter_cong)
qed

lemma covers_execute:
  assumes "memory.sent_once gw" and "covers l gw"
    and run: "execute fmt memory_ops rail gw intent dec g now = (result, gw')"
  shows "covers (if counts result then window_record l (key_from_intent intent)
    (d_value_upper_minor (i_dimensions intent)) t else l) gw'"
  using TrueI run
proof (cases rule: memory.execute_cases)
  case (dispatched outcome)
  note m = moved_dispatch [OF assms(1) dispatched(2,6,7)]
  have "counts result \<longleftrightarrow> eo_status outcome \<noteq> Ex_failure"
    using dispatched(4) by (simp add: counts_def)
  with m assms(2) show ?thesis
    by (simp add: covers_def spend_of_def entry_spend_def)
next
  case (repeated recorded)
  then have "moved gw' = moved gw" by (simp add: moved_def)
  with assms(2) show ?thesis
    by (auto simp: covers_def intro: subset_mset.order_trans)
next
  case (refused reason)
  with assms(2) show ?thesis by (auto simp: counts_def)
qed

section \<open>Spend in a window\<close>

definition ledger_timed :: "window_ledger \<Rightarrow> datetime \<Rightarrow> bool" where
  "ledger_timed l t \<longleftrightarrow> (\<forall>e \<in> set (wl_entries l). 0 \<le> we_amount_minor e \<and> we_at e \<le> t)"

text \<open>When nothing was recorded after \<open>now\<close>, a window that ends later sees no more.\<close>

lemma spent_later:
  assumes "ledger_timed l now" and "now \<le> t"
  shows "spent l key t \<le> spent l key now"
  using assms by (auto simp: spent_def window_aggregate_at_def inside_window_def ledger_timed_def
      intro!: sum_list_filter_le)

definition capped :: "amount_limit \<Rightarrow> window_ledger \<Rightarrow> bool" where
  "capped lim l \<longleftrightarrow>
     (\<forall>key t. k_quote_currency key = l_quote_currency lim \<longrightarrow> spent l key t \<le> l_max_aggregate_minor lim)"

lemma capped_record:
  assumes "capped lim l" and "ledger_timed l now"
    and "k_quote_currency key = l_quote_currency lim \<Longrightarrow> spent l key now + n \<le> l_max_aggregate_minor lim"
  shows "capped lim (window_record l key n now)"
proof -
  have "spent l k t + (if k = key \<and> t - seconds (wl_window_seconds l) \<le> now \<and> now \<le> t then n else 0)
      \<le> l_max_aggregate_minor lim" if "k_quote_currency k = l_quote_currency lim" for k t
  proof (cases "k = key \<and> now \<le> t")
    case True
    with assms(3) spent_later [OF assms(2), of t key] that assms(1) show ?thesis
      by (auto simp: capped_def)
  next
    case False
    with assms(1) that show ?thesis by (auto simp: capped_def)
  qed
  then show ?thesis by (simp add: capped_def spent_record)
qed

lemma capped_by_policy:
  assumes lim: "amount_limit_ok lim" "wl_window_seconds l = l_window_seconds lim" "ledger_timed l now"
    and "amount_evaluate lim \<in> set policies" and "intent_ok intent"
    and "decide fmt policies intent \<lparr>pc_window_aggregate = Some (window_aggregate_at l (key_from_intent intent) now)\<rparr>
      = Inr dec" and "dec_verdict dec \<noteq> Deny"
    and "k_quote_currency (key_from_intent intent) = l_quote_currency lim"
  shows "spent l (key_from_intent intent) now + d_value_upper_minor (i_dimensions intent)
    \<le> l_max_aggregate_minor lim"
proof -
  let ?ctx = "\<lparr>pc_window_aggregate = Some (window_aggregate_at l (key_from_intent intent) now)\<rparr>"
  have "ledger_ok l" using lim by (auto simp: ledger_ok_def amount_limit_ok_def ledger_timed_def)
  then have ctx: "context_ok ?ctx" by (simp add: context_ok_def ledger_ok_aggregate)
  have "j_verdict (engine_evaluate (amount_evaluate lim) intent ?ctx) = amount_band lim intent ?ctx"
    by (rule amount_policy_sound(2) [OF lim(1) ctx assms(5)])
  with not_denied [OF assms(6,7,4)] have "amount_band lim intent ?ctx \<noteq> DENY" by simp
  moreover have "applicable lim intent ?ctx = Some (window_aggregate_at l (key_from_intent intent) now)"
    using lim(2) by (simp add: applicable_def window_aggregate_at_def)
  ultimately show ?thesis
    using assms(8) by (auto simp: amount_band_def prospective_def spent_def key_from_intent_def Let_def
        split: if_splits)
qed

section \<open>The invariant\<close>

definition money_ok :: "'s service \<Rightarrow> bool" where
  "money_ok sv \<longleftrightarrow>
     memory.sent_once (sv_gateway sv) \<and> covers (sv_ledger sv) (sv_gateway sv)
     \<and> ledger_timed (sv_ledger sv) (sv_now_floor sv)"

lemma ledger_timed_mono: "ledger_timed l t \<Longrightarrow> t \<le> t' \<Longrightarrow> ledger_timed l t'"
  by (auto simp: ledger_timed_def)

lemma money_ok_idle:
  assumes "money_ok sv" and "sv_gateway sv' = sv_gateway sv" and "sv_ledger sv' = sv_ledger sv"
    and "sv_now_floor sv \<le> sv_now_floor sv'"
  shows "money_ok sv'"
  using assms ledger_timed_mono by (auto simp: money_ok_def)

lemma money_ok_clocked: "money_ok sv \<Longrightarrow> money_ok (clocked sv now)"
  by (erule money_ok_idle) simp_all

lemma money_movesE:
  assumes "money_moves dep sv sv' intent dec g"
  obtains result where "intent_ok intent" "dec_verdict dec \<noteq> Deny"
    "service_decide dep sv intent (sv_now_floor sv) = Inr dec"
    "execute (dp_format dep) memory_ops (dp_rail dep) (sv_gateway sv) intent dec g (sv_now_floor sv)
      = (result, sv_gateway sv')"
    "sv_ledger sv' = (if counts result then window_record (sv_ledger sv) (key_from_intent intent)
        (d_value_upper_minor (i_dimensions intent)) (sv_now_floor sv) else sv_ledger sv)"
proof -
  from assms obtain sv0 sv1 result where *: "sv_gateway sv0 = sv_gateway sv" "sv_ledger sv0 = sv_ledger sv"
    "service_dispatch dep sv0 intent dec (sv_now_floor sv) g = (result, sv1)"
    "sv_gateway sv' = sv_gateway sv1" "sv_ledger sv' = sv_ledger sv1"
    "intent_ok intent" "dec_verdict dec \<noteq> Deny" "service_decide dep sv intent (sv_now_floor sv) = Inr dec"
    unfolding money_moves_def by blast
  from service_dispatch_frame(1,2) [OF *(3)] * show ?thesis by (intro that [of result]) simp_all
qed

lemma money_ok_moves:
  assumes "money_ok sv" and "money_moves dep sv sv' intent dec g" and "sv_now_floor sv' = sv_now_floor sv"
  shows "money_ok sv'"
  using assms(2)
proof (cases rule: money_movesE)
  case (1 result)
  have "0 \<le> d_value_upper_minor (i_dimensions intent)"
    using 1(1) by (simp add: intent_ok_def dimensions_ok_def)
  then have "ledger_timed (sv_ledger sv') (sv_now_floor sv')"
    using assms(1,3) 1(5) by (auto simp: money_ok_def ledger_timed_def)
  moreover have "memory.sent_once (sv_gateway sv')"
    using memory.execute_sent_once [OF _ 1(4)] assms(1) by (simp add: money_ok_def)
  moreover have "covers (sv_ledger sv') (sv_gateway sv')"
    using covers_execute [OF _ _ 1(4)] assms(1) 1(5) by (simp add: money_ok_def)
  ultimately show ?thesis by (simp add: money_ok_def)
qed

lemma capped_moves:
  assumes "money_ok sv" and "money_moves dep sv sv' intent dec g"
    and "amount_limit_ok lim" and "amount_evaluate lim \<in> set (dp_policies dep)"
    and "wl_window_seconds (sv_ledger sv) = l_window_seconds lim" and "capped lim (sv_ledger sv)"
  shows "capped lim (sv_ledger sv')"
  using assms(2)
proof (cases rule: money_movesE)
  case (1 result)
  have timed: "ledger_timed (sv_ledger sv) (sv_now_floor sv)" using assms(1) by (simp add: money_ok_def)
  have "capped lim (window_record (sv_ledger sv) (key_from_intent intent)
      (d_value_upper_minor (i_dimensions intent)) (sv_now_floor sv))"
    by (rule capped_record [OF assms(6) timed],
        rule capped_by_policy [OF assms(3,5) timed assms(4) 1(1) _ 1(2)])
      (use 1(3) in \<open>simp_all add: service_decide_def Let_def\<close>)
  with 1(5) assms(6) show ?thesis by simp
qed

lemma window_seconds_moves:
  "money_moves dep sv sv' intent dec g \<Longrightarrow> wl_window_seconds (sv_ledger sv') = wl_window_seconds (sv_ledger sv)"
  by (erule money_movesE) simp

text \<open>One call.\<close>

lemma call_money:
  assumes "money_ok sv"
    and "(\<exists>c request now r. request_ok request \<and> authorize dep sv c request now = (r, sv'))
      \<or> (reviews_ok dep sv \<and> (\<exists>a verdict now r. resolve_review dep sv a verdict now = (r, sv')))"
  shows "money_ok sv' \<and> wl_window_seconds (sv_ledger sv') = wl_window_seconds (sv_ledger sv)
    \<and> (amount_limit_ok lim \<and> amount_evaluate lim \<in> set (dp_policies dep)
       \<and> wl_window_seconds (sv_ledger sv) = l_window_seconds lim \<and> capped lim (sv_ledger sv)
       \<longrightarrow> capped lim (sv_ledger sv'))"
proof -
  have "(sv_gateway sv' = sv_gateway sv \<and> sv_ledger sv' = sv_ledger sv \<and> sv_now_floor sv \<le> sv_now_floor sv')
    \<or> (\<exists>now intent dec g. money_moves dep (clocked sv now) sv' intent dec g
        \<and> sv_now_floor sv' = sv_now_floor (clocked sv now))"
    using assms(2)
  proof (elim disjE exE conjE)
    fix c request now r assume "authorize dep sv c request now = (r, sv')" "request_ok request"
    then show ?thesis by (cases rule: authorize_money) blast+
  next
    fix a verdict now r assume "resolve_review dep sv a verdict now = (r, sv')" "reviews_ok dep sv"
    then show ?thesis by (cases rule: resolve_money) blast+
  qed
  then show ?thesis
  proof (elim disjE exE conjE)
    assume "sv_gateway sv' = sv_gateway sv" "sv_ledger sv' = sv_ledger sv" "sv_now_floor sv \<le> sv_now_floor sv'"
    then show ?thesis using money_ok_idle [OF assms(1)] by simp
  next
    fix now intent dec g
    assume m: "money_moves dep (clocked sv now) sv' intent dec g" "sv_now_floor sv' = sv_now_floor (clocked sv now)"
    note ok = money_ok_clocked [OF assms(1), of now]
    from money_ok_moves [OF ok m] window_seconds_moves [OF m(1)] capped_moves [OF ok m(1), of lim]
    show ?thesis by simp
  qed
qed

lemma runs_money:
  "runs dep start sv \<Longrightarrow> reviews_ok dep start \<Longrightarrow> money_ok start \<Longrightarrow>
     money_ok sv \<and> wl_window_seconds (sv_ledger sv) = wl_window_seconds (sv_ledger start)
     \<and> (amount_limit_ok lim \<and> amount_evaluate lim \<in> set (dp_policies dep)
       \<and> wl_window_seconds (sv_ledger start) = l_window_seconds lim \<and> capped lim (sv_ledger start)
       \<longrightarrow> capped lim (sv_ledger sv))"
proof (induction rule: runs.induct)
  case runs_refl
  then show ?case by simp
next
  case (runs_authorize sv request c now r sv')
  note IH = runs_authorize.IH [OF runs_authorize.prems]
  have call: "\<exists>c request now r. request_ok request \<and> authorize dep sv c request now = (r, sv')"
    using runs_authorize(2,3) by blast
  from call_money [of sv dep sv' lim, OF _ disjI1 [OF call]] IH show ?case by simp
next
  case (runs_resolve sv a verdict now r sv')
  note IH = runs_resolve.IH [OF runs_resolve.prems]
  have call: "reviews_ok dep sv \<and> (\<exists>a verdict now r. resolve_review dep sv a verdict now = (r, sv'))"
    using runs_resolve(2) runs_reviews_ok [OF runs_resolve(1) runs_resolve.prems(1)] by blast
  from call_money [of sv dep sv' lim, OF _ disjI2 [OF call]] IH show ?case by simp
qed

lemma money_ok_init [simp]: "money_ok (service_init w s)"
  by (simp add: money_ok_def service_init_def memory.sent_once_def covers_def moved_def ledger_timed_def)

lemma capped_init: "amount_limit_ok lim \<Longrightarrow> capped lim (sv_ledger (service_init w s))"
  by (simp add: capped_def service_init_def spent_def window_aggregate_at_def inside_window_def amount_limit_ok_def)

lemma reachable_money: "reachable dep w s sv \<Longrightarrow> money_ok sv \<and> wl_window_seconds (sv_ledger sv) = w"
  using runs_money [of dep "service_init w s" sv demo_limit]
  by (simp add: reachable_def) (simp add: service_init_def)

lemma reachable_capped:
  "reachable dep (l_window_seconds lim) s sv \<Longrightarrow> amount_limit_ok lim \<Longrightarrow>
     amount_evaluate lim \<in> set (dp_policies dep) \<Longrightarrow> capped lim (sv_ledger sv)"
  using runs_money [of dep "service_init (l_window_seconds lim) s" sv lim] capped_init
  by (simp add: reachable_def) (simp add: service_init_def)

end
