(* ===== verification/Service_Properties.thy ===== *)
theory Service_Properties
  imports Service_Money
begin

text \<open>
  The properties of the authorization service: who may move money, how often and how much, what
  a settled handle and a declined review promise, and what the ledger of receipts holds.
\<close>

section \<open>Settled handles\<close>

text \<open>A handle is settled when it has an answer and no open review belongs to it.\<close>

definition settled :: "'s service \<Rightarrow> py_str \<Rightarrow> bool" where
  "settled sv k \<longleftrightarrow>
     sv_reservations sv k \<noteq> None
     \<and> (\<forall>a review. pending_get (sv_pending sv) a = Some review \<longrightarrow> pr_reservation_key review \<noteq> k)"

text \<open>The intents that were sent under a key.\<close>

definition sent_under :: "py_str \<Rightarrow> 's service \<Rightarrow> transaction_intent list" where
  "sent_under k sv = filter (\<lambda>i. i_idempotency_key i = k) (gw_dispatched (sv_gateway sv))"

definition same_for :: "py_str \<Rightarrow> 's service \<Rightarrow> 's service \<Rightarrow> bool" where
  "same_for k sv sv' \<longleftrightarrow> sv_reservations sv' k = sv_reservations sv k \<and> sent_under k sv' = sent_under k sv"

lemma execute_other_key:
  assumes "execute fmt memory_ops rail gw intent dec g now = (r, gw')" and "i_idempotency_key intent \<noteq> k"
  shows "filter (\<lambda>i. i_idempotency_key i = k) (gw_dispatched gw')
    = filter (\<lambda>i. i_idempotency_key i = k) (gw_dispatched gw)"
  using TrueI assms(1) by (cases rule: memory.execute_cases) (use assms(2) in auto)

lemma settled_cong:
  assumes "settled sv k" and "sv_pending sv' = sv_pending sv" and "same_for k sv sv'"
  shows "settled sv' k \<and> same_for k sv sv'"
  using assms by (simp add: settled_def same_for_def)

lemma settled_release:
  assumes "settled sv k" and "sv_pending sv' = pending_release (sv_pending sv) a" and "same_for k sv sv'"
  shows "settled sv' k \<and> same_for k sv sv'"
  using assms by (auto simp: settled_def same_for_def pending.get_release split: if_splits)

lemma settled_authorize:
  assumes st: "settled sv k" and rok: "request_ok request" and run: "authorize dep sv c request now = (r, sv')"
  shows "settled sv' k \<and> same_for k sv sv'"
  using run rok
proof (cases rule: authorize_cases)
  case (review k' intent dec)
  have ne: "k' \<noteq> k" using review(4) st by (auto simp: settled_def)
  note frame = service_hold_frame [OF review(7,6)]
  have "sv_reservations sv' k = sv_reservations sv k"
    using frame(6,7) ne by (cases r) auto
  with frame ne st show ?thesis
    by (auto simp: settled_def same_for_def sent_under_def pending.get_hold split: if_splits)
next
  case (denied k' intent dec)
  have ne: "k' \<noteq> k" using denied(4) st by (auto simp: settled_def)
  note frame = service_settle_frame [OF denied(7)]
  have "sv_reservations sv' k = sv_reservations sv k"
    using frame(6,7) ne by (cases r) auto
  with frame st show ?thesis by (intro settled_cong) (simp_all add: same_for_def sent_under_def)
next
  case (allowed k' intent dec result sv1)
  have ne: "k' \<noteq> k" using allowed(4) st by (auto simp: settled_def)
  note frame = service_settle_frame [OF allowed(8)] and d = service_dispatch_frame [OF allowed(7)]
  have "sv_reservations sv' k = sv_reservations sv k"
    using frame(6,7) d ne by (cases r) auto
  moreover have "sent_under k sv' = sent_under k sv"
    using execute_other_key [OF d(1), of k] frame allowed(3) ne by (simp add: sent_under_def)
  ultimately show ?thesis using frame d st by (intro settled_cong) (simp_all add: same_for_def)
next
  case (held k' intent rv)
  with st show ?thesis by (intro settled_cong) (simp_all add: same_for_def sent_under_def)
next
  case unmappable
  with st show ?thesis by (simp add: same_for_def)
next
  case (undecided k' intent e)
  with st show ?thesis by (intro settled_cong) (simp_all add: same_for_def sent_under_def)
qed

lemma settled_resolve:
  assumes st: "settled sv k" and ok: "reviews_ok dep sv" and run: "resolve_review dep sv a verdict now = (r, sv')"
  shows "settled sv' k \<and> same_for k sv sv'"
  using run ok
proof (cases rule: resolve_cases)
  case unknown
  with st show ?thesis by (intro settled_cong) (simp_all add: same_for_def sent_under_def)
next
  case (undecided review intent e)
  with st show ?thesis by (intro settled_cong) (simp_all add: same_for_def sent_under_def)
next
  case (denied review intent dec q)
  note frame = service_audit_frame [OF denied(5)]
  with st show ?thesis by (intro settled_cong) (simp_all add: same_for_def sent_under_def)
next
  case (rejected review intent dec reason)
  have ne: "pr_reservation_key review \<noteq> k" using rejected(1) st by (simp add: settled_def)
  note frame = resolve_rejected_frame [OF rejected(6)]
  have "sv_reservations sv' k = sv_reservations sv k"
  proof (cases "reason \<in> TERMINAL_REJECTIONS")
    case False
    from frame(5) [OF this] show ?thesis by simp
  next
    case True
    show ?thesis
    proof (cases r)
      case (Inl e)
      from frame(6) [OF this] show ?thesis by simp
    next
      case (Inr res)
      from frame(7) [OF True this] ne show ?thesis by simp
    qed
  qed
  then have same: "same_for k sv sv'" using frame(1) by (simp add: same_for_def sent_under_def)
  from resolve_rejected_pending [OF rejected(6)] show ?thesis
    using settled_cong [OF st _ same] settled_release [OF st _ same] by auto
next
  case (granted review intent dec g)
  have ne: "pr_reservation_key review \<noteq> k" using granted(1) st by (simp add: settled_def)
  from granted(8) show ?thesis
  proof (cases rule: resolve_granted_frame)
    case (1 result sv1 q sv2)
    note frame = service_settle_frame [OF 1(2)] and d = service_dispatch_frame [OF 1(1)]
    have "sv_reservations sv2 k = sv_reservations sv k"
      using frame(6,7) d ne by (cases q) auto
    moreover have "sent_under k sv2 = sent_under k sv"
      using execute_other_key [OF d(1), of k] frame granted(2) ne by (simp add: sent_under_def)
    ultimately have same: "same_for k sv sv2" by (simp add: same_for_def)
    have p: "sv_pending sv2 = sv_pending sv" using frame d by simp
    show ?thesis
    proof (cases q)
      case (Inl e)
      with 1(4) settled_cong [OF st p same] show ?thesis by simp
    next
      case (Inr outcome)
      have "sv_pending sv' = pending_release (sv_pending sv) a" "same_for k sv sv'"
        using 1(4) Inr p same by (simp_all add: same_for_def sent_under_def)
      with settled_release [OF st] show ?thesis by blast
    qed
  qed
qed

lemma same_for_trans: "same_for k a b \<Longrightarrow> same_for k b c \<Longrightarrow> same_for k a c"
  by (simp add: same_for_def)

lemma runs_settled:
  "runs dep start sv \<Longrightarrow> reviews_ok dep start \<Longrightarrow> settled start k \<Longrightarrow> settled sv k \<and> same_for k start sv"
proof (induction rule: runs.induct)
  case runs_refl
  then show ?case by (simp add: same_for_def)
next
  case (runs_authorize sv request c now r sv')
  with settled_authorize [OF _ runs_authorize(2,3), of k] show ?case by (blast intro: same_for_trans)
next
  case (runs_resolve sv a verdict now r sv')
  from runs_reviews_ok [OF runs_resolve(1) runs_resolve.prems(1)] settled_resolve [OF _ _ runs_resolve(2), of k]
    runs_resolve.IH [OF runs_resolve.prems]
  show ?case by (blast intro: same_for_trans)
qed

text \<open>All open reviews of one key sit under one id, so releasing it settles the key.\<close>

lemma release_settles:
  assumes ok: "reviews_ok dep sv" and review: "pending_get (sv_pending sv) a = Some review"
    and "sv_pending sv' = pending_release (sv_pending sv) a"
    and "sv_reservations sv' (pr_reservation_key review) \<noteq> None"
  shows "settled sv' (pr_reservation_key review)"
proof -
  have "pr_reservation_key other \<noteq> pr_reservation_key review"
    if "pending_get (sv_pending sv) b = Some other" "b \<noteq> a" for b other
    using reviews_okD [OF ok that(1)] reviews_okD [OF ok review] that(2) by (auto simp: review_ok_def)
  with assms show ?thesis by (auto simp: settled_def pending.get_release split: if_splits)
qed

lemma declined_settles:
  assumes ok: "reviews_ok dep sv" and "pending_get (sv_pending sv) a = Some review"
    and "resolve_review dep sv a verdict now = (Inr res, sv1)"
    and "rs_reason res \<in> {Some Not_approved, Some Expired}"
  shows "settled sv1 (pr_reservation_key review)
    \<and> sent_under (pr_reservation_key review) sv1 = sent_under (pr_reservation_key review) sv
    \<and> (\<exists>rv. sv_reservations sv1 (pr_reservation_key review) = Some rv
         \<and> ao_status (rv_answer rv) = Answer_refused)"
  using assms(3) ok
proof (cases rule: resolve_cases)
  case (rejected review' intent dec reason)
  have same: "review' = review" using rejected(1) assms(2) by simp
  note frame = resolve_rejected_frame [OF rejected(6)]
  show ?thesis
  proof (cases "reason \<in> TERMINAL_REJECTIONS")
    case True
    from frame(7) [OF True refl] same
    have sv1: "sv_pending sv1 = pending_release (sv_pending sv) a"
      "\<exists>rv. sv_reservations sv1 (pr_reservation_key review) = Some rv \<and> ao_status (rv_answer rv) = Answer_refused"
      by (simp_all add: service_refuse_def Let_def)
    then have "sv_reservations sv1 (pr_reservation_key review) \<noteq> None" by auto
    with release_settles [OF ok assms(2) sv1(1)] sv1(2) frame(1) show ?thesis by (simp add: sent_under_def)
  next
    case False
    from frame(5) [OF this] assms(4) False show ?thesis by (simp add: TERMINAL_REJECTIONS_def)
  qed
next
  case unknown
  with assms(4) show ?thesis by simp
next
  case (denied review' intent dec q)
  with assms(4) show ?thesis by (simp split: sum.splits)
next
  case (granted review' intent dec g)
  from granted(8) show ?thesis
  proof (cases rule: resolve_granted_frame)
    case (1 result sv1' q sv2')
    from 1(5) [OF refl] assms(4) show ?thesis by auto
  qed
qed (use assms(4) in simp_all)

section \<open>The ledger of receipts\<close>

text \<open>A call writes at most one receipt.\<close>

definition sink_step :: "'s deployment \<Rightarrow> 's service \<Rightarrow> 's service \<Rightarrow> bool" where
  "sink_step dep sv sv' \<longleftrightarrow>
     sv_sink sv' = sv_sink sv
     \<or> (\<exists>d v rs st a p q. audit_record (dp_sink dep) (sv_sink sv) d v rs st a p = (q, sv_sink sv'))"

lemma sink_stepI: "audit_record (dp_sink dep) (sv_sink sv) d v rs st a p = (q, sv_sink sv') \<Longrightarrow> sink_step dep sv sv'"
  unfolding sink_step_def by blast

lemma sink_step_same: "sv_sink sv' = sv_sink sv \<Longrightarrow> sink_step dep sv sv'"
  by (simp add: sink_step_def)

lemma authorize_sink:
  assumes "authorize dep sv c request now = (r, sv')" and "request_ok request"
  shows "sink_step dep sv sv'"
  using assms
proof (cases rule: authorize_cases)
  case (review k intent dec)
  from service_hold_frame(9) [OF review(7,6)] show ?thesis by (auto intro: sink_stepI)
next
  case (denied k intent dec)
  from service_settle_frame(9) [OF denied(7)] show ?thesis by (auto intro: sink_stepI)
next
  case (allowed k intent dec result sv1)
  from service_settle_frame(9) [OF allowed(8)] service_dispatch_frame(7) [OF allowed(7)]
  show ?thesis by (auto intro: sink_stepI)
qed (auto intro: sink_step_same)

lemma resolve_sink:
  assumes "resolve_review dep sv a verdict now = (r, sv')" and "reviews_ok dep sv"
  shows "sink_step dep sv sv'"
  using assms
proof (cases rule: resolve_cases)
  case (denied review intent dec q)
  from service_audit_frame(7) [OF denied(5)] show ?thesis by (auto intro: sink_stepI)
next
  case (rejected review intent dec reason)
  from resolve_rejected_frame(8) [OF rejected(6)] show ?thesis by (auto intro: sink_stepI sink_step_same)
next
  case (granted review intent dec g)
  from granted(8) show ?thesis
  proof (cases rule: resolve_granted_frame)
    case (1 result sv1 q sv2)
    have "sv_sink sv' = sv_sink sv2" using 1(4) by (auto split: sum.splits)
    with service_settle_frame(9) [OF 1(2)] service_dispatch_frame(7) [OF 1(1)]
    show ?thesis by (auto intro: sink_stepI)
  qed
qed (auto intro: sink_step_same)

lemma sink_step_chained:
  assumes contract: "audit_sink (dp_sink dep) usable"
    and "audit_sink.chained (dp_sink dep) usable (sv_sink sv)" and "sink_step dep sv sv'"
  shows "audit_sink.chained (dp_sink dep) usable (sv_sink sv')
    \<and> prefix (sk_entries (dp_sink dep) (sv_sink sv)) (sk_entries (dp_sink dep) (sv_sink sv'))"
  using assms(3) unfolding sink_step_def
proof (elim disjE exE)
  assume "sv_sink sv' = sv_sink sv"
  with assms(2) show ?thesis by simp
next
  fix d v rs st a p q
  assume rec: "audit_record (dp_sink dep) (sv_sink sv) d v rs st a p = (q, sv_sink sv')"
  from audit_sink.record_cases(1,3) [OF contract assms(2) rec] show ?thesis by (auto simp: prefix_def)
qed

lemma runs_chained:
  assumes contract: "audit_sink (dp_sink dep) usable"
  shows "runs dep start sv \<Longrightarrow> reviews_ok dep start \<Longrightarrow>
    audit_sink.chained (dp_sink dep) usable (sv_sink start) \<Longrightarrow>
    audit_sink.chained (dp_sink dep) usable (sv_sink sv)
    \<and> prefix (sk_entries (dp_sink dep) (sv_sink start)) (sk_entries (dp_sink dep) (sv_sink sv))"
proof (induction rule: runs.induct)
  case runs_refl
  then show ?case by simp
next
  case (runs_authorize sv request c now r sv')
  with sink_step_chained [OF contract _ authorize_sink [OF runs_authorize(3,2)]]
  show ?case by (blast intro: prefix_order.trans)
next
  case (runs_resolve sv a verdict now r sv')
  with sink_step_chained [OF contract _ resolve_sink [OF runs_resolve(2)
      runs_reviews_ok [OF runs_resolve(1) runs_resolve.prems(1)]]]
  show ?case by (blast intro: prefix_order.trans)
qed

section \<open>A deployment to run\<close>

definition demo_request :: "int \<Rightarrow> authorization_request" where
  "demo_request amount =
     \<lparr>rq_action = Act_payment, rq_rail = Rail_card, rq_currency = USD, rq_amount_minor = amount,
      rq_reversibility = Reversible, rq_counterparty_ref = ''fp:'' @ replicate 64 (CHR ''a''),
      rq_source_account_ref = ''fp:'' @ replicate 64 (CHR ''b''),
      rq_request_ref = ''fp:'' @ replicate 64 (CHR ''c'')\<rparr>"

lemma demo_request_ok: "0 \<le> amount \<Longrightarrow> request_ok (demo_request amount) \<and> mappable (demo_request amount)"
  by (simp add: demo_request_def request_ok_def mappable_def PAYMENT_ACTIONS_def is_fingerprint_def
      hex64_def is_hex_char_def)

definition demo_deployment :: "'s sink_ops \<Rightarrow> 's deployment" where
  "demo_deployment sink =
     \<lparr>dp_format = int_str, dp_policies = deployment_policies demo_limit,
      dp_rail = (\<lambda>_ _. Rail_returns \<lparr>rr_status = Ex_success, rr_reference = None\<rparr>),
      dp_sink = sink, dp_key = replicate 32 0\<rparr>"

lemma demo_deployment_simps [simp]:
  "dp_format (demo_deployment sink) = int_str" "dp_sink (demo_deployment sink) = sink"
  "dp_key (demo_deployment sink) = replicate 32 0"
  "dp_policies (demo_deployment sink) = deployment_policies demo_limit"
  by (simp_all add: demo_deployment_def)

abbreviation demo_start :: "'s \<Rightarrow> 's service" where
  "demo_start \<equiv> service_init 3600"

definition demo_key :: "py_str" where
  "demo_key = fingerprint (replicate 32 0) PRINCIPAL_DOMAIN
     (''agent'' @ [CHR 0x00] @ rq_request_ref (demo_request 0))"

lemma demo_key_of: "reservation_key_of (demo_deployment sink) ''agent'' (rq_request_ref (demo_request amount)) = demo_key"
  by (simp add: reservation_key_of_def demo_deployment_def demo_key_def demo_request_def)

lemma demo_limit_ok [simp]: "amount_limit_ok demo_limit"
  by (simp add: demo_limit_def amount_limit_ok_def)

lemma demo_decide:
  assumes "k \<noteq> []" and "0 \<le> amount"
  shows "\<exists>dec. service_decide (demo_deployment sink) (clocked (demo_start snk) now) (completed (demo_request amount) k now) now = Inr dec
    \<and> dec_digest dec = compute_digest int_str (completed (demo_request amount) k now)
    \<and> dec_verdict dec = (if 50000 < amount then Deny else if 20000 < amount then Review else Allow)"
proof -
  let ?i = "completed (demo_request amount) k now"
  let ?l = "sv_ledger (clocked (demo_start snk) now)"
  let ?c = "\<lparr>pc_window_aggregate = Some (window_aggregate_at ?l (key_from_intent ?i) now)\<rparr>"
  have "intent_ok ?i" using demo_request_ok [OF assms(2)] assms(1) by (intro completed_ok) simp_all
  moreover have "context_ok ?c"
    by (simp add: context_ok_def service_init_def window_aggregate_at_def inside_window_def window_aggregate_ok_def)
  moreover have "deployment_verdict demo_limit ?i ?c
      = (if 50000 < amount then Deny else if 20000 < amount then Review else Allow)"
    by (simp add: deployment_verdict_def amount_band_def applicable_def prospective_def service_init_def
        window_aggregate_at_def inside_window_def demo_limit_def completed_def demo_request_def)
  ultimately obtain d where d: "decide int_str (deployment_policies demo_limit) ?i ?c = Inr d"
    "dec_verdict d = (if 50000 < amount then Deny else if 20000 < amount then Review else Allow)"
    "dec_digest d = compute_digest int_str ?i"
    using decide_deployment [OF demo_limit_ok, of ?c ?i int_str] by auto
  then have "service_decide (demo_deployment sink) (clocked (demo_start snk) now) ?i now = Inr d"
    by (simp add: service_decide_def Let_def demo_deployment_def)
  with d(2,3) show ?thesis by blast
qed

text \<open>An allowed, fresh proposal is dispatched, whatever the sink then does.\<close>

lemma authorize_allowed:
  assumes rok: "request_ok request" "mappable request"
    and k: "k = reservation_key_of dep c (rq_request_ref request)"
    and fresh: "sv_reservations sv k = None" "gw_store (sv_gateway sv) k = None" "sv_now_floor sv \<le> now"
    and dec: "service_decide dep (clocked sv now) (completed request k now) now = Inr dec" "dec_verdict dec = Allow"
    and run: "authorize dep sv c request now = (r, sv')"
  obtains outcome q where
    "outcome = outcome_of (dec_digest dec)
       (dp_rail dep (gw_dispatched (sv_gateway sv)) (completed request k now))"
    "gw_dispatched (sv_gateway sv') = gw_dispatched (sv_gateway sv) @ [completed request k now]"
    "audit_record (dp_sink dep) (sv_sink sv) (dec_digest dec) Allow (decision_reasons dec)
       (Some (eo_status outcome)) None (Some (principal_fingerprint dep c)) = (q, sv_sink sv')"
    "\<forall>e. r = Inl e \<longleftrightarrow> q = Inl e"
    "\<And>answer. r = Inr answer \<Longrightarrow>
       ao_status answer = (if eo_status outcome = Ex_success then Completed else Answer_refused)"
    "\<And>e. r = Inl e \<Longrightarrow> sv_reservations sv' k = None"
  using run rok(1)
proof (cases rule: authorize_cases)
  case (allowed k' intent dec' result sv1)
  have k': "k' = k" "intent = completed request k now" "dec' = dec" and now: "max now (sv_now_floor sv) = now"
    using allowed(2,3,5) k fresh(3) dec(1) by (auto simp: max_def)
  note frame = service_settle_frame [OF allowed(8)] and d = service_dispatch_frame [OF allowed(7)]
  have dig: "dec_digest dec = compute_digest (dp_format dep) intent"
    using dec(1) k' by (auto simp: service_decide_def Let_def dest: decide_digest)
  have perm: "permitted (dp_format dep) intent dec None now"
    using dec(2) dig k' by (simp add: permitted_def)
  have exec: "execute (dp_format dep) memory_ops (dp_rail dep) (sv_gateway sv) intent dec None now
      = (result, sv_gateway sv1)"
    using d(1) now k' by simp
  from TrueI exec show ?thesis
  proof (cases rule: memory.execute_cases)
    case (dispatched outcome)
    have st: "status_of (Some result) = Some (eo_status outcome)" using dispatched(4) by (simp add: status_of_def)
    from frame(9) obtain q where q: "audit_record (dp_sink dep) (sv_sink sv) (dec_digest dec) Allow
        (decision_reasons dec) (Some (eo_status outcome)) None (Some (principal_fingerprint dep c)) = (q, sv_sink sv')"
      "\<forall>e. r = Inl e \<longleftrightarrow> q = Inl e"
      using st d(7) k' dec(2) by auto
    have ans: "ao_status answer = (if eo_status outcome = Ex_success then Completed else Answer_refused)"
      if "r = Inr answer" for answer
      using frame(8) [OF that] st dec(2) k' by (simp add: agent_status_def)
    have res: "sv_reservations sv' k = None" if "r = Inl e" for e
      using frame(6) [OF that] d(5) fresh(1) by simp
    show ?thesis
      by (rule that [OF _ _ q ans res]) (use dispatched frame k' in simp_all)
  next
    case (repeated recorded)
    with fresh(2) k' show ?thesis by simp
  next
    case (refused reason)
    with perm show ?thesis by simp
  qed
next
  case unmappable
  with rok show ?thesis by simp
next
  case (held k' intent rv)
  with k fresh show ?thesis by simp
next
  case (undecided k' intent e)
  with k dec fresh(3) show ?thesis by (simp add: max_def)
next
  case (review k' intent dec')
  with k dec fresh(3) show ?thesis by (auto simp: max_def)
next
  case (denied k' intent dec')
  with k dec fresh(3) show ?thesis by (auto simp: max_def)
qed

lemma demo_start_simps [simp]:
  "sv_reservations (demo_start s) = Map.empty" "gw_store (sv_gateway (demo_start s)) = Map.empty"
  "sv_now_floor (demo_start s) = DATETIME_MIN" "gw_dispatched (sv_gateway (demo_start s)) = []"
  "sv_sink (demo_start s) = s" "sv_pending (demo_start s) = []" "sv_consumed (demo_start s) = {}"
  by (simp_all add: service_init_def maker_checker_init_def)

lemma demo_sent:
  obtains r sv q where "authorize (demo_deployment sink) (demo_start s) ''agent'' (demo_request 5000) 0 = (r, sv)"
    "gw_dispatched (sv_gateway sv) = [completed (demo_request 5000) demo_key 0]"
    "reachable (demo_deployment sink) 3600 s sv"
    "\<forall>e. r = Inl e \<longleftrightarrow> q = Inl e"
    "\<And>answer. r = Inr answer \<Longrightarrow> ao_status answer = Completed"
    "\<exists>reasons. audit_record sink s (compute_digest int_str (completed (demo_request 5000) demo_key 0)) Allow
       reasons (Some Ex_success) None (Some (principal_fingerprint (demo_deployment sink) ''agent''))
         = (q, sv_sink sv)"
proof -
  obtain r sv where run: "authorize (demo_deployment sink) (demo_start s) ''agent'' (demo_request 5000) 0 = (r, sv)"
    by fastforce
  have rok: "request_ok (demo_request 5000)" "mappable (demo_request 5000)" using demo_request_ok by auto
  have nonempty: "demo_key \<noteq> []" by (simp add: demo_key_def)
  obtain dec where dec: "service_decide (demo_deployment sink) (clocked (demo_start s) 0)
      (completed (demo_request 5000) demo_key 0) 0 = Inr dec" "dec_verdict dec = Allow"
    "dec_digest dec = compute_digest int_str (completed (demo_request 5000) demo_key 0)"
    using demo_decide [OF nonempty, of 5000 sink s 0] by auto
  have floor: "sv_now_floor (demo_start s) \<le> 0" by (simp add: DATETIME_MIN_def seconds_def)
  have "runs (demo_deployment sink) (demo_start s) sv"
    using runs.runs_authorize [OF runs.runs_refl rok(1) run] .
  then have reach: "reachable (demo_deployment sink) 3600 s sv" by (simp add: reachable_def)
  show ?thesis
  proof (rule authorize_allowed [OF rok demo_key_of [symmetric] _ _ floor dec(1,2) run])
    fix outcome q
    assume o: "outcome = outcome_of (dec_digest dec) (dp_rail (demo_deployment sink)
        (gw_dispatched (sv_gateway (demo_start s))) (completed (demo_request 5000) demo_key 0))"
      and "gw_dispatched (sv_gateway sv)
        = gw_dispatched (sv_gateway (demo_start s)) @ [completed (demo_request 5000) demo_key 0]"
      and "audit_record (dp_sink (demo_deployment sink)) (sv_sink (demo_start s)) (dec_digest dec) Allow
        (decision_reasons dec) (Some (eo_status outcome)) None
        (Some (principal_fingerprint (demo_deployment sink) ''agent'')) = (q, sv_sink sv)"
      and "\<forall>e. r = Inl e \<longleftrightarrow> q = Inl e"
      and "\<And>answer. r = Inr answer \<Longrightarrow>
        ao_status answer = (if eo_status outcome = Ex_success then Completed else Answer_refused)"
    moreover have "eo_status outcome = Ex_success" using o by (simp add: demo_deployment_def)
    ultimately show ?thesis
      by (intro that [OF run _ reach]) (auto simp: dec(3) demo_deployment_def)
  qed simp_all
qed

lemma execute_dispatches_first:
  assumes "permitted fmt intent dec g now" and "gw_store gw (i_idempotency_key intent) = None"
    and "execute fmt memory_ops rail gw intent dec g now = (result, gw')"
  shows "gw_dispatched gw' = gw_dispatched gw @ [intent]"
  using TrueI assms(3) by (cases rule: memory.execute_cases) (use assms(1,2) in auto)

lemma demo_reached:
  obtains sv :: "memory_sink service" where "reachable (demo_deployment memory_sink_ops) 3600 [] sv"
    "gw_dispatched (sv_gateway sv) = [completed (demo_request 5000) demo_key 0]"
  by (rule demo_sent [of memory_sink_ops "[]"]) blast

text \<open>A proposal of 300.00 is held for review, and a checker may approve or decline it.\<close>

definition demo_approval :: py_str where
  "demo_approval = fingerprint (replicate 32 0) APPROVAL_DOMAIN demo_key"

definition demo_answer :: "bool \<Rightarrow> checker_verdict" where
  "demo_answer yes =
     \<lparr>cv_checker = Checker ''ann'', cv_approval_id = demo_approval,
      cv_proposal = compute_proposal_digest int_str (completed (demo_request 30000) demo_key 0),
      cv_approved = yes\<rparr>"

lemma service_decide_cong: "sv_ledger sv = sv_ledger sv' \<Longrightarrow> service_decide dep sv intent now = service_decide dep sv' intent now"
  by (simp add: service_decide_def)

lemma demo_held:
  obtains sv :: "memory_sink service" and review where
    "reachable (demo_deployment memory_sink_ops) 3600 [] sv"
    "pending_get (sv_pending sv) demo_approval = Some review"
    "pr_request review = demo_request 30000" "pr_reservation_key review = demo_key"
    "pa_expires_at (pr_approval review) = Some REVIEW_TTL"
    "sv_consumed sv = {}" "sv_ledger sv = sv_ledger (demo_start ([] :: memory_sink))"
    "sv_gateway sv = sv_gateway (demo_start ([] :: memory_sink))" "sv_now_floor sv = 0"
proof -
  let ?dep = "demo_deployment memory_sink_ops"
  obtain r sv where run: "authorize ?dep (demo_start []) ''agent'' (demo_request 30000) 0 = (r, sv)" by fastforce
  have rok: "request_ok (demo_request 30000)" "mappable (demo_request 30000)" using demo_request_ok by auto
  have reach: "reachable ?dep 3600 [] sv"
    using runs.runs_authorize [OF runs.runs_refl rok(1) run] by (simp add: reachable_def)
  have "demo_key \<noteq> []" by (simp add: demo_key_def)
  from demo_decide [OF this, of 30000 memory_sink_ops "[]" 0] obtain dec where dec:
    "service_decide ?dep (clocked (demo_start []) 0) (completed (demo_request 30000) demo_key 0) 0 = Inr dec"
    "dec_verdict dec = Review" by auto
  have floor: "max 0 (sv_now_floor (demo_start ([] :: memory_sink))) = 0" by (simp add: DATETIME_MIN_def seconds_def)
  from run rok(1) show ?thesis
  proof (cases rule: authorize_cases)
    case (review k intent dec')
    have k: "k = demo_key" using review(2) by (simp add: demo_key_of)
    note hold = service_hold_frame [OF review(7,6)]
    show ?thesis
    proof (rule that [OF reach])
      show "pending_get (sv_pending sv) demo_approval = Some (held_review ?dep (demo_request 30000) dec'
          (compute_proposal_digest (dp_format ?dep) intent) k (principal_fingerprint ?dep ''agent'')
          (max 0 (sv_now_floor (demo_start ([] :: memory_sink)))))"
        using hold(3) k by (simp add: pending.get_hold demo_approval_def demo_deployment_def)
    qed (use hold k floor in \<open>simp_all add: held_review_def\<close>)
  next
    case unmappable
    with rok show ?thesis by simp
  next
    case (held k intent rv)
    then show ?thesis by simp
  next
    case (undecided k intent e)
    with dec floor show ?thesis by (simp add: demo_key_of)
  next
    case (denied k intent dec')
    with dec floor show ?thesis by (simp add: demo_key_of)
  next
    case (allowed k intent dec' result sv1)
    with dec floor show ?thesis by (simp add: demo_key_of)
  qed
qed

text \<open>Whatever a checker answers to that review one microsecond later, this is what the service
  re-decides.\<close>

lemma demo_redecide:
  assumes "sv_ledger sv = sv_ledger (demo_start ([] :: memory_sink))" and "sv_now_floor sv = 0"
  shows "\<exists>dec. service_decide (demo_deployment memory_sink_ops) (clocked sv 1)
    (completed (demo_request 30000) demo_key 1) 1 = Inr dec \<and> dec_verdict dec = Review
    \<and> dec_digest dec = compute_digest int_str (completed (demo_request 30000) demo_key 1)"
proof -
  have ne: "demo_key \<noteq> []" by (simp add: demo_key_def)
  have "service_decide (demo_deployment memory_sink_ops) (clocked sv 1) (completed (demo_request 30000) demo_key 1) 1
      = service_decide (demo_deployment memory_sink_ops) (clocked (demo_start []) 1)
          (completed (demo_request 30000) demo_key 1) 1"
    by (rule service_decide_cong) (simp add: assms)
  with demo_decide [OF ne, of 30000 memory_sink_ops "[]" 1] show ?thesis by auto
qed

lemma demo_proposal:
  assumes "review_ok (demo_deployment memory_sink_ops) demo_approval review"
    and "pr_request review = demo_request 30000" and "pr_reservation_key review = demo_key"
  shows "pa_proposal (pr_approval review) = compute_proposal_digest int_str (completed (demo_request 30000) demo_key t)"
    and "pa_approval_id (pr_approval review) = demo_approval"
    and "maker_subject (pa_maker (pr_approval review)) \<noteq> ''ann''"
  using assms by (auto simp: review_ok_def demo_deployment_def fingerprint_def)

lemma demo_consume:
  assumes "review_ok (demo_deployment memory_sink_ops) demo_approval review"
    and "pr_request review = demo_request 30000" and "pr_reservation_key review = demo_key"
    and "pa_expires_at (pr_approval review) = Some REVIEW_TTL"
  shows "consume {} (pr_approval review) (demo_answer yes) 1 =
    (if yes then (Granted \<lparr>g_approval_id = demo_approval, g_proposal = pa_proposal (pr_approval review),
                    g_checker = Checker ''ann''\<rparr>, {demo_approval})
     else (Rejected Not_approved, {}))"
  using demo_proposal [OF assms(1-3)] assms(4)
  by (auto simp: consume_def approval_expired_def demo_answer_def REVIEW_TTL_def seconds_def)

section \<open>Properties\<close>

text \<open>[C7] Exactly once: in every state the service can reach, whatever the callers, the clocks, the
  rail and the audit sink did, no reservation key was sent to the rail twice.\<close>

theorem every_key_dispatched_once:
  assumes "reachable dep w s sv"
  shows "distinct (map i_idempotency_key (gw_dispatched (sv_gateway sv)))"
  using reachable_money [OF assms] by (simp add: money_ok_def memory.sent_once_def)

theorem every_key_dispatched_once_witness:
  "\<exists>sv. reachable (demo_deployment memory_sink_ops) 3600 [] sv \<and> gw_dispatched (sv_gateway sv) \<noteq> []
     \<and> distinct (map i_idempotency_key (gw_dispatched (sv_gateway sv)))"
proof (rule demo_reached)
  fix sv assume sv: "reachable (demo_deployment memory_sink_ops) 3600 [] sv"
    "gw_dispatched (sv_gateway sv) = [completed (demo_request 5000) demo_key 0]"
  show ?thesis
    by (rule exI [of _ sv], intro conjI, rule sv(1), simp add: sv(2), rule every_key_dispatched_once [OF sv(1)])
qed



text \<open>[C10] Nothing that may have moved is forgotten: every dispatched intent whose outcome is not a
  known failure, an unknown one included, is in the spend window under its key and with its
  amount, with multiplicity.\<close>

theorem window_covers_what_moved:
  assumes "reachable dep w s sv"
  shows "image_mset spend_of (mset (moved (sv_gateway sv)))
    \<subseteq># image_mset entry_spend (mset (wl_entries (sv_ledger sv)))"
  using reachable_money [OF assms] by (simp add: money_ok_def covers_def)

theorem window_covers_what_moved_witness:
  "\<exists>sv :: memory_sink service. gw_dispatched (sv_gateway sv) = [completed (demo_request 5000) demo_key 0]
     \<and> image_mset spend_of (mset (moved (sv_gateway sv))) \<subseteq># image_mset entry_spend (mset (wl_entries (sv_ledger sv)))"
proof (rule demo_reached)
  fix sv assume sv: "reachable (demo_deployment memory_sink_ops) 3600 [] sv"
    "gw_dispatched (sv_gateway sv) = [completed (demo_request 5000) demo_key 0]"
  show ?thesis
    by (rule exI [of _ sv], intro conjI, rule sv(2), rule window_covers_what_moved [OF sv(1)])
qed

text \<open>\<open>authorize\<close> sends something to the rail only for a fresh handle and under a decision ALLOW
  taken on the spend window at the service's clock, and what it sends is the one intent
  completed from the request.\<close>

theorem authorize_dispatch_needs_allow:
  assumes "authorize dep sv c request now = (r, sv')" and "request_ok request"
    and "gw_dispatched (sv_gateway sv') \<noteq> gw_dispatched (sv_gateway sv)"
  shows "\<exists>dec intent. intent = completed request (reservation_key_of dep c (rq_request_ref request)) now
    \<and> gw_dispatched (sv_gateway sv') = gw_dispatched (sv_gateway sv) @ [intent]
    \<and> sv_reservations sv (i_idempotency_key intent) = None
    \<and> dec_verdict dec = Allow \<and> dec_digest dec = compute_digest (dp_format dep) intent
    \<and> decide (dp_format dep) (dp_policies dep) intent
        \<lparr>pc_window_aggregate = Some (window_aggregate_at (sv_ledger sv) (key_from_intent intent)
           (max now (sv_now_floor sv)))\<rparr> = Inr dec
    \<and> max now (sv_now_floor sv) < now + INTENT_TTL"
  using assms(1,2)
proof (cases rule: authorize_money)
  case idle
  with assms(3) show ?thesis by simp
next
  case (moves intent dec)
  from moves(1) show ?thesis
  proof (cases rule: money_movesE)
    case (1 result)
    have perm: "permitted (dp_format dep) intent dec None (max now (sv_now_floor sv))"
      and sent: "gw_dispatched (sv_gateway sv') = gw_dispatched (sv_gateway sv) @ [intent]"
      using TrueI 1(4) by (cases rule: memory.execute_cases, use assms(3) in auto)+
    with 1(3) moves(3,5,6) show ?thesis
      by (intro exI [of _ dec] exI [of _ intent]) (auto simp: service_decide_def Let_def permitted_def)
  qed
qed

text \<open>[C8] \<open>resolve\<close> sends something to the rail only for an open, unspent review that the verdict
  approves: by a checker whose subject is not the maker's, for this very approval and proposal,
  before its expiry, with a re-decision on the present spend window that does not deny. What is
  sent is re-completed from the stored request, and the approval is spent.\<close>

theorem resolve_dispatch_needs_approval:
  assumes "reachable dep w s sv" and "resolve_review dep sv a verdict now = (r, sv')"
    and "gw_dispatched (sv_gateway sv') \<noteq> gw_dispatched (sv_gateway sv)"
  shows "\<exists>review dec intent. pending_get (sv_pending sv) a = Some review
    \<and> intent = completed (pr_request review) (pr_reservation_key review) (max now (sv_now_floor sv))
    \<and> gw_dispatched (sv_gateway sv') = gw_dispatched (sv_gateway sv) @ [intent]
    \<and> answers_approval verdict (pr_approval review) (max now (sv_now_floor sv))
    \<and> cv_proposal verdict = compute_proposal_digest (dp_format dep) intent
    \<and> a \<notin> sv_consumed sv \<and> a \<in> sv_consumed sv'
    \<and> decide (dp_format dep) (dp_policies dep) intent
        \<lparr>pc_window_aggregate = Some (window_aggregate_at (sv_ledger sv) (key_from_intent intent)
           (max now (sv_now_floor sv)))\<rparr> = Inr dec
    \<and> dec_verdict dec \<noteq> Deny"
  using assms(2) reachable_reviews_ok [OF assms(1)]
proof (cases rule: resolve_money)
  case idle
  with assms(3) show ?thesis by simp
next
  case (moves review intent dec g)
  have shown: "cv_proposal verdict = compute_proposal_digest (dp_format dep) intent"
    using moves(4,5,7) by (simp add: review_ok_def answers_approval_def)
  from moves(1) show ?thesis
  proof (cases rule: money_movesE)
    case (1 result)
    have "gw_dispatched (sv_gateway sv') = gw_dispatched (sv_gateway sv) @ [intent]"
      using TrueI 1(4) by (cases rule: memory.execute_cases) (use assms(3) in auto)
    with 1(2,3) moves(3,5-8) shown show ?thesis
      by (intro exI [of _ review] exI [of _ dec] exI [of _ intent]) (simp add: service_decide_def Let_def)
  qed
qed

text \<open>[C11] An answer is given once and then repeated: once a handle is settled, the same proposal
  under it gets the very same answer after any run of the service, another proposal under it is
  refused, and neither touches gateway, window or reservations.\<close>

theorem settled_answer_repeats:
  assumes "reachable dep w s start" and "settled start k" and "runs dep start sv"
    and "sv_reservations start k = Some rv" and "k = reservation_key_of dep c (rq_request_ref request)"
    and "request_ok request" and "mappable request" and "authorize dep sv c request now = (r, sv')"
  shows "sv' = clocked sv now
    \<and> (if rv_proposal rv = compute_proposal_digest (dp_format dep) (completed request k now)
       then r = Inr (rv_answer rv)
       else \<exists>answer. r = Inr answer \<and> ao_status answer = Answer_refused)"
proof -
  have "sv_reservations sv k = Some rv"
    using runs_settled [OF assms(3) reachable_reviews_ok [OF assms(1)] assms(2)] assms(4)
    by (simp add: same_for_def)
  from assms(8,6) show ?thesis
    by (cases rule: authorize_cases) (use assms(5,7) \<open>sv_reservations sv k = Some rv\<close> in
        \<open>auto simp: service_refuse_def Let_def\<close>)
qed

text \<open>[C9] No approver shopping: a review that one checker declined, or that was answered after its
  expiry, is settled for good. Whatever is answered or asked afterwards, nothing is sent under
  its handle, no review of it is open again, and its agent reads \<open>refused\<close>.\<close>

theorem declined_review_stays_closed:
  assumes "reachable dep w s sv" and "pending_get (sv_pending sv) a = Some review"
    and "resolve_review dep sv a verdict now = (Inr res, sv1)"
    and "rs_reason res \<in> {Some Not_approved, Some Expired}" and "runs dep sv1 sv2"
  shows "settled sv2 (pr_reservation_key review)
    \<and> sent_under (pr_reservation_key review) sv2 = sent_under (pr_reservation_key review) sv
    \<and> (\<exists>rv. sv_reservations sv2 (pr_reservation_key review) = Some rv
         \<and> ao_status (rv_answer rv) = Answer_refused)"
proof -
  let ?k = "pr_reservation_key review"
  note ok = reachable_reviews_ok [OF assms(1)]
  have "settled sv1 ?k \<and> sent_under ?k sv1 = sent_under ?k sv
    \<and> (\<exists>rv. sv_reservations sv1 ?k = Some rv \<and> ao_status (rv_answer rv) = Answer_refused)"
    by (rule declined_settles [OF ok assms(2-4)])
  moreover have "reviews_ok dep sv1" using reviews_ok_resolve [OF ok assms(3)] .
  ultimately show ?thesis
    using runs_settled [OF assms(5), of ?k] by (auto simp: same_for_def)
qed

theorem authorize_dispatch_needs_allow_witness:
  "\<exists>dec :: decision. dec_verdict dec = Allow
     \<and> dec_digest dec = compute_digest int_str (completed (demo_request 5000) demo_key 0)
     \<and> (\<exists>sv :: memory_sink service. gw_dispatched (sv_gateway sv) = [completed (demo_request 5000) demo_key 0])"
proof (rule demo_sent [of memory_sink_ops "[]"])
  fix r sv q
  assume run: "authorize (demo_deployment memory_sink_ops) (demo_start []) ''agent'' (demo_request 5000) 0 = (r, sv)"
    and sent: "gw_dispatched (sv_gateway sv) = [completed (demo_request 5000) demo_key 0]"
  have rok: "request_ok (demo_request 5000)" using demo_request_ok by simp
  have diff: "gw_dispatched (sv_gateway sv) \<noteq> gw_dispatched (sv_gateway (demo_start ([] :: memory_sink)))"
    using sent by simp
  from authorize_dispatch_needs_allow [OF run rok diff] obtain dec :: decision where
    "dec_verdict dec = Allow" "dec_digest dec = compute_digest int_str (completed (demo_request 5000) demo_key 0)"
    by (auto simp: demo_key_of)
  with sent show ?thesis by blast
qed

lemma reachable_memory_chain:
  assumes "reachable dep w [] sv" and "dp_sink dep = memory_sink_ops"
  shows "verify_chain (sv_sink sv)"
proof -
  have contract: "audit_sink (dp_sink dep) (\<lambda>_. True)" using memory_log.audit_sink_axioms assms(2) by simp
  have "audit_sink.chained (dp_sink dep) (\<lambda>_. True) (sv_sink (service_init w []))"
    using assms(2) by (simp add: memory_chained_iff service_init_def verify_chain_def)
  from runs_chained [OF contract assms(1) [unfolded reachable_def] reviews_ok_init this] assms(2)
  show ?thesis by (simp add: memory_chained_iff)
qed

text \<open>The two answers to the held review of the demonstration.\<close>

lemma demo_declined:
  obtains sv :: "memory_sink service" and review sv' where
    "reachable (demo_deployment memory_sink_ops) 3600 [] sv"
    "pending_get (sv_pending sv) demo_approval = Some review" "pr_reservation_key review = demo_key"
    "resolve_review (demo_deployment memory_sink_ops) sv demo_approval (demo_answer False) 1
       = (Inr (rejected_with Not_approved), sv')"
proof (rule demo_held)
  fix sv :: "memory_sink service" and review
  assume reach: "reachable (demo_deployment memory_sink_ops) 3600 [] sv"
    and get: "pending_get (sv_pending sv) demo_approval = Some review"
    and req: "pr_request review = demo_request 30000" "pr_reservation_key review = demo_key"
      "pa_expires_at (pr_approval review) = Some REVIEW_TTL"
    and st: "sv_consumed sv = {}" "sv_ledger sv = sv_ledger (demo_start ([] :: memory_sink))" "sv_now_floor sv = 0"
  let ?dep = "demo_deployment memory_sink_ops"
  note ok = reachable_reviews_ok [OF reach]
  note rok = reviews_okD [OF ok get]
  have floor: "max 1 (sv_now_floor sv) = 1" using st by simp
  obtain r sv' where run: "resolve_review ?dep sv demo_approval (demo_answer False) 1 = (r, sv')" by fastforce
  from run ok have "r = Inr (rejected_with Not_approved)"
  proof (cases rule: resolve_cases)
    case (rejected review' intent dec reason)
    have "reason = Not_approved"
      using rejected(1,5) get st(1) floor demo_consume [OF rok req] by simp
    moreover have "\<exists>receipt. service_audit ?dep (clocked sv 1) dec None (Some (pr_approval_id review))
        (pr_principal_ref review) = (Inr receipt, (clocked sv 1)\<lparr>sv_sink := sv_sink sv @ [receipt]\<rparr>)"
      using memory_record_returns [OF reachable_memory_chain [OF reach], of "Some (pr_principal_ref review)"
          "dec_digest dec" "dec_verdict dec" "decision_reasons dec" None "Some (pr_approval_id review)"] rok
      by (auto simp: service_audit_def demo_deployment_def review_ok_def)
    ultimately show ?thesis
      using rejected(1,6) get floor by (auto simp: resolve_rejected_def TERMINAL_REJECTIONS_def Let_def)
  next
    case (granted review' intent dec g)
    with get floor show ?thesis by (simp add: answers_approval_def demo_answer_def)
  next
    case unknown
    with get show ?thesis by simp
  next
    case (undecided review' intent e)
    with demo_redecide [OF st(2,3)] get req floor show ?thesis by auto
  next
    case (denied review' intent dec q)
    with demo_redecide [OF st(2,3)] get req floor show ?thesis by auto
  qed
  with run that [OF reach get req(2)] show ?thesis by simp
qed

lemma demo_approved:
  obtains sv :: "memory_sink service" and r sv' where
    "reachable (demo_deployment memory_sink_ops) 3600 [] sv"
    "resolve_review (demo_deployment memory_sink_ops) sv demo_approval (demo_answer True) 1 = (r, sv')"
    "gw_dispatched (sv_gateway sv) = []"
    "gw_dispatched (sv_gateway sv') = [completed (demo_request 30000) demo_key 1]"
proof (rule demo_held)
  fix sv :: "memory_sink service" and review
  assume reach: "reachable (demo_deployment memory_sink_ops) 3600 [] sv"
    and get: "pending_get (sv_pending sv) demo_approval = Some review"
    and req: "pr_request review = demo_request 30000" "pr_reservation_key review = demo_key"
      "pa_expires_at (pr_approval review) = Some REVIEW_TTL"
    and st: "sv_consumed sv = {}" "sv_ledger sv = sv_ledger (demo_start ([] :: memory_sink))" "sv_now_floor sv = 0"
    and gw: "sv_gateway sv = sv_gateway (demo_start ([] :: memory_sink))"
  let ?dep = "demo_deployment memory_sink_ops" and ?i = "completed (demo_request 30000) demo_key 1"
  note ok = reachable_reviews_ok [OF reach]
  note rok = reviews_okD [OF ok get]
  have floor: "max 1 (sv_now_floor sv) = 1" using st by simp
  obtain dec0 where dec0: "service_decide ?dep (clocked sv 1) ?i 1 = Inr dec0" "dec_verdict dec0 = Review"
    "dec_digest dec0 = compute_digest int_str ?i" using demo_redecide [OF st(2,3)] by auto
  obtain r sv' where run: "resolve_review ?dep sv demo_approval (demo_answer True) 1 = (r, sv')" by fastforce
  from run ok have "gw_dispatched (sv_gateway sv') = [?i]"
  proof (cases rule: resolve_cases)
    case (granted review' intent dec g)
    have eqs: "review' = review" "intent = ?i" "dec = dec0" using granted(1-3) get req floor dec0 by auto
    from granted(8) show ?thesis
    proof (cases rule: resolve_granted_frame)
      case (1 result sv1 q sv2)
      have "permitted int_str ?i dec0 (Some g) 1"
        using dec0 granted(7) eqs demo_proposal(1) [OF rok req(1,2), of 1] by (simp add: permitted_def)
      moreover have "execute int_str memory_ops (dp_rail ?dep) (sv_gateway sv) ?i dec0 (Some g) 1 = (result, sv_gateway sv1)"
        using service_dispatch_frame(1) [OF 1(1)] eqs floor by (simp add: demo_deployment_def)
      ultimately have "gw_dispatched (sv_gateway sv1) = [?i]"
        using execute_dispatches_first [of int_str ?i dec0 "Some g" 1 "sv_gateway sv"] gw by simp
      with 1(4) service_settle_frame(1) [OF 1(2)] show ?thesis by (auto split: sum.splits)
    qed
  next
    case (rejected review' intent dec reason)
    with get st(1) floor demo_consume [OF rok req] show ?thesis by simp
  next
    case unknown
    with get show ?thesis by simp
  next
    case (undecided review' intent e)
    with dec0 get req floor show ?thesis by simp
  next
    case (denied review' intent dec q)
    with dec0 get req floor show ?thesis by auto
  qed
  moreover have "gw_dispatched (sv_gateway sv) = []" using gw by simp
  ultimately show ?thesis using that [OF reach run] by blast
qed

theorem resolve_dispatch_needs_approval_witness:
  "\<exists>(sv :: memory_sink service) (sv' :: memory_sink service) (review :: pending_review). pending_get (sv_pending sv) demo_approval = Some review
     \<and> gw_dispatched (sv_gateway sv') = [completed (demo_request 30000) demo_key 1]
     \<and> answers_approval (demo_answer True) (pr_approval review) (max 1 (sv_now_floor sv))"
proof (rule demo_approved)
  fix sv :: "memory_sink service" and r sv'
  assume h: "reachable (demo_deployment memory_sink_ops) 3600 [] sv"
    "resolve_review (demo_deployment memory_sink_ops) sv demo_approval (demo_answer True) 1 = (r, sv')"
    "gw_dispatched (sv_gateway sv) = []"
    "gw_dispatched (sv_gateway sv') = [completed (demo_request 30000) demo_key 1]"
  have "gw_dispatched (sv_gateway sv') \<noteq> gw_dispatched (sv_gateway sv)" using h(3,4) by simp
  from resolve_dispatch_needs_approval [OF h(1,2) this] h(4) show ?thesis by blast
qed

theorem declined_review_stays_closed_witness:
  "\<exists>(sv :: memory_sink service) rv. sv_reservations sv demo_key = Some rv
     \<and> ao_status (rv_answer rv) = Answer_refused \<and> settled sv demo_key"
proof (rule demo_declined)
  fix sv :: "memory_sink service" and review sv'
  assume h: "reachable (demo_deployment memory_sink_ops) 3600 [] sv"
    "pending_get (sv_pending sv) demo_approval = Some review" "pr_reservation_key review = demo_key"
    "resolve_review (demo_deployment memory_sink_ops) sv demo_approval (demo_answer False) 1
       = (Inr (rejected_with Not_approved), sv')"
  from declined_review_stays_closed [OF h(1,2,4) _ runs.runs_refl] h(3) show ?thesis by auto
qed

theorem settled_answer_repeats_witness:
  "\<exists>(sv :: memory_sink service) sv' answer. authorize (demo_deployment memory_sink_ops) sv ''agent'' (demo_request 30000) 9
      = (Inr answer, sv') \<and> ao_status answer = Answer_refused \<and> sv' = clocked sv 9"
proof (rule demo_declined)
  fix sv :: "memory_sink service" and review sv1
  let ?dep = "demo_deployment memory_sink_ops"
  assume h: "reachable ?dep 3600 [] sv" "pending_get (sv_pending sv) demo_approval = Some review"
    "pr_reservation_key review = demo_key"
    "resolve_review ?dep sv demo_approval (demo_answer False) 1 = (Inr (rejected_with Not_approved), sv1)"
  have rok: "request_ok (demo_request 30000)" "mappable (demo_request 30000)" using demo_request_ok by auto
  have reach: "reachable ?dep 3600 [] sv1" using h(1,4) runs.runs_resolve by (auto simp: reachable_def)
  from declined_settles [OF reachable_reviews_ok [OF h(1)] h(2,4)] h(3) obtain rv where
    rv: "settled sv1 demo_key" "sv_reservations sv1 demo_key = Some rv" "ao_status (rv_answer rv) = Answer_refused"
    by auto
  obtain r sv' where run: "authorize ?dep sv1 ''agent'' (demo_request 30000) 9 = (r, sv')" by fastforce
  from settled_answer_repeats [OF reach rv(1) runs.runs_refl rv(2) demo_key_of [symmetric] rok run] rv(3)
  have "\<exists>answer. r = Inr answer \<and> ao_status answer = Answer_refused" "sv' = clocked sv1 9"
    by (auto split: if_splits)
  with run show ?thesis by blast
qed

end
