(* ===== verification/Service_Receipts.thy ===== *)
theory Service_Receipts
  imports Service_Properties
begin

text \<open>
  What the service promises about its inputs, its names and its ledger: what a wire proposal
  becomes, whose handle a reservation key is, and which receipt an answer leaves, the failure of
  the sink included.
\<close>

section \<open>What a proposal becomes\<close>

text \<open>[C36] A validated proposal becomes an intent exactly when wire v1 can express it, and every
  gap closes strictest: the claim of reversibility is not used, the source is untrusted, the
  beneficiary new, the payment cross-border, the band the exact amount, and the intent passes
  its validators. Everything else is an unmappable action, never another error.\<close>

theorem complete_intent_strictest:
  assumes "request_ok request" and "key \<noteq> []"
  shows "case complete_intent request key now of
      Inl e \<Rightarrow> e = Unmappable_Action
        \<and> (rq_action request \<in> {Act_trade, Act_account_change} \<or> rq_rail request \<in> {Rail_brokerage, Rail_other})
    | Inr i \<Rightarrow> intent_ok i \<and> i_idempotency_key i = key
        \<and> rq_action request \<in> {Act_payment, Act_refund, Act_payout, Act_transfer}
        \<and> rq_rail request \<in> {Rail_card, Rail_bank_transfer, Rail_wallet}
        \<and> d_reversibility (i_dimensions i) = Irreversible \<and> d_source_trust (i_dimensions i) = Untrusted_data
        \<and> d_value_lower_minor (i_dimensions i) = rq_amount_minor request
        \<and> d_value_upper_minor (i_dimensions i) = rq_amount_minor request
        \<and> d_quote_currency (i_dimensions i) = rq_currency request
        \<and> d_rail_class (i_dimensions i) = rq_rail request
        \<and> d_counterparty_ref (i_dimensions i) = rq_counterparty_ref request
        \<and> d_source_account_ref (i_dimensions i) = rq_source_account_ref request
        \<and> (\<exists>p. i_payload i = Payment p \<and> pp_new_beneficiary p \<and> pp_cross_border p)
        \<and> d_not_before (i_dimensions i) = now \<and> d_not_after (i_dimensions i) = now + INTENT_TTL"
proof (cases "mappable request")
  case True
  then have "rq_action request \<in> {Act_payment, Act_refund, Act_payout, Act_transfer}"
    "rq_rail request \<in> {Rail_card, Rail_bank_transfer, Rail_wallet}"
    by (cases "rq_rail request"; simp add: mappable_def PAYMENT_ACTIONS_def)+
  with True completed_ok [OF assms] show ?thesis
    by (simp add: complete_intent_eq [OF assms]) (simp add: completed_def)
next
  case False
  then show ?thesis
    by (cases "rq_action request"; cases "rq_rail request")
      (simp_all add: complete_intent_eq [OF assms] mappable_def PAYMENT_ACTIONS_def)
qed

theorem complete_intent_strictest_witness:
  "\<exists>i. complete_intent (demo_request 5000) ''k'' 0 = Inr i \<and> intent_ok i
     \<and> rq_reversibility (demo_request 5000) = Reversible \<and> d_reversibility (i_dimensions i) = Irreversible"
proof -
  have ok: "request_ok (demo_request 5000)" "''k'' \<noteq> []" using demo_request_ok by simp_all
  from complete_intent_strictest [OF ok, of 0] show ?thesis
    by (auto simp: demo_request_def split: sum.splits)
qed

section \<open>Whose handle a key is\<close>

text \<open>The reservation namespace is the gateway's: two reservation keys are equal only for the
  same authenticated principal and the same handle, whatever the principals are called, or else
  an HMAC collision is exhibited.\<close>

theorem reservation_namespace:
  assumes "is_fingerprint ref" and "is_fingerprint ref'"
  shows "reservation_key_of dep c ref = reservation_key_of dep c' ref' \<longleftrightarrow>
    (c = c' \<and> ref = ref')
    \<or> hmac_collision (dp_key dep) (fingerprint_text PRINCIPAL_DOMAIN (c @ [CHR 0x00] @ ref))
        (fingerprint_text PRINCIPAL_DOMAIN (c' @ [CHR 0x00] @ ref'))"
  using fingerprint_eq [of "dp_key dep" PRINCIPAL_DOMAIN "c @ [CHR 0x00] @ ref" PRINCIPAL_DOMAIN
      "c' @ [CHR 0x00] @ ref'"]
    fingerprint_text_eq [of PRINCIPAL_DOMAIN PRINCIPAL_DOMAIN "c @ [CHR 0x00] @ ref" "c' @ [CHR 0x00] @ ref'"]
    split_at_last [OF fingerprint_no_NUL [OF assms(1)] fingerprint_no_NUL [OF assms(2)], of c c']
  by (simp add: reservation_key_of_def)

theorem reservation_namespace_witness:
  "reservation_key_of (demo_deployment memory_sink_ops) ''alice'' (rq_request_ref (demo_request 0))
     = reservation_key_of (demo_deployment memory_sink_ops) ''bob'' (rq_request_ref (demo_request 0)) \<longleftrightarrow>
   hmac_collision (replicate 32 0)
     (fingerprint_text PRINCIPAL_DOMAIN (''alice'' @ [CHR 0x00] @ rq_request_ref (demo_request 0)))
     (fingerprint_text PRINCIPAL_DOMAIN (''bob'' @ [CHR 0x00] @ rq_request_ref (demo_request 0)))"
proof -
  have fp: "is_fingerprint (rq_request_ref (demo_request 0))" using demo_request_ok by (simp add: request_ok_def)
  from reservation_namespace [OF fp fp, of "demo_deployment memory_sink_ops" "''alice''" "''bob''"]
  show ?thesis by simp
qed

section \<open>Receipts\<close>

text \<open>The ledger behind the service is always intact: with a sink that keeps its contract,
  whether or not its writes raise, every reachable state's receipts form a verified chain that
  extends the chain the service started with.\<close>

theorem service_receipts_chained:
  assumes "audit_sink (dp_sink dep) usable" and "usable s" and "verify_chain (sk_entries (dp_sink dep) s)"
    and "reachable dep w s sv"
  shows "verify_chain (sk_entries (dp_sink dep) (sv_sink sv))
    \<and> prefix (sk_entries (dp_sink dep) s) (sk_entries (dp_sink dep) (sv_sink sv))"
proof -
  have "audit_sink.chained (dp_sink dep) usable (sv_sink (service_init w s))"
    using assms(2,3) by (simp add: audit_sink.chained_def [OF assms(1)] service_init_def)
  from runs_chained [OF assms(1) assms(4) [unfolded reachable_def] reviews_ok_init this]
  show ?thesis by (simp add: audit_sink.chained_def [OF assms(1)] service_init_def)
qed

theorem service_receipts_chained_witness:
  "\<exists>sv :: memory_sink service. gw_dispatched (sv_gateway sv) = [completed (demo_request 5000) demo_key 0]
     \<and> verify_chain (sv_sink sv)"
proof (rule demo_reached)
  fix sv assume sv: "reachable (demo_deployment memory_sink_ops) 3600 [] sv"
    "gw_dispatched (sv_gateway sv) = [completed (demo_request 5000) demo_key 0]"
  have "audit_sink (dp_sink (demo_deployment memory_sink_ops)) (\<lambda>_. True)"
    using memory_log.audit_sink_axioms by simp
  moreover have "verify_chain (sk_entries (dp_sink (demo_deployment memory_sink_ops)) [])"
    by (simp add: memory_sink_ops_def verify_chain_def)
  ultimately have "verify_chain (sk_entries (dp_sink (demo_deployment memory_sink_ops)) (sv_sink sv))"
    using service_receipts_chained [OF _ TrueI _ sv(1)] by blast
  then show ?thesis using sv(2) by (auto simp: memory_sink_ops_def)
qed

text \<open>What a fresh answer leaves behind.\<close>

lemma fresh_answer_receipt:
  assumes contract: "audit_sink (dp_sink dep) usable"
    and ch: "audit_sink.chained (dp_sink dep) usable (sv_sink sv)"
    and rok: "request_ok request" "mappable request"
    and k: "k = reservation_key_of dep c (rq_request_ref request)" "sv_reservations sv k = None"
    and run: "authorize dep sv c request now = (Inr answer, sv')"
  shows "\<exists>receipt dec.
      sk_entries (dp_sink dep) (sv_sink sv') = sk_entries (dp_sink dep) (sv_sink sv) @ [receipt]
    \<and> service_decide dep (clocked sv now) (completed request k now) (max now (sv_now_floor sv)) = Inr dec
    \<and> ar_digest receipt = compute_digest (dp_format dep) (completed request k now)
    \<and> ar_verdict receipt = dec_verdict dec
    \<and> ar_principal_ref receipt = Some (principal_fingerprint dep c)
    \<and> ao_status answer = agent_status (ar_verdict receipt) (ar_outcome_status receipt) False
    \<and> (ar_outcome_status receipt \<noteq> None \<longrightarrow> dec_verdict dec = Allow)"
proof -
  have dig: "dec_digest dec = compute_digest (dp_format dep) (completed request k now)"
    if "service_decide dep (clocked sv now) (completed request k now) (max now (sv_now_floor sv)) = Inr dec" for dec
    using that by (auto simp: service_decide_def Let_def dest: decide_digest)
  note rec = audit_sink.record_cases(2) [OF contract ch]
  from run rok(1) show ?thesis
  proof (cases rule: authorize_cases)
    case (review k' intent dec)
    have eqs: "intent = completed request k now" using review(2,3) k by simp
    from service_hold_frame(9) [OF review(7,6)] obtain q where q:
      "audit_record (dp_sink dep) (sv_sink sv) (dec_digest dec) (dec_verdict dec) (decision_reasons dec)
         None None (Some (principal_fingerprint dep c)) = (q, sv_sink sv')" "\<not> (\<exists>e. q = Inl e)" by auto
    then obtain receipt where "q = Inr receipt" by (cases q) auto
    with rec [OF q(1) this] service_hold_frame(8) [OF review(7,6) refl] review(5,6) dig eqs
    show ?thesis by (intro exI [of _ receipt] exI [of _ dec]) (simp add: agent_status_def)
  next
    case (denied k' intent dec)
    have eqs: "intent = completed request k now" using denied(2,3) k by simp
    from service_settle_frame(9) [OF denied(7)] obtain q where q:
      "audit_record (dp_sink dep) (sv_sink sv) (dec_digest dec) (dec_verdict dec) (decision_reasons dec)
         None None (Some (principal_fingerprint dep c)) = (q, sv_sink sv')" "\<not> (\<exists>e. q = Inl e)"
      by (auto simp: status_of_def)
    then obtain receipt where "q = Inr receipt" by (cases q) auto
    with rec [OF q(1) this] service_settle_frame(8) [OF denied(7) refl] denied(5,6) dig eqs
    show ?thesis by (intro exI [of _ receipt] exI [of _ dec]) (simp add: agent_status_def status_of_def)
  next
    case (allowed k' intent dec result sv1)
    have eqs: "intent = completed request k now" using allowed(2,3) k by simp
    from service_settle_frame(9) [OF allowed(8)] service_dispatch_frame(7) [OF allowed(7)] obtain q where q:
      "audit_record (dp_sink dep) (sv_sink sv) (dec_digest dec) (dec_verdict dec) (decision_reasons dec)
         (status_of (Some result)) None (Some (principal_fingerprint dep c)) = (q, sv_sink sv')"
      "\<not> (\<exists>e. q = Inl e)" by auto
    then obtain receipt where "q = Inr receipt" by (cases q) auto
    with rec [OF q(1) this] service_settle_frame(8) [OF allowed(8) refl] allowed(5,6) dig eqs
    show ?thesis by (intro exI [of _ receipt] exI [of _ dec]) simp
  next
    case unmappable
    with rok show ?thesis by simp
  next
    case (held k' intent rv)
    with k show ?thesis by simp
  next
    case (undecided k' intent e)
    then show ?thesis by simp
  qed
qed



text \<open>The dispatch comes before its receipt: when the sink refuses to write, an allowed fresh
  proposal has already been sent to the rail; \<open>authorize\<close> then raises, the answer is not
  recorded, and the ledger holds no receipt of it.\<close>

theorem dispatch_outlives_failed_audit:
  assumes "audit_sink (dp_sink dep) usable" and "usable s" and "verify_chain (sk_entries (dp_sink dep) s)"
    and "reachable dep w s sv"
    and "\<And>receipt. sk_append (dp_sink dep) (sv_sink sv) receipt = (False, sv_sink sv)"
    and "request_ok request" and "mappable request" and "k = reservation_key_of dep c (rq_request_ref request)"
    and "sv_reservations sv k = None" and "gw_store (sv_gateway sv) k = None" and "sv_now_floor sv \<le> now"
    and "service_decide dep (clocked sv now) (completed request k now) now = Inr dec"
    and "dec_verdict dec = Allow"
  shows "\<exists>sv'. authorize dep sv c request now = (Inl Sink_Error, sv')
    \<and> gw_dispatched (sv_gateway sv') = gw_dispatched (sv_gateway sv) @ [completed request k now]
    \<and> sk_entries (dp_sink dep) (sv_sink sv') = sk_entries (dp_sink dep) (sv_sink sv)
    \<and> sv_reservations sv' k = None"
proof -
  have "audit_sink.chained (dp_sink dep) usable (sv_sink (service_init w s))"
    using assms(2,3) by (simp add: audit_sink.chained_def [OF assms(1)] service_init_def)
  from runs_chained [OF assms(1) assms(4) [unfolded reachable_def] reviews_ok_init this]
  have ch: "audit_sink.chained (dp_sink dep) usable (sv_sink sv)" by simp
  obtain r sv' where run: "authorize dep sv c request now = (r, sv')" by fastforce
  from assms(6-13) run show ?thesis
  proof (rule authorize_allowed)
    fix outcome q
    assume sent: "gw_dispatched (sv_gateway sv') = gw_dispatched (sv_gateway sv) @ [completed request k now]"
      and rec: "audit_record (dp_sink dep) (sv_sink sv) (dec_digest dec) Allow (decision_reasons dec)
        (Some (eo_status outcome)) None (Some (principal_fingerprint dep c)) = (q, sv_sink sv')"
      and r: "\<forall>e. r = Inl e \<longleftrightarrow> q = Inl e" and none: "\<And>e. r = Inl e \<Longrightarrow> sv_reservations sv' k = None"
    obtain e where q: "q = Inl e" "sv_sink sv' = sv_sink sv"
      using audit_record_refused [OF assms(5) rec] by blast
    have "e = Sink_Error"
      by (rule audit_sink.record_error [OF assms(1) ch _ rec [unfolded q(1)]]) (simp add: principal_fingerprint_def)
    with q r have "r = Inl Sink_Error" by simp
    with run sent q(2) none show ?thesis by simp
  qed
qed

text \<open>A sink that refuses every write.\<close>

definition refusing_sink_ops :: "memory_sink sink_ops" where
  "refusing_sink_ops = \<lparr>sk_append = (\<lambda>s r. (False, s)), sk_entries = (\<lambda>s. s)\<rparr>"

interpretation refusing: audit_sink refusing_sink_ops "\<lambda>_. True"
  by unfold_locales (auto simp: refusing_sink_ops_def)

theorem dispatch_outlives_failed_audit_witness:
  "\<exists>sv'. authorize (demo_deployment refusing_sink_ops) (demo_start []) ''agent'' (demo_request 5000) 0
       = (Inl Sink_Error, sv')
     \<and> gw_dispatched (sv_gateway sv') = [completed (demo_request 5000) demo_key 0] \<and> sv_sink sv' = []"
proof -
  let ?dep = "demo_deployment refusing_sink_ops"
  have contract: "audit_sink (dp_sink ?dep) (\<lambda>_. True)" using refusing.audit_sink_axioms by simp
  have ch: "verify_chain (sk_entries (dp_sink ?dep) [])" by (simp add: refusing_sink_ops_def verify_chain_def)
  have start: "reachable ?dep 3600 [] (demo_start [])" by (simp add: reachable_def runs.runs_refl)
  have refuses: "\<And>receipt. sk_append (dp_sink ?dep) (sv_sink (demo_start [])) receipt = (False, sv_sink (demo_start []))"
    by (simp add: refusing_sink_ops_def)
  have rok: "request_ok (demo_request 5000)" "mappable (demo_request 5000)" using demo_request_ok by auto
  have floor: "sv_now_floor (demo_start ([] :: memory_sink)) \<le> 0" by (simp add: DATETIME_MIN_def seconds_def)
  have nonempty: "demo_key \<noteq> []" by (simp add: demo_key_def)
  obtain dec where dec: "service_decide ?dep (clocked (demo_start []) 0)
      (completed (demo_request 5000) demo_key 0) 0 = Inr dec" "dec_verdict dec = Allow"
    using demo_decide [OF nonempty, of 5000 refusing_sink_ops "[]" 0] by auto
  from dispatch_outlives_failed_audit [OF contract TrueI ch start refuses rok demo_key_of [symmetric] _ _ floor dec]
  show ?thesis by (auto simp: refusing_sink_ops_def)
qed

end
