(* ===== verification/Onchain.thy ===== *)
theory Onchain
  imports Control_Plane
begin

text \<open>
  \<open>secondsign.onchain\<close>: the candidate on-chain vocabulary (\<open>types.py\<close>), the static decode of a
  Safe transaction (\<open>effect.py\<close>), the effect policy (\<open>policy.py\<close>) and the attested
  configuration of an account with its mismatches against the live chain
  (\<open>chain_state.py\<close>).
\<close>

section \<open>Vocabulary\<close>

definition ONCHAIN_CONTRACT_VERSION :: int where
  "ONCHAIN_CONTRACT_VERSION = 0"

datatype onchain_verdict = On_abstain | On_review | On_deny

fun onchain_verdict_value :: "onchain_verdict \<Rightarrow> int" where
  "onchain_verdict_value On_abstain = 0"
| "onchain_verdict_value On_review = 1"
| "onchain_verdict_value On_deny = 2"

datatype onchain_reason =
    Unbounded_approval
  | Counterparty_not_allowlisted
  | Token_not_allowlisted
  | Unrecognised_authorisation
  | Structural_change
  | Delegatecall
  | Implementation_moved
  | Unknown_selector
  | Effect_outside_model
  | Unbounded_slippage
  | Replayed_signature
  | Calldata_diverged

record onchain_finding =
  of_code :: onchain_reason
  of_observed :: "int option"
  of_limit :: "int option"

definition mk_onchain_finding ::
  "onchain_reason \<Rightarrow> int option \<Rightarrow> int option \<Rightarrow> py_error + onchain_finding" where
  "mk_onchain_finding code observed limit =
     (if detail_ok observed \<and> detail_ok limit
      then Inr \<lparr>of_code = code, of_observed = observed, of_limit = limit\<rparr>
      else Inl Validation_Error)"

record onchain_judgement =
  oj_contract_version :: int
  oj_verdict :: onchain_verdict
  oj_findings :: "onchain_finding list"

definition mk_onchain_judgement ::
  "onchain_verdict \<Rightarrow> onchain_finding list \<Rightarrow> py_error + onchain_judgement" where
  "mk_onchain_judgement v fs =
     (if v \<noteq> On_abstain \<and> fs = [] then Inl Validation_Error
      else Inr \<lparr>oj_contract_version = ONCHAIN_CONTRACT_VERSION, oj_verdict = v, oj_findings = fs\<rparr>)"

definition onchain_reasons :: "onchain_judgement \<Rightarrow> onchain_reason list" where
  "onchain_reasons j = fromkeys (map of_code (oj_findings j))"

section \<open>Hexadecimal text\<close>

text \<open>\<open>str.lower\<close> on the alphabet of an address.\<close>

definition lower_char :: "char \<Rightarrow> char" where
  "lower_char c =
     (let n = (of_char c :: nat) in if 65 \<le> n \<and> n \<le> 90 then char_of (n + 32) else c)"

definition lower :: "py_str \<Rightarrow> py_str" where
  "lower s = map lower_char s"

definition is_any_hex :: "char \<Rightarrow> bool" where
  "is_any_hex c \<longleftrightarrow>
     (let n = (of_char c :: nat)
      in (48 \<le> n \<and> n \<le> 57) \<or> (97 \<le> n \<and> n \<le> 102) \<or> (65 \<le> n \<and> n \<le> 70))"

definition hex_digit :: "char \<Rightarrow> nat" where
  "hex_digit c =
     (let n = (of_char c :: nat)
      in if n \<le> 57 then n - 48 else if n \<le> 70 then n - 55 else n - 87)"

text \<open>\<open>int(s, 16)\<close> on a text of hexadecimal digits.\<close>

definition hex_number :: "py_str \<Rightarrow> nat" where
  "hex_number s = foldl (\<lambda>n c. 16 * n + hex_digit c) 0 s"

text \<open>The patterns \<open>^0x[0-9a-fA-F]{40}$\<close>, \<open>^0x([0-9a-fA-F]{2})*$\<close> and \<open>^0x[0-9a-fA-F]{64}$\<close>.\<close>

definition is_address :: "py_str \<Rightarrow> bool" where
  "is_address s \<longleftrightarrow> take 2 s = ''0x'' \<and> length s = 42 \<and> (\<forall>c \<in> set (drop 2 s). is_any_hex c)"

definition is_calldata :: "py_str \<Rightarrow> bool" where
  "is_calldata s \<longleftrightarrow> take 2 s = ''0x'' \<and> even (length s) \<and> (\<forall>c \<in> set (drop 2 s). is_any_hex c)"

definition is_code_hash :: "py_str \<Rightarrow> bool" where
  "is_code_hash s \<longleftrightarrow> take 2 s = ''0x'' \<and> length s = 66 \<and> (\<forall>c \<in> set (drop 2 s). is_any_hex c)"

section \<open>Effects\<close>

datatype safe_operation = Op_call | Op_delegatecall

record safe_call =
  sc_to :: py_str
  sc_value :: int
  sc_data :: py_str
  sc_operation :: safe_operation

definition safe_call_ok :: "safe_call \<Rightarrow> bool" where
  "safe_call_ok c \<longleftrightarrow>
     is_address (sc_to c) \<and> 0 \<le> sc_value c \<and> sc_value c < 2 ^ 256 \<and> is_calldata (sc_data c)"

datatype effect_kind =
  Erc20_approval | Erc20_transfer | Self_administration | Delegated | Unrecognised

record onchain_effect =
  oe_kind :: effect_kind
  oe_target :: py_str
  oe_native_value :: int
  oe_counterparty :: "py_str option"
  oe_amount :: "int option"
  oe_selector :: "py_str option"

definition APPROVE :: py_str where "APPROVE = ''0x095ea7b3''"
definition TRANSFER :: py_str where "TRANSFER = ''0xa9059cbb''"

definition ARGS_TWO_WORDS :: nat where
  "ARGS_TWO_WORDS = 2 + 8 + 64 + 64"

definition selector_of :: "py_str \<Rightarrow> py_str option" where
  "selector_of data = (if 10 \<le> length data then Some (take 10 data) else None)"

definition decode_address_and_amount :: "py_str \<Rightarrow> py_str \<times> int" where
  "decode_address_and_amount data =
     (let body = drop 10 data
      in (''0x'' @ take 40 (drop 24 body), int (hex_number (take 64 (drop 64 body)))))"

text \<open>\<open>SafeAdapter.decode\<close> for the account at \<open>safe\<close>.\<close>

definition decode_effect :: "py_str \<Rightarrow> safe_call \<Rightarrow> onchain_effect" where
  "decode_effect safe call =
     (let plain = (\<lambda>kind. \<lparr>oe_kind = kind, oe_target = sc_to call, oe_native_value = sc_value call,
            oe_counterparty = None, oe_amount = None, oe_selector = selector_of (sc_data call)\<rparr>)
      in if sc_operation call = Op_delegatecall then plain Delegated
         else if lower (sc_to call) = lower safe then plain Self_administration
         else
           let selector = selector_of (sc_data call)
           in if (selector = Some APPROVE \<or> selector = Some TRANSFER)
                 \<and> ARGS_TWO_WORDS \<le> length (sc_data call)
              then
                let (counterparty, amount) = decode_address_and_amount (sc_data call);
                    kind = (if selector = Some APPROVE then Erc20_approval else Erc20_transfer)
                in \<lparr>oe_kind = kind, oe_target = sc_to call, oe_native_value = sc_value call,
                    oe_counterparty = Some counterparty, oe_amount = Some amount, oe_selector = selector\<rparr>
              else plain Unrecognised)"

section \<open>The effect policy\<close>

fun refusals :: "effect_kind \<Rightarrow> onchain_reason option" where
  "refusals Delegated = Some Delegatecall"
| "refusals Self_administration = Some Structural_change"
| "refusals Unrecognised = Some Unknown_selector"
| "refusals Erc20_approval = None"
| "refusals Erc20_transfer = None"

definition on_abstain :: onchain_judgement where
  "on_abstain = \<lparr>oj_contract_version = ONCHAIN_CONTRACT_VERSION, oj_verdict = On_abstain, oj_findings = []\<rparr>"

definition onchain_judge ::
  "onchain_verdict \<Rightarrow> onchain_reason \<Rightarrow> int option \<Rightarrow> int option \<Rightarrow> py_error + onchain_judgement" where
  "onchain_judge v code observed limit =
     (case mk_onchain_finding code (bounded observed) (bounded limit) of
        Inl e \<Rightarrow> Inl e
      | Inr f \<Rightarrow> mk_onchain_judgement v [f])"

definition judge_amount ::
  "onchain_effect \<Rightarrow> int \<Rightarrow> int option \<Rightarrow> py_error + onchain_judgement" where
  "judge_amount effect approval_cap review_above =
     (case oe_amount effect of
        None \<Rightarrow> onchain_judge On_deny Effect_outside_model None None
      | Some amount \<Rightarrow>
          if approval_cap < amount
          then onchain_judge On_deny Unbounded_approval (Some amount) (Some approval_cap)
          else (case review_above of
                  Some limit \<Rightarrow>
                    if limit < amount
                    then onchain_judge On_review Unbounded_approval (Some amount) (Some limit)
                    else Inr on_abstain
                | None \<Rightarrow> Inr on_abstain))"

definition onchain_evaluate ::
  "onchain_effect \<Rightarrow> int \<Rightarrow> int option \<Rightarrow> py_str set \<Rightarrow> py_str set \<Rightarrow> py_error + onchain_judgement" where
  "onchain_evaluate effect approval_cap review_above spender_allowlist token_allowlist =
     (if 0 < oe_native_value effect
      then onchain_judge On_deny Effect_outside_model (Some (oe_native_value effect)) None
      else if (oe_kind effect = Erc20_transfer \<or> oe_kind effect = Erc20_approval)
              \<and> lower (oe_target effect) \<notin> lower ` token_allowlist
      then onchain_judge On_deny Token_not_allowlisted None None
      else if oe_kind effect = Erc20_transfer then judge_amount effect approval_cap review_above
      else if oe_kind effect = Erc20_approval
      then (case oe_amount effect of
              None \<Rightarrow> onchain_judge On_deny Effect_outside_model None None
            | Some amount \<Rightarrow>
                if approval_cap < amount
                then onchain_judge On_deny Unbounded_approval (Some amount) (Some approval_cap)
                else if (case oe_counterparty effect of None \<Rightarrow> True
                         | Some c \<Rightarrow> lower c \<notin> lower ` spender_allowlist)
                then onchain_judge On_deny Counterparty_not_allowlisted None None
                else judge_amount effect approval_cap review_above)
      else onchain_judge On_deny
             (case refusals (oe_kind effect) of Some code \<Rightarrow> code | None \<Rightarrow> Effect_outside_model) None None)"

section \<open>The attested configuration\<close>

definition same_address :: "py_str \<Rightarrow> py_str \<Rightarrow> bool" where
  "same_address a b \<longleftrightarrow> lower a = lower b"

record token_identity =
  ti_implementation :: py_str
  ti_code_hash :: py_str

definition token_matches :: "token_identity \<Rightarrow> token_identity \<Rightarrow> bool" where
  "token_matches t u \<longleftrightarrow>
     same_address (ti_implementation t) (ti_implementation u)
     \<and> lower (ti_code_hash t) = lower (ti_code_hash u)"

record safe_chain_state =
  ss_nonce :: int
  ss_owners :: "py_str list"
  ss_threshold :: int
  ss_transaction_guard :: py_str
  ss_module_guard :: py_str
  ss_chain_id :: int
  ss_safe_version :: py_str

definition safe_chain_state_ok :: "safe_chain_state \<Rightarrow> bool" where
  "safe_chain_state_ok s \<longleftrightarrow>
     0 \<le> ss_nonce s \<and> ss_nonce s < 2 ^ 256 \<and> 1 \<le> ss_threshold s
     \<and> is_address (ss_transaction_guard s) \<and> is_address (ss_module_guard s)
     \<and> 1 \<le> ss_chain_id s \<and> ss_safe_version s \<noteq> []"

record expected_safe_config =
  xc_chain_id :: int
  xc_safe_version :: py_str
  xc_owners :: "py_str set"
  xc_threshold :: int
  xc_transaction_guard :: py_str
  xc_module_guard :: py_str
  xc_token :: py_str
  xc_token_identity :: token_identity

definition structure_changed :: "expected_safe_config \<Rightarrow> safe_chain_state \<Rightarrow> bool" where
  "structure_changed x s \<longleftrightarrow>
     set (map lower (ss_owners s)) \<noteq> lower ` xc_owners x
     \<or> ss_threshold s \<noteq> xc_threshold x
     \<or> \<not> same_address (ss_transaction_guard s) (xc_transaction_guard x)
     \<or> \<not> same_address (ss_module_guard s) (xc_module_guard x)"

definition mismatches ::
  "expected_safe_config \<Rightarrow> safe_chain_state \<Rightarrow> token_identity \<Rightarrow> onchain_reason list" where
  "mismatches x s token =
     fromkeys
       ((if ss_chain_id s \<noteq> xc_chain_id x then [Replayed_signature] else [])
        @ (if ss_safe_version s \<noteq> xc_safe_version x then [Effect_outside_model] else [])
        @ (if structure_changed x s then [Structural_change] else [])
        @ (if \<not> token_matches (xc_token_identity x) token then [Implementation_moved] else []))"

text \<open>The live account is the attested one.\<close>

definition attested :: "expected_safe_config \<Rightarrow> safe_chain_state \<Rightarrow> token_identity \<Rightarrow> bool" where
  "attested x s token \<longleftrightarrow>
     ss_chain_id s = xc_chain_id x \<and> ss_safe_version s = xc_safe_version x
     \<and> lower ` set (ss_owners s) = lower ` xc_owners x \<and> ss_threshold s = xc_threshold x
     \<and> lower (ss_transaction_guard s) = lower (xc_transaction_guard x)
     \<and> lower (ss_module_guard s) = lower (xc_module_guard x)
     \<and> lower (ti_implementation token) = lower (ti_implementation (xc_token_identity x))
     \<and> lower (ti_code_hash token) = lower (ti_code_hash (xc_token_identity x))"

lemma mismatches_empty: "mismatches x s token = [] \<longleftrightarrow> attested x s token"
  by (auto simp: mismatches_def attested_def structure_changed_def token_matches_def same_address_def)

section \<open>What the policy answers\<close>

lemma onchain_judge_eq:
  assumes "\<And>n. obs = Some n \<Longrightarrow> 0 \<le> n" and "\<And>n. lim = Some n \<Longrightarrow> 0 \<le> n"
  shows "onchain_judge v code obs lim = Inr \<lparr>oj_contract_version = ONCHAIN_CONTRACT_VERSION, oj_verdict = v,
    oj_findings = [\<lparr>of_code = code, of_observed = bounded obs, of_limit = bounded lim\<rparr>]\<rparr>"
  using detail_ok_bounded [of obs] detail_ok_bounded [of lim] assms
  by (simp add: onchain_judge_def mk_onchain_finding_def mk_onchain_judgement_def)

definition effect_ok :: "onchain_effect \<Rightarrow> bool" where
  "effect_ok e \<longleftrightarrow> 0 \<le> oe_native_value e \<and> (\<forall>n. oe_amount e = Some n \<longrightarrow> 0 \<le> n)"

lemma decode_effect_ok: "safe_call_ok call \<Longrightarrow> effect_ok (decode_effect safe call)"
  by (auto simp: decode_effect_def effect_ok_def safe_call_ok_def decode_address_and_amount_def Let_def)

text \<open>The permitted effects, as a specification.\<close>

definition token_operation_within ::
  "onchain_effect \<Rightarrow> int \<Rightarrow> py_str set \<Rightarrow> py_str set \<Rightarrow> bool" where
  "token_operation_within e cap spenders tokens \<longleftrightarrow>
     oe_native_value e = 0 \<and> (oe_kind e = Erc20_transfer \<or> oe_kind e = Erc20_approval)
     \<and> lower (oe_target e) \<in> lower ` tokens
     \<and> (\<exists>n. oe_amount e = Some n \<and> n \<le> cap)
     \<and> (oe_kind e = Erc20_approval \<longrightarrow> (\<exists>c. oe_counterparty e = Some c \<and> lower c \<in> lower ` spenders))"

definition in_review_band :: "onchain_effect \<Rightarrow> int option \<Rightarrow> bool" where
  "in_review_band e review_above \<longleftrightarrow>
     (\<exists>limit n. review_above = Some limit \<and> oe_amount e = Some n \<and> limit < n)"

lemma onchain_evaluate_spec:
  assumes "effect_ok e" and "0 \<le> cap" and "\<And>r. review_above = Some r \<Longrightarrow> 0 \<le> r"
  shows "\<exists>j. onchain_evaluate e cap review_above spenders tokens = Inr j
    \<and> oj_verdict j = (if \<not> token_operation_within e cap spenders tokens then On_deny
        else if in_review_band e review_above then On_review else On_abstain)
    \<and> (oj_verdict j = On_abstain \<longleftrightarrow> oj_findings j = [])"
proof (cases "0 < oe_native_value e")
  case True
  with onchain_judge_eq [of "Some (oe_native_value e)" None On_deny Effect_outside_model] show ?thesis
    by (simp add: onchain_evaluate_def token_operation_within_def)
next
  case native: False
  have deny: "onchain_judge On_deny code None None = Inr \<lparr>oj_contract_version = ONCHAIN_CONTRACT_VERSION,
      oj_verdict = On_deny, oj_findings = [\<lparr>of_code = code, of_observed = None, of_limit = None\<rparr>]\<rparr>" for code
    using onchain_judge_eq [of None None On_deny code] by simp
  have zero: "oe_native_value e = 0" using native assms(1) by (simp add: effect_ok_def)
  have over: "\<exists>j. onchain_judge v Unbounded_approval (Some n) (Some l) = Inr j \<and> oj_verdict j = v \<and> oj_findings j \<noteq> []"
    if "0 \<le> n" "0 \<le> l" for v n l
    using that onchain_judge_eq [of "Some n" "Some l" v Unbounded_approval] by simp
  have amount: "\<exists>j. judge_amount e cap review_above = Inr j
      \<and> oj_verdict j = (if \<not> (\<exists>n. oe_amount e = Some n \<and> n \<le> cap) then On_deny
          else if in_review_band e review_above then On_review else On_abstain)
      \<and> (oj_verdict j = On_abstain \<longleftrightarrow> oj_findings j = [])"
  proof (cases "oe_amount e")
    case None
    then show ?thesis by (simp add: judge_amount_def deny)
  next
    case (Some n)
    with assms(1) have n: "0 \<le> n" by (simp add: effect_ok_def)
    show ?thesis
    proof (cases "cap < n")
      case True
      with Some over [OF n assms(2), of On_deny] show ?thesis by (auto simp: judge_amount_def)
    next
      case False
      show ?thesis
      proof (cases review_above)
        case None
        with Some False show ?thesis by (simp add: judge_amount_def in_review_band_def on_abstain_def)
      next
        case limit: (Some l)
        with Some False over [OF n assms(3) [OF limit], of On_review] show ?thesis
          by (auto simp: judge_amount_def in_review_band_def on_abstain_def)
      qed
    qed
  qed
  show ?thesis
  proof (cases "oe_kind e = Erc20_transfer \<or> oe_kind e = Erc20_approval")
    case False
    then show ?thesis using zero
      by (cases "oe_kind e") (auto simp: onchain_evaluate_def deny token_operation_within_def)
  next
    case kind: True
    show ?thesis
    proof (cases "lower (oe_target e) \<in> lower ` tokens")
      case False
      with kind zero show ?thesis
        by (auto simp: onchain_evaluate_def deny token_operation_within_def)
    next
      case pinned: True
      show ?thesis
      proof (cases "oe_kind e = Erc20_transfer")
        case True
        with amount pinned zero show ?thesis
          by (simp add: onchain_evaluate_def token_operation_within_def)
      next
        case False
        with kind have ap: "oe_kind e = Erc20_approval" by simp
        show ?thesis
        proof (cases "oe_amount e")
          case None
          with ap pinned zero show ?thesis
            by (simp add: onchain_evaluate_def deny token_operation_within_def)
        next
          case (Some n)
          with assms(1) have n: "0 \<le> n" by (simp add: effect_ok_def)
          show ?thesis
          proof (cases "cap < n")
            case True
            with Some ap pinned zero over [OF n assms(2), of On_deny] show ?thesis
              by (auto simp: onchain_evaluate_def token_operation_within_def)
          next
            case False
            with Some ap pinned zero amount show ?thesis
              by (auto simp: onchain_evaluate_def deny token_operation_within_def split: option.splits)
          qed
        qed
      qed
    qed
  qed
qed

section \<open>Reading back encoded calldata\<close>

text \<open>Calldata of a token operation as an encoder writes it: the selector, the address padded to
  a word, and the amount as a 64-digit word.\<close>

fun hex_pad :: "nat \<Rightarrow> nat \<Rightarrow> py_str" where
  "hex_pad 0 n = []"
| "hex_pad (Suc w) n = hex_pad w (n div 16) @ [hex_char (n mod 16)]"

definition token_calldata :: "py_str \<Rightarrow> py_str \<Rightarrow> nat \<Rightarrow> py_str" where
  "token_calldata selector address amount =
     selector @ replicate 24 (CHR ''0'') @ drop 2 address @ hex_pad 64 amount"

lemma length_hex_pad [simp]: "length (hex_pad w n) = w"
  by (induction w arbitrary: n) auto

lemma of_char_hex_char: "d < 16 \<Longrightarrow> (of_char (hex_char d) :: nat) = (if d < 10 then 48 + d else 87 + d)"
  by (simp add: hex_char_def)

lemma hex_digit_hex_char [simp]: "d < 16 \<Longrightarrow> hex_digit (hex_char d) = d"
  by (simp add: hex_digit_def of_char_hex_char Let_def)

lemma hex_number_hex_pad: "n < 16 ^ w \<Longrightarrow> hex_number (hex_pad w n) = n"
proof (induction w arbitrary: n)
  case 0
  then show ?case by (simp add: hex_number_def)
next
  case (Suc w)
  have "n div 16 < 16 ^ w" using Suc.prems by (simp add: less_mult_imp_div_less mult.commute)
  with Suc.IH [of "n div 16"] show ?case by (simp add: hex_number_def)
qed

lemma address_shape: "is_address a \<Longrightarrow> a = ''0x'' @ drop 2 a \<and> length (drop 2 a) = 40"
  using append_take_drop_id [of 2 a] by (simp add: is_address_def)

lemma decode_token_calldata:
  assumes "is_address a" and "n < 2 ^ 256" and "length selector = 10"
  shows "decode_address_and_amount (token_calldata selector a n) = (a, int n)"
    and "selector_of (token_calldata selector a n) = Some selector"
    and "length (token_calldata selector a n) = ARGS_TWO_WORDS"
proof -
  have a: "a = ''0x'' @ drop 2 a" "length (drop 2 a) = 40" using address_shape [OF assms(1)] by simp_all
  have "(2::nat) ^ 256 = 16 ^ 64" by simp
  then have n: "hex_number (hex_pad 64 n) = n" using assms(2) by (intro hex_number_hex_pad) simp
  have body: "drop 10 (token_calldata selector a n) = replicate 24 (CHR ''0'') @ drop 2 a @ hex_pad 64 n"
    using assms(3) by (simp add: token_calldata_def)
  have "take 40 (drop 24 (replicate 24 (CHR ''0'') @ drop 2 a @ hex_pad 64 n)) = drop 2 a"
    using a(2) by simp
  moreover have "take 64 (drop 64 (replicate 24 (CHR ''0'') @ drop 2 a @ hex_pad 64 n)) = hex_pad 64 n"
    using a(2) by simp
  ultimately show "decode_address_and_amount (token_calldata selector a n) = (a, int n)"
    unfolding decode_address_and_amount_def Let_def body using a(1) n by simp
  show "selector_of (token_calldata selector a n) = Some selector"
    using assms(3) by (simp add: selector_of_def token_calldata_def)
  show "length (token_calldata selector a n) = ARGS_TWO_WORDS"
    using assms(3) a(2) by (simp add: token_calldata_def ARGS_TWO_WORDS_def)
qed

section \<open>Properties\<close>

text \<open>[C38] The decode reads back what an encoder writes: for every address and every 256-bit amount,
  calldata of \<open>approve\<close> or \<open>transfer\<close> to another contract decodes to that operation with exactly
  that counterparty and amount, while a delegatecall and a call of the account itself are
  classified as such whatever their calldata says.\<close>

theorem decode_effect_roundtrip:
  assumes "is_address a" and "n < 2 ^ 256" and "selector = APPROVE \<or> selector = TRANSFER"
    and "sc_data call = token_calldata selector a n"
  shows "decode_effect safe call =
     (if sc_operation call = Op_delegatecall \<or> lower (sc_to call) = lower safe
      then \<lparr>oe_kind = (if sc_operation call = Op_delegatecall then Delegated else Self_administration),
            oe_target = sc_to call, oe_native_value = sc_value call, oe_counterparty = None,
            oe_amount = None, oe_selector = Some selector\<rparr>
      else \<lparr>oe_kind = (if selector = APPROVE then Erc20_approval else Erc20_transfer),
            oe_target = sc_to call, oe_native_value = sc_value call, oe_counterparty = Some a,
            oe_amount = Some (int n), oe_selector = Some selector\<rparr>)"
proof -
  have "length selector = 10" using assms(3) by (auto simp: APPROVE_def TRANSFER_def)
  from decode_token_calldata [OF assms(1,2) this] assms(3,4) show ?thesis
    by (auto simp: decode_effect_def Let_def)
qed

definition demo_address :: "char \<Rightarrow> py_str" where
  "demo_address c = ''0x'' @ replicate 40 c"

definition demo_transfer :: "nat \<Rightarrow> safe_call" where
  "demo_transfer n =
     \<lparr>sc_to = demo_address (CHR ''b''), sc_value = 0,
      sc_data = token_calldata TRANSFER (demo_address (CHR ''c'')) n, sc_operation = Op_call\<rparr>"

lemma demo_address_ok: "is_address (demo_address (CHR ''a''))" "is_address (demo_address (CHR ''b''))"
  "is_address (demo_address (CHR ''c''))"
  by (simp_all add: is_address_def demo_address_def is_any_hex_def)

theorem decode_effect_roundtrip_witness:
  "oe_kind (decode_effect (demo_address (CHR ''a'')) (demo_transfer 2500)) = Erc20_transfer
   \<and> oe_amount (decode_effect (demo_address (CHR ''a'')) (demo_transfer 2500)) = Some 2500
   \<and> oe_counterparty (decode_effect (demo_address (CHR ''a'')) (demo_transfer 2500)) = Some (demo_address (CHR ''c''))"
proof -
  have "lower (demo_address (CHR ''b'')) \<noteq> lower (demo_address (CHR ''a''))"
    by (simp add: lower_def demo_address_def lower_char_def)
  moreover have "sc_data (demo_transfer 2500) = token_calldata TRANSFER (demo_address (CHR ''c'')) 2500"
    by (simp add: demo_transfer_def)
  moreover have "(2500 :: nat) < 2 ^ 256" by simp
  ultimately show ?thesis
    using decode_effect_roundtrip [of "demo_address (CHR ''c'')" 2500 TRANSFER "demo_transfer 2500"
        "demo_address (CHR ''a'')"] demo_address_ok
    by (simp add: demo_transfer_def APPROVE_def TRANSFER_def)
qed

text \<open>The effect policy never raises and is fail-closed: with non-negative bounds it abstains
  exactly on a transfer or approval that moves no native value, targets the pinned token, is
  within the cap and not above the review band, and, for an approval, names an allowlisted
  spender; it reviews exactly the same operations in the review band, and denies everything
  else.\<close>

theorem onchain_policy_bands:
  assumes "effect_ok e" and "0 \<le> cap" and "\<forall>r. review_above = Some r \<longrightarrow> 0 \<le> r"
  shows "\<exists>j. onchain_evaluate e cap review_above spenders tokens = Inr j
    \<and> oj_verdict j = (if \<not> token_operation_within e cap spenders tokens then On_deny
        else if in_review_band e review_above then On_review else On_abstain)"
  using onchain_evaluate_spec [OF assms(1,2), of review_above spenders tokens] assms(3) by blast

theorem onchain_policy_bands_witness:
  "\<exists>j. onchain_evaluate
      \<lparr>oe_kind = Erc20_approval, oe_target = ''0xB'', oe_native_value = 0, oe_counterparty = Some ''0xC'',
       oe_amount = Some 70, oe_selector = None\<rparr> 100 (Some 50) {''0xc''} {''0xb''} = Inr j
     \<and> oj_verdict j = On_review"
proof -
  let ?e = "\<lparr>oe_kind = Erc20_approval, oe_target = ''0xB'', oe_native_value = 0, oe_counterparty = Some ''0xC'',
       oe_amount = Some 70, oe_selector = None\<rparr>"
  have "effect_ok ?e" by (simp add: effect_ok_def)
  moreover have "lower ''0xB'' = lower ''0xb''" "lower ''0xC'' = lower ''0xc''" by code_simp+
  then have "token_operation_within ?e 100 {''0xc''} {''0xb''}" "in_review_band ?e (Some 50)"
    by (simp_all add: token_operation_within_def in_review_band_def)
  ultimately show ?thesis
    using onchain_policy_bands [of ?e 100 "Some 50" "{''0xc''}" "{''0xb''}"] by auto
qed

end
