(* ===== verification/Cosigner.thy ===== *)
theory Cosigner
  imports Onchain "HOL-Library.AList"
begin

text \<open>
  \<open>secondsign.gateway.onchain_cosigner\<close>: the co-signer of a Safe account. Code outside the
  repository enters as parameters: the hashing and encoding library (\<open>onchain_library\<close>), the
  signing provider and the reader of the live chain, which is passed to each call because what
  it reads changes between calls. Each may raise (\<open>None\<close>). The hashes handed to the signer are
  the component \<open>co_signed\<close> of the state.
\<close>

section \<open>The transaction hash\<close>

datatype abi_value =
    Abi_bytes32 bytes
  | Abi_uint256 int
  | Abi_uint8 int
  | Abi_address py_str

record onchain_library =
  ol_keccak :: "bytes \<Rightarrow> bytes"
  ol_encode :: "abi_value list \<Rightarrow> bytes option"

record safe_context =
  sx_safe_address :: py_str
  sx_chain_id :: int

definition DOMAIN_TYPEHASH_TEXT :: py_str where
  "DOMAIN_TYPEHASH_TEXT = ''EIP712Domain(uint256 chainId,address verifyingContract)''"

definition SAFE_TX_TYPEHASH_TEXT :: py_str where
  "SAFE_TX_TYPEHASH_TEXT = ''SafeTx(address to,uint256 value,bytes data,uint8 operation,uint256 safeTxGas,''
     @ ''uint256 baseGas,uint256 gasPrice,address gasToken,address refundReceiver,uint256 nonce)''"

definition ZERO_ADDRESS :: py_str where
  "ZERO_ADDRESS = ''0x'' @ replicate 40 (CHR ''0'')"

text \<open>\<open>bytes.fromhex\<close> on an even number of hexadecimal digits.\<close>

fun hex_bytes :: "py_str \<Rightarrow> bytes" where
  "hex_bytes (a # b # r) = of_nat (16 * hex_digit a + hex_digit b) # hex_bytes r"
| "hex_bytes r = []"

definition remove_0x :: "py_str \<Rightarrow> py_str" where
  "remove_0x s = (if take 2 s = ''0x'' then drop 2 s else s)"

definition domain_values :: "onchain_library \<Rightarrow> safe_context \<Rightarrow> abi_value list" where
  "domain_values lib ctx =
     [Abi_bytes32 (ol_keccak lib (utf8 DOMAIN_TYPEHASH_TEXT)), Abi_uint256 (sx_chain_id ctx),
      Abi_address (sx_safe_address ctx)]"

definition struct_values :: "onchain_library \<Rightarrow> safe_call \<Rightarrow> int \<Rightarrow> abi_value list" where
  "struct_values lib call nonce =
     [Abi_bytes32 (ol_keccak lib (utf8 SAFE_TX_TYPEHASH_TEXT)), Abi_address (sc_to call),
      Abi_uint256 (sc_value call), Abi_bytes32 (ol_keccak lib (hex_bytes (remove_0x (sc_data call)))),
      Abi_uint8 (if sc_operation call = Op_call then 0 else 1), Abi_uint256 0, Abi_uint256 0,
      Abi_uint256 0, Abi_address ZERO_ADDRESS, Abi_address ZERO_ADDRESS, Abi_uint256 nonce]"

definition safe_transaction_hash ::
  "onchain_library \<Rightarrow> safe_call \<Rightarrow> safe_context \<Rightarrow> int \<Rightarrow> py_error + bytes" where
  "safe_transaction_hash lib call ctx nonce =
     (case ol_encode lib (domain_values lib ctx) of
        None \<Rightarrow> Inl External_Error
      | Some domain \<Rightarrow>
          (case ol_encode lib (struct_values lib call nonce) of
             None \<Rightarrow> Inl External_Error
           | Some struct \<Rightarrow>
               Inr (ol_keccak lib ([0x19, 0x01] @ ol_keccak lib domain @ ol_keccak lib struct))))"

section \<open>The state of the co-signer\<close>

fun verdict_to_decision :: "onchain_verdict \<Rightarrow> decision_verdict" where
  "verdict_to_decision On_abstain = Allow"
| "verdict_to_decision On_review = Review"
| "verdict_to_decision On_deny = Deny"

definition COSIGN_REVIEW_TTL :: timedelta where
  "COSIGN_REVIEW_TTL = seconds (4 * 60 * 60)"

definition COSIGN_TERMINAL :: "rejection_reason set" where
  "COSIGN_TERMINAL = {Not_approved, Expired}"

datatype cosign_status = Signed | Held | Cosign_refused

record cosign_outcome =
  cs_status :: cosign_status
  cs_judgement :: "onchain_judgement option"
  cs_signature :: "py_str option"
  cs_approval_id :: "py_str option"

record held_onchain =
  ho_tx_hash :: bytes
  ho_approval :: pending_approval
  ho_judgement :: onchain_judgement
  ho_nonce :: int

record chain_reader =
  rd_safe :: "py_str \<Rightarrow> safe_chain_state option"
  rd_token :: "py_str \<Rightarrow> token_identity option"

record 's cosigner_config =
  cc_library :: onchain_library
  cc_signer :: "bytes \<Rightarrow> py_str option"
  cc_context :: safe_context
  cc_approval_cap :: int
  cc_expected :: "expected_safe_config option"
  cc_review_above :: "int option"
  cc_spenders :: "py_str set"
  cc_review_ttl :: timedelta
  cc_sink :: "'s sink_ops"

record 's cosigner =
  co_pending :: "(py_str \<times> held_onchain) list"
  co_settled :: "py_str set"
  co_consumed :: maker_checker
  co_sink :: 's
  co_signed :: "bytes list"

text \<open>The constructor's checks: the chain ids agree, and \<open>SafeAdapter\<close> validates the address.\<close>

definition mk_cosigner :: "'s cosigner_config \<Rightarrow> 's \<Rightarrow> py_error + 's cosigner" where
  "mk_cosigner cfg sink =
     (if \<exists>x. cc_expected cfg = Some x \<and> xc_chain_id x \<noteq> sx_chain_id (cc_context cfg) then Inl Value_Error
      else if \<not> is_address (sx_safe_address (cc_context cfg)) then Inl Validation_Error
      else Inr \<lparr>co_pending = [], co_settled = {}, co_consumed = maker_checker_init, co_sink = sink,
                co_signed = []\<rparr>)"

definition token_allowlist :: "'s cosigner_config \<Rightarrow> py_str set" where
  "token_allowlist cfg = (case cc_expected cfg of None \<Rightarrow> {} | Some x \<Rightarrow> {xc_token x})"

section \<open>The steps of the co-signer\<close>

definition cosign_judge :: "'s cosigner_config \<Rightarrow> safe_call \<Rightarrow> py_error + onchain_judgement" where
  "cosign_judge cfg call =
     onchain_evaluate (decode_effect (sx_safe_address (cc_context cfg)) call) (cc_approval_cap cfg)
       (cc_review_above cfg) (cc_spenders cfg) (token_allowlist cfg)"

text \<open>\<open>_reverify\<close>: \<open>Inr None\<close> when the co-signer is not wired to verify.\<close>

definition reverify ::
  "'s cosigner_config \<Rightarrow> chain_reader option \<Rightarrow> py_error + (int \<times> onchain_reason list) option" where
  "reverify cfg reader =
     (case (reader, cc_expected cfg) of
        (Some rd, Some expected) \<Rightarrow>
          (case rd_safe rd (sx_safe_address (cc_context cfg)) of
             None \<Rightarrow> Inl External_Error
           | Some state \<Rightarrow>
               (case rd_token rd (xc_token expected) of
                  None \<Rightarrow> Inl External_Error
                | Some token \<Rightarrow> Inr (Some (ss_nonce state, mismatches expected state token))))
      | _ \<Rightarrow> Inr None)"

definition mk_intent_digest :: "py_str \<Rightarrow> py_error + intent_digest" where
  "mk_intent_digest v =
     (if hex64 v then Inr \<lparr>id_version = DIGEST_VERSION, id_value = v\<rparr> else Inl Validation_Error)"

definition mk_proposal_digest :: "py_str \<Rightarrow> py_error + proposal_digest" where
  "mk_proposal_digest v =
     (if hex64 v then Inr \<lparr>pd_version = PROPOSAL_DIGEST_VERSION, pd_value = v\<rparr> else Inl Validation_Error)"

definition cosign_sign :: "'s cosigner_config \<Rightarrow> 's cosigner \<Rightarrow> bytes \<Rightarrow> (py_error + py_str) \<times> 's cosigner" where
  "cosign_sign cfg co tx_hash =
     (case cc_signer cfg tx_hash of
        None \<Rightarrow> (Inl External_Error, co)
      | Some signature \<Rightarrow> (Inr signature, co\<lparr>co_signed := co_signed co @ [tx_hash]\<rparr>))"

text \<open>\<open>_record\<close>; \<open>None\<close> is a normal return, \<open>Some\<close> the exception.\<close>

definition cosign_record ::
  "'s cosigner_config \<Rightarrow> 's cosigner \<Rightarrow> bytes \<Rightarrow> onchain_verdict \<Rightarrow> py_str option
     \<Rightarrow> py_error option \<times> 's cosigner" where
  "cosign_record cfg co tx_hash verdict approval_id =
     (case mk_intent_digest (hex tx_hash) of
        Inl e \<Rightarrow> (Some e, co)
      | Inr digest \<Rightarrow>
          (let (result, sink) = audit_record (cc_sink cfg) (co_sink co) digest (verdict_to_decision verdict)
                 [] None approval_id None
           in (case result of Inl e \<Rightarrow> Some e | Inr _ \<Rightarrow> None, co\<lparr>co_sink := sink\<rparr>)))"

text \<open>Recording, then returning an outcome: the way every branch ends.\<close>

definition record_then ::
  "'s cosigner_config \<Rightarrow> 's cosigner \<Rightarrow> bytes \<Rightarrow> onchain_verdict \<Rightarrow> py_str option \<Rightarrow> cosign_outcome
     \<Rightarrow> (py_error + cosign_outcome) \<times> 's cosigner" where
  "record_then cfg co tx_hash verdict approval_id outcome =
     (case cosign_record cfg co tx_hash verdict approval_id of
        (Some e, co1) \<Rightarrow> (Inl e, co1)
      | (None, co1) \<Rightarrow> (Inr outcome, co1))"

definition refused_with :: "onchain_judgement option \<Rightarrow> cosign_outcome" where
  "refused_with judgement =
     \<lparr>cs_status = Cosign_refused, cs_judgement = judgement, cs_signature = None, cs_approval_id = None\<rparr>"

definition drift_judgement :: "onchain_reason list \<Rightarrow> onchain_judgement" where
  "drift_judgement reasons =
     \<lparr>oj_contract_version = ONCHAIN_CONTRACT_VERSION, oj_verdict = On_deny,
      oj_findings = map (\<lambda>code. \<lparr>of_code = code, of_observed = None, of_limit = None\<rparr>) reasons\<rparr>"

text \<open>The approval a held transaction becomes.\<close>

definition onchain_approval ::
  "'s cosigner_config \<Rightarrow> py_str \<Rightarrow> py_str \<Rightarrow> datetime \<Rightarrow> onchain_judgement \<Rightarrow> py_error + pending_approval" where
  "onchain_approval cfg approval_id proposer now judgement =
     (let (observed, limit) =
        (case oj_findings judgement of [] \<Rightarrow> (None, None) | f # _ \<Rightarrow> (of_observed f, of_limit f))
      in case mk_proposal_digest approval_id of
           Inl e \<Rightarrow> Inl e
         | Inr proposal \<Rightarrow>
             (case mk_intent_digest approval_id of
                Inl e \<Rightarrow> Inl e
              | Inr digest \<Rightarrow>
                  (case mk_finding value_band_exceeded observed limit of
                     Inl e \<Rightarrow> Inl e
                   | Inr f \<Rightarrow>
                       if proposer = [] then Inl Validation_Error
                       else approval_request
                         \<lparr>dec_verdict = Review, dec_digest = digest, dec_findings = [f]\<rparr>
                         (Maker proposer) approval_id proposal (Some (now + cc_review_ttl cfg)))))"

definition cosign_hold ::
  "'s cosigner_config \<Rightarrow> 's cosigner \<Rightarrow> bytes \<Rightarrow> int \<Rightarrow> py_str \<Rightarrow> datetime \<Rightarrow> onchain_judgement
     \<Rightarrow> (py_error + cosign_outcome) \<times> 's cosigner" where
  "cosign_hold cfg co tx_hash nonce proposer now judgement =
     (let approval_id = hex tx_hash
      in if approval_id \<in> co_settled co then (Inr (refused_with (Some judgement)), co)
         else case map_of (co_pending co) approval_id of
             Some existing \<Rightarrow>
               (Inr \<lparr>cs_status = Held, cs_judgement = Some (ho_judgement existing), cs_signature = None,
                     cs_approval_id = Some approval_id\<rparr>, co)
           | None \<Rightarrow>
               (case onchain_approval cfg approval_id proposer now judgement of
                  Inl e \<Rightarrow> (Inl e, co)
                | Inr approval \<Rightarrow>
                    record_then cfg
                      (co\<lparr>co_pending := AList.update approval_id
                           \<lparr>ho_tx_hash = tx_hash, ho_approval = approval, ho_judgement = judgement,
                            ho_nonce = nonce\<rparr> (co_pending co)\<rparr>)
                      tx_hash On_review (Some approval_id)
                      \<lparr>cs_status = Held, cs_judgement = Some judgement, cs_signature = None,
                       cs_approval_id = Some approval_id\<rparr>))"

definition cosign ::
  "'s cosigner_config \<Rightarrow> 's cosigner \<Rightarrow> chain_reader option \<Rightarrow> safe_call \<Rightarrow> py_str \<Rightarrow> datetime
     \<Rightarrow> (py_error + cosign_outcome) \<times> 's cosigner" where
  "cosign cfg co reader call proposer now =
     (case reverify cfg reader of
        Inl e \<Rightarrow> (Inl e, co)
      | Inr None \<Rightarrow> (Inr (refused_with None), co)
      | Inr (Some (nonce, drift)) \<Rightarrow>
          (case safe_transaction_hash (cc_library cfg) call (cc_context cfg) nonce of
             Inl e \<Rightarrow> (Inl e, co)
           | Inr tx_hash \<Rightarrow>
               if drift \<noteq> []
               then record_then cfg co tx_hash On_deny None (refused_with (Some (drift_judgement drift)))
               else
                 (case cosign_judge cfg call of
                    Inl e \<Rightarrow> (Inl e, co)
                  | Inr judgement \<Rightarrow>
                      if oj_verdict judgement = On_review
                      then cosign_hold cfg co tx_hash nonce proposer now judgement
                      else if oj_verdict judgement = On_abstain
                      then (case cosign_sign cfg co tx_hash of
                              (Inl e, co1) \<Rightarrow> (Inl e, co1)
                            | (Inr signature, co1) \<Rightarrow>
                                record_then cfg co1 tx_hash On_abstain None
                                  \<lparr>cs_status = Signed, cs_judgement = Some judgement,
                                   cs_signature = Some signature, cs_approval_id = None\<rparr>)
                      else record_then cfg co tx_hash On_deny None (refused_with (Some judgement)))))"

definition cosign_open_reviews :: "'s cosigner \<Rightarrow> pending_approval list" where
  "cosign_open_reviews co = map (\<lambda>kv. ho_approval (snd kv)) (co_pending co)"

text \<open>After the chain was re-verified: the answer is consumed.\<close>

definition cosign_consume ::
  "'s cosigner_config \<Rightarrow> 's cosigner \<Rightarrow> py_str \<Rightarrow> held_onchain \<Rightarrow> checker_verdict \<Rightarrow> datetime
     \<Rightarrow> (py_error + cosign_outcome) \<times> 's cosigner" where
  "cosign_consume cfg co approval_id held verdict now =
     (let (consumed, maker_checker) = consume (co_consumed co) (ho_approval held) verdict now;
          co1 = co\<lparr>co_consumed := maker_checker\<rparr>;
          co2 = co1\<lparr>co_pending := AList.delete approval_id (co_pending co1)\<rparr>
      in case consumed of
           Rejected reason \<Rightarrow>
             if reason \<in> COSIGN_TERMINAL
             then record_then cfg co2 (ho_tx_hash held) On_deny (Some approval_id)
                    (refused_with (Some (ho_judgement held)))
             else (Inr (refused_with (Some (ho_judgement held))), co1)
         | Granted _ \<Rightarrow>
             (case cosign_sign cfg (co2\<lparr>co_settled := insert approval_id (co_settled co2)\<rparr>) (ho_tx_hash held) of
                (Inl e, co3) \<Rightarrow> (Inl e, co3)
              | (Inr signature, co3) \<Rightarrow>
                  record_then cfg co3 (ho_tx_hash held) On_abstain (Some approval_id)
                    \<lparr>cs_status = Signed, cs_judgement = Some (ho_judgement held),
                     cs_signature = Some signature, cs_approval_id = None\<rparr>))"

definition cosign_resolve ::
  "'s cosigner_config \<Rightarrow> 's cosigner \<Rightarrow> chain_reader option \<Rightarrow> py_str \<Rightarrow> checker_verdict \<Rightarrow> datetime
     \<Rightarrow> (py_error + cosign_outcome) \<times> 's cosigner" where
  "cosign_resolve cfg co reader approval_id verdict now =
     (case map_of (co_pending co) approval_id of
        None \<Rightarrow> (Inr (refused_with None), co)
      | Some held \<Rightarrow>
          (case reverify cfg reader of
             Inl e \<Rightarrow> (Inl e, co)
           | Inr None \<Rightarrow> (Inr (refused_with None), co)
           | Inr (Some (nonce, drift)) \<Rightarrow>
               if drift \<noteq> [] \<or> nonce \<noteq> ho_nonce held
               then
                 let reasons = (if nonce \<noteq> ho_nonce held \<and> Effect_outside_model \<notin> set drift
                                then drift @ [Effect_outside_model] else drift)
                 in record_then cfg co (ho_tx_hash held) On_deny (Some approval_id)
                      (refused_with (Some (drift_judgement reasons)))
               else cosign_consume cfg co approval_id held verdict now))"

section \<open>Frames\<close>

lemma record_then_frame:
  assumes "record_then cfg co h v a out = (r, co')"
  shows "co_pending co' = co_pending co" "co_settled co' = co_settled co" "co_consumed co' = co_consumed co"
    "co_signed co' = co_signed co" "r = Inr out \<or> (\<exists>e. r = Inl e)"
  using assms
  by (auto simp: record_then_def cosign_record_def split: sum.splits prod.splits option.splits)

lemma cosign_sign_cases:
  assumes "cosign_sign cfg co h = (r, co')"
  obtains (raised) e where "r = Inl e" "co' = co" "cc_signer cfg h = None"
    | (signed) sig where "r = Inr sig" "cc_signer cfg h = Some sig" "co' = co\<lparr>co_signed := co_signed co @ [h]\<rparr>"
  using assms by (auto simp: cosign_sign_def split: option.splits)

text \<open>The live account, as \<open>_reverify\<close> sees it when it reports no drift.\<close>

lemma reverify_no_drift:
  assumes "reverify cfg reader = Inr (Some (nonce, []))"
  obtains rd x state token where "reader = Some rd" "cc_expected cfg = Some x"
    "rd_safe rd (sx_safe_address (cc_context cfg)) = Some state" "rd_token rd (xc_token x) = Some token"
    "attested x state token" "nonce = ss_nonce state"
  using assms mismatches_empty by (auto simp: reverify_def split: option.splits)

lemma reverify_unwired: "reader = None \<or> cc_expected cfg = None \<Longrightarrow> reverify cfg reader = Inr None"
  by (auto simp: reverify_def split: option.splits)

lemma cosign_cases:
  assumes "cosign cfg co reader call proposer now = (r, co')"
  obtains (idle) "co_signed co' = co_signed co" "co_pending co' = co_pending co"
      "co_settled co' = co_settled co" "co_consumed co' = co_consumed co"
    | (held) nonce h j where "reverify cfg reader = Inr (Some (nonce, []))"
      "safe_transaction_hash (cc_library cfg) call (cc_context cfg) nonce = Inr h"
      "cosign_judge cfg call = Inr j" "oj_verdict j = On_review"
      "cosign_hold cfg co h nonce proposer now j = (r, co')"
    | (signed) nonce h j sig where "reverify cfg reader = Inr (Some (nonce, []))"
      "safe_transaction_hash (cc_library cfg) call (cc_context cfg) nonce = Inr h"
      "cosign_judge cfg call = Inr j" "oj_verdict j = On_abstain" "cc_signer cfg h = Some sig"
      "co_signed co' = co_signed co @ [h]" "co_pending co' = co_pending co"
      "co_settled co' = co_settled co" "co_consumed co' = co_consumed co"
      "\<And>out. r = Inr out \<Longrightarrow> cs_signature out = Some sig"
proof (cases "reverify cfg reader")
  case (Inl e)
  with assms idle show ?thesis by (simp add: cosign_def)
next
  case (Inr verified)
  show ?thesis
  proof (cases verified)
    case None
    with Inr assms idle show ?thesis by (simp add: cosign_def)
  next
    case (Some nd)
    obtain nonce drift where nd: "nd = (nonce, drift)" by fastforce
    note rv = Inr [unfolded Some nd]
    show ?thesis
    proof (cases "safe_transaction_hash (cc_library cfg) call (cc_context cfg) nonce")
      case (Inl e)
      with rv assms idle show ?thesis by (simp add: cosign_def)
    next
      case h: (Inr h)
      show ?thesis
      proof (cases "drift = []")
        case False
        with rv h assms have "record_then cfg co h On_deny None (refused_with (Some (drift_judgement drift))) = (r, co')"
          by (simp add: cosign_def)
        from record_then_frame [OF this] idle show ?thesis by simp
      next
        case drift: True
        show ?thesis
        proof (cases "cosign_judge cfg call")
          case (Inl e)
          with rv h drift assms idle show ?thesis by (simp add: cosign_def)
        next
          case j: (Inr j)
          show ?thesis
          proof (cases "oj_verdict j")
            case On_review
            with rv h drift j assms show ?thesis by (intro held [of nonce h j]) (simp_all add: cosign_def)
          next
            case On_deny
            with rv h drift j assms
            have "record_then cfg co h On_deny None (refused_with (Some j)) = (r, co')"
              by (simp add: cosign_def)
            from record_then_frame [OF this] idle show ?thesis by simp
          next
            case On_abstain
            obtain q co1 where q: "cosign_sign cfg co h = (q, co1)" by fastforce
            then show ?thesis
            proof (cases rule: cosign_sign_cases)
              case (raised e)
              with q rv h drift j On_abstain assms idle show ?thesis by (simp add: cosign_def)
            next
              case s: (signed sig)
              with q rv h drift j On_abstain assms
              have rec: "record_then cfg co1 h On_abstain None
                  \<lparr>cs_status = Signed, cs_judgement = Some j, cs_signature = Some sig, cs_approval_id = None\<rparr>
                = (r, co')" by (simp add: cosign_def)
              from record_then_frame [OF rec] s(2,3) rv h drift j On_abstain show ?thesis
                by (intro signed [of nonce h j sig]) auto
            qed
          qed
        qed
      qed
    qed
  qed
qed

lemma cosign_resolve_cases:
  assumes "cosign_resolve cfg co reader a verdict now = (r, co')"
  obtains (idle) "co_signed co' = co_signed co" "co_pending co' = co_pending co"
      "co_settled co' = co_settled co" "co_consumed co' = co_consumed co"
    | (dropped) held where "map_of (co_pending co) a = Some held"
      "co_signed co' = co_signed co" "co_pending co' = AList.delete a (co_pending co)"
      "co_settled co' = co_settled co" "co_consumed co' = co_consumed co"
    | (granted) nonce held where "map_of (co_pending co) a = Some held"
      "reverify cfg reader = Inr (Some (nonce, []))" "nonce = ho_nonce held"
      "pa_approval_id (ho_approval held) \<notin> co_consumed co"
      "answers_approval verdict (ho_approval held) now"
      "co_consumed co' = insert (pa_approval_id (ho_approval held)) (co_consumed co)"
      "co_pending co' = AList.delete a (co_pending co)" "co_settled co' = insert a (co_settled co)"
      "co_signed co' = co_signed co @ (if cc_signer cfg (ho_tx_hash held) = None then [] else [ho_tx_hash held])"
      "\<And>out. r = Inr out \<Longrightarrow> cs_status out = Signed \<and> cs_signature out = cc_signer cfg (ho_tx_hash held)"
proof (cases "map_of (co_pending co) a")
  case None
  with assms idle show ?thesis by (simp add: cosign_resolve_def)
next
  case held: (Some held)
  show ?thesis
  proof (cases "\<exists>nonce. reverify cfg reader = Inr (Some (nonce, [])) \<and> nonce = ho_nonce held")
    case False
    show ?thesis
    proof (cases "\<exists>nonce drift. reverify cfg reader = Inr (Some (nonce, drift))")
      case True
      then obtain nonce drift where rv: "reverify cfg reader = Inr (Some (nonce, drift))" by blast
      with False have "drift \<noteq> [] \<or> nonce \<noteq> ho_nonce held" by auto
      with rv held assms obtain out where "record_then cfg co (ho_tx_hash held) On_deny (Some a) out = (r, co')"
        by (auto simp: cosign_resolve_def Let_def)
      from record_then_frame [OF this] idle show ?thesis by simp
    next
      case False
      with held assms idle show ?thesis
        by (auto simp: cosign_resolve_def split: sum.splits option.splits prod.splits)
    qed
  next
    case True
    then have rv: "reverify cfg reader = Inr (Some (ho_nonce held, []))" by auto
    with held assms have run: "cosign_consume cfg co a held verdict now = (r, co')"
      by (simp add: cosign_resolve_def)
    obtain consumed mc where c: "consume (co_consumed co) (ho_approval held) verdict now = (consumed, mc)" by fastforce
    show ?thesis
    proof (cases consumed)
      case (Rejected reason)
      with c have mc: "mc = co_consumed co" using consume_rejected_state by auto
      let ?co2 = "co\<lparr>co_consumed := mc, co_pending := AList.delete a (co_pending co)\<rparr>"
      show ?thesis
      proof (cases "reason \<in> COSIGN_TERMINAL")
        case True
        with run c Rejected have "record_then cfg ?co2 (ho_tx_hash held) On_deny (Some a)
            (refused_with (Some (ho_judgement held))) = (r, co')"
          by (simp add: cosign_consume_def Let_def)
        from record_then_frame [OF this] mc held show ?thesis by (intro dropped [of held]) simp_all
      next
        case False
        with run c Rejected mc idle show ?thesis by (auto simp: cosign_consume_def Let_def)
      qed
    next
      case (Granted g)
      note g = iffD1 [OF consume_granted_iff c [unfolded Granted]]
      let ?co2 = "co\<lparr>co_consumed := mc, co_pending := AList.delete a (co_pending co),
        co_settled := insert a (co_settled co)\<rparr>"
      obtain q co3 where q: "cosign_sign cfg ?co2 (ho_tx_hash held) = (q, co3)" by fastforce
      then show ?thesis
      proof (cases rule: cosign_sign_cases)
        case (raised e)
        with run c Granted q g rv held show ?thesis
          by (intro granted [of held "ho_nonce held"]) (auto simp: cosign_consume_def Let_def)
      next
        case (signed sig)
        with run c Granted q have rec: "record_then cfg co3 (ho_tx_hash held) On_abstain (Some a)
            \<lparr>cs_status = Signed, cs_judgement = Some (ho_judgement held), cs_signature = Some sig,
             cs_approval_id = None\<rparr> = (r, co')"
          by (simp add: cosign_consume_def Let_def)
        from record_then_frame [OF rec] signed(2,3) g rv held show ?thesis
          by (intro granted [of held "ho_nonce held"]) auto
      qed
    qed
  qed
qed

section \<open>Held reviews\<close>

definition held_ok :: "'s cosigner_config \<Rightarrow> py_str \<Rightarrow> held_onchain \<Rightarrow> bool" where
  "held_ok cfg a held \<longleftrightarrow>
     a = hex (ho_tx_hash held) \<and> pa_approval_id (ho_approval held) = a
     \<and> pd_value (pa_proposal (ho_approval held)) = a
     \<and> (\<exists>call proposer now. onchain_approval cfg a proposer now (ho_judgement held) = Inr (ho_approval held)
          \<and> pa_maker (ho_approval held) = Maker proposer
          \<and> safe_transaction_hash (cc_library cfg) call (cc_context cfg) (ho_nonce held) = Inr (ho_tx_hash held)
          \<and> cosign_judge cfg call = Inr (ho_judgement held) \<and> oj_verdict (ho_judgement held) = On_review)"

definition cosigner_ok :: "'s cosigner_config \<Rightarrow> 's cosigner \<Rightarrow> bool" where
  "cosigner_ok cfg co \<longleftrightarrow>
     distinct (map fst (co_pending co)) \<and> co_consumed co = co_settled co
     \<and> (\<forall>a held. map_of (co_pending co) a = Some held \<longrightarrow> held_ok cfg a held \<and> a \<notin> co_settled co)"

lemma onchain_approval_fields:
  assumes "onchain_approval cfg a proposer now j = Inr approval"
  shows "pa_approval_id approval = a"
    "pa_proposal approval = \<lparr>pd_version = PROPOSAL_DIGEST_VERSION, pd_value = a\<rparr>" "pa_maker approval = Maker proposer"
    "pa_expires_at approval = Some (now + cc_review_ttl cfg)" "proposer \<noteq> []"
  using assms
  by (auto simp: onchain_approval_def mk_proposal_digest_def mk_intent_digest_def approval_request_def Let_def
      split: list.splits sum.splits if_splits prod.splits)

lemma onchain_approval_again:
  assumes "onchain_approval cfg a proposer now j = Inr approval" and "proposer2 \<noteq> []"
  shows "onchain_approval cfg a proposer2 again j
    = Inr (approval\<lparr>pa_maker := Maker proposer2, pa_expires_at := Some (again + cc_review_ttl cfg)\<rparr>)"
    and "hex64 a"
  using assms
  by (auto simp: onchain_approval_def mk_proposal_digest_def mk_intent_digest_def approval_request_def Let_def
      split: list.splits sum.splits if_splits prod.splits)

lemma cosign_hold_frame:
  assumes "cosign_hold cfg co h nonce proposer now j = (r, co')"
  shows "co_signed co' = co_signed co \<and> co_settled co' = co_settled co \<and> co_consumed co' = co_consumed co
    \<and> (co_pending co' = co_pending co
       \<or> (hex h \<notin> co_settled co \<and> map_of (co_pending co) (hex h) = None
          \<and> (\<exists>approval. onchain_approval cfg (hex h) proposer now j = Inr approval
              \<and> co_pending co' = AList.update (hex h)
                  \<lparr>ho_tx_hash = h, ho_approval = approval, ho_judgement = j, ho_nonce = nonce\<rparr> (co_pending co))))"
proof (cases "hex h \<in> co_settled co \<or> map_of (co_pending co) (hex h) \<noteq> None")
  case True
  with assms show ?thesis by (auto simp: cosign_hold_def Let_def split: if_splits)
next
  case False
  show ?thesis
  proof (cases "onchain_approval cfg (hex h) proposer now j")
    case (Inl e)
    with False assms show ?thesis by (simp add: cosign_hold_def Let_def)
  next
    case (Inr approval)
    let ?held = "\<lparr>ho_tx_hash = h, ho_approval = approval, ho_judgement = j, ho_nonce = nonce\<rparr>"
    from False Inr assms obtain out where
      "record_then cfg (co\<lparr>co_pending := AList.update (hex h) ?held (co_pending co)\<rparr>) h On_review (Some (hex h)) out
        = (r, co')" by (simp add: cosign_hold_def Let_def)
    from record_then_frame [OF this] False Inr show ?thesis by simp
  qed
qed

lemma cosigner_ok_cosign:
  assumes ok: "cosigner_ok cfg co" and run: "cosign cfg co reader call proposer now = (r, co')"
  shows "cosigner_ok cfg co'"
  using run
proof (cases rule: cosign_cases)
  case idle
  with ok show ?thesis by (simp add: cosigner_ok_def)
next
  case (signed nonce h j sig)
  with ok show ?thesis by (simp add: cosigner_ok_def)
next
  case (held nonce h j)
  note frame = cosign_hold_frame [OF held(5)]
  from frame show ?thesis
  proof (elim disjE conjE exE)
    assume "co_pending co' = co_pending co"
    with frame ok show ?thesis by (simp add: cosigner_ok_def)
  next
    fix approval
    assume new: "hex h \<notin> co_settled co" "onchain_approval cfg (hex h) proposer now j = Inr approval"
      "co_pending co' = AList.update (hex h)
         \<lparr>ho_tx_hash = h, ho_approval = approval, ho_judgement = j, ho_nonce = nonce\<rparr> (co_pending co)"
    have "held_ok cfg (hex h) \<lparr>ho_tx_hash = h, ho_approval = approval, ho_judgement = j, ho_nonce = nonce\<rparr>"
      using onchain_approval_fields [OF new(2)] held(2-4) new(2) by (auto simp: held_ok_def)
    with frame ok new(1,3) show ?thesis
      by (auto simp: cosigner_ok_def update_conv' distinct_update split: if_splits)
  qed
qed

lemma cosigner_ok_resolve:
  assumes ok: "cosigner_ok cfg co" and run: "cosign_resolve cfg co reader a verdict now = (r, co')"
  shows "cosigner_ok cfg co'"
  using run
proof (cases rule: cosign_resolve_cases)
  case idle
  with ok show ?thesis by (simp add: cosigner_ok_def)
next
  case (dropped held)
  with ok show ?thesis
    by (auto simp: cosigner_ok_def delete_conv' distinct_delete split: if_splits)
next
  case (granted nonce held)
  have "pa_approval_id (ho_approval held) = a" using ok granted(1) by (auto simp: cosigner_ok_def held_ok_def)
  with granted ok show ?thesis
    by (auto simp: cosigner_ok_def delete_conv' distinct_delete split: if_splits)
qed

section \<open>Runs of the co-signer\<close>

inductive cosigner_runs :: "'s cosigner_config \<Rightarrow> 's cosigner \<Rightarrow> 's cosigner \<Rightarrow> bool" for cfg start where
  co_refl: "cosigner_runs cfg start start"
| co_cosign: "cosigner_runs cfg start co \<Longrightarrow> cosign cfg co reader call proposer now = (r, co') \<Longrightarrow>
    cosigner_runs cfg start co'"
| co_resolve: "cosigner_runs cfg start co \<Longrightarrow> cosign_resolve cfg co reader a verdict now = (r, co') \<Longrightarrow>
    cosigner_runs cfg start co'"

definition cosigner_reachable :: "'s cosigner_config \<Rightarrow> 's \<Rightarrow> 's cosigner \<Rightarrow> bool" where
  "cosigner_reachable cfg sink co \<longleftrightarrow>
     (\<exists>start. mk_cosigner cfg sink = Inr start \<and> cosigner_runs cfg start co)"

lemma runs_cosigner_ok: "cosigner_runs cfg start co \<Longrightarrow> cosigner_ok cfg start \<Longrightarrow> cosigner_ok cfg co"
  by (induction rule: cosigner_runs.induct) (auto intro: cosigner_ok_cosign cosigner_ok_resolve)

lemma cosigner_ok_start: "mk_cosigner cfg sink = Inr start \<Longrightarrow> cosigner_ok cfg start"
  by (auto simp: mk_cosigner_def cosigner_ok_def maker_checker_init_def split: if_splits)

lemma reachable_cosigner_ok:
  assumes "cosigner_reachable cfg sink co"
  shows "cosigner_ok cfg co"
proof -
  from assms obtain start where start: "mk_cosigner cfg sink = Inr start" and run: "cosigner_runs cfg start co"
    unfolding cosigner_reachable_def by (elim exE conjE)
  show ?thesis by (rule runs_cosigner_ok [OF run cosigner_ok_start [OF start]])
qed

lemma settled_step:
  assumes ok: "cosigner_ok cfg co" and a: "a \<in> co_settled co"
  shows "cosign cfg co reader call proposer now = (r, co') \<Longrightarrow> a \<in> co_settled co'"
    and "cosign_resolve cfg co reader b verdict now = (r, co') \<Longrightarrow> a \<in> co_settled co'"
proof -
  assume "cosign cfg co reader call proposer now = (r, co')"
  then show "a \<in> co_settled co'"
  proof (cases rule: cosign_cases)
    case (held nonce h j)
    with cosign_hold_frame [OF held(5)] a show ?thesis by simp
  qed (use a in simp_all)
next
  assume "cosign_resolve cfg co reader b verdict now = (r, co')"
  then show "a \<in> co_settled co'" by (cases rule: cosign_resolve_cases) (use a in simp_all)
qed

lemma runs_settled_review:
  "cosigner_runs cfg start co \<Longrightarrow> cosigner_ok cfg start \<Longrightarrow> a \<in> co_settled start \<Longrightarrow> a \<in> co_settled co"
proof (induction rule: cosigner_runs.induct)
  case co_refl
  then show ?case by simp
next
  case (co_cosign co reader call proposer now r co')
  with settled_step(1) [OF runs_cosigner_ok [OF co_cosign(1)]] show ?case by blast
next
  case (co_resolve co reader b verdict now r co')
  with settled_step(2) [OF runs_cosigner_ok [OF co_resolve(1)]] show ?case by blast
qed

section \<open>The trail of a co-signer on the in-memory sink\<close>

lemma record_then_chain:
  assumes "cc_sink cfg = memory_sink_ops" and "verify_chain (co_sink co)"
    and "record_then cfg co h v a out = (r, co')"
  shows "verify_chain (co_sink co')"
proof (cases "hex64 (hex h)")
  case False
  with assms(2,3) show ?thesis by (auto simp: record_then_def cosign_record_def mk_intent_digest_def)
next
  case True
  obtain q s' where run: "audit_record memory_sink_ops (co_sink co)
      \<lparr>id_version = DIGEST_VERSION, id_value = hex h\<rparr> (verdict_to_decision v) [] None a None = (q, s')"
    by fastforce
  from memory_log.record_cases(1) [OF _ run] assms(2) have "verify_chain s'" by (simp add: memory_chained_iff)
  with True run assms(1,3) show ?thesis
    by (auto simp: record_then_def cosign_record_def mk_intent_digest_def split: sum.splits)
qed

lemma record_then_returns:
  assumes "cc_sink cfg = memory_sink_ops" and "verify_chain (co_sink co)" and "hex64 (hex h)"
  shows "\<exists>s. record_then cfg co h v a out = (Inr out, co\<lparr>co_sink := s\<rparr>) \<and> verify_chain s"
proof -
  obtain receipt where run: "audit_record memory_sink_ops (co_sink co)
      \<lparr>id_version = DIGEST_VERSION, id_value = hex h\<rparr> (verdict_to_decision v) [] None a None
        = (Inr receipt, co_sink co @ [receipt])"
    using memory_record_returns [OF assms(2), of None] by fastforce
  then have "record_then cfg co h v a out = (Inr out, co\<lparr>co_sink := co_sink co @ [receipt]\<rparr>)"
    using assms(1,3) by (simp add: record_then_def cosign_record_def mk_intent_digest_def)
  with record_then_chain [OF assms(1,2) this] show ?thesis by auto
qed

lemma cosign_chain:
  assumes sink: "cc_sink cfg = memory_sink_ops" and ok: "verify_chain (co_sink co)"
    and run: "cosign cfg co reader call proposer now = (r, co')"
  shows "verify_chain (co_sink co')"
proof -
  have sign: "co_sink co2 = co_sink co" if "cosign_sign cfg co h = (q, co2)" for h q co2
    using that by (cases rule: cosign_sign_cases) simp_all
  have rec: "verify_chain (co_sink co2)" if "record_then cfg co1 h v a out = (q, co2)" "co_sink co1 = co_sink co"
    for co1 h v a out q co2 using record_then_chain [OF sink _ that(1)] that(2) ok by simp
  have hold: "verify_chain (co_sink co2)" if "cosign_hold cfg co h n proposer now j = (q, co2)" for h n j q co2
    using that ok by (auto simp: cosign_hold_def Let_def split: if_splits option.splits sum.splits elim!: rec)
  from run show ?thesis
    using ok by (auto simp: cosign_def split: sum.splits option.splits if_splits prod.splits
        elim!: rec hold dest!: sign)
qed

lemma resolve_chain:
  assumes sink: "cc_sink cfg = memory_sink_ops" and ok: "verify_chain (co_sink co)"
    and run: "cosign_resolve cfg co reader a verdict now = (r, co')"
  shows "verify_chain (co_sink co')"
proof -
  have sign: "co_sink co2 = co_sink co1" if "cosign_sign cfg co1 h = (q, co2)" for co1 h q co2
    using that by (cases rule: cosign_sign_cases) simp_all
  have rec: "verify_chain (co_sink co2)" if "record_then cfg co1 h v a out = (q, co2)" "co_sink co1 = co_sink co"
    for co1 h v a out q co2 using record_then_chain [OF sink _ that(1)] that(2) ok by simp
  have consume: "verify_chain (co_sink co2)" if "cosign_consume cfg co a held verdict now = (q, co2)" for held q co2
    using that ok by (auto simp: cosign_consume_def Let_def
        split: prod.splits consume_result.splits sum.splits if_splits elim!: rec dest!: sign)
  from run show ?thesis
    using ok by (auto simp: cosign_resolve_def Let_def
        split: sum.splits option.splits if_splits prod.splits elim!: rec consume)
qed

lemma reachable_cosigner_chain:
  assumes "cosigner_reachable cfg [] co" and sink: "cc_sink cfg = memory_sink_ops"
  shows "verify_chain (co_sink co)"
proof -
  from assms obtain start where start: "mk_cosigner cfg [] = Inr start" and run: "cosigner_runs cfg start co"
    unfolding cosigner_reachable_def by (elim exE conjE)
  have "verify_chain (co_sink start)" using start by (auto simp: mk_cosigner_def verify_chain_def split: if_splits)
  with run show ?thesis
  proof (induction rule: cosigner_runs.induct)
    case co_refl
    then show ?case .
  next
    case (co_cosign co reader call proposer now r co')
    show ?case by (rule cosign_chain [OF sink co_cosign(3) [OF co_cosign(4)] co_cosign(2)])
  next
    case (co_resolve co reader a verdict now r co')
    show ?case by (rule resolve_chain [OF sink co_resolve(3) [OF co_resolve(4)] co_resolve(2)])
  qed
qed

section \<open>A co-signer to run\<close>

definition demo_library :: onchain_library where
  "demo_library = \<lparr>ol_keccak = (\<lambda>m. sha256 m), ol_encode = (\<lambda>vs. Some [])\<rparr>"

definition demo_token_identity :: token_identity where
  "demo_token_identity = \<lparr>ti_implementation = demo_address (CHR ''d''), ti_code_hash = ''0x'' @ replicate 64 (CHR ''e'')\<rparr>"

definition demo_expected :: expected_safe_config where
  "demo_expected =
     \<lparr>xc_chain_id = 8453, xc_safe_version = ''1.5.0'', xc_owners = {demo_address (CHR ''1'')}, xc_threshold = 2,
      xc_transaction_guard = ZERO_ADDRESS, xc_module_guard = ZERO_ADDRESS, xc_token = demo_address (CHR ''b''),
      xc_token_identity = demo_token_identity\<rparr>"

definition demo_live :: "int \<Rightarrow> chain_reader" where
  "demo_live nonce =
     \<lparr>rd_safe = (\<lambda>_. Some \<lparr>ss_nonce = nonce, ss_owners = [demo_address (CHR ''1'')], ss_threshold = 2,
        ss_transaction_guard = ZERO_ADDRESS, ss_module_guard = ZERO_ADDRESS, ss_chain_id = 8453,
        ss_safe_version = ''1.5.0''\<rparr>),
      rd_token = (\<lambda>_. Some demo_token_identity)\<rparr>"

definition demo_config :: "memory_sink cosigner_config" where
  "demo_config =
     \<lparr>cc_library = demo_library, cc_signer = (\<lambda>h. Some ''0xsig''),
      cc_context = \<lparr>sx_safe_address = demo_address (CHR ''a''), sx_chain_id = 8453\<rparr>, cc_approval_cap = 5000,
      cc_expected = Some demo_expected, cc_review_above = Some 1000, cc_spenders = {},
      cc_review_ttl = COSIGN_REVIEW_TTL, cc_sink = memory_sink_ops\<rparr>"

definition demo_cosigner :: "memory_sink cosigner" where
  "demo_cosigner = \<lparr>co_pending = [], co_settled = {}, co_consumed = {}, co_sink = [], co_signed = []\<rparr>"

lemma demo_cosigner_start: "mk_cosigner demo_config [] = Inr demo_cosigner"
  using demo_address_ok(1)
  by (simp add: mk_cosigner_def demo_config_def demo_expected_def demo_cosigner_def maker_checker_init_def)

lemma demo_reverify: "reverify demo_config (Some (demo_live n)) = Inr (Some (n, []))"
proof -
  have "attested demo_expected \<lparr>ss_nonce = n, ss_owners = [demo_address (CHR ''1'')], ss_threshold = 2,
        ss_transaction_guard = ZERO_ADDRESS, ss_module_guard = ZERO_ADDRESS, ss_chain_id = 8453,
        ss_safe_version = ''1.5.0''\<rparr> demo_token_identity"
    by (simp add: attested_def demo_expected_def)
  then show ?thesis
    by (simp add: reverify_def demo_config_def demo_live_def mismatches_empty)
qed

definition demo_hash :: bytes where
  "demo_hash = sha256 ([0x19, 0x01] @ sha256 [] @ sha256 [])"

lemma demo_transaction_hash:
  "safe_transaction_hash (cc_library demo_config) call (cc_context demo_config) n = Inr demo_hash"
  by (simp add: safe_transaction_hash_def demo_config_def demo_library_def demo_hash_def)

lemma demo_judge:
  assumes "n < 2 ^ 256"
  shows "\<exists>j. cosign_judge demo_config (demo_transfer n) = Inr j
    \<and> oj_verdict j = (if 5000 < n then On_deny else if 1000 < n then On_review else On_abstain)
    \<and> (\<forall>f \<in> set (oj_findings j). detail_ok (of_observed f) \<and> detail_ok (of_limit f))"
proof -
  let ?e = "decode_effect (demo_address (CHR ''a'')) (demo_transfer n)"
  have ne: "lower (demo_address (CHR ''b'')) \<noteq> lower (demo_address (CHR ''a''))"
    by (simp add: lower_def demo_address_def lower_char_def)
  have len: "length TRANSFER = 10" by (simp add: TRANSFER_def)
  have e: "?e = \<lparr>oe_kind = Erc20_transfer, oe_target = demo_address (CHR ''b''), oe_native_value = 0,
      oe_counterparty = Some (demo_address (CHR ''c'')), oe_amount = Some (int n), oe_selector = Some TRANSFER\<rparr>"
    using decode_token_calldata [OF demo_address_ok(3) assms len] ne
    by (simp add: decode_effect_def demo_transfer_def APPROVE_def TRANSFER_def Let_def)
  show ?thesis
    unfolding cosign_judge_def demo_config_def token_allowlist_def demo_expected_def
    using onchain_judge_eq [of "Some (int n)" "Some 5000" On_deny Unbounded_approval]
      onchain_judge_eq [of "Some (int n)" "Some 1000" On_review Unbounded_approval]
    by (simp add: e onchain_evaluate_def judge_amount_def on_abstain_def)
qed

lemma demo_hash_hex64: "hex64 (hex demo_hash)"
  by (simp add: demo_hash_def hex64_sha256)

lemma is_any_hex_hex_char: "d < 16 \<Longrightarrow> is_any_hex (hex_char d)"
  by (simp add: is_any_hex_def of_char_hex_char)

lemma hex_pad_any_hex: "c \<in> set (hex_pad w n) \<Longrightarrow> is_any_hex c"
  by (induction w arbitrary: n) (auto simp: is_any_hex_hex_char)

lemma demo_safe_call_ok: "safe_call_ok (demo_transfer n)"
proof -
  have "is_any_hex c" if "c \<in> set (hex_pad 64 n)" for c using that by (rule hex_pad_any_hex)
  moreover have "is_any_hex (CHR ''0'')" "is_any_hex (CHR ''a'')" "is_any_hex (CHR ''9'')" "is_any_hex (CHR ''5'')"
    "is_any_hex (CHR ''b'')" "is_any_hex (CHR ''c'')" by (simp_all add: is_any_hex_def)
  ultimately show ?thesis
    using demo_address_ok
    by (auto simp: safe_call_ok_def demo_transfer_def is_calldata_def token_calldata_def TRANSFER_def demo_address_def)
qed

lemma demo_cosign_signs:
  "\<exists>r co'. cosign demo_config demo_cosigner (Some (demo_live 0)) (demo_transfer 500) ''agent'' 0 = (r, co')
     \<and> co_signed co' = [demo_hash]"
proof -
  obtain j where j: "cosign_judge demo_config (demo_transfer 500) = Inr j" "oj_verdict j = On_abstain"
    using demo_judge [of 500] by auto
  have s: "cosign_sign demo_config demo_cosigner demo_hash = (Inr ''0xsig'', demo_cosigner\<lparr>co_signed := [demo_hash]\<rparr>)"
    by (simp add: cosign_sign_def demo_config_def demo_cosigner_def)
  obtain r co' where rec: "record_then demo_config (demo_cosigner\<lparr>co_signed := [demo_hash]\<rparr>) demo_hash On_abstain None
      \<lparr>cs_status = Signed, cs_judgement = Some j, cs_signature = Some ''0xsig'', cs_approval_id = None\<rparr> = (r, co')"
    by fastforce
  from record_then_frame(4) [OF rec] have "co_signed co' = [demo_hash]" by simp
  with j s rec show ?thesis
    by (auto simp: cosign_def demo_reverify demo_transaction_hash)
qed

text \<open>A transfer in the review band, held for the principal \<open>agent\<close> at time \<open>0\<close>.\<close>

abbreviation demo_id :: py_str where
  "demo_id \<equiv> hex demo_hash"

lemma demo_onchain_held:
  obtains co held where
    "cosigner_runs demo_config demo_cosigner co"
    "map_of (co_pending co) demo_id = Some held"
    "ho_tx_hash held = demo_hash" "ho_nonce held = 0" "pa_maker (ho_approval held) = Maker ''agent''"
    "pa_approval_id (ho_approval held) = demo_id"
    "pa_proposal (ho_approval held) = \<lparr>pd_version = PROPOSAL_DIGEST_VERSION, pd_value = demo_id\<rparr>"
    "pa_expires_at (ho_approval held) = Some COSIGN_REVIEW_TTL" "co_consumed co = {}"
    "cosign_judge demo_config (demo_transfer 2000) = Inr (ho_judgement held)"
proof -
  obtain j where j: "cosign_judge demo_config (demo_transfer 2000) = Inr j" "oj_verdict j = On_review"
    "\<forall>f \<in> set (oj_findings j). detail_ok (of_observed f) \<and> detail_ok (of_limit f)"
    using demo_judge [of 2000] by auto
  obtain observed limit where ol:
    "(case oj_findings j of [] \<Rightarrow> (None, None) | f # _ \<Rightarrow> (of_observed f, of_limit f)) = (observed, limit)"
    by fastforce
  with j(3) have "detail_ok observed \<and> detail_ok limit" by (cases "oj_findings j") auto
  then obtain f where f: "mk_finding value_band_exceeded observed limit = Inr f"
    by (simp add: mk_finding_def finding_ok_def)
  have "length demo_id = 64" using demo_hash_hex64 by (simp only: hex64_def)
  then have ne: "demo_id \<noteq> []" by (auto simp only: list.size)
  obtain approval where approval: "onchain_approval demo_config demo_id ''agent'' 0 j = Inr approval"
    using demo_hash_hex64 ne
    by (simp add: onchain_approval_def ol f mk_proposal_digest_def mk_intent_digest_def approval_request_def)
  let ?held = "\<lparr>ho_tx_hash = demo_hash, ho_approval = approval, ho_judgement = j, ho_nonce = 0\<rparr>"
  let ?co = "demo_cosigner\<lparr>co_pending := [(demo_id, ?held)]\<rparr>"
  have sink: "cc_sink demo_config = memory_sink_ops" by (simp add: demo_config_def)
  have "verify_chain (co_sink ?co)" by (simp add: demo_cosigner_def verify_chain_def)
  from record_then_returns [OF sink this demo_hash_hex64] obtain s where
    "record_then demo_config ?co demo_hash On_review (Some demo_id)
       \<lparr>cs_status = Held, cs_judgement = Some j, cs_signature = None, cs_approval_id = Some demo_id\<rparr>
     = (Inr \<lparr>cs_status = Held, cs_judgement = Some j, cs_signature = None, cs_approval_id = Some demo_id\<rparr>,
        ?co\<lparr>co_sink := s\<rparr>)" by blast
  then have "cosign demo_config demo_cosigner (Some (demo_live 0)) (demo_transfer 2000) ''agent'' 0
     = (Inr \<lparr>cs_status = Held, cs_judgement = Some j, cs_signature = None, cs_approval_id = Some demo_id\<rparr>,
        ?co\<lparr>co_sink := s\<rparr>)"
    using j(1,2) approval
    by (simp add: cosign_def demo_reverify demo_transaction_hash cosign_hold_def demo_cosigner_def Let_def)
  note run = co_cosign [OF co_refl this]
  have "pa_expires_at approval = Some COSIGN_REVIEW_TTL"
    using onchain_approval_fields(4) [OF approval] by (simp add: demo_config_def)
  then show thesis
    using onchain_approval_fields(1-3) [OF approval] j(1)
    by (intro that [OF run, of ?held]) (simp_all add: demo_cosigner_def)
qed

definition demo_cosign_answer :: "py_str \<Rightarrow> bool \<Rightarrow> checker_verdict" where
  "demo_cosign_answer checker yes =
     \<lparr>cv_checker = Checker checker, cv_approval_id = demo_id,
      cv_proposal = \<lparr>pd_version = PROPOSAL_DIGEST_VERSION, pd_value = demo_id\<rparr>, cv_approved = yes\<rparr>"

lemma demo_resolve_signs:
  assumes "map_of (co_pending co) demo_id = Some held" "ho_tx_hash held = demo_hash" "ho_nonce held = 0"
    "pa_maker (ho_approval held) = Maker ''agent''" "pa_approval_id (ho_approval held) = demo_id"
    "pa_proposal (ho_approval held) = \<lparr>pd_version = PROPOSAL_DIGEST_VERSION, pd_value = demo_id\<rparr>"
    "pa_expires_at (ho_approval held) = Some COSIGN_REVIEW_TTL" "co_consumed co = {}"
  obtains r co' where
    "cosign_resolve demo_config co (Some (demo_live 0)) demo_id (demo_cosign_answer ''ann'' True) 1 = (r, co')"
    "co_signed co' = co_signed co @ [demo_hash]" "demo_id \<in> co_settled co'"
proof -
  let ?answer = "demo_cosign_answer ''ann'' True"
  have "answers_approval ?answer (ho_approval held) 1"
    using assms(4-7) by (simp add: answers_approval_def demo_cosign_answer_def COSIGN_REVIEW_TTL_def seconds_def)
  then obtain g m where g: "consume (co_consumed co) (ho_approval held) ?answer 1 = (Granted g, m)"
    using assms(8) consume_granted_iff [of "co_consumed co" "ho_approval held" ?answer 1] by auto
  let ?co = "co\<lparr>co_consumed := m, co_pending := AList.delete demo_id (co_pending co),
      co_settled := insert demo_id (co_settled co), co_signed := co_signed co @ [demo_hash]\<rparr>"
  obtain r co' where rec: "record_then demo_config ?co demo_hash On_abstain (Some demo_id)
      \<lparr>cs_status = Signed, cs_judgement = Some (ho_judgement held), cs_signature = Some ''0xsig'',
       cs_approval_id = None\<rparr> = (r, co')" by fastforce
  have "cc_signer demo_config demo_hash = Some ''0xsig''" by (simp add: demo_config_def)
  with rec g assms(1-3) have
    "cosign_resolve demo_config co (Some (demo_live 0)) demo_id ?answer 1 = (r, co')"
    by (simp add: cosign_resolve_def cosign_consume_def cosign_sign_def demo_reverify Let_def)
  moreover have "co_signed co' = co_signed co @ [demo_hash]" "demo_id \<in> co_settled co'"
    using record_then_frame(2,4) [OF rec] by simp_all
  ultimately show thesis by (rule that)
qed

section \<open>Properties\<close>

text \<open>[C16] \<open>cosign\<close> hands to the signer at most one hash, and only that of the proposed transaction
  at the account's live nonce, while the live account and the pinned token are the attested ones
  and the transaction is a token operation on the pinned token, moving no native value, within
  the cap, outside the review band and, for an approval, to an allowlisted spender. A co-signer
  without a reader or an attested configuration never signs.\<close>

theorem cosign_signs_only_attested:
  assumes "cosign cfg co reader call proposer now = (r, co')" and "co_signed co' \<noteq> co_signed co"
    and "safe_call_ok call" and "0 \<le> cc_approval_cap cfg" and "\<forall>b. cc_review_above cfg = Some b \<longrightarrow> 0 \<le> b"
  shows "\<exists>rd x state token h.
      reader = Some rd \<and> cc_expected cfg = Some x
    \<and> rd_safe rd (sx_safe_address (cc_context cfg)) = Some state \<and> rd_token rd (xc_token x) = Some token
    \<and> attested x state token
    \<and> safe_transaction_hash (cc_library cfg) call (cc_context cfg) (ss_nonce state) = Inr h
    \<and> co_signed co' = co_signed co @ [h]
    \<and> token_operation_within (decode_effect (sx_safe_address (cc_context cfg)) call) (cc_approval_cap cfg)
        (cc_spenders cfg) {xc_token x}
    \<and> \<not> in_review_band (decode_effect (sx_safe_address (cc_context cfg)) call) (cc_review_above cfg)"
  using assms(1)
proof (cases rule: cosign_cases)
  case idle
  with assms(2) show ?thesis by simp
next
  case (held nonce h j)
  with cosign_hold_frame [OF held(5)] assms(2) show ?thesis by simp
next
  case (signed nonce h j sig)
  from signed(1) obtain rd x state token where live: "reader = Some rd" "cc_expected cfg = Some x"
    "rd_safe rd (sx_safe_address (cc_context cfg)) = Some state" "rd_token rd (xc_token x) = Some token"
    "attested x state token" "nonce = ss_nonce state" by (rule reverify_no_drift)
  let ?e = "decode_effect (sx_safe_address (cc_context cfg)) call"
  have "token_operation_within ?e (cc_approval_cap cfg) (cc_spenders cfg) {xc_token x}
      \<and> \<not> in_review_band ?e (cc_review_above cfg)"
    using onchain_evaluate_spec [OF decode_effect_ok [OF assms(3)] assms(4), of "cc_review_above cfg"
        "sx_safe_address (cc_context cfg)" "cc_spenders cfg" "{xc_token x}"] assms(5) signed(3,4) live(2)
    by (auto simp: cosign_judge_def token_allowlist_def split: if_splits)
  with live signed(2,6) show ?thesis by blast
qed

theorem cosign_signs_only_attested_witness:
  "\<exists>r co' rd. cosign demo_config demo_cosigner (Some (demo_live 0)) (demo_transfer 500) ''agent'' 0 = (r, co')
     \<and> co_signed co' = [demo_hash] \<and> rd = demo_live 0
     \<and> token_operation_within (decode_effect (demo_address (CHR ''a'')) (demo_transfer 500)) 5000 {}
         {demo_address (CHR ''b'')}"
proof -
  obtain r co' where run: "cosign demo_config demo_cosigner (Some (demo_live 0)) (demo_transfer 500) ''agent'' 0 = (r, co')"
    and s: "co_signed co' = [demo_hash]" using demo_cosign_signs by blast
  have "co_signed co' \<noteq> co_signed demo_cosigner" using s by (simp add: demo_cosigner_def)
  moreover have "0 \<le> cc_approval_cap demo_config" "\<forall>b. cc_review_above demo_config = Some b \<longrightarrow> 0 \<le> b"
    by (simp_all add: demo_config_def)
  ultimately have "token_operation_within (decode_effect (demo_address (CHR ''a'')) (demo_transfer 500)) 5000 {}
      {demo_address (CHR ''b'')}"
    using cosign_signs_only_attested [OF run _ demo_safe_call_ok] by (auto simp: demo_config_def demo_expected_def)
  with run s show ?thesis by blast
qed

text \<open>[C18] \<open>resolve\<close> hands to the signer at most one hash: that of a held transaction, by a verdict
  that approves this very hash before its expiry, from a checker who is not the principal that
  proposed it, while the live account is the attested one and the held nonce is still its next.
  The approval was not consumed before, and is consumed after.\<close>

theorem cosign_resolve_signs_only_approved:
  assumes "cosigner_reachable cfg sink co" and "cosign_resolve cfg co reader a verdict now = (r, co')"
    and "co_signed co' \<noteq> co_signed co"
  shows "\<exists>held call proposer rd x state token.
      map_of (co_pending co) a = Some held
    \<and> reader = Some rd \<and> cc_expected cfg = Some x
    \<and> rd_safe rd (sx_safe_address (cc_context cfg)) = Some state \<and> rd_token rd (xc_token x) = Some token
    \<and> attested x state token
    \<and> safe_transaction_hash (cc_library cfg) call (cc_context cfg) (ss_nonce state) = Inr (ho_tx_hash held)
    \<and> (\<exists>j. cosign_judge cfg call = Inr j \<and> oj_verdict j = On_review)
    \<and> answers_approval verdict (ho_approval held) now
    \<and> pd_value (cv_proposal verdict) = hex (ho_tx_hash held) \<and> cv_approval_id verdict = hex (ho_tx_hash held)
    \<and> pa_maker (ho_approval held) = Maker proposer \<and> checker_subject (cv_checker verdict) \<noteq> proposer
    \<and> a \<notin> co_consumed co \<and> a \<in> co_consumed co'
    \<and> co_signed co' = co_signed co @ [ho_tx_hash held]"
  using assms(2)
proof (cases rule: cosign_resolve_cases)
  case idle
  with assms(3) show ?thesis by simp
next
  case (dropped held)
  with assms(3) show ?thesis by simp
next
  case (granted nonce held)
  from reachable_cosigner_ok [OF assms(1)] granted(1) have h: "held_ok cfg a held" by (simp add: cosigner_ok_def)
  from granted(2) obtain rd x state token where live: "reader = Some rd" "cc_expected cfg = Some x"
    "rd_safe rd (sx_safe_address (cc_context cfg)) = Some state" "rd_token rd (xc_token x) = Some token"
    "attested x state token" "nonce = ss_nonce state" by (rule reverify_no_drift)
  from h obtain call proposer where made: "pa_maker (ho_approval held) = Maker proposer"
    "safe_transaction_hash (cc_library cfg) call (cc_context cfg) (ho_nonce held) = Inr (ho_tx_hash held)"
    "cosign_judge cfg call = Inr (ho_judgement held)" "oj_verdict (ho_judgement held) = On_review"
    unfolding held_ok_def by blast
  have ids: "pa_approval_id (ho_approval held) = a" "a = hex (ho_tx_hash held)"
    "pd_value (pa_proposal (ho_approval held)) = a"
    using h by (simp_all add: held_ok_def)
  have ans: "cv_approval_id verdict = a" "cv_proposal verdict = pa_proposal (ho_approval held)"
    "checker_subject (cv_checker verdict) \<noteq> proposer"
    using granted(5) ids(1) made(1) by (simp_all add: answers_approval_def)
  have "co_signed co' = co_signed co @ [ho_tx_hash held]"
    using granted(9) assms(3) by (simp split: if_splits)
  with granted(1,3-6) live made ids ans show ?thesis
    by (intro exI [of _ held] exI [of _ call] exI [of _ proposer] exI [of _ rd] exI [of _ x] exI [of _ state]
        exI [of _ token]) auto
qed

theorem cosign_resolve_signs_only_approved_witness:
  "\<exists>co r co' held. cosigner_reachable demo_config [] co
     \<and> cosign_resolve demo_config co (Some (demo_live 0)) demo_id (demo_cosign_answer ''ann'' True) 1 = (r, co')
     \<and> map_of (co_pending co) demo_id = Some held
     \<and> answers_approval (demo_cosign_answer ''ann'' True) (ho_approval held) 1"
proof (rule demo_onchain_held)
  fix co held
  assume h: "cosigner_runs demo_config demo_cosigner co" "map_of (co_pending co) demo_id = Some held"
    "ho_tx_hash held = demo_hash" "ho_nonce held = 0" "pa_maker (ho_approval held) = Maker ''agent''"
    "pa_approval_id (ho_approval held) = demo_id"
    "pa_proposal (ho_approval held) = \<lparr>pd_version = PROPOSAL_DIGEST_VERSION, pd_value = demo_id\<rparr>"
    "pa_expires_at (ho_approval held) = Some COSIGN_REVIEW_TTL" "co_consumed co = {}"
  have reach: "cosigner_reachable demo_config [] co"
    using h(1) demo_cosigner_start unfolding cosigner_reachable_def by blast
  obtain r co' where run:
    "cosign_resolve demo_config co (Some (demo_live 0)) demo_id (demo_cosign_answer ''ann'' True) 1 = (r, co')"
    "co_signed co' = co_signed co @ [demo_hash]" using demo_resolve_signs [OF h(2-9)] .
  have "co_signed co' \<noteq> co_signed co" using run(2) by simp
  from cosign_resolve_signs_only_approved [OF reach run(1) this] h(2)
  have "answers_approval (demo_cosign_answer ''ann'' True) (ho_approval held) 1" by auto
  with reach run(1) h(2) show ?thesis by blast
qed

text \<open>A review that was granted stays granted once: in every later state its id is settled, no
  review is open under it, and neither a new proposal of the transaction nor another answer
  hands its hash to the signer through a review again.\<close>

theorem granted_review_is_final:
  assumes "cosigner_reachable cfg sink co" and "a \<in> co_settled co" and "cosigner_runs cfg co co2"
  shows "a \<in> co_settled co2 \<and> map_of (co_pending co2) a = None
    \<and> cosign_resolve cfg co2 reader a verdict now = (Inr (refused_with None), co2)
    \<and> (\<forall>h nonce proposer j. hex h = a \<longrightarrow>
         cosign_hold cfg co2 h nonce proposer now j = (Inr (refused_with (Some j)), co2))"
proof -
  note ok = reachable_cosigner_ok [OF assms(1)]
  have a: "a \<in> co_settled co2" using runs_settled_review [OF assms(3) ok assms(2)] .
  have none: "map_of (co_pending co2) a = None"
    using runs_cosigner_ok [OF assms(3) ok] a by (cases "map_of (co_pending co2) a") (auto simp: cosigner_ok_def)
  with a show ?thesis by (auto simp: cosign_resolve_def cosign_hold_def Let_def)
qed

theorem granted_review_is_final_witness:
  "\<exists>co :: memory_sink cosigner. demo_id \<in> co_settled co
     \<and> cosign_resolve demo_config co (Some (demo_live 0)) demo_id (demo_cosign_answer ''bob'' True) 2
       = (Inr (refused_with None), co)"
proof (rule demo_onchain_held)
  fix co held
  assume h: "cosigner_runs demo_config demo_cosigner co" "map_of (co_pending co) demo_id = Some held"
    "ho_tx_hash held = demo_hash" "ho_nonce held = 0" "pa_maker (ho_approval held) = Maker ''agent''"
    "pa_approval_id (ho_approval held) = demo_id"
    "pa_proposal (ho_approval held) = \<lparr>pd_version = PROPOSAL_DIGEST_VERSION, pd_value = demo_id\<rparr>"
    "pa_expires_at (ho_approval held) = Some COSIGN_REVIEW_TTL" "co_consumed co = {}"
  obtain r co' where run:
    "cosign_resolve demo_config co (Some (demo_live 0)) demo_id (demo_cosign_answer ''ann'' True) 1 = (r, co')"
    "demo_id \<in> co_settled co'" using demo_resolve_signs [OF h(2-9)] .
  have "cosigner_reachable demo_config [] co'"
    using co_resolve [OF h(1) run(1)] demo_cosigner_start unfolding cosigner_reachable_def by blast
  from granted_review_is_final [OF this run(2) co_refl] run(2) show ?thesis by blast
qed

text \<open>The three calls of a review that is declined, proposed again and approved.\<close>

lemma cosign_declines:
  assumes "cc_sink cfg = memory_sink_ops" and "verify_chain (co_sink co)" and "hex64 (hex (ho_tx_hash held))"
    and "map_of (co_pending co) a = Some held" and "reverify cfg reader = Inr (Some (ho_nonce held, []))"
    and "fst (consume (co_consumed co) (ho_approval held) no now) = Rejected Not_approved"
    and "a = hex (ho_tx_hash held)"
  obtains s where "cosign_resolve cfg co reader a no now
      = (Inr (refused_with (Some (ho_judgement held))),
         co\<lparr>co_pending := AList.delete a (co_pending co), co_sink := s\<rparr>)" "verify_chain s"
proof -
  let ?co = "co\<lparr>co_pending := AList.delete a (co_pending co)\<rparr>" and ?out = "refused_with (Some (ho_judgement held))"
  have "consume (co_consumed co) (ho_approval held) no now = (Rejected Not_approved, co_consumed co)"
    using assms(6) consume_rejected_state by (metis prod.collapse)
  moreover obtain s where "record_then cfg ?co (ho_tx_hash held) On_deny (Some a) ?out = (Inr ?out, ?co\<lparr>co_sink := s\<rparr>)"
    "verify_chain s"
    using record_then_returns [OF assms(1), of ?co] assms(2,3) by fastforce
  ultimately show thesis
    using assms(4,5) by (intro that [of s])
      (simp_all add: cosign_resolve_def cosign_consume_def COSIGN_TERMINAL_def Let_def)
qed

lemma cosign_holds:
  assumes "cc_sink cfg = memory_sink_ops" and "verify_chain (co_sink co)" and "hex64 a" and "a = hex h"
    and "reverify cfg reader = Inr (Some (nonce, []))"
    and "safe_transaction_hash (cc_library cfg) call (cc_context cfg) nonce = Inr h"
    and "cosign_judge cfg call = Inr j" and "oj_verdict j = On_review"
    and "map_of (co_pending co) a = None" and "a \<notin> co_settled co"
    and "onchain_approval cfg a proposer now j = Inr approval"
  obtains s where "cosign cfg co reader call proposer now
      = (Inr \<lparr>cs_status = Held, cs_judgement = Some j, cs_signature = None, cs_approval_id = Some a\<rparr>,
         co\<lparr>co_pending := AList.update a \<lparr>ho_tx_hash = h, ho_approval = approval, ho_judgement = j, ho_nonce = nonce\<rparr>
              (co_pending co), co_sink := s\<rparr>)" "verify_chain s"
proof -
  let ?held = "\<lparr>ho_tx_hash = h, ho_approval = approval, ho_judgement = j, ho_nonce = nonce\<rparr>"
  let ?co = "co\<lparr>co_pending := AList.update a ?held (co_pending co)\<rparr>"
  let ?out = "\<lparr>cs_status = Held, cs_judgement = Some j, cs_signature = None, cs_approval_id = Some a\<rparr>"
  obtain s where "record_then cfg ?co h On_review (Some a) ?out = (Inr ?out, ?co\<lparr>co_sink := s\<rparr>)" "verify_chain s"
    using record_then_returns [OF assms(1), of ?co h On_review "Some a" ?out] assms(2-4) by auto
  then show thesis
    using assms(5-11) by (intro that [of s]) (simp_all add: cosign_def cosign_hold_def Let_def assms(4) [symmetric])
qed

lemma cosign_grants:
  assumes "cc_sink cfg = memory_sink_ops" and "verify_chain (co_sink co)" and "hex64 a" and "a = hex (ho_tx_hash held)"
    and "map_of (co_pending co) a = Some held" and "reverify cfg reader = Inr (Some (ho_nonce held, []))"
    and "consume (co_consumed co) (ho_approval held) yes now = (Granted g, m)"
    and "cc_signer cfg (ho_tx_hash held) = Some sig"
  obtains co' where "cosign_resolve cfg co reader a yes now
      = (Inr \<lparr>cs_status = Signed, cs_judgement = Some (ho_judgement held), cs_signature = Some sig,
              cs_approval_id = None\<rparr>, co')" "co_signed co' = co_signed co @ [ho_tx_hash held]"
proof -
  let ?h = "ho_tx_hash held"
  let ?co = "co\<lparr>co_consumed := m, co_pending := AList.delete a (co_pending co),
      co_settled := insert a (co_settled co), co_signed := co_signed co @ [?h]\<rparr>"
  let ?out = "\<lparr>cs_status = Signed, cs_judgement = Some (ho_judgement held), cs_signature = Some sig, cs_approval_id = None\<rparr>"
  obtain s where "record_then cfg ?co ?h On_abstain (Some a) ?out = (Inr ?out, ?co\<lparr>co_sink := s\<rparr>)"
    using record_then_returns [OF assms(1), of ?co ?h On_abstain "Some a" ?out] assms(2-4) by auto
  then have "cosign_resolve cfg co reader a yes now = (Inr ?out, ?co\<lparr>co_sink := s\<rparr>)"
    using assms(5-8) by (simp add: cosign_resolve_def cosign_consume_def cosign_sign_def Let_def)
  from that [OF this] show thesis by simp
qed

text \<open>A decline is not final: after a checker declined a held transaction, a new proposal of the
  same transaction is held again under the same id, and a second checker's approval of it is
  granted, signs the hash the first one refused, and returns the signature.\<close>

theorem declined_review_reopens:
  assumes "cosigner_reachable cfg [] co" and "cc_sink cfg = memory_sink_ops"
    and "map_of (co_pending co) a = Some held"
    and "reverify cfg reader = Inr (Some (ho_nonce held, []))"
    and "safe_transaction_hash (cc_library cfg) call (cc_context cfg) (ho_nonce held) = Inr (ho_tx_hash held)"
    and "cosign_judge cfg call = Inr (ho_judgement held)"
    and "fst (consume (co_consumed co) (ho_approval held) no now) = Rejected Not_approved"
    and "proposer \<noteq> []" and "cv_approved yes" and "cv_approval_id yes = a"
    and "cv_proposal yes = pa_proposal (ho_approval held)" and "checker_subject (cv_checker yes) \<noteq> proposer"
    and "later < again + cc_review_ttl cfg" and "cc_signer cfg (ho_tx_hash held) = Some sig"
  shows "\<exists>co1 co2 co3.
      cosign_resolve cfg co reader a no now = (Inr (refused_with (Some (ho_judgement held))), co1)
    \<and> cosign cfg co1 reader call proposer again
        = (Inr \<lparr>cs_status = Held, cs_judgement = Some (ho_judgement held), cs_signature = None,
                cs_approval_id = Some a\<rparr>, co2)
    \<and> cosign_resolve cfg co2 reader a yes later
        = (Inr \<lparr>cs_status = Signed, cs_judgement = Some (ho_judgement held), cs_signature = Some sig,
                cs_approval_id = None\<rparr>, co3)
    \<and> co_signed co3 = co_signed co @ [ho_tx_hash held]"
proof -
  note ok = reachable_cosigner_ok [OF assms(1)] and chain = reachable_cosigner_chain [OF assms(1,2)]
  let ?h = "ho_tx_hash held" and ?j = "ho_judgement held"
  from ok assms(3) have h: "held_ok cfg a held" and fresh: "a \<notin> co_settled co" "a \<notin> co_consumed co"
    by (simp_all add: cosigner_ok_def)
  then obtain call0 proposer0 now0 where old: "onchain_approval cfg a proposer0 now0 ?j = Inr (ho_approval held)"
    and review: "oj_verdict ?j = On_review" and a: "a = hex ?h" unfolding held_ok_def by blast
  let ?new = "(ho_approval held)\<lparr>pa_maker := Maker proposer, pa_expires_at := Some (again + cc_review_ttl cfg)\<rparr>"
  note new = onchain_approval_again(1) [OF old assms(8), of again] onchain_approval_again(2) [OF old assms(8)]
  obtain s1 where one: "cosign_resolve cfg co reader a no now = (Inr (refused_with (Some ?j)),
      co\<lparr>co_pending := AList.delete a (co_pending co), co_sink := s1\<rparr>)" "verify_chain s1"
    using cosign_declines [OF assms(2) chain new(2) [unfolded a] assms(3,4,7) a] .
  let ?co1 = "co\<lparr>co_pending := AList.delete a (co_pending co), co_sink := s1\<rparr>"
  obtain s2 where two: "cosign cfg ?co1 reader call proposer again
      = (Inr \<lparr>cs_status = Held, cs_judgement = Some ?j, cs_signature = None, cs_approval_id = Some a\<rparr>,
         ?co1\<lparr>co_pending := AList.update a \<lparr>ho_tx_hash = ?h, ho_approval = ?new, ho_judgement = ?j,
              ho_nonce = ho_nonce held\<rparr> (co_pending ?co1), co_sink := s2\<rparr>)" "verify_chain s2"
    by (rule cosign_holds [OF assms(2) _ new(2) a assms(4-6) review _ _ new(1), of ?co1])
      (use one(2) fresh(1) in \<open>simp_all add: delete_conv'\<close>)
  let ?co2 = "?co1\<lparr>co_pending := AList.update a \<lparr>ho_tx_hash = ?h, ho_approval = ?new, ho_judgement = ?j,
      ho_nonce = ho_nonce held\<rparr> (co_pending ?co1), co_sink := s2\<rparr>"
  have "\<exists>g m. consume (co_consumed co) ?new yes later = (Granted g, m)"
    using fresh(2) h assms(9-13) unfolding consume_granted_iff
    by (auto simp: answers_approval_def held_ok_def)
  then obtain g m where "consume (co_consumed ?co2) ?new yes later = (Granted g, m)" by auto
  then obtain co3 where "cosign_resolve cfg ?co2 reader a yes later
      = (Inr \<lparr>cs_status = Signed, cs_judgement = Some ?j, cs_signature = Some sig, cs_approval_id = None\<rparr>, co3)"
    "co_signed co3 = co_signed ?co2 @ [?h]"
    using cosign_grants [OF assms(2) _ new(2), of ?co2 "\<lparr>ho_tx_hash = ?h, ho_approval = ?new, ho_judgement = ?j,
      ho_nonce = ho_nonce held\<rparr>" reader yes later g m sig] two(2) assms(4,14) a
    by (auto simp: update_conv')
  with one(1) two(1) show ?thesis by fastforce
qed

theorem declined_review_reopens_witness:
  "\<exists>(co :: memory_sink cosigner) co1 co2 co3 (j1 :: onchain_judgement) r2 r3.
     cosign_resolve demo_config co (Some (demo_live 0)) demo_id (demo_cosign_answer ''ann'' False) 1
       = (Inr (refused_with (Some j1)), co1)
     \<and> cosign demo_config co1 (Some (demo_live 0)) (demo_transfer 2000) ''agent'' 2 = (Inr r2, co2)
     \<and> cosign_resolve demo_config co2 (Some (demo_live 0)) demo_id (demo_cosign_answer ''bob'' True) 3 = (Inr r3, co3)
     \<and> co_signed co3 = co_signed co @ [demo_hash]"
proof (rule demo_onchain_held)
  fix co held
  assume h: "cosigner_runs demo_config demo_cosigner co" "map_of (co_pending co) demo_id = Some held"
    "ho_tx_hash held = demo_hash" "ho_nonce held = 0" "pa_maker (ho_approval held) = Maker ''agent''"
    "pa_approval_id (ho_approval held) = demo_id"
    "pa_proposal (ho_approval held) = \<lparr>pd_version = PROPOSAL_DIGEST_VERSION, pd_value = demo_id\<rparr>"
    "pa_expires_at (ho_approval held) = Some COSIGN_REVIEW_TTL" "co_consumed co = {}"
    "cosign_judge demo_config (demo_transfer 2000) = Inr (ho_judgement held)"
  let ?no = "demo_cosign_answer ''ann'' False" and ?yes = "demo_cosign_answer ''bob'' True"
  have reach: "cosigner_reachable demo_config [] co"
    using h(1) demo_cosigner_start unfolding cosigner_reachable_def by blast
  have no: "fst (consume (co_consumed co) (ho_approval held) ?no 1) = Rejected Not_approved"
    using h(5-9) by (simp add: consume_def approval_expired_def demo_cosign_answer_def COSIGN_REVIEW_TTL_def seconds_def)
  have live: "reverify demo_config (Some (demo_live 0)) = Inr (Some (ho_nonce held, []))"
    and hash: "safe_transaction_hash (cc_library demo_config) (demo_transfer 2000) (cc_context demo_config)
      (ho_nonce held) = Inr (ho_tx_hash held)"
    using h(3,4) by (simp_all add: demo_reverify demo_transaction_hash)
  have cfg: "cc_sink demo_config = memory_sink_ops" "3 < 2 + cc_review_ttl demo_config"
    "cc_signer demo_config (ho_tx_hash held) = Some ''0xsig''"
    by (simp_all add: demo_config_def COSIGN_REVIEW_TTL_def seconds_def)
  have yes: "cv_approved ?yes" "cv_approval_id ?yes = demo_id" "cv_proposal ?yes = pa_proposal (ho_approval held)"
    "checker_subject (cv_checker ?yes) \<noteq> ''agent''"
    using h(7) by (simp_all add: demo_cosign_answer_def)
  have "''agent'' \<noteq> []" by simp
  from declined_review_reopens [OF reach cfg(1) h(2) live hash h(10) no this yes cfg(2,3)] h(3)
  show ?thesis by (simp only:) blast
qed

end
