(* ===== verification/Leaf.thy ===== *)
theory Leaf
  imports Json "HOL-Library.Sublist"
begin

unbundle bit_operations_syntax

text \<open>
  \<open>secondsign.gateway.leaf\<close>: the reader of the two certificate extensions that say what a client
  leaf was issued for. \<open>_Malformed\<close>, which never leaves the module, is \<open>None\<close>. \<open>_children\<close> is a
  generator: \<open>der_children\<close> is the list of the elements it yields with the way it ends, so that a
  consumer that stops early does not see what follows.
\<close>

section \<open>Constants\<close>

definition KEY_USAGE_OID :: py_str where "KEY_USAGE_OID = ''2.5.29.15''"
definition EXTENDED_KEY_USAGE_OID :: py_str where "EXTENDED_KEY_USAGE_OID = ''2.5.29.37''"
definition CLIENT_AUTH_OID :: py_str where "CLIENT_AUTH_OID = ''1.3.6.1.5.5.7.3.2''"

definition DER_SEQUENCE :: "8 word" where "DER_SEQUENCE = 0x30"
definition DER_OBJECT_IDENTIFIER :: "8 word" where "DER_OBJECT_IDENTIFIER = 0x06"
definition DER_OCTET_STRING :: "8 word" where "DER_OCTET_STRING = 0x04"
definition DER_BIT_STRING :: "8 word" where "DER_BIT_STRING = 0x03"
definition EXTENSIONS_TAG :: "8 word" where "EXTENSIONS_TAG = 0xA3"
definition DIGITAL_SIGNATURE_MASK :: "8 word" where "DIGITAL_SIGNATURE_MASK = 0x80"

lemmas der_tags = DER_SEQUENCE_def DER_OBJECT_IDENTIFIER_def DER_OCTET_STRING_def DER_BIT_STRING_def
  EXTENSIONS_TAG_def

record certificate_purpose =
  cp_client_auth :: bool
  cp_digital_signature :: bool

section \<open>One element\<close>

text \<open>\<open>int.from_bytes(bs, "big")\<close>.\<close>

definition big_endian :: "bytes \<Rightarrow> nat" where
  "big_endian bs = foldl (\<lambda>n b. 256 * n + unat b) 0 bs"

text \<open>The length octets at \<open>cursor - 1\<close>: the length and where the contents start.\<close>

definition der_length :: "bytes \<Rightarrow> 8 word \<Rightarrow> nat \<Rightarrow> (nat \<times> nat) option" where
  "der_length data start cursor =
     (if start < 0x80 then Some (unat start, cursor)
      else if start = 0x80 then None
      else
        (let count = unat (start AND 0x7F)
         in if 4 < count then None
            else if length data < cursor + count then None
            else Some (big_endian (take count (drop cursor data)), cursor + count)))"

definition der_element :: "bytes \<Rightarrow> nat \<Rightarrow> (8 word \<times> bytes \<times> nat) option" where
  "der_element data offset =
     (if length data \<le> offset then None
      else
        (let tag = data ! offset
         in if tag AND 0x1F = 0x1F then None
            else if length data \<le> offset + 1 then None
            else case der_length data (data ! (offset + 1)) (offset + 2) of
                None \<Rightarrow> None
              | Some (len, cursor) \<Rightarrow>
                  (let stop = cursor + len
                   in if length data < stop then None
                      else Some (tag, take len (drop cursor data), stop))))"

lemma der_length_cursor: "der_length data b cursor = Some (len, cursor') \<Longrightarrow> cursor \<le> cursor'"
  by (auto simp: der_length_def Let_def split: if_splits)

lemma der_element_advances:
  "der_element data offset = Some (tag, body, stop) \<Longrightarrow> offset < stop \<and> stop \<le> length data"
  by (auto simp: der_element_def Let_def split: if_splits option.splits dest: der_length_cursor)

section \<open>The children of a constructed value\<close>

function der_children_from :: "bytes \<Rightarrow> nat \<Rightarrow> (8 word \<times> bytes) list \<times> bool" where
  "der_children_from contents offset =
     (if offset < length contents
      then case der_element contents offset of
          None \<Rightarrow> ([], False)
        | Some (tag, body, stop) \<Rightarrow>
            (let (rest, fine) = der_children_from contents stop in ((tag, body) # rest, fine))
      else ([], True))"
  by pat_completeness auto

termination
  by (relation "measure (\<lambda>(contents, offset). length contents - offset)") (auto dest: der_element_advances)

declare der_children_from.simps [simp del]

lemma der_children_from_end [simp]:
  "length contents \<le> offset \<Longrightarrow> der_children_from contents offset = ([], True)"
  by (subst der_children_from.simps) simp

definition der_children :: "bytes \<Rightarrow> (8 word \<times> bytes) list \<times> bool" where
  "der_children contents = der_children_from contents 0"

text \<open>A consumer that exhausts the generator: \<open>list(_children(x))\<close> and a \<open>for\<close> without \<open>break\<close>.\<close>

definition der_all_children :: "bytes \<Rightarrow> (8 word \<times> bytes) list option" where
  "der_all_children contents = (let (items, fine) = der_children contents in if fine then Some items else None)"

definition der_only :: "bytes \<Rightarrow> 8 word \<Rightarrow> bytes option" where
  "der_only contents tag =
     (case der_element contents 0 of
        None \<Rightarrow> None
      | Some (found, body, offset) \<Rightarrow>
          if found \<noteq> tag \<or> offset \<noteq> length contents then None else Some body)"

section \<open>Object identifiers\<close>

text \<open>The loop over the remaining octets: the value read so far and whether an arc is open.\<close>

fun oid_arcs :: "nat \<Rightarrow> bool \<Rightarrow> bytes \<Rightarrow> nat list option" where
  "oid_arcs value pending [] = (if pending then None else Some [])"
| "oid_arcs value pending (b # bs) =
     (let value' = value * 128 + unat (b AND 0x7F)
      in if b AND 0x80 \<noteq> 0 then oid_arcs value' True bs
         else map_option (Cons value') (oid_arcs 0 False bs))"

definition join_dots :: "py_str list \<Rightarrow> py_str" where
  "join_dots parts = concat (case parts of [] \<Rightarrow> [] | p # ps \<Rightarrow> p # map (Cons (CHR ''.'')) ps)"

definition object_identifier :: "bytes \<Rightarrow> py_str option" where
  "object_identifier body =
     (case body of
        [] \<Rightarrow> None
      | b # bs \<Rightarrow>
          (let start = unat b;
               parts = (if 80 \<le> start then [2, start - 80] else [start div 40, start mod 40])
           in map_option (\<lambda>arcs. join_dots (map nat_str (parts @ arcs))) (oid_arcs 0 False bs)))"

section \<open>The extensions of a certificate\<close>

text \<open>An extension: its identifier and the contents of its octet string.\<close>

definition der_extension :: "8 word \<times> bytes \<Rightarrow> (py_str \<times> bytes) option" where
  "der_extension item =
     (if fst item \<noteq> DER_SEQUENCE then None
      else case der_all_children (snd item) of
          None \<Rightarrow> None
        | Some items \<Rightarrow>
            if length items \<notin> {2, 3} \<or> fst (hd items) \<noteq> DER_OBJECT_IDENTIFIER then None
            else if fst (last items) \<noteq> DER_OCTET_STRING then None
            else map_option (\<lambda>oid. (oid, snd (last items))) (object_identifier (snd (hd items))))"

fun map_opt :: "('a \<Rightarrow> 'b option) \<Rightarrow> 'a list \<Rightarrow> 'b list option" where
  "map_opt f [] = Some []"
| "map_opt f (x # xs) =
     (case f x of None \<Rightarrow> None | Some y \<Rightarrow> map_option (Cons y) (map_opt f xs))"

definition der_extensions :: "bytes \<Rightarrow> (py_str \<times> bytes) list option" where
  "der_extensions der =
     (case der_only der DER_SEQUENCE of
        None \<Rightarrow> None
      | Some certificate \<Rightarrow>
          (case der_element certificate 0 of
             None \<Rightarrow> None
           | Some (tag, tbs, _) \<Rightarrow>
               if tag \<noteq> DER_SEQUENCE then None
               else
                 (let (items, fine) = der_children tbs
                  in case find (\<lambda>item. fst item = EXTENSIONS_TAG) items of
                       None \<Rightarrow> if fine then Some [] else None
                     | Some item \<Rightarrow>
                         (case der_only (snd item) DER_SEQUENCE of
                            None \<Rightarrow> None
                          | Some exts \<Rightarrow>
                              (case der_all_children exts of
                                 None \<Rightarrow> None
                               | Some children \<Rightarrow> map_opt der_extension children)))))"

section \<open>The purpose\<close>

text \<open>\<open>any(... for tag, body in _children(...) if tag == ...)\<close> stops at the first identifier it
  looks for.\<close>

fun any_client_auth :: "(8 word \<times> bytes) list \<Rightarrow> bool \<Rightarrow> bool option" where
  "any_client_auth [] fine = (if fine then Some False else None)"
| "any_client_auth ((tag, body) # items) fine =
     (if tag = DER_OBJECT_IDENTIFIER
      then case object_identifier body of
          None \<Rightarrow> None
        | Some oid \<Rightarrow> if oid = CLIENT_AUTH_OID then Some True else any_client_auth items fine
      else any_client_auth items fine)"

definition read_extension :: "certificate_purpose \<Rightarrow> py_str \<times> bytes \<Rightarrow> certificate_purpose option" where
  "read_extension purpose ext =
     (let (oid, value) = ext
      in if oid = EXTENDED_KEY_USAGE_OID
         then case der_only value DER_SEQUENCE of
             None \<Rightarrow> None
           | Some contents \<Rightarrow>
               (let (items, fine) = der_children contents
                in map_option (\<lambda>b. purpose\<lparr>cp_client_auth := b\<rparr>) (any_client_auth items fine))
         else if oid = KEY_USAGE_OID
         then case der_only value DER_BIT_STRING of
             None \<Rightarrow> None
           | Some bits \<Rightarrow>
               Some (purpose\<lparr>cp_digital_signature :=
                 1 < length bits \<and> bits ! 1 AND DIGITAL_SIGNATURE_MASK \<noteq> 0\<rparr>)
         else Some purpose)"

fun read_extensions :: "certificate_purpose \<Rightarrow> (py_str \<times> bytes) list \<Rightarrow> certificate_purpose option" where
  "read_extensions purpose [] = Some purpose"
| "read_extensions purpose (e # es) =
     (case read_extension purpose e of None \<Rightarrow> None | Some purpose' \<Rightarrow> read_extensions purpose' es)"

definition read_client_purpose :: "bytes \<Rightarrow> certificate_purpose option" where
  "read_client_purpose der =
     (case der_extensions der of
        None \<Rightarrow> None
      | Some exts \<Rightarrow> read_extensions \<lparr>cp_client_auth = False, cp_digital_signature = False\<rparr> exts)"

section \<open>The encoding the reader reads\<close>

text \<open>Definite lengths of at most four octets, the form an issuer writes.\<close>

fun octets :: "nat \<Rightarrow> nat \<Rightarrow> bytes" where
  "octets 0 n = []"
| "octets (Suc w) n = octets w (n div 256) @ [of_nat (n mod 256)]"

definition length_width :: "nat \<Rightarrow> nat" where
  "length_width n = (if n < 256 then 1 else if n < 256 ^ 2 then 2 else if n < 256 ^ 3 then 3 else 4)"

definition length_octets :: "nat \<Rightarrow> bytes" where
  "length_octets n =
     (if n < 128 then [of_nat n] else of_nat (128 + length_width n) # octets (length_width n) n)"

lemma length_width: "length_width n \<in> {1, 2, 3, 4}" "n < 256 ^ 4 \<Longrightarrow> n < 256 ^ length_width n"
  by (simp_all only: length_width_def split: if_splits) simp_all

definition der_encode :: "8 word \<Rightarrow> bytes \<Rightarrow> bytes" where
  "der_encode tag body = tag # length_octets (length body) @ body"

lemma length_octets_length [simp]: "length (octets w n) = w"
  by (induction w arbitrary: n) auto

lemma unat_byte: "n < 256 \<Longrightarrow> unat (of_nat n :: 8 word) = n"
  by (simp add: unat_of_nat)

lemma big_endian_snoc: "big_endian (bs @ [b]) = 256 * big_endian bs + unat b"
  by (simp add: big_endian_def)

lemma big_endian_octets: "n < 256 ^ w \<Longrightarrow> big_endian (octets w n) = n"
proof (induction w arbitrary: n)
  case 0
  then show ?case by (simp add: big_endian_def)
next
  case (Suc w)
  then have "n div 256 < 256 ^ w" by (simp add: less_mult_imp_div_less mult.commute)
  with Suc.IH show ?case by (simp add: big_endian_snoc unat_byte)
qed

lemma long_length_octet:
  assumes "w \<in> {1, 2, 3, 4 :: nat}"
  shows "\<not> (of_nat (128 + w) :: 8 word) < 0x80" "(of_nat (128 + w) :: 8 word) \<noteq> 0x80"
    "unat ((of_nat (128 + w) :: 8 word) AND 0x7F) = w"
  using assms by auto

lemma der_length_encode:
  assumes "n < 256 ^ 4" and "length_octets n = b # rest"
  shows "der_length (pre @ rest @ post) b (length pre) = Some (n, length pre + length rest)"
proof (cases "n < 128")
  case True
  then have "b = of_nat n" "rest = []" using assms(2) by (auto simp: length_octets_def)
  moreover have "(of_nat n :: 8 word) < 0x80" using True by (simp add: word_less_nat_alt unat_byte)
  ultimately show ?thesis using True by (simp add: der_length_def unat_byte)
next
  case False
  obtain w where w: "w \<in> {1, 2, 3, 4}" "n < 256 ^ w" "b = of_nat (128 + w)" "rest = octets w n"
  proof
    show "length_width n \<in> {1, 2, 3, 4}" "n < 256 ^ length_width n" using length_width assms(1) by blast+
    show "b = of_nat (128 + length_width n)" "rest = octets (length_width n) n"
      using assms(2) False by (simp_all add: length_octets_def)
  qed
  note big = long_length_octet [OF w(1)]
  have "der_length (pre @ rest @ post) b (length pre)
      = Some (big_endian (take w (drop (length pre) (pre @ rest @ post))), length pre + w)"
    unfolding der_length_def w(3) using big w(1,4) by (auto simp: Let_def)
  also have "take w (drop (length pre) (pre @ rest @ post)) = octets w n" by (simp add: w(4))
  finally show ?thesis using w(2,4) by (simp add: big_endian_octets)
qed

definition low_tag :: "8 word \<Rightarrow> bool" where
  "low_tag tag \<longleftrightarrow> tag AND 0x1F \<noteq> 0x1F"

lemma low_tags [simp]:
  "low_tag DER_SEQUENCE" "low_tag DER_OBJECT_IDENTIFIER" "low_tag DER_OCTET_STRING" "low_tag DER_BIT_STRING"
  "low_tag EXTENSIONS_TAG" "low_tag 0x01"
  by (simp_all add: low_tag_def der_tags)

lemma length_octets_Cons: "\<exists>b rest. length_octets n = b # rest"
  by (simp add: length_octets_def Let_def)

lemma der_element_encode:
  assumes "low_tag tag" and "length body < 256 ^ 4"
  shows "der_element (pre @ der_encode tag body @ post) (length pre)
    = Some (tag, body, length pre + length (der_encode tag body))"
proof -
  obtain b rest where l: "length_octets (length body) = b # rest" using length_octets_Cons by blast
  let ?data = "pre @ der_encode tag body @ post" and ?pre = "pre @ [tag, b]"
  have data: "?data = ?pre @ rest @ (body @ post)" by (simp add: der_encode_def l)
  have "der_length ?data b (length pre + 2) = Some (length body, length pre + 2 + length rest)"
    using der_length_encode [OF assms(2) l, of ?pre "body @ post"] by (simp add: data)
  moreover have "?data ! length pre = tag" "?data ! (length pre + 1) = b"
    by (simp_all add: der_encode_def l nth_append)
  moreover have "drop (length pre + 2 + length rest) ?data = body @ post" by (simp add: data)
  moreover have "length (der_encode tag body) = 2 + length rest + length body" by (simp add: der_encode_def l)
  ultimately show ?thesis
    using assms(1) by (simp add: der_element_def low_tag_def Let_def)
qed

lemma der_encode_not_Nil [simp]: "der_encode tag body \<noteq> []"
  by (simp add: der_encode_def)

definition encode_items :: "(8 word \<times> bytes) list \<Rightarrow> bytes" where
  "encode_items items = concat (map (\<lambda>(tag, body). der_encode tag body) items)"

lemma encode_items_simps [simp]:
  "encode_items [] = []" "encode_items ((tag, body) # items) = der_encode tag body @ encode_items items"
  by (simp_all add: encode_items_def)

definition items_ok :: "(8 word \<times> bytes) list \<Rightarrow> bool" where
  "items_ok items \<longleftrightarrow> (\<forall>(tag, body) \<in> set items. low_tag tag \<and> length body < 256 ^ 4)"

lemma items_ok_simps [simp]:
  "items_ok []" "items_ok ((tag, body) # items) \<longleftrightarrow> low_tag tag \<and> length body < 256 ^ 4 \<and> items_ok items"
  by (auto simp: items_ok_def)

text \<open>What follows the items: the walk goes on from there.\<close>

lemma der_children_from_encode:
  assumes "items_ok items"
  shows "der_children_from (pre @ encode_items items @ post) (length pre)
    = (let (rest, fine) = der_children_from (pre @ encode_items items @ post) (length pre + length (encode_items items))
       in (items @ rest, fine))"
  using assms
proof (induction items arbitrary: pre)
  case Nil
  then show ?case by (simp split: prod.split)
next
  case (Cons item items)
  obtain tag body where item: "item = (tag, body)" by fastforce
  let ?data = "pre @ encode_items (item # items) @ post" and ?pre = "pre @ der_encode tag body"
  have step: "der_element ?data (length pre) = Some (tag, body, length ?pre)"
    using der_element_encode [of tag body pre "encode_items items @ post"] Cons.prems by (simp add: item)
  have "length pre < length ?data" by (simp add: item der_encode_def)
  with step have "der_children_from ?data (length pre)
      = (let (rest, fine) = der_children_from ?data (length ?pre) in ((tag, body) # rest, fine))"
    by (subst der_children_from.simps) simp
  with Cons.IH [of ?pre] Cons.prems show ?case by (simp add: item add.assoc split: prod.splits)
qed

lemma der_children_encode: "items_ok items \<Longrightarrow> der_children (encode_items items) = (items, True)"
  using der_children_from_encode [of items "[]" "[]"]
  by (simp add: der_children_def der_children_from_end)

lemma der_all_children_encode: "items_ok items \<Longrightarrow> der_all_children (encode_items items) = Some items"
  by (simp add: der_all_children_def der_children_encode)

lemma der_only_encode:
  "low_tag tag \<Longrightarrow> length body < 256 ^ 4 \<Longrightarrow> der_only (der_encode tag body) tag = Some body"
  using der_element_encode [of tag body "[]" "[]"] by (simp add: der_only_def)

section \<open>Object identifiers: base 128\<close>

fun base128 :: "bool \<Rightarrow> nat \<Rightarrow> bytes" where
  "base128 more_follow n =
     (if n < 128 then [] else base128 True (n div 128)) @ [of_nat (n mod 128 + (if more_follow then 128 else 0))]"

declare base128.simps [simp del]

lemma seven_bits:
  assumes "d < 128"
  shows "unat ((of_nat d :: 8 word) AND 0x7F) = d" "(of_nat d :: 8 word) AND 0x80 = 0"
    "unat ((of_nat (d + 128) :: 8 word) AND 0x7F) = d" "(of_nat (d + 128) :: 8 word) AND 0x80 \<noteq> 0"
proof -
  have low: "unat ((of_nat k :: 8 word) AND 0x7F) = k mod 128" if "k < 256" for k
  proof -
    have "(of_nat k :: 8 word) AND 0x7F = take_bit 7 (of_nat k)"
      using take_bit_eq_mask [of 7 "of_nat k :: 8 word"] by (simp add: mask_eq_exp_minus_1)
    then have "unat ((of_nat k :: 8 word) AND 0x7F) = take_bit 7 k"
      using that by (simp only: unsigned_take_bit_eq) (simp add: unat_byte)
    then show ?thesis by (simp add: take_bit_eq_mod)
  qed
  from low [of d] low [of "d + 128"] assms
  show "unat ((of_nat d :: 8 word) AND 0x7F) = d" "unat ((of_nat (d + 128) :: 8 word) AND 0x7F) = d" by simp_all
  have bit: "(w AND 0x80 = 0) = (unat w < 128)" for w :: "8 word"
  proof -
    have "(0x80 :: 8 word) = push_bit 7 1" by (simp add: push_bit_eq_mult)
    then have "(w AND 0x80 = 0) = (\<not> bit w 7)" by (simp add: bit_iff_and_push_bit_not_eq_0)
    also have "bit w 7 = odd (unat w div 128)"
      using bit_unsigned_iff [of w 7, where ?'a = nat] by (simp add: bit_iff_odd [of "unat w"])
    also have "odd (unat w div 128) \<longleftrightarrow> \<not> unat w < 128"
    proof -
      have "unat w < 256" using unsigned_less [of w] by simp
      then have "unat w div 128 < 2" by simp
      then have "unat w div 128 = 0 \<or> unat w div 128 = 1" by linarith
      then show ?thesis by auto
    qed
    finally show ?thesis by simp
  qed
  show "(of_nat d :: 8 word) AND 0x80 = 0" "(of_nat (d + 128) :: 8 word) AND 0x80 \<noteq> 0"
    using assms unat_byte [of d] unat_byte [of "d + 128"] unfolding bit by simp_all
qed

text \<open>The octets of an arc, read with an arc open or not, leave its value in the accumulator.\<close>

lemma oid_arcs_open: "oid_arcs 0 p (base128 True n @ bs) = oid_arcs n True bs"
proof (induction n arbitrary: p bs rule: less_induct)
  case (less n)
  let ?d = "of_nat (n mod 128 + 128) :: 8 word"
  have last: "oid_arcs v q (?d # bs) = oid_arcs (v * 128 + n mod 128) True bs" for v q
    using seven_bits [of "n mod 128"] by (simp add: Let_def)
  show ?case
  proof (cases "n < 128")
    case True
    with last [of 0 p] show ?thesis by (simp add: base128.simps [of True n])
  next
    case False
    then have "oid_arcs 0 p (base128 True n @ bs) = oid_arcs (n div 128) True (?d # bs)"
      using less [of "n div 128" p "?d # bs"] by (simp add: base128.simps [of True n])
    then show ?thesis using last by simp
  qed
qed

lemma oid_arcs_base128: "oid_arcs 0 False (base128 False n @ bs) = map_option (Cons n) (oid_arcs 0 False bs)"
proof -
  let ?d = "of_nat (n mod 128) :: 8 word"
  have last: "oid_arcs v q (?d # bs) = map_option (Cons (v * 128 + n mod 128)) (oid_arcs 0 False bs)" for v q
    using seven_bits [of "n mod 128"] by (simp add: Let_def)
  show ?thesis
  proof (cases "n < 128")
    case True
    with last [of 0 False] show ?thesis by (simp add: base128.simps [of False n])
  next
    case False
    then have "oid_arcs 0 False (base128 False n @ bs) = oid_arcs (n div 128) True (?d # bs)"
      using oid_arcs_open [of False "n div 128" "?d # bs"] by (simp add: base128.simps [of False n])
    then show ?thesis using last by simp
  qed
qed

definition encode_oid :: "nat list \<Rightarrow> bytes" where
  "encode_oid arcs = of_nat (40 * arcs ! 0 + arcs ! 1) # concat (map (base128 False) (drop 2 arcs))"

text \<open>The identifiers whose first two arcs fit the single octet the reader takes them from.\<close>

definition oid_ok :: "nat list \<Rightarrow> bool" where
  "oid_ok arcs \<longleftrightarrow> 2 \<le> length arcs \<and> arcs ! 0 \<le> 2 \<and> (arcs ! 0 < 2 \<longrightarrow> arcs ! 1 < 40)
     \<and> 40 * arcs ! 0 + arcs ! 1 < 128"

definition dotted :: "nat list \<Rightarrow> py_str" where
  "dotted arcs = join_dots (map nat_str arcs)"

lemma object_identifier_encode:
  assumes "oid_ok arcs"
  shows "object_identifier (encode_oid arcs) = Some (dotted arcs)"
proof -
  obtain a b rest where arcs: "arcs = a # b # rest"
    using assms by (auto simp: oid_ok_def Suc_le_length_iff numeral_2_eq_2)
  have ok: "a \<le> 2" "a < 2 \<Longrightarrow> b < 40" "40 * a + b < 128" using assms by (auto simp: oid_ok_def arcs)
  have "oid_arcs 0 False (concat (map (base128 False) rest)) = Some rest"
    by (induction rest) (simp_all add: oid_arcs_base128)
  moreover have "unat (of_nat (40 * a + b) :: 8 word) = 40 * a + b" using ok(3) by (intro unat_byte) simp
  moreover have "(if 80 \<le> 40 * a + b then [2, 40 * a + b - 80] else [(40 * a + b) div 40, (40 * a + b) mod 40]) = [a, b]"
  proof (cases "a = 2")
    case True
    then show ?thesis by simp
  next
    case False
    then have "a < 2" using ok(1) by simp
    with ok(2) have "40 * a + b < 80" "b < 40" by auto
    then show ?thesis by simp
  qed
  ultimately show ?thesis
    by (simp add: object_identifier_def encode_oid_def dotted_def arcs Let_def)
qed

text \<open>Different arcs are written differently.\<close>

lemma nat_str_no_dot: "CHR ''.'' \<notin> set (nat_str n)"
proof
  assume "CHR ''.'' \<in> set (nat_str n)"
  with nat_str_digits [of n] have "is_digit (CHR ''.'')" by blast
  then show False by (simp add: is_digit_def)
qed

lemma join_dots_simps:
  "join_dots [] = []" "join_dots [p] = p" "join_dots (p # q # ps) = p @ CHR ''.'' # join_dots (q # ps)"
  by (simp_all add: join_dots_def)

lemma takeWhile_no_dot: "CHR ''.'' \<notin> set p \<Longrightarrow> takeWhile (\<lambda>c. c \<noteq> CHR ''.'') (p @ CHR ''.'' # r) = p"
  by (induction p) auto

lemma append_dot_inj:
  assumes "CHR ''.'' \<notin> set p" and "CHR ''.'' \<notin> set q" and "p @ CHR ''.'' # r = q @ CHR ''.'' # s"
  shows "p = q \<and> r = s"
  using takeWhile_no_dot [OF assms(1), of r] takeWhile_no_dot [OF assms(2), of s] assms(3) by auto

lemma dotted_inj: "arcs \<noteq> [] \<Longrightarrow> arcs' \<noteq> [] \<Longrightarrow> dotted arcs = dotted arcs' \<Longrightarrow> arcs = arcs'"
proof (induction arcs arbitrary: arcs')
  case Nil
  then show ?case by simp
next
  case (Cons n ns)
  obtain m ms where m: "arcs' = m # ms" using Cons.prems(2) by (cases arcs') auto
  show ?case
  proof (cases ns; cases ms)
    fix n' ns' m' ms'
    assume s: "ns = n' # ns'" "ms = m' # ms'"
    with Cons.prems(3) have "nat_str n @ CHR ''.'' # dotted ns = nat_str m @ CHR ''.'' # dotted ms"
      by (simp add: dotted_def m join_dots_simps)
    with append_dot_inj nat_str_no_dot have "nat_str n = nat_str m" "dotted ns = dotted ms" by blast+
    with Cons.IH [of ms] s m show ?thesis by simp
  next
    fix m' ms'
    assume s: "ns = []" "ms = m' # ms'"
    with Cons.prems(3) have "nat_str n = nat_str m @ CHR ''.'' # dotted ms" by (simp add: dotted_def m join_dots_simps)
    then have "CHR ''.'' \<in> set (nat_str n)" by simp
    with nat_str_no_dot show ?thesis by blast
  next
    fix n' ns'
    assume s: "ns = n' # ns'" "ms = []"
    with Cons.prems(3) have "nat_str m = nat_str n @ CHR ''.'' # dotted ns" by (simp add: dotted_def m join_dots_simps)
    then have "CHR ''.'' \<in> set (nat_str m)" by simp
    with nat_str_no_dot show ?thesis by blast
  next
    assume "ns = []" "ms = []"
    with Cons.prems(3) m show ?thesis by (simp add: dotted_def join_dots_simps)
  qed
qed

definition KEY_USAGE :: "nat list" where "KEY_USAGE = [2, 5, 29, 15]"
definition EXTENDED_KEY_USAGE :: "nat list" where "EXTENDED_KEY_USAGE = [2, 5, 29, 37]"
definition CLIENT_AUTH :: "nat list" where "CLIENT_AUTH = [1, 3, 6, 1, 5, 5, 7, 3, 2]"

lemma dotted_constants:
  "dotted KEY_USAGE = KEY_USAGE_OID" "dotted EXTENDED_KEY_USAGE = EXTENDED_KEY_USAGE_OID"
  "dotted CLIENT_AUTH = CLIENT_AUTH_OID"
  by code_simp+

lemma oid_ok_not_Nil: "oid_ok arcs \<Longrightarrow> arcs \<noteq> []"
  by (auto simp: oid_ok_def)

lemma dotted_eq_iff:
  assumes "oid_ok arcs"
  shows "dotted arcs = KEY_USAGE_OID \<longleftrightarrow> arcs = KEY_USAGE"
    and "dotted arcs = EXTENDED_KEY_USAGE_OID \<longleftrightarrow> arcs = EXTENDED_KEY_USAGE"
    and "dotted arcs = CLIENT_AUTH_OID \<longleftrightarrow> arcs = CLIENT_AUTH"
  unfolding dotted_constants [symmetric]
  using dotted_inj [OF oid_ok_not_Nil [OF assms]]
  by (auto simp: KEY_USAGE_def EXTENDED_KEY_USAGE_def CLIENT_AUTH_def)

section \<open>A certificate, as an issuer writes it\<close>

datatype stated_extension =
    Stated_key_usage "8 word" bytes
  | Stated_extended_key_usage "nat list list"
  | Stated_other "nat list" bytes

fun stated_oid :: "stated_extension \<Rightarrow> nat list" where
  "stated_oid (Stated_key_usage unused flags) = KEY_USAGE"
| "stated_oid (Stated_extended_key_usage oids) = EXTENDED_KEY_USAGE"
| "stated_oid (Stated_other arcs value) = arcs"

definition oid_item :: "nat list \<Rightarrow> 8 word \<times> bytes" where
  "oid_item arcs = (DER_OBJECT_IDENTIFIER, encode_oid arcs)"

fun stated_value :: "stated_extension \<Rightarrow> bytes" where
  "stated_value (Stated_key_usage unused flags) = der_encode DER_BIT_STRING (unused # flags)"
| "stated_value (Stated_extended_key_usage oids) = der_encode DER_SEQUENCE (encode_items (map oid_item oids))"
| "stated_value (Stated_other arcs value) = value"

text \<open>\<open>critical\<close> is written, as \<open>TRUE\<close>, or left out.\<close>

definition extension_item :: "bool \<times> stated_extension \<Rightarrow> 8 word \<times> bytes" where
  "extension_item ce =
     (DER_SEQUENCE, encode_items
        (oid_item (stated_oid (snd ce)) # (if fst ce then [(0x01, [0xFF])] else [])
          @ [(DER_OCTET_STRING, stated_value (snd ce))]))"

definition encode_certificate ::
  "(8 word \<times> bytes) list \<Rightarrow> (bool \<times> stated_extension) list \<Rightarrow> bytes \<Rightarrow> bytes" where
  "encode_certificate tbs_fields exts signature =
     der_encode DER_SEQUENCE
       (der_encode DER_SEQUENCE
          (encode_items
             (tbs_fields @ [(EXTENSIONS_TAG, der_encode DER_SEQUENCE (encode_items (map extension_item exts)))]))
        @ signature)"

text \<open>What the issuer stated: the last extension of each kind counts.\<close>

fun stated_purpose :: "certificate_purpose \<Rightarrow> stated_extension list \<Rightarrow> certificate_purpose" where
  "stated_purpose p [] = p"
| "stated_purpose p (Stated_key_usage unused flags # es) =
     stated_purpose (p\<lparr>cp_digital_signature := flags \<noteq> [] \<and> hd flags AND 0x80 \<noteq> 0\<rparr>) es"
| "stated_purpose p (Stated_extended_key_usage oids # es) =
     stated_purpose (p\<lparr>cp_client_auth := CLIENT_AUTH \<in> set oids\<rparr>) es"
| "stated_purpose p (Stated_other arcs value # es) = stated_purpose p es"

fun stated_ok :: "stated_extension \<Rightarrow> bool" where
  "stated_ok (Stated_key_usage unused flags) \<longleftrightarrow> True"
| "stated_ok (Stated_extended_key_usage oids) \<longleftrightarrow> (\<forall>arcs \<in> set oids. oid_ok arcs)"
| "stated_ok (Stated_other arcs value) \<longleftrightarrow> oid_ok arcs \<and> arcs \<noteq> KEY_USAGE \<and> arcs \<noteq> EXTENDED_KEY_USAGE"

section \<open>Reading it back\<close>

lemma length_der_encode: "length body < length (der_encode tag body)"
  by (simp add: der_encode_def)

lemma encode_items_ok:
  assumes "\<forall>item \<in> set items. low_tag (fst item)" and "length (encode_items items) < n" and "n \<le> 256 ^ 4"
  shows "items_ok items"
  using assms(1,2)
proof (induction items)
  case Nil
  then show ?case by simp
next
  case (Cons item items)
  obtain tag body where item: "item = (tag, body)" by fastforce
  have "length body < length (encode_items (item # items))"
    using length_der_encode [of body tag] by (simp add: item)
  with Cons assms(3) show ?case by (simp add: item)
qed

lemma find_skip: "\<forall>x \<in> set xs. \<not> P x \<Longrightarrow> find P (xs @ ys) = find P ys"
  by (induction xs) auto

lemma map_opt_map: "\<forall>x \<in> set xs. f (g x) = Some (h x) \<Longrightarrow> map_opt f (map g xs) = Some (map h xs)"
  by (induction xs) auto

lemma item_length_le: "item \<in> set items \<Longrightarrow> length (der_encode (fst item) (snd item)) \<le> length (encode_items items)"
  by (induction items) (auto simp: encode_items_def)

lemma any_client_auth_oids:
  assumes "\<forall>arcs \<in> set oids. oid_ok arcs"
  shows "any_client_auth (map oid_item oids) fine
    = (if CLIENT_AUTH \<in> set oids then Some True else if fine then Some False else None)"
  using assms
  by (induction oids) (auto simp: oid_item_def object_identifier_encode dotted_eq_iff)

lemma read_stated_extension:
  assumes "stated_ok e" and "length (stated_value e) < 256 ^ 4"
  shows "read_extension p (dotted (stated_oid e), stated_value e) = Some (stated_purpose p [e])"
proof (cases e)
  case (Stated_key_usage unused flags)
  have "KEY_USAGE_OID \<noteq> EXTENDED_KEY_USAGE_OID" by (simp add: KEY_USAGE_OID_def EXTENDED_KEY_USAGE_OID_def)
  moreover have "length (unused # flags) < 256 ^ 4"
    using assms(2) length_der_encode [of "unused # flags" DER_BIT_STRING] by (simp add: Stated_key_usage)
  ultimately show ?thesis
    by (simp add: Stated_key_usage read_extension_def dotted_constants der_only_encode DIGITAL_SIGNATURE_MASK_def)
      (cases flags; simp)
next
  case (Stated_extended_key_usage oids)
  let ?items = "map oid_item oids"
  have size: "length (encode_items ?items) < 256 ^ 4"
    using assms(2) length_der_encode [of "encode_items ?items" DER_SEQUENCE] by (simp add: Stated_extended_key_usage)
  then have "items_ok ?items" by (intro encode_items_ok [of _ "256 ^ 4"]) (auto simp: oid_item_def)
  moreover have "any_client_auth ?items True = Some (CLIENT_AUTH \<in> set oids)"
    using any_client_auth_oids [of oids True] assms(1) by (simp add: Stated_extended_key_usage split: if_splits)
  moreover note size
  ultimately show ?thesis
    by (simp add: Stated_extended_key_usage read_extension_def dotted_constants der_only_encode der_children_encode)
next
  case (Stated_other arcs v)
  with assms(1) show ?thesis by (simp add: read_extension_def dotted_eq_iff)
qed

lemma stated_purpose_Cons: "stated_purpose p (e # es) = stated_purpose (stated_purpose p [e]) es"
  by (cases e) simp_all

lemma read_stated_extensions:
  assumes "\<forall>e \<in> set es. stated_ok e \<and> length (stated_value e) < 256 ^ 4"
  shows "read_extensions p (map (\<lambda>e. (dotted (stated_oid e), stated_value e)) es) = Some (stated_purpose p es)"
  using assms
proof (induction es arbitrary: p)
  case Nil
  then show ?case by simp
next
  case (Cons e es)
  with read_stated_extension [of e p] show ?case by (simp add: stated_purpose_Cons [of p e es])
qed

lemma stated_oid_ok: "stated_ok e \<Longrightarrow> oid_ok (stated_oid e)"
  by (cases e) (simp_all add: KEY_USAGE_def EXTENDED_KEY_USAGE_def oid_ok_def)

lemma read_extension_item:
  assumes "stated_ok (snd ce)" and "length (snd (extension_item ce)) < 256 ^ 4"
  shows "der_extension (extension_item ce) = Some (dotted (stated_oid (snd ce)), stated_value (snd ce))"
    and "length (stated_value (snd ce)) < 256 ^ 4"
proof -
  let ?items = "oid_item (stated_oid (snd ce)) # (if fst ce then [(0x01, [0xFF])] else [])
      @ [(DER_OCTET_STRING, stated_value (snd ce))]"
  have items: "items_ok ?items"
    using assms(2) by (intro encode_items_ok [of _ "256 ^ 4"]) (auto simp: extension_item_def oid_item_def)
  then have "der_all_children (encode_items ?items) = Some ?items" by (rule der_all_children_encode)
  then show "der_extension (extension_item ce) = Some (dotted (stated_oid (snd ce)), stated_value (snd ce))"
    unfolding der_extension_def extension_item_def
    using object_identifier_encode [OF stated_oid_ok [OF assms(1)]]
    by (simp only: fst_conv snd_conv option.case) (simp add: oid_item_def)
  show "length (stated_value (snd ce)) < 256 ^ 4"
    using items by (simp add: items_ok_def)
qed

lemma extensions_of_certificate:
  assumes "\<forall>field \<in> set tbs_fields. low_tag (fst field) \<and> fst field \<noteq> EXTENSIONS_TAG"
    and "\<forall>ce \<in> set exts. stated_ok (snd ce)"
    and "length (encode_certificate tbs_fields exts signature) < 256 ^ 4"
  shows "der_extensions (encode_certificate tbs_fields exts signature)
      = Some (map (\<lambda>ce. (dotted (stated_oid (snd ce)), stated_value (snd ce))) exts)"
    and "\<forall>e \<in> set (map snd exts). stated_ok e \<and> length (stated_value e) < 256 ^ 4"
proof -
  let ?items = "map extension_item exts"
  let ?exts = "encode_items ?items"
  let ?fields = "tbs_fields @ [(EXTENSIONS_TAG, der_encode DER_SEQUENCE ?exts)]"
  let ?tbs = "encode_items ?fields"
  let ?cert = "der_encode DER_SEQUENCE ?tbs @ signature"
  have cert: "length ?cert < 256 ^ 4"
    using assms(3) length_der_encode [of ?cert DER_SEQUENCE] by (simp add: encode_certificate_def)
  then have tbs: "length ?tbs < 256 ^ 4" using length_der_encode [of ?tbs DER_SEQUENCE] by simp
  then have "items_ok ?fields" by (intro encode_items_ok [of _ "256 ^ 4"]) (use assms(1) in auto)
  then have fields: "der_children ?tbs = (?fields, True)" and "length (der_encode DER_SEQUENCE ?exts) < 256 ^ 4"
    using der_children_encode by (auto simp: items_ok_def)
  then have exts: "length ?exts < 256 ^ 4" using length_der_encode [of ?exts DER_SEQUENCE] by simp
  then have "items_ok ?items" by (intro encode_items_ok [of _ "256 ^ 4"]) (auto simp: extension_item_def)
  then have items: "der_all_children ?exts = Some ?items" and small: "\<forall>ce \<in> set exts. length (snd (extension_item ce)) < 256 ^ 4"
    using der_all_children_encode by (auto simp: items_ok_def)
  from small assms(2) have "map_opt der_extension ?items
      = Some (map (\<lambda>ce. (dotted (stated_oid (snd ce)), stated_value (snd ce))) exts)"
    by (intro map_opt_map) (auto intro: read_extension_item)
  moreover have "find (\<lambda>item. fst item = EXTENSIONS_TAG) ?fields = Some (EXTENSIONS_TAG, der_encode DER_SEQUENCE ?exts)"
    using assms(1) by (subst find_skip) auto
  moreover have "der_element ?cert 0 = Some (DER_SEQUENCE, ?tbs, length (der_encode DER_SEQUENCE ?tbs))"
    using der_element_encode [of DER_SEQUENCE ?tbs "[]" signature] tbs by simp
  ultimately show "der_extensions (encode_certificate tbs_fields exts signature)
      = Some (map (\<lambda>ce. (dotted (stated_oid (snd ce)), stated_value (snd ce))) exts)"
    unfolding der_extensions_def encode_certificate_def der_only_encode [OF low_tags(1) cert]
    using fields items der_only_encode [OF low_tags(1) exts] by simp
  show "\<forall>e \<in> set (map snd exts). stated_ok e \<and> length (stated_value e) < 256 ^ 4"
    using assms(2) small read_extension_item(2) by (metis (no_types, lifting) imageE list.set_map)
qed

section \<open>A certificate\<close>

definition demo_fields :: "(8 word \<times> bytes) list" where
  "demo_fields = [(0x02, [7]), (DER_SEQUENCE, [1, 2, 3])]"

definition demo_extensions :: "(bool \<times> stated_extension) list" where
  "demo_extensions =
     [(True, Stated_key_usage 7 [0x80]),
      (False, Stated_extended_key_usage [[1, 3, 6, 1, 5, 5, 7, 3, 1], CLIENT_AUTH])]"

definition demo_certificate :: bytes where
  "demo_certificate = encode_certificate demo_fields demo_extensions [0xFF]"

lemma demo_certificate_sound:
  "length demo_certificate < 256 ^ 4" "oid_ok [1, 3, 6, 1, 5, 5, 7, 3, 1]" "oid_ok CLIENT_AUTH"
proof -
  have "length demo_certificate < 200" by code_simp
  then show "length demo_certificate < 256 ^ 4" by simp
qed (simp_all add: oid_ok_def CLIENT_AUTH_def)

lemma demo_certificate_purpose:
  "read_client_purpose demo_certificate = Some \<lparr>cp_client_auth = True, cp_digital_signature = True\<rparr>"
proof -
  have fields: "\<forall>field \<in> set demo_fields. low_tag (fst field) \<and> fst field \<noteq> EXTENSIONS_TAG"
    by (simp add: demo_fields_def low_tag_def der_tags)
  have exts: "\<forall>ce \<in> set demo_extensions. stated_ok (snd ce)"
    using demo_certificate_sound by (simp add: demo_extensions_def)
  note read = extensions_of_certificate [OF fields exts demo_certificate_sound(1) [unfolded demo_certificate_def]]
  have "read_client_purpose demo_certificate
      = Some (stated_purpose \<lparr>cp_client_auth = False, cp_digital_signature = False\<rparr> (map snd demo_extensions))"
    unfolding read_client_purpose_def demo_certificate_def read(1)
    using read_stated_extensions [OF read(2)] by (simp add: comp_def)
  then show ?thesis by (simp add: demo_extensions_def)
qed

section \<open>Properties\<close>



text \<open>The reader does not read an extended key usage to its end: a stray octet after the listed
  purposes, which is no element, refuses the certificate only when client authentication is not
  among them; once it was found, what follows is not looked at.\<close>

theorem leaf_stops_at_client_auth:
  assumes "\<forall>arcs \<in> set oids. oid_ok arcs"
    and "length (encode_items (map oid_item oids)) + 1 < 256 ^ 4"
  shows "read_extension p (EXTENDED_KEY_USAGE_OID, der_encode DER_SEQUENCE (encode_items (map oid_item oids) @ [b]))
    = (if CLIENT_AUTH \<in> set oids then Some (p\<lparr>cp_client_auth := True\<rparr>) else None)"
proof -
  let ?items = "map oid_item oids"
  have "items_ok ?items" using assms(2) by (intro encode_items_ok [of _ "256 ^ 4"]) (auto simp: oid_item_def)
  moreover have "der_children_from (encode_items ?items @ [b]) (length (encode_items ?items)) = ([], False)"
    by (subst der_children_from.simps) (simp add: der_element_def Let_def)
  ultimately have "der_children (encode_items ?items @ [b]) = (?items, False)"
    using der_children_from_encode [of ?items "[]" "[b]"] by (simp add: der_children_def)
  then show ?thesis
    using assms any_client_auth_oids [of oids False]
    by (simp add: read_extension_def der_only_encode)
qed

theorem leaf_stops_at_client_auth_witness:
  "read_extension \<lparr>cp_client_auth = False, cp_digital_signature = False\<rparr>
     (EXTENDED_KEY_USAGE_OID, der_encode DER_SEQUENCE (encode_items (map oid_item [CLIENT_AUTH]) @ [0x1F]))
   = Some \<lparr>cp_client_auth = True, cp_digital_signature = False\<rparr>"
proof -
  have "oid_ok CLIENT_AUTH" by (simp add: oid_ok_def CLIENT_AUTH_def)
  moreover have "length (encode_items (map oid_item [CLIENT_AUTH])) < 200" by code_simp
  then have "length (encode_items (map oid_item [CLIENT_AUTH])) + 1 < 256 ^ 4" by simp
  ultimately show ?thesis
    using leaf_stops_at_client_auth [of "[CLIENT_AUTH]" "\<lparr>cp_client_auth = False, cp_digital_signature = False\<rparr>" "0x1F"]
    by simp
qed

end
