(* ===== verification/Identity.thy ===== *)
theory Identity
  imports Leaf Agent
begin

text \<open>
  \<open>secondsign.gateway.server\<close>, first half: the settings of the process, the seven conditions of a
  listener, and the identity of a connection, derived from the verified client certificate.

  What the code asks of the platform is the record \<open>runtime\<close>, each field the documented result
  of the call it is named after, \<open>None\<close> where that call raises: \<open>urlsplit\<close> (\<open>ValueError\<close>),
  \<open>ip_address(...).is_loopback\<close> (\<open>ValueError\<close>), \<open>ssl.cert_time_to_seconds\<close> (\<open>ValueError\<close>),
  \<open>Path.read_bytes\<close> (\<open>OSError\<close>), \<open>ssl.PEM_cert_to_DER_cert\<close> (\<open>ValueError\<close>) and the loading of
  certificate, key and CA into an SSL context. The wording of a refusal is not modelled.
\<close>

section \<open>Text\<close>

definition py_space :: "char \<Rightarrow> bool" where
  "py_space c \<longleftrightarrow>
     (let n = (of_char c :: nat) in (9 \<le> n \<and> n \<le> 13) \<or> (28 \<le> n \<and> n \<le> 32) \<or> n = 133 \<or> n = 160)"

definition py_strip :: "py_str \<Rightarrow> py_str" where
  "py_strip s = rev (dropWhile py_space (rev (dropWhile py_space s)))"

text \<open>The digits of a numeral, single underscores between them left out.\<close>

fun decimal_digits :: "py_str \<Rightarrow> py_str option" where
  "decimal_digits [] = None"
| "decimal_digits [c] = (if is_digit c then Some [c] else None)"
| "decimal_digits (c # d # cs) =
     (if \<not> is_digit c then None
      else map_option (Cons c) (if d = CHR ''_'' then decimal_digits cs else decimal_digits (d # cs)))"

text \<open>\<open>int(s)\<close>, \<open>None\<close> for \<open>ValueError\<close>: a numeral of more than 4300 digits is one.\<close>

definition MAX_STR_DIGITS :: nat where "MAX_STR_DIGITS = 4300"

definition py_int :: "py_str \<Rightarrow> int option" where
  "py_int s =
     (let t = py_strip s;
          (negative, u) =
            (case t of [] \<Rightarrow> (False, [])
             | c # cs \<Rightarrow> if c = CHR ''-'' then (True, cs) else if c = CHR ''+'' then (False, cs) else (False, t))
      in case decimal_digits u of
           None \<Rightarrow> None
         | Some ds \<Rightarrow>
             if MAX_STR_DIGITS < length ds then None
             else Some (if negative then - int (str_nat ds) else int (str_nat ds)))"

lemma decimal_digits_all: "s \<noteq> [] \<Longrightarrow> \<forall>c \<in> set s. is_digit c \<Longrightarrow> decimal_digits s = Some s"
proof (induction s rule: decimal_digits.induct)
  case (3 c d cs)
  have "d \<noteq> CHR ''_''" using 3(4) by (auto simp: is_digit_def)
  with 3 show ?case by simp
qed simp_all

lemma digit_not_space: "is_digit c \<Longrightarrow> \<not> py_space c"
  by (auto simp: is_digit_def py_space_def Let_def)

lemma dropWhile_space_digits: "\<forall>c \<in> set s. is_digit c \<Longrightarrow> dropWhile py_space s = s"
  by (cases s) (auto dest: digit_not_space)

lemma py_strip_digits: "\<forall>c \<in> set s. is_digit c \<Longrightarrow> py_strip s = s"
  using dropWhile_space_digits [of s] dropWhile_space_digits [of "rev s"] by (simp add: py_strip_def)

lemma py_int_nat_str:
  assumes "length (nat_str n) \<le> MAX_STR_DIGITS"
  shows "py_int (nat_str n) = Some (int n)"
proof -
  note digits = nat_str_digits [of n]
  obtain c cs where c: "nat_str n = c # cs" by (cases "nat_str n") simp_all
  with digits have "is_digit c" by simp
  then have "c \<noteq> CHR ''-''" "c \<noteq> CHR ''+''" by (auto simp: is_digit_def)
  with assms decimal_digits_all [OF nat_str_not_Nil digits] py_strip_digits [OF digits] c show ?thesis
    by (simp add: py_int_def) (metis str_nat_nat_str)
qed

lemma length_nat_str: "n < 10 ^ Suc k \<Longrightarrow> length (nat_str n) \<le> Suc k"
proof (induction k arbitrary: n)
  case 0
  then show ?case by (subst nat_str.simps) simp
next
  case (Suc k)
  have "n div 10 < 10 ^ Suc k" using Suc.prems by (simp add: div_less_iff_less_mult)
  from Suc.IH [OF this] show ?case by (subst nat_str.simps) simp
qed

text \<open>\<open>s.rpartition(":")\<close>, the text before and after the last colon.\<close>

definition rpartition_colon :: "py_str \<Rightarrow> py_str \<times> py_str" where
  "rpartition_colon s =
     (case dropWhile (\<lambda>c. c \<noteq> CHR '':'') (rev s) of
        [] \<Rightarrow> ([], s)
      | colon # before \<Rightarrow> (rev before, rev (takeWhile (\<lambda>c. c \<noteq> CHR '':'') (rev s))))"

text \<open>\<open>s.split()\<close>.\<close>

fun split_words :: "py_str \<Rightarrow> py_str \<Rightarrow> py_str list" where
  "split_words w [] = (if w = [] then [] else [rev w])"
| "split_words w (c # cs) =
     (if \<not> py_space c then split_words (c # w) cs
      else if w = [] then split_words [] cs
      else rev w # split_words [] cs)"

text \<open>\<open>text.replace(",", " ").split()\<close>: the entries of an allowlist.\<close>

definition allowlist_entries :: "py_str \<Rightarrow> py_str list" where
  "allowlist_entries s = split_words [] (map (\<lambda>c. if c = CHR '','' then CHR '' '' else c) s)"

section \<open>The platform\<close>

record runtime =
  rt_urlsplit :: "py_str \<Rightarrow> (py_str \<times> py_str) option"
  rt_is_loopback :: "py_str \<Rightarrow> bool option"
  rt_cert_seconds :: "py_str \<Rightarrow> int option"
  rt_read_bytes :: "py_str \<Rightarrow> bytes option"
  rt_pem_to_der :: "py_str \<Rightarrow> bytes option"
  rt_tls_loads :: "py_str \<Rightarrow> py_str \<Rightarrow> py_str \<Rightarrow> bool"

section \<open>Settings\<close>

type_synonym environ = "(py_str \<times> py_str) list"

definition MAX_CLIENT_LEAF_SECONDS :: int where
  "MAX_CLIENT_LEAF_SECONDS = 24 * 3600"

definition APPROVER_SETTINGS :: "py_str list" where
  "APPROVER_SETTINGS =
     [''SECONDSIGN_APPROVER_BIND'', ''SECONDSIGN_APPROVER_TLS_CERT'', ''SECONDSIGN_APPROVER_TLS_KEY'',
      ''SECONDSIGN_APPROVER_CA'', ''SECONDSIGN_APPROVER_ALLOWLIST'']"

definition KNOWN_SETTINGS :: "py_str list" where
  "KNOWN_SETTINGS =
     [''SECONDSIGN_BIND'', ''SECONDSIGN_TLS_CERT'', ''SECONDSIGN_TLS_KEY'', ''SECONDSIGN_CLIENT_CA'',
      ''SECONDSIGN_CLIENT_ALLOWLIST'', ''SECONDSIGN_RAIL_URL'', ''SECONDSIGN_RAIL_API_KEY''] @ APPROVER_SETTINGS"

definition SETTING_PREFIX :: py_str where "SETTING_PREFIX = ''SECONDSIGN_''"
definition DEFAULT_BIND :: py_str where "DEFAULT_BIND = ''127.0.0.1:8787''"

datatype startup_refusal_reason =
    Unknown_setting | Malformed_bind | Missing_server_certificate | Missing_server_key
  | Missing_client_ca | Unreadable_tls_material | Missing_principal_allowlist
  | Malformed_principal_entry | Wildcard_principal_entry | Incomplete_approver_channel
  | Shared_trust_anchor | Principal_on_both_channels

datatype principal_refusal_reason =
    No_identity | Ambiguous_identity | Malformed_identity | Lifetime_beyond_cap | Unknown_principal
  | Unreadable_certificate | Not_for_client_authentication | Key_not_for_signing

fun principal_refusal_value :: "principal_refusal_reason \<Rightarrow> py_str" where
  "principal_refusal_value No_identity = ''no_identity''"
| "principal_refusal_value Ambiguous_identity = ''ambiguous_identity''"
| "principal_refusal_value Malformed_identity = ''malformed_identity''"
| "principal_refusal_value Lifetime_beyond_cap = ''lifetime_beyond_cap''"
| "principal_refusal_value Unknown_principal = ''unknown_principal''"
| "principal_refusal_value Unreadable_certificate = ''unreadable_certificate''"
| "principal_refusal_value Not_for_client_authentication = ''not_for_client_authentication''"
| "principal_refusal_value Key_not_for_signing = ''key_not_for_signing''"

record tls_termination =
  tt_certificate :: py_str
  tt_key :: py_str
  tt_client_ca :: py_str

record gateway_config =
  gc_host :: py_str
  gc_port :: int
  gc_tls :: "tls_termination option"
  gc_allowlist :: "py_str set"

definition is_loopback :: "runtime \<Rightarrow> py_str \<Rightarrow> bool" where
  "is_loopback rt host = (case rt_is_loopback rt host of None \<Rightarrow> False | Some b \<Rightarrow> b)"

text \<open>\<open>host, _, port_text = bind.rpartition(":")\<close> and the port, \<open>None\<close> where it is refused.\<close>

definition parse_bind :: "py_str \<Rightarrow> (py_str \<times> int) option" where
  "parse_bind text =
     (let (host, port_text) = rpartition_colon text;
          port = (case py_int port_text of None \<Rightarrow> - 1 | Some p \<Rightarrow> p)
      in if host = [] \<or> \<not> (0 \<le> port \<and> port \<le> 65535) then None else Some (host, port))"

text \<open>The loop over the entries; \<open>urlsplit\<close> may raise.\<close>

fun check_entries :: "runtime \<Rightarrow> py_str list \<Rightarrow> py_error + startup_refusal_reason option" where
  "check_entries rt [] = Inr None"
| "check_entries rt (e # es) =
     (if CHR ''*'' \<in> set e then Inr (Some Wildcard_principal_entry)
      else case rt_urlsplit rt e of
          None \<Rightarrow> Inl Value_Error
        | Some (scheme, netloc) \<Rightarrow>
            if scheme = [] \<or> netloc = [] then Inr (Some Malformed_principal_entry)
            else check_entries rt es)"

text \<open>A setting that is absent or empty is not set.\<close>

definition setting_text :: "environ \<Rightarrow> py_str \<Rightarrow> py_str" where
  "setting_text settings name = (case map_of settings name of None \<Rightarrow> [] | Some v \<Rightarrow> v)"

text \<open>After the bind address: the plaintext loopback listener, or the seven conditions.\<close>

definition listener_config ::
  "runtime \<Rightarrow> py_str \<Rightarrow> int \<Rightarrow> py_str \<Rightarrow> py_str \<Rightarrow> py_str \<Rightarrow> py_str
     \<Rightarrow> py_error + startup_refusal_reason + gateway_config" where
  "listener_config rt host port certificate key client_ca allowlist_text =
     (if is_loopback rt host \<and> certificate = [] \<and> key = [] \<and> client_ca = [] \<and> allowlist_text = []
      then Inr (Inr \<lparr>gc_host = host, gc_port = port, gc_tls = None, gc_allowlist = {}\<rparr>)
      else if certificate = [] then Inr (Inl Missing_server_certificate)
      else if key = [] then Inr (Inl Missing_server_key)
      else if client_ca = [] then Inr (Inl Missing_client_ca)
      else if \<exists>p \<in> {certificate, key, client_ca}. rt_read_bytes rt p = None
      then Inr (Inl Unreadable_tls_material)
      else if allowlist_entries allowlist_text = [] then Inr (Inl Missing_principal_allowlist)
      else case check_entries rt (allowlist_entries allowlist_text) of
          Inl e \<Rightarrow> Inl e
        | Inr (Some reason) \<Rightarrow> Inr (Inl reason)
        | Inr None \<Rightarrow>
            Inr (Inr \<lparr>gc_host = host, gc_port = port,
                      gc_tls = Some \<lparr>tt_certificate = certificate, tt_key = key, tt_client_ca = client_ca\<rparr>,
                      gc_allowlist = set (allowlist_entries allowlist_text)\<rparr>))"

definition load_config :: "runtime \<Rightarrow> environ \<Rightarrow> py_error + startup_refusal_reason + gateway_config" where
  "load_config rt env =
     (let settings = filter (\<lambda>kv. take (length SETTING_PREFIX) (fst kv) = SETTING_PREFIX) env
      in if \<exists>kv \<in> set settings. fst kv \<notin> set KNOWN_SETTINGS then Inr (Inl Unknown_setting)
         else case parse_bind (case map_of settings ''SECONDSIGN_BIND'' of None \<Rightarrow> DEFAULT_BIND | Some b \<Rightarrow> b) of
             None \<Rightarrow> Inr (Inl Malformed_bind)
           | Some (host, port) \<Rightarrow>
               listener_config rt host port
                 (setting_text settings ''SECONDSIGN_TLS_CERT'') (setting_text settings ''SECONDSIGN_TLS_KEY'')
                 (setting_text settings ''SECONDSIGN_CLIENT_CA'')
                 (setting_text settings ''SECONDSIGN_CLIENT_ALLOWLIST''))"

section \<open>Identity\<close>

text \<open>\<open>None\<close>: nothing to refuse.\<close>

definition verify_client_purpose :: "bytes option \<Rightarrow> principal_refusal_reason option" where
  "verify_client_purpose der =
     (case der of
        None \<Rightarrow> Some Unreadable_certificate
      | Some bs \<Rightarrow>
          if bs = [] then Some Unreadable_certificate
          else case read_client_purpose bs of
              None \<Rightarrow> Some Unreadable_certificate
            | Some purpose \<Rightarrow>
                if \<not> cp_client_auth purpose then Some Not_for_client_authentication
                else if \<not> cp_digital_signature purpose then Some Key_not_for_signing
                else None)"

text \<open>What \<open>getpeercert\<close> reports, of what is read: \<open>None\<close> for a date that is missing or no string.\<close>

record peer_certificate =
  pk_subject_alt_name :: "(py_str \<times> py_str) list"
  pk_not_before :: "py_str option"
  pk_not_after :: "py_str option"

text \<open>\<open>_RequestHandler.identity\<close>: a principal, a refusal, or \<open>None\<close> on a plaintext listener.\<close>

datatype identity =
    Derived py_str
  | Identity_refused principal_refusal_reason
  | Unidentified

definition derive_principal :: "runtime \<Rightarrow> peer_certificate option \<Rightarrow> py_str set \<Rightarrow> py_error + identity" where
  "derive_principal rt peercert allowlist =
     (case peercert of
        None \<Rightarrow> Inr (Identity_refused No_identity)
      | Some cert \<Rightarrow>
          (let uris = map snd (filter (\<lambda>kv. fst kv = ''URI'') (pk_subject_alt_name cert))
           in case uris of
                [] \<Rightarrow> Inr (Identity_refused No_identity)
              | uri # more_uris \<Rightarrow>
                  if more_uris \<noteq> [] then Inr (Identity_refused Ambiguous_identity)
                  else case rt_urlsplit rt uri of
                      None \<Rightarrow> Inl Value_Error
                    | Some (scheme, netloc) \<Rightarrow>
                        if scheme = [] \<or> netloc = [] then Inr (Identity_refused Malformed_identity)
                        else (case (pk_not_before cert, pk_not_after cert) of
                            (Some not_before, Some not_after) \<Rightarrow>
                              (case (rt_cert_seconds rt not_after, rt_cert_seconds rt not_before) of
                                 (Some until, Some since) \<Rightarrow>
                                   if MAX_CLIENT_LEAF_SECONDS < until - since
                                   then Inr (Identity_refused Lifetime_beyond_cap)
                                   else if uri \<notin> allowlist then Inr (Identity_refused Unknown_principal)
                                   else Inr (Derived uri)
                               | _ \<Rightarrow> Inr (Identity_refused Malformed_identity))
                          | _ \<Rightarrow> Inr (Identity_refused Malformed_identity))))"

text \<open>A connection, after the handshake.\<close>

datatype connection =
    Plaintext
  | Tls (tls_der: "bytes option") (tls_peercert: "peer_certificate option")

definition tls_identity ::
  "runtime \<Rightarrow> bytes option \<Rightarrow> peer_certificate option \<Rightarrow> py_str set \<Rightarrow> py_error + identity" where
  "tls_identity rt der peercert allowlist =
     (case verify_client_purpose der of
        Some reason \<Rightarrow> Inr (Identity_refused reason)
      | None \<Rightarrow> derive_principal rt peercert allowlist)"

text \<open>\<open>_RequestHandler.setup\<close>.\<close>

definition gateway_identity :: "runtime \<Rightarrow> py_str set \<Rightarrow> connection \<Rightarrow> py_error + identity" where
  "gateway_identity rt allowlist c =
     (case c of
        Plaintext \<Rightarrow> Inr Unidentified
      | Tls der peercert \<Rightarrow> tls_identity rt der peercert allowlist)"

section \<open>What a listener and an identity rest on\<close>

definition absolute_uri :: "runtime \<Rightarrow> py_str \<Rightarrow> bool" where
  "absolute_uri rt e \<longleftrightarrow> (\<exists>scheme netloc. rt_urlsplit rt e = Some (scheme, netloc) \<and> scheme \<noteq> [] \<and> netloc \<noteq> [])"

lemma check_entries_fine:
  "check_entries rt es = Inr None \<longleftrightarrow> (\<forall>e \<in> set es. CHR ''*'' \<notin> set e \<and> absolute_uri rt e)"
  by (induction es) (auto simp: absolute_uri_def split: option.splits)

lemma check_entries_error: "check_entries rt es = Inl e \<Longrightarrow> e = Value_Error \<and> (\<exists>x \<in> set es. rt_urlsplit rt x = None)"
  by (induction es) (auto split: if_splits option.splits)

lemma parse_bind_Some:
  "parse_bind text = Some (host, port) \<longleftrightarrow>
     host = fst (rpartition_colon text) \<and> host \<noteq> [] \<and> py_int (snd (rpartition_colon text)) = Some port
     \<and> 0 \<le> port \<and> port \<le> 65535"
  by (auto simp: parse_bind_def Let_def split: prod.splits option.splits if_splits)

text \<open>The settings that opt into TLS.\<close>

definition TLS_SETTINGS :: "py_str list" where
  "TLS_SETTINGS =
     [''SECONDSIGN_TLS_CERT'', ''SECONDSIGN_TLS_KEY'', ''SECONDSIGN_CLIENT_CA'', ''SECONDSIGN_CLIENT_ALLOWLIST'']"

text \<open>The seven conditions for the material and the allowlist of a listener.\<close>

definition tls_conditions :: "runtime \<Rightarrow> tls_termination \<Rightarrow> py_str set \<Rightarrow> bool" where
  "tls_conditions rt tls allowlist \<longleftrightarrow>
     (\<forall>p \<in> {tt_certificate tls, tt_key tls, tt_client_ca tls}. p \<noteq> [] \<and> rt_read_bytes rt p \<noteq> None)
     \<and> allowlist \<noteq> {} \<and> (\<forall>e \<in> allowlist. CHR ''*'' \<notin> set e \<and> absolute_uri rt e)"

lemma map_of_filter_key: "P k \<Longrightarrow> map_of (filter (\<lambda>kv. P (fst kv)) kvs) k = map_of kvs k"
  by (induction kvs) auto

lemma setting_text_filter:
  "take (length SETTING_PREFIX) k = SETTING_PREFIX \<Longrightarrow>
     setting_text (filter (\<lambda>kv. take (length SETTING_PREFIX) (fst kv) = SETTING_PREFIX) env) k = setting_text env k"
  unfolding setting_text_def
  by (subst map_of_filter_key [where P = "\<lambda>k. take (length SETTING_PREFIX) k = SETTING_PREFIX"]) simp_all

lemma listener_config_conditions:
  "listener_config rt host port certificate key client_ca allowlist_text = Inr (Inr cfg) \<longleftrightarrow>
     gc_host cfg = host \<and> gc_port cfg = port
     \<and> (if is_loopback rt host \<and> certificate = [] \<and> key = [] \<and> client_ca = [] \<and> allowlist_text = []
        then gc_tls cfg = None \<and> gc_allowlist cfg = {}
        else gc_allowlist cfg = set (allowlist_entries allowlist_text)
          \<and> (\<exists>tls. gc_tls cfg = Some tls \<and> tls_conditions rt tls (gc_allowlist cfg)
               \<and> tls = \<lparr>tt_certificate = certificate, tt_key = key, tt_client_ca = client_ca\<rparr>))"
  using check_entries_fine [of rt "allowlist_entries allowlist_text"]
  by (cases cfg)
    (auto simp: listener_config_def tls_conditions_def split: if_splits sum.splits option.splits)

definition prefixed :: "environ \<Rightarrow> environ" where
  "prefixed env = filter (\<lambda>kv. take (length SETTING_PREFIX) (fst kv) = SETTING_PREFIX) env"

lemma setting_text_prefixed:
  "take (length SETTING_PREFIX) k = SETTING_PREFIX \<Longrightarrow> setting_text (prefixed env) k = setting_text env k"
  unfolding prefixed_def by (rule setting_text_filter)

lemma tls_setting_texts:
  "setting_text (prefixed env) ''SECONDSIGN_TLS_CERT'' = setting_text env ''SECONDSIGN_TLS_CERT''"
  "setting_text (prefixed env) ''SECONDSIGN_TLS_KEY'' = setting_text env ''SECONDSIGN_TLS_KEY''"
  "setting_text (prefixed env) ''SECONDSIGN_CLIENT_CA'' = setting_text env ''SECONDSIGN_CLIENT_CA''"
  "setting_text (prefixed env) ''SECONDSIGN_CLIENT_ALLOWLIST'' = setting_text env ''SECONDSIGN_CLIENT_ALLOWLIST''"
  by (rule setting_text_prefixed, simp add: SETTING_PREFIX_def)+

lemma load_config_cases:
  assumes "load_config rt env = Inr (Inr cfg)"
  obtains host port where "\<forall>kv \<in> set (prefixed env). fst kv \<in> set KNOWN_SETTINGS"
    "parse_bind (case map_of (prefixed env) ''SECONDSIGN_BIND'' of None \<Rightarrow> DEFAULT_BIND | Some b \<Rightarrow> b) = Some (host, port)"
    "listener_config rt host port (setting_text env ''SECONDSIGN_TLS_CERT'') (setting_text env ''SECONDSIGN_TLS_KEY'')
       (setting_text env ''SECONDSIGN_CLIENT_CA'') (setting_text env ''SECONDSIGN_CLIENT_ALLOWLIST'') = Inr (Inr cfg)"
proof -
  let ?bind = "parse_bind (case map_of (prefixed env) ''SECONDSIGN_BIND'' of None \<Rightarrow> DEFAULT_BIND | Some b \<Rightarrow> b)"
  have known: "\<not> (\<exists>kv \<in> set (prefixed env). fst kv \<notin> set KNOWN_SETTINGS)"
  proof
    assume "\<exists>kv \<in> set (prefixed env). fst kv \<notin> set KNOWN_SETTINGS"
    then have "load_config rt env = Inr (Inl Unknown_setting)"
      unfolding load_config_def Let_def prefixed_def by (rule if_P)
    with assms show False by simp
  qed
  have run: "load_config rt env = (case ?bind of None \<Rightarrow> Inr (Inl Malformed_bind)
      | Some (host, port) \<Rightarrow> listener_config rt host port (setting_text env ''SECONDSIGN_TLS_CERT'')
          (setting_text env ''SECONDSIGN_TLS_KEY'') (setting_text env ''SECONDSIGN_CLIENT_CA'')
          (setting_text env ''SECONDSIGN_CLIENT_ALLOWLIST''))"
    unfolding load_config_def Let_def prefixed_def [symmetric] if_not_P [OF known] tls_setting_texts by (rule refl)
  show thesis
  proof (cases ?bind)
    case None
    with run assms show ?thesis by simp
  next
    case (Some hp)
    with run assms known that [of "fst hp" "snd hp"] show ?thesis by (simp split: prod.splits)
  qed
qed

section \<open>A platform to run on\<close>

definition demo_runtime :: runtime where
  "demo_runtime =
     \<lparr>rt_urlsplit = (\<lambda>s. Some (takeWhile (\<lambda>c. c \<noteq> CHR '':'') s, drop 3 (dropWhile (\<lambda>c. c \<noteq> CHR '':'') s))),
      rt_is_loopback = (\<lambda>s. if s = ''127.0.0.1'' then Some True else None),
      rt_cert_seconds = (\<lambda>s. map_option id (py_int s)),
      rt_read_bytes = (\<lambda>s. Some (map of_char s)),
      rt_pem_to_der = (\<lambda>s. Some (map of_char s)),
      rt_tls_loads = (\<lambda>c k a. True)\<rparr>"

definition demo_environ :: environ where
  "demo_environ =
     [(''SECONDSIGN_BIND'', ''10.0.0.7:8787''), (''SECONDSIGN_TLS_CERT'', ''cert.pem''),
      (''SECONDSIGN_TLS_KEY'', ''key.pem''), (''SECONDSIGN_CLIENT_CA'', ''agents.pem''),
      (''SECONDSIGN_CLIENT_ALLOWLIST'', ''spiffe://bank/agent, spiffe://bank/other''), (''PATH'', ''/bin'')]"

definition demo_gateway_config :: gateway_config where
  "demo_gateway_config =
     \<lparr>gc_host = ''10.0.0.7'', gc_port = 8787,
      gc_tls = Some \<lparr>tt_certificate = ''cert.pem'', tt_key = ''key.pem'', tt_client_ca = ''agents.pem''\<rparr>,
      gc_allowlist = {''spiffe://bank/agent'', ''spiffe://bank/other''}\<rparr>"

text \<open>How the text of a concrete setting is evaluated.\<close>

lemmas text_evaluation =
  parse_bind_def rpartition_colon_def allowlist_entries_def py_int_def py_strip_def py_space_def
  MAX_STR_DIGITS_def is_digit_def str_nat_def

lemma demo_load_config: "load_config demo_runtime demo_environ = Inr (Inr demo_gateway_config)"
proof -
  have "parse_bind ''10.0.0.7:8787'' = Some (''10.0.0.7'', 8787)" by (simp add: text_evaluation)
  moreover have "allowlist_entries ''spiffe://bank/agent, spiffe://bank/other''
      = [''spiffe://bank/agent'', ''spiffe://bank/other'']" by (simp add: text_evaluation)
  ultimately show ?thesis
    by (simp add: load_config_def demo_environ_def SETTING_PREFIX_def KNOWN_SETTINGS_def setting_text_def
        listener_config_def is_loopback_def demo_runtime_def demo_gateway_config_def)
qed

lemma verify_client_purpose_None:
  "verify_client_purpose der = None \<longleftrightarrow> (\<exists>bs p. der = Some bs \<and> bs \<noteq> []
     \<and> read_client_purpose bs = Some p \<and> cp_client_auth p \<and> cp_digital_signature p)"
  by (auto simp: verify_client_purpose_def split: option.splits if_splits)

lemma derive_principal_Derived:
  "derive_principal rt peercert allowlist = Inr (Derived uri) \<longleftrightarrow>
     (\<exists>cert since until not_before not_after. peercert = Some cert
      \<and> map snd (filter (\<lambda>kv. fst kv = ''URI'') (pk_subject_alt_name cert)) = [uri] \<and> absolute_uri rt uri
      \<and> pk_not_before cert = Some not_before \<and> rt_cert_seconds rt not_before = Some since
      \<and> pk_not_after cert = Some not_after \<and> rt_cert_seconds rt not_after = Some until
      \<and> until - since \<le> 24 * 3600 \<and> uri \<in> allowlist)"
proof (cases peercert)
  case None
  then show ?thesis by (simp add: derive_principal_def)
next
  case (Some cert)
  show ?thesis
  proof (cases "map snd (filter (\<lambda>kv. fst kv = ''URI'') (pk_subject_alt_name cert))")
    case Nil
    with Some show ?thesis by (simp add: derive_principal_def)
  next
    case (Cons u us)
    let ?since = "Option.bind (pk_not_before cert) (rt_cert_seconds rt)"
      and ?until = "Option.bind (pk_not_after cert) (rt_cert_seconds rt)"
    have run: "derive_principal rt peercert allowlist = Inr (Derived uri) \<longleftrightarrow>
        us = [] \<and> u = uri \<and> absolute_uri rt u \<and> (\<exists>since until. ?since = Some since \<and> ?until = Some until
          \<and> until - since \<le> 24 * 3600) \<and> u \<in> allowlist"
      unfolding derive_principal_def Some option.case Let_def Cons list.case absolute_uri_def
      by (cases us; cases "rt_urlsplit rt u"; cases "pk_not_before cert"; cases "pk_not_after cert")
        (auto simp: MAX_CLIENT_LEAF_SECONDS_def split: prod.split option.split)
    show ?thesis unfolding run unfolding Some bind_eq_Some_conv by (auto simp: Cons)
  qed
qed

lemma gateway_identity_Derived:
  "gateway_identity rt allowlist c = Inr (Derived uri) \<longleftrightarrow>
     (\<exists>der peercert. c = Tls der peercert \<and> verify_client_purpose der = None
        \<and> derive_principal rt peercert allowlist = Inr (Derived uri))"
  by (cases c) (auto simp: gateway_identity_def tls_identity_def split: option.split)

section \<open>Properties of the listener and the identity\<close>

text \<open>[C21] The bind check: a process that starts has no unrecognised setting under its prefix, a
  proper address, and either a plaintext listener on a literal loopback address with no TLS
  setting at all, which serves nobody by name, or a TLS listener whose certificate, key and client
  CA are named and readable and whose allowlist is non-empty, without wildcards and made of
  absolute URIs.\<close>

theorem listener_meets_conditions:
  assumes "load_config rt env = Inr (Inr cfg)"
  shows "(\<forall>kv \<in> set env. take (length SETTING_PREFIX) (fst kv) = SETTING_PREFIX \<longrightarrow> fst kv \<in> set KNOWN_SETTINGS)
    \<and> gc_host cfg \<noteq> [] \<and> 0 \<le> gc_port cfg \<and> gc_port cfg \<le> 65535
    \<and> (case gc_tls cfg of
         None \<Rightarrow> is_loopback rt (gc_host cfg) \<and> gc_allowlist cfg = {}
           \<and> (\<forall>k \<in> set TLS_SETTINGS. setting_text env k = [])
       | Some tls \<Rightarrow> tls_conditions rt tls (gc_allowlist cfg))"
  using assms
proof (cases rule: load_config_cases)
  case (1 host port)
  from 1(2) have "host \<noteq> []" "0 \<le> port" "port \<le> 65535" using parse_bind_Some by blast+
  moreover have "\<forall>kv \<in> set env. take (length SETTING_PREFIX) (fst kv) = SETTING_PREFIX \<longrightarrow> fst kv \<in> set KNOWN_SETTINGS"
    using 1(1) unfolding prefixed_def set_filter by blast
  moreover have at: "gc_host cfg = host" "gc_port cfg = port" using 1(3) listener_config_conditions by blast+
  moreover have "case gc_tls cfg of
      None \<Rightarrow> is_loopback rt host \<and> gc_allowlist cfg = {} \<and> (\<forall>k \<in> set TLS_SETTINGS. setting_text env k = [])
    | Some tls \<Rightarrow> tls_conditions rt tls (gc_allowlist cfg)"
    using iffD1 [OF listener_config_conditions 1(3)]
    by (simp add: TLS_SETTINGS_def split: if_splits) (elim conjE exE; simp)
  ultimately show ?thesis unfolding at by blast
qed

theorem listener_meets_conditions_witness:
  "tls_conditions demo_runtime \<lparr>tt_certificate = ''cert.pem'', tt_key = ''key.pem'', tt_client_ca = ''agents.pem''\<rparr>
     {''spiffe://bank/agent'', ''spiffe://bank/other''}"
  using listener_meets_conditions [OF demo_load_config] by (simp add: demo_gateway_config_def)

text \<open>[C20] An identity is derived exactly from a TLS connection whose leaf can be read and states
  client authentication and signing, carries exactly one URI, an absolute one on the allowlist,
  and is valid for at most 24 hours.\<close>

theorem identity_derived_exactly_when:
  "gateway_identity rt allowlist c = Inr (Derived uri) \<longleftrightarrow>
     (\<exists>der purpose cert since until not_before not_after.
        c = Tls (Some der) (Some cert) \<and> der \<noteq> []
      \<and> read_client_purpose der = Some purpose \<and> cp_client_auth purpose \<and> cp_digital_signature purpose
      \<and> map snd (filter (\<lambda>kv. fst kv = ''URI'') (pk_subject_alt_name cert)) = [uri]
      \<and> absolute_uri rt uri
      \<and> pk_not_before cert = Some not_before \<and> rt_cert_seconds rt not_before = Some since
      \<and> pk_not_after cert = Some not_after \<and> rt_cert_seconds rt not_after = Some until
      \<and> until - since \<le> 24 * 3600 \<and> uri \<in> allowlist)"
  unfolding gateway_identity_Derived verify_client_purpose_None derive_principal_Derived
  by (rule iffI; elim exE conjE; intro exI conjI; (assumption | simp)?; simp)

end
