(* ===== verification/Server.thy ===== *)
theory Server
  imports Identity Service_Runs
begin

text \<open>
  \<open>secondsign.gateway.server\<close>, second half: the handlers of the agent's listener. A request is what
  the connection carries: the path, the \<open>Content-Length\<close> header and the bytes that follow. The
  answer is a status and a JSON payload; an exception that leaves a handler drops the connection
  without an answer and is \<open>Inl\<close>.

  \<open>json.loads\<close> of the bytes read and pydantic's validation of the request are parameters
  (\<open>decoders\<close>), each \<open>None\<close> where it raises \<open>ValueError\<close> and \<open>ValidationError\<close>.
\<close>

section \<open>What the handlers exchange\<close>

text \<open>What \<open>json.loads\<close> returns. Of a float only its comparison with an integer is observed: the
  integer it equals, if any.\<close>

datatype loaded =
    L_null
  | L_bool bool
  | L_int int
  | L_float "int option"
  | L_str py_str
  | L_list "loaded list"
  | L_dict "(py_str \<times> loaded) list"

text \<open>\<open>bool(value)\<close>. A float that is no integer is not zero.\<close>

fun py_bool :: "loaded \<Rightarrow> bool" where
  "py_bool L_null = False"
| "py_bool (L_bool b) = b"
| "py_bool (L_int i) = (i \<noteq> 0)"
| "py_bool (L_float f) = (f \<noteq> Some 0)"
| "py_bool (L_str s) = (s \<noteq> [])"
| "py_bool (L_list xs) = (xs \<noteq> [])"
| "py_bool (L_dict kvs) = (kvs \<noteq> [])"

record decoders =
  dc_loads :: "bytes \<Rightarrow> loaded option"
  dc_request :: "loaded \<Rightarrow> authorization_request option"
  dc_proposal :: "loaded \<Rightarrow> proposal_digest option"

record http_request =
  hr_path :: py_str
  hr_content_length :: "py_str option"
  hr_stream :: bytes

record http_response =
  hs_status :: int
  hs_payload :: json
  hs_close :: bool

text \<open>\<open>_respond\<close>: a refusal also closes the connection.\<close>

definition respond :: "int \<Rightarrow> json \<Rightarrow> http_response" where
  "respond status payload = \<lparr>hs_status = status, hs_payload = payload, hs_close = 400 \<le> status\<rparr>"

definition refused :: "int \<Rightarrow> py_str \<Rightarrow> http_response" where
  "refused status reason = respond status (JObj [(''refused'', JStr reason)])"

text \<open>\<open>payload.get(key)\<close>.\<close>

definition dict_get :: "(py_str \<times> loaded) list \<Rightarrow> py_str \<Rightarrow> loaded" where
  "dict_get kvs key = (case map_of kvs key of None \<Rightarrow> L_null | Some v \<Rightarrow> v)"

text \<open>\<open>value in frozenset\<close> of integers and of strings: a list or a dict is not hashable.\<close>

fun in_int_set :: "loaded \<Rightarrow> int set \<Rightarrow> py_error + bool" where
  "in_int_set (L_list xs) A = Inl Type_Error"
| "in_int_set (L_dict kvs) A = Inl Type_Error"
| "in_int_set (L_bool b) A = Inr ((if b then 1 else 0) \<in> A)"
| "in_int_set (L_int i) A = Inr (i \<in> A)"
| "in_int_set (L_float f) A = Inr (\<exists>i \<in> A. f = Some i)"
| "in_int_set L_null A = Inr False"
| "in_int_set (L_str s) A = Inr False"

fun in_str_set :: "loaded \<Rightarrow> py_str set \<Rightarrow> py_error + bool" where
  "in_str_set (L_list xs) A = Inl Type_Error"
| "in_str_set (L_dict kvs) A = Inl Type_Error"
| "in_str_set (L_str s) A = Inr (s \<in> A)"
| "in_str_set v A = Inr False"

section \<open>The body\<close>

definition MAX_AUTHORIZE_BODY_BYTES :: int where
  "MAX_AUTHORIZE_BODY_BYTES = 1048576"

text \<open>The declared length, checked before any read; then the object the body holds.\<close>

definition read_body :: "decoders \<Rightarrow> int \<Rightarrow> http_request \<Rightarrow> http_response + (py_str \<times> loaded) list" where
  "read_body dc cap req =
     (let header = (case hr_content_length req of None \<Rightarrow> ''0'' | Some h \<Rightarrow> h);
          declared = (case py_int header of None \<Rightarrow> - 1 | Some n \<Rightarrow> n)
      in if declared < 0 then Inl (refused 400 ''malformed_body'')
         else if cap < declared then Inl (refused 413 ''body_too_large'')
         else case dc_loads dc (take (nat declared) (hr_stream req)) of
             Some (L_dict payload) \<Rightarrow> Inr payload
           | _ \<Rightarrow> Inl (refused 400 ''malformed_body''))"

definition has_field :: "(py_str \<times> loaded) list \<Rightarrow> py_str \<Rightarrow> bool" where
  "has_field kvs field = (map_of kvs field \<noteq> None)"

definition carries_a_principal :: "(py_str \<times> loaded) list \<Rightarrow> bool" where
  "carries_a_principal payload \<longleftrightarrow>
     list_ex (has_field payload) PRINCIPAL_FIELDS
     \<or> (case dict_get payload ''request'' of
          L_dict request \<Rightarrow> list_ex (has_field request) PRINCIPAL_FIELDS
        | _ \<Rightarrow> False)"

section \<open>The handlers of the agent's listener\<close>

definition gateway_get :: "identity \<Rightarrow> py_str \<Rightarrow> http_response" where
  "gateway_get ident path =
     (case ident of
        Identity_refused reason \<Rightarrow> refused 403 (principal_refusal_value reason)
      | _ \<Rightarrow>
          if path = ''/healthz''
          then respond 200 (JObj [(''gateway'', JStr ''listening''), (''authorization'', JStr ''unavailable'')])
          else refused 404 ''unknown_path'')"

definition outcome_json :: "date_format \<Rightarrow> authorization_outcome \<Rightarrow> json" where
  "outcome_json fmt outcome =
     JObj [(''status'', JStr (agent_status_value (ao_status outcome))),
           (''decision_ref'', JStr (ao_decision_ref outcome)),
           (''decided_at'', JStr (fmt (ao_decided_at outcome))),
           (''reasons'', JList (map (\<lambda>r. JStr (reason_value r)) (ao_reasons outcome)))]"

text \<open>The service a process was built with, if it has a rail.\<close>

type_synonym 's authorization = "('s deployment \<times> 's service) option"

text \<open>\<open>_authorize\<close>.\<close>

definition gateway_authorize ::
  "decoders \<Rightarrow> 's authorization \<Rightarrow> identity \<Rightarrow> (py_str \<times> loaded) list \<Rightarrow> datetime
     \<Rightarrow> (py_error + http_response) \<times> 's authorization" where
  "gateway_authorize dc authorization ident payload now =
     (case authorization of
        None \<Rightarrow> (Inr (refused 503 ''authorization_unavailable''), None)
      | Some (dep, sv) \<Rightarrow>
          (case ident of
             Derived uri \<Rightarrow>
               (case dc_request dc (dict_get payload ''request'') of
                  None \<Rightarrow> (Inr (refused 400 ''malformed_request''), authorization)
                | Some request \<Rightarrow>
                    (case authorize dep sv uri request now of
                       (Inl e, sv1) \<Rightarrow> (Inl e, Some (dep, sv1))
                     | (Inr outcome, sv1) \<Rightarrow>
                         (Inr (respond 200
                            (JObj [(''wire_version'', JInt WIRE_VERSION),
                                   (''outcome'', outcome_json (dp_format dep) outcome)])),
                          Some (dep, sv1))))
           | _ \<Rightarrow> (Inr (refused 403 ''no_identity''), authorization)))"

definition gateway_post ::
  "decoders \<Rightarrow> 's authorization \<Rightarrow> identity \<Rightarrow> http_request \<Rightarrow> datetime
     \<Rightarrow> (py_error + http_response) \<times> 's authorization" where
  "gateway_post dc authorization ident req now =
     (case ident of
        Identity_refused reason \<Rightarrow> (Inr (refused 403 (principal_refusal_value reason)), authorization)
      | _ \<Rightarrow>
          if hr_path req \<noteq> ''/authorize'' then (Inr (refused 404 ''unknown_path''), authorization)
          else
            (case read_body dc MAX_AUTHORIZE_BODY_BYTES req of
               Inl response \<Rightarrow> (Inr response, authorization)
             | Inr payload \<Rightarrow>
                 if carries_a_principal payload
                 then (Inr (refused 400 ''body_supplied_principal''), authorization)
                 else
                   let version = dict_get payload ''wire_version'';
                       wrong = (Inr (refused 400 ''wire_version_unrecognised''), authorization)
                   in (case version of
                         L_bool b \<Rightarrow> wrong
                       | _ \<Rightarrow>
                           (case in_int_set version SUPPORTED_WIRE_VERSIONS of
                              Inl e \<Rightarrow> (Inl e, authorization)
                            | Inr supported \<Rightarrow>
                                if \<not> supported then wrong
                                else gateway_authorize dc authorization ident payload now))))"

section \<open>What gets through\<close>

definition unhashable :: "loaded \<Rightarrow> bool" where
  "unhashable v \<longleftrightarrow> (\<exists>xs. v = L_list xs) \<or> (\<exists>kvs. v = L_dict kvs)"

text \<open>The dialect this process speaks, as a number other than a truth value.\<close>

definition speaks_version_one :: "loaded \<Rightarrow> bool" where
  "speaks_version_one v \<longleftrightarrow> v = L_int 1 \<or> v = L_float (Some 1)"

text \<open>A refusal: an answer of status 400 or more, after which the connection is closed.\<close>

definition is_refusal :: "http_response \<Rightarrow> bool" where
  "is_refusal response \<longleftrightarrow> 400 \<le> hs_status response \<and> hs_close response"

lemma refused_is_refusal [simp]: "is_refusal (refused status reason) \<longleftrightarrow> 400 \<le> status"
  by (simp add: is_refusal_def refused_def respond_def)

lemma read_body_refusal: "read_body dc cap req = Inl response \<Longrightarrow> is_refusal response"
  by (auto simp: read_body_def Let_def split: if_splits option.splits loaded.splits)

text \<open>No field that names a principal, neither in the body nor in the request inside it.\<close>

definition names_no_principal :: "(py_str \<times> loaded) list \<Rightarrow> bool" where
  "names_no_principal payload \<longleftrightarrow>
     (\<forall>field \<in> set PRINCIPAL_FIELDS. map_of payload field = None
        \<and> (\<forall>request. dict_get payload ''request'' = L_dict request \<longrightarrow> map_of request field = None))"

lemma carries_a_principal_iff: "\<not> carries_a_principal payload \<longleftrightarrow> names_no_principal payload"
  by (auto simp: carries_a_principal_def names_no_principal_def has_field_def list_ex_iff split: loaded.splits)

text \<open>What is asked of a request before the service sees it.\<close>

definition admitted ::
  "decoders \<Rightarrow> 's authorization \<Rightarrow> identity \<Rightarrow> http_request \<Rightarrow> 's deployment \<Rightarrow> 's service \<Rightarrow> py_str
     \<Rightarrow> authorization_request \<Rightarrow> bool" where
  "admitted dc authorization ident req dep sv uri request \<longleftrightarrow>
     authorization = Some (dep, sv) \<and> ident = Derived uri \<and> hr_path req = ''/authorize''
     \<and> (\<exists>payload. read_body dc MAX_AUTHORIZE_BODY_BYTES req = Inr payload
          \<and> names_no_principal payload \<and> speaks_version_one (dict_get payload ''wire_version'')
          \<and> dc_request dc (dict_get payload ''request'') = Some request)"

lemma gateway_authorize_cases:
  assumes "gateway_authorize dc authorization ident payload now = (r, authorization')"
  obtains (admitted) dep sv uri request where "authorization = Some (dep, sv)" "ident = Derived uri"
      "dc_request dc (dict_get payload ''request'') = Some request"
      "authorization' = Some (dep, snd (authorize dep sv uri request now))"
      "r = map_sum id (\<lambda>outcome. respond 200 (JObj [(''wire_version'', JInt WIRE_VERSION),
        (''outcome'', outcome_json (dp_format dep) outcome)])) (fst (authorize dep sv uri request now))"
    | (refusal) response where "r = Inr response" "is_refusal response" "authorization' = authorization"
  using assms
  by (auto simp: gateway_authorize_def split: option.splits prod.splits identity.splits sum.splits)

lemma version_cases:
  obtains (speaks) "speaks_version_one v" | (hash) "unhashable v"
    | (wrong) "\<not> unhashable v" "\<not> speaks_version_one v"
  by blast

lemma in_int_set_version:
  assumes "\<And>b. v \<noteq> L_bool b"
  shows "in_int_set v SUPPORTED_WIRE_VERSIONS
    = (if unhashable v then Inl Type_Error else Inr (speaks_version_one v))"
  using assms
  by (cases v) (auto simp: unhashable_def speaks_version_one_def SUPPORTED_WIRE_VERSIONS_def WIRE_VERSION_def)

lemma gateway_post_payload:
  assumes "\<forall>reason. ident \<noteq> Identity_refused reason" and "hr_path req = ''/authorize''"
    and "read_body dc MAX_AUTHORIZE_BODY_BYTES req = Inr payload" and "names_no_principal payload"
  shows "gateway_post dc authorization ident req now =
    (let v = dict_get payload ''wire_version''
     in if unhashable v then (Inl Type_Error, authorization)
        else if \<not> speaks_version_one v then (Inr (refused 400 ''wire_version_unrecognised''), authorization)
        else gateway_authorize dc authorization ident payload now)"
proof -
  note clean = assms(4) [folded carries_a_principal_iff]
  let ?v = "dict_get payload ''wire_version''"
  have "gateway_post dc authorization ident req now =
    (let wrong = (Inr (refused 400 ''wire_version_unrecognised''), authorization)
     in case ?v of
          L_bool b \<Rightarrow> wrong
        | _ \<Rightarrow>
            (case in_int_set ?v SUPPORTED_WIRE_VERSIONS of
               Inl e \<Rightarrow> (Inl e, authorization)
             | Inr supported \<Rightarrow>
                 if \<not> supported then wrong else gateway_authorize dc authorization ident payload now))"
  proof (cases ident)
    case (Derived u)
    show ?thesis unfolding Derived using assms(2,3) clean by (simp add: gateway_post_def Let_def)
  next
    case (Identity_refused reason)
    with assms(1) show ?thesis by blast
  next
    case Unidentified
    show ?thesis unfolding Unidentified using assms(2,3) clean by (simp add: gateway_post_def Let_def)
  qed
  also have "\<dots> = (if unhashable ?v then (Inl Type_Error, authorization)
        else if \<not> speaks_version_one ?v then (Inr (refused 400 ''wire_version_unrecognised''), authorization)
        else gateway_authorize dc authorization ident payload now)"
  proof (cases "\<exists>b. ?v = L_bool b")
    case True
    then show ?thesis by (auto simp: unhashable_def speaks_version_one_def)
  next
    case False
    then show ?thesis
      using in_int_set_version [of ?v] by (cases ?v) (simp_all add: Let_def unhashable_def)
  qed
  finally show ?thesis by (simp add: Let_def)
qed

lemma gateway_post_shape:
  "if \<exists>dep sv uri request. admitted dc authorization ident req dep sv uri request
   then \<exists>dep sv uri request. admitted dc authorization ident req dep sv uri request
     \<and> gateway_post dc authorization ident req now =
        (map_sum id (\<lambda>outcome. respond 200 (JObj [(''wire_version'', JInt WIRE_VERSION),
           (''outcome'', outcome_json (dp_format dep) outcome)])) (fst (authorize dep sv uri request now)),
         Some (dep, snd (authorize dep sv uri request now)))
   else snd (gateway_post dc authorization ident req now) = authorization
     \<and> (case fst (gateway_post dc authorization ident req now) of
          Inr response \<Rightarrow> is_refusal response
        | Inl e \<Rightarrow> e = Type_Error \<and> (\<exists>payload. read_body dc MAX_AUTHORIZE_BODY_BYTES req = Inr payload
            \<and> unhashable (dict_get payload ''wire_version'')))"
proof (cases "(\<forall>reason. ident \<noteq> Identity_refused reason) \<and> hr_path req = ''/authorize''
    \<and> (\<exists>payload. read_body dc MAX_AUTHORIZE_BODY_BYTES req = Inr payload \<and> names_no_principal payload)")
  case False
  then have no: "\<not> (\<exists>dep sv uri request. admitted dc authorization ident req dep sv uri request)"
    by (auto simp: admitted_def)
  have "snd (gateway_post dc authorization ident req now) = authorization
      \<and> (\<exists>response. fst (gateway_post dc authorization ident req now) = Inr response \<and> is_refusal response)"
    using False unfolding carries_a_principal_iff [symmetric]
    by (auto simp: gateway_post_def dest: read_body_refusal split: identity.split sum.split)
  then show ?thesis unfolding if_not_P [OF no] by auto
next
  case True
  then obtain payload where ident: "\<forall>reason. ident \<noteq> Identity_refused reason" and path: "hr_path req = ''/authorize''"
    and payload: "read_body dc MAX_AUTHORIZE_BODY_BYTES req = Inr payload" "names_no_principal payload" by blast
  let ?v = "dict_get payload ''wire_version''"
  note run = gateway_post_payload [OF ident path payload, of authorization now, unfolded Let_def]
  show ?thesis
  proof (cases rule: version_cases [of ?v])
    case hash
    then have no: "\<not> (\<exists>dep sv uri request. admitted dc authorization ident req dep sv uri request)"
      using payload(1) by (auto simp: admitted_def unhashable_def speaks_version_one_def)
    show ?thesis unfolding if_not_P [OF no] using run hash payload(1) by simp
  next
    case wrong
    then have no: "\<not> (\<exists>dep sv uri request. admitted dc authorization ident req dep sv uri request)"
      using payload(1) by (auto simp: admitted_def)
    show ?thesis unfolding if_not_P [OF no] using run wrong by simp
  next
    case speaks
    then have "\<not> unhashable ?v" by (auto simp: unhashable_def speaks_version_one_def)
    with run speaks have run': "gateway_post dc authorization ident req now
        = gateway_authorize dc authorization ident payload now" by simp
    obtain r authorization' where go: "gateway_authorize dc authorization ident payload now = (r, authorization')"
      by fastforce
    then show ?thesis
    proof (cases rule: gateway_authorize_cases)
      case (admitted dep sv uri request)
      then have "admitted dc authorization ident req dep sv uri request"
        using path payload speaks by (auto simp: admitted_def)
      then show ?thesis using admitted(4,5) run' go by auto
    next
      case (refusal response)
      show ?thesis
      proof (cases "\<exists>dep sv uri request. admitted dc authorization ident req dep sv uri request")
        case yes: True
        then obtain dep sv uri request where adm: "authorization = Some (dep, sv)" "ident = Derived uri"
          "dc_request dc (dict_get payload ''request'') = Some request"
          using payload(1) by (auto simp: admitted_def)
        with go refusal(1,2) have False
          by (auto simp: gateway_authorize_def is_refusal_def respond_def split: prod.splits sum.splits)
        then show ?thesis ..
      next
        case no: False
        show ?thesis unfolding if_not_P [OF no] using run' go refusal by simp
      qed
    qed
  qed
qed

section \<open>Properties\<close>

text \<open>[C19] The agent's door. A POST reaches the service exactly when the connection's certificate gave
  a principal, the path is the one verb there is, the declared length is a number within the cap,
  the body is an object without a principal field at either level, its dialect is version one and
  its request validates; then the service decides, under the principal of the certificate, and
  its answer is the reply. In every other case the service is left as it was and the answer is a
  refusal that closes the connection, unless the body's version is a list or an object: then the
  handler raises \<open>TypeError\<close> and there is no answer.\<close>

theorem gateway_post_exactly_when:
  "if \<exists>dep sv uri request. admitted dc authorization ident req dep sv uri request
   then \<exists>dep sv uri request. admitted dc authorization ident req dep sv uri request
     \<and> gateway_post dc authorization ident req now =
        (map_sum id (\<lambda>outcome. respond 200 (JObj [(''wire_version'', JInt WIRE_VERSION),
           (''outcome'', outcome_json (dp_format dep) outcome)])) (fst (authorize dep sv uri request now)),
         Some (dep, snd (authorize dep sv uri request now)))
   else snd (gateway_post dc authorization ident req now) = authorization
     \<and> (case fst (gateway_post dc authorization ident req now) of
          Inr response \<Rightarrow> is_refusal response
        | Inl e \<Rightarrow> e = Type_Error \<and> (\<exists>payload. read_body dc MAX_AUTHORIZE_BODY_BYTES req = Inr payload
            \<and> unhashable (dict_get payload ''wire_version'')))"
  by (rule gateway_post_shape)

end
