(* ===== verification/Json_Read.thy ===== *)
theory Json_Read
  imports Server "HOL-Library.AList"
begin

text \<open>
  \<open>json.loads\<close> of a document of ASCII characters, and \<open>json.dumps\<close> with its default separators,
  with the theorem that the first reads back what the second, or the compact form pydantic writes,
  has written. A float is known by the integer it equals, a parameter; an escape beyond \<open>U+00FF\<close>
  has no \<open>py_str\<close> and is not read. The recursion limit of the interpreter is not modelled.
\<close>

section \<open>Writing with spaces\<close>

text \<open>Both renderings: the text between two items, and between a key and its value.\<close>

fun render_by :: "py_str \<Rightarrow> py_str \<Rightarrow> json \<Rightarrow> py_str"
  and render_elems_by :: "py_str \<Rightarrow> py_str \<Rightarrow> bool \<Rightarrow> json list \<Rightarrow> py_str"
  and render_membs_by :: "py_str \<Rightarrow> py_str \<Rightarrow> bool \<Rightarrow> (py_str \<times> json) list \<Rightarrow> py_str" where
  "render_by i k JNull = ''null''"
| "render_by i k (JBool b) = (if b then ''true'' else ''false'')"
| "render_by i k (JInt n) = int_str n"
| "render_by i k (JStr s) = json_str s"
| "render_by i k (JList xs) = CHR ''['' # render_elems_by i k True xs"
| "render_by i k (JObj kvs) = CHR ''{'' # render_membs_by i k True kvs"
| "render_elems_by i k start [] = '']''"
| "render_elems_by i k start (x # xs) =
     (if start then [] else i) @ render_by i k x @ render_elems_by i k False xs"
| "render_membs_by i k start [] = ''}''"
| "render_membs_by i k start (kv # kvs) =
     (if start then [] else i) @ json_str (fst kv) @ k @ render_by i k (snd kv)
       @ render_membs_by i k False kvs"

lemma render_by_compact:
  "render_by '','' '':'' j = render j"
  "render_elems_by '','' '':'' b xs = render_elems b xs"
  "render_membs_by '','' '':'' b kvs = render_membs b kvs"
  by (induction j and b xs and b kvs rule: render_render_elems_render_membs.induct) simp_all

text \<open>\<open>json.dumps(value)\<close>.\<close>

definition dumps_spaced :: "json \<Rightarrow> py_str" where
  "dumps_spaced j = render_by '', '' '': '' j"

section \<open>Reading strings and numbers\<close>

definition json_space :: "char \<Rightarrow> bool" where
  "json_space c \<longleftrightarrow> c = CHR '' '' \<or> c = CHR 0x09 \<or> c = CHR 0x0A \<or> c = CHR 0x0D"

definition hex_digit :: "char \<Rightarrow> nat option" where
  "hex_digit c =
     (let n = of_char c :: nat
      in if 48 \<le> n \<and> n \<le> 57 then Some (n - 48)
         else if 97 \<le> n \<and> n \<le> 102 then Some (n - 87)
         else if 65 \<le> n \<and> n \<le> 70 then Some (n - 55)
         else None)"

definition simple_escape :: "char \<Rightarrow> char option" where
  "simple_escape d =
     (if d = CHR 0x22 \<or> d = CHR 0x5C \<or> d = CHR ''/'' then Some d
      else if d = CHR ''n'' then Some (CHR 0x0A)
      else if d = CHR ''r'' then Some (CHR 0x0D)
      else if d = CHR ''t'' then Some (CHR 0x09)
      else if d = CHR ''b'' then Some (CHR 0x08)
      else if d = CHR ''f'' then Some (CHR 0x0C)
      else None)"

text \<open>The four digits of \<open>\u\<close>.\<close>

definition unicode_escape :: "char \<Rightarrow> char \<Rightarrow> char \<Rightarrow> char \<Rightarrow> char option" where
  "unicode_escape a b e f =
     (case (hex_digit a, hex_digit b, hex_digit e, hex_digit f) of
        (Some 0, Some 0, Some m, Some n) \<Rightarrow> Some (char_of (16 * m + n))
      | _ \<Rightarrow> None)"

text \<open>\<open>scanstring\<close> after the opening quote, strict: no control character stands for itself.\<close>

fun read_chars :: "py_str \<Rightarrow> (py_str \<times> py_str) option" where
  "read_chars [] = None"
| "read_chars (c # r) =
     (if c = CHR 0x22 then Some ([], r)
      else if (of_char c :: nat) < 32 then None
      else if c \<noteq> CHR 0x5C then map_option (apfst (Cons c)) (read_chars r)
      else
        (case r of
           [] \<Rightarrow> None
         | d # q \<Rightarrow>
             if d = CHR ''u''
             then
               (case q of
                  a # b # e # f # s \<Rightarrow>
                    (case unicode_escape a b e f of
                       None \<Rightarrow> None
                     | Some x \<Rightarrow> map_option (apfst (Cons x)) (read_chars s))
                | _ \<Rightarrow> None)
             else
               (case simple_escape d of
                  None \<Rightarrow> None
                | Some x \<Rightarrow> map_option (apfst (Cons x)) (read_chars q))))"

text \<open>The numeral at the front: its integer part without the sign, \<open>None\<close> if there is none; its
  fraction and its exponent, empty if there are none.\<close>

definition read_integer_part :: "py_str \<Rightarrow> (py_str \<times> py_str) option" where
  "read_integer_part s =
     (case s of
        [] \<Rightarrow> None
      | c # r \<Rightarrow>
          if c = CHR ''0'' then Some ([c], r)
          else if is_digit c then Some (takeWhile is_digit s, dropWhile is_digit s)
          else None)"

definition read_fraction :: "py_str \<Rightarrow> py_str \<times> py_str" where
  "read_fraction s =
     (case s of
        c # d # r \<Rightarrow>
          if c = CHR ''.'' \<and> is_digit d
          then (c # takeWhile is_digit (d # r), dropWhile is_digit (d # r))
          else ([], s)
      | _ \<Rightarrow> ([], s))"

definition read_exponent :: "py_str \<Rightarrow> py_str \<times> py_str" where
  "read_exponent s =
     (case s of
        c # r \<Rightarrow>
          if c = CHR ''e'' \<or> c = CHR ''E''
          then
            (let (sign, t) =
               (case r of
                  d # q \<Rightarrow> if d = CHR ''+'' \<or> d = CHR ''-'' then ([d], q) else ([], r)
                | [] \<Rightarrow> ([], r))
             in if t \<noteq> [] \<and> is_digit (hd t)
                then (c # sign @ takeWhile is_digit t, dropWhile is_digit t)
                else ([], s))
          else ([], s)
      | [] \<Rightarrow> ([], s))"

type_synonym float_reader = "py_str \<Rightarrow> int option"

definition read_number :: "float_reader \<Rightarrow> py_str \<Rightarrow> (loaded \<times> py_str) option" where
  "read_number flt s =
     (let (sign, t) =
        (case s of c # r \<Rightarrow> if c = CHR ''-'' then ([c], r) else ([], s) | [] \<Rightarrow> ([], s))
      in case read_integer_part t of
           None \<Rightarrow> None
         | Some (digits, u) \<Rightarrow>
             (let (frac, v) = read_fraction u; (expo, w) = read_exponent v
              in if frac \<noteq> [] \<or> expo \<noteq> []
                 then Some (L_float (flt (sign @ digits @ frac @ expo)), w)
                 else if MAX_STR_DIGITS < length digits then None
                 else Some (L_int (if sign = [] then int (str_nat digits) else - int (str_nat digits)), w)))"

section \<open>Reading values\<close>

definition skip_space :: "py_str \<Rightarrow> py_str" where
  "skip_space s = dropWhile json_space s"

text \<open>A literal at the front. The three names of the \<open>json\<close> module beyond JSON are floats that
  equal no integer.\<close>

definition read_word :: "py_str \<Rightarrow> loaded \<Rightarrow> py_str \<Rightarrow> (loaded \<times> py_str) option" where
  "read_word w v s = (if take (length w) s = w then Some (v, drop (length w) s) else None)"

text \<open>\<open>pairs\<close> as a dict: the last value of a key stays, at the place of the first.\<close>

definition dict_of :: "(py_str \<times> loaded) list \<Rightarrow> (py_str \<times> loaded) list" where
  "dict_of pairs = fold (\<lambda>(k, v). AList.update k v) pairs []"

text \<open>The fuel is a bound on the depth and the number of values; every call reads a character.
  \<open>read_elems\<close> and \<open>read_membs\<close> start at a value and at a key.\<close>

fun read_value :: "float_reader \<Rightarrow> nat \<Rightarrow> py_str \<Rightarrow> (loaded \<times> py_str) option"
  and read_elems :: "float_reader \<Rightarrow> nat \<Rightarrow> py_str \<Rightarrow> (loaded list \<times> py_str) option"
  and read_membs :: "float_reader \<Rightarrow> nat \<Rightarrow> py_str \<Rightarrow> ((py_str \<times> loaded) list \<times> py_str) option" where
  "read_value flt 0 s = None"
| "read_value flt (Suc n) s =
     (case s of
        [] \<Rightarrow> None
      | c # r \<Rightarrow>
          if c = CHR 0x22 then map_option (apfst L_str) (read_chars r)
          else if c = CHR ''{'' then
            (case skip_space r of
               [] \<Rightarrow> None
             | d # q \<Rightarrow>
                 if d = CHR ''}'' then Some (L_dict [], q)
                 else map_option (apfst (L_dict \<circ> dict_of)) (read_membs flt n (d # q)))
          else if c = CHR ''['' then
            (case skip_space r of
               [] \<Rightarrow> None
             | d # q \<Rightarrow>
                 if d = CHR '']'' then Some (L_list [], q)
                 else map_option (apfst L_list) (read_elems flt n (d # q)))
          else if c = CHR ''n'' then read_word ''null'' L_null s
          else if c = CHR ''t'' then read_word ''true'' (L_bool True) s
          else if c = CHR ''f'' then read_word ''false'' (L_bool False) s
          else if c = CHR ''N'' then read_word ''NaN'' (L_float None) s
          else if c = CHR ''I'' then read_word ''Infinity'' (L_float None) s
          else if take 9 s = ''-Infinity'' then Some (L_float None, drop 9 s)
          else read_number flt s)"
| "read_elems flt 0 s = None"
| "read_elems flt (Suc n) s =
     (case read_value flt n s of
        None \<Rightarrow> None
      | Some (v, r) \<Rightarrow>
          (case skip_space r of
             [] \<Rightarrow> None
           | d # q \<Rightarrow>
               if d = CHR '']'' then Some ([v], q)
               else if d = CHR '','' then map_option (apfst (Cons v)) (read_elems flt n (skip_space q))
               else None))"
| "read_membs flt 0 s = None"
| "read_membs flt (Suc n) s =
     (case s of
        [] \<Rightarrow> None
      | c # r \<Rightarrow>
          if c \<noteq> CHR 0x22 then None
          else
            (case read_chars r of
               None \<Rightarrow> None
             | Some (key, t) \<Rightarrow>
                 (case skip_space t of
                    [] \<Rightarrow> None
                  | d # q \<Rightarrow>
                      if d \<noteq> CHR '':'' then None
                      else
                        (case read_value flt n (skip_space q) of
                           None \<Rightarrow> None
                         | Some (v, u) \<Rightarrow>
                             (case skip_space u of
                                [] \<Rightarrow> None
                              | e # w \<Rightarrow>
                                  if e = CHR ''}'' then Some ([(key, v)], w)
                                  else if e = CHR '','' then
                                    map_option (apfst (Cons (key, v))) (read_membs flt n (skip_space w))
                                  else None)))))"

text \<open>\<open>json.loads\<close>: one value, and nothing but space around it.\<close>

definition json_loads :: "float_reader \<Rightarrow> py_str \<Rightarrow> loaded option" where
  "json_loads flt s =
     (case read_value flt (Suc (length s)) (skip_space s) of
        None \<Rightarrow> None
      | Some (v, r) \<Rightarrow> if skip_space r = [] then Some v else None)"

section \<open>Strings read back\<close>

lemma json_space_not_digit: "is_digit c \<Longrightarrow> \<not> json_space c"
  by (auto simp: json_space_def is_digit_def)

lemma hex_digit_of_hex_char: "d < 16 \<Longrightarrow> hex_digit (hex_char d) = Some d"
  by (simp add: hex_digit_def hex_char_def Let_def)

lemma unicode_escape_char:
  "unicode_escape CHR ''0'' CHR ''0'' (hex_char (of_char c div 16)) (hex_char (of_char c mod 16)) = Some c"
proof -
  have "(of_char c :: nat) div 16 < 16" using nat_of_char_less_256 [of c] by linarith
  moreover have "hex_digit CHR ''0'' = Some 0" by (simp add: hex_digit_def)
  ultimately show ?thesis by (simp add: unicode_escape_def hex_digit_of_hex_char)
qed

lemma read_chars_escape: "read_chars (escape_char c @ t) = map_option (apfst (Cons c)) (read_chars t)"
  using unicode_escape_char [of c] by (simp add: escape_char_def simple_escape_def)

lemma read_chars_escapes: "read_chars (concat (map escape_char s) @ CHR 0x22 # r) = Some (s, r)"
  by (induction s) (simp_all add: read_chars_escape)

lemma json_str_unfold: "json_str s @ r = CHR 0x22 # concat (map escape_char s) @ CHR 0x22 # r"
  by (simp add: json_str_def)

section \<open>Numerals read back\<close>

lemma delimited_tail: "delimited r \<Longrightarrow> read_fraction r = ([], r) \<and> read_exponent r = ([], r)"
  by (cases r) (auto simp: delimited_def read_fraction_def read_exponent_def split: list.splits)

lemma nat_str_hd_zero: "hd (nat_str n) = CHR ''0'' \<Longrightarrow> n = 0"
proof (induction n rule: nat_str.induct)
  case (1 n)
  show ?case
  proof (cases "n < 10")
    case True
    then have "char_of (48 + n) = CHR ''0''" using 1(2) by (simp add: nat_str.simps [of n] digit_char_def)
    then have "(of_char (char_of (48 + n) :: char) :: nat) = 48" by simp
    then show ?thesis using True by simp
  next
    case False
    then have "hd (nat_str (n div 10)) = CHR ''0''" using 1(2) by (simp add: nat_str.simps [of n])
    then show ?thesis using 1(1) False by simp
  qed
qed

lemma dropWhile_nat_str: "delimited r \<Longrightarrow> dropWhile is_digit (nat_str n @ r) = r"
  using takeWhile_nat_str [of r n] by (metis append_same_eq append_eq_append_conv takeWhile_dropWhile_id)

lemma read_integer_part_nat_str:
  assumes "delimited r"
  shows "read_integer_part (nat_str n @ r) = Some (nat_str n, r)"
proof (cases "n = 0")
  case True
  have "(char_of (48 :: nat) :: char) = CHR ''0''" by code_simp
  with True show ?thesis by (simp add: nat_str.simps [of 0] digit_char_def read_integer_part_def)
next
  case False
  then have "hd (nat_str n) \<noteq> CHR ''0''" using nat_str_hd_zero by blast
  then show ?thesis
    using takeWhile_nat_str [OF assms, of n] dropWhile_nat_str [OF assms, of n] nat_str_hd [of n]
    by (cases "nat_str n") (auto simp: read_integer_part_def)
qed

definition numeral_ok :: "int \<Rightarrow> bool" where
  "numeral_ok i \<longleftrightarrow> length (nat_str (nat \<bar>i\<bar>)) \<le> MAX_STR_DIGITS"

lemma small_numeral:
  assumes "0 \<le> i" and "i < 10"
  shows "numeral_ok i"
proof -
  have "nat i < 10" using assms(2) by simp
  with assms(1) show ?thesis by (simp add: numeral_ok_def MAX_STR_DIGITS_def nat_str.simps [of "nat i"])
qed

lemma read_number_int_str:
  assumes "delimited r" and "numeral_ok i"
  shows "read_number flt (int_str i @ r) = Some (L_int i, r)"
proof (cases "i < 0")
  case True
  with assms(2) delimited_tail [OF assms(1)] show ?thesis
    by (simp add: read_number_def int_str_def numeral_ok_def read_integer_part_nat_str [OF assms(1)])
next
  case False
  let ?s = "nat_str (nat i) @ r"
  have "hd (nat_str (nat i)) \<noteq> CHR ''-''" using nat_str_hd [of "nat i"] not_is_digit_minus by metis
  then have "(case ?s of c # q \<Rightarrow> if c = CHR ''-'' then ([c], q) else ([], ?s) | [] \<Rightarrow> ([], ?s)) = ([], ?s)"
    by (cases "nat_str (nat i)") auto
  with False assms(2) delimited_tail [OF assms(1)] show ?thesis
    by (simp add: read_number_def int_str_def numeral_ok_def read_integer_part_nat_str [OF assms(1)])
qed

section \<open>Values read back\<close>

text \<open>The value a text written from \<open>j\<close> is read as, and when: its numerals within the limit on
  conversions, its keys distinct.\<close>

primrec loaded_of :: "json \<Rightarrow> loaded" where
  "loaded_of JNull = L_null"
| "loaded_of (JBool b) = L_bool b"
| "loaded_of (JInt i) = L_int i"
| "loaded_of (JStr s) = L_str s"
| "loaded_of (JList xs) = L_list (map loaded_of xs)"
| "loaded_of (JObj kvs) = L_dict (map (map_prod id loaded_of) kvs)"

primrec json_ok :: "json \<Rightarrow> bool" where
  "json_ok JNull = True"
| "json_ok (JBool b) = True"
| "json_ok (JInt i) = numeral_ok i"
| "json_ok (JStr s) = True"
| "json_ok (JList xs) = list_all id (map json_ok xs)"
| "json_ok (JObj kvs) = (distinct (map fst kvs) \<and> list_all snd (map (map_prod id json_ok) kvs))"

lemma dict_of_fold:
  "distinct (map fst (acc @ pairs)) \<Longrightarrow> fold (\<lambda>(k, v). AList.update k v) pairs acc = acc @ pairs"
proof (induction pairs arbitrary: acc)
  case Nil
  then show ?case by simp
next
  case (Cons p pairs)
  obtain k v where p: "p = (k, v)" by fastforce
  have "AList.update k v acc = acc @ [(k, v)]"
    using Cons.prems p by (induction acc) auto
  with Cons.IH [of "acc @ [(k, v)]"] Cons.prems p show ?case by simp
qed

lemma dict_of_distinct: "distinct (map fst pairs) \<Longrightarrow> dict_of pairs = pairs"
  using dict_of_fold [of "[]" pairs] by (simp add: dict_of_def)

lemma render_by_head: "\<exists>c r. render_by i k j = c # r \<and> head_class j c"
proof (cases j)
  case (JInt n)
  then show ?thesis using int_str_hd [of n] by (cases "int_str n") auto
qed (auto simp: json_str_def)

lemma head_class_not_space: "head_class j c \<Longrightarrow> \<not> json_space c"
  by (cases j) (auto simp: json_space_def is_digit_def)

lemma skip_space_render [simp]: "skip_space (render_by i k j @ r) = render_by i k j @ r"
  using render_by_head [of i k j] head_class_not_space [of j] by (auto simp: skip_space_def)

lemma skip_space_json_str [simp]: "skip_space (json_str s @ r) = json_str s @ r"
  by (simp add: json_str_def skip_space_def json_space_def)

lemma skip_space_append: "list_all json_space w \<Longrightarrow> skip_space (w @ r) = skip_space r"
  by (induction w) (simp_all add: skip_space_def)

lemma read_value_number:
  assumes "delimited r" and "numeral_ok n"
  shows "read_value flt (Suc m) (int_str n @ r) = Some (L_int n, r)"
proof -
  obtain c t where c: "int_str n @ r = c # t" "c = CHR ''-'' \<or> is_digit c"
    and t: "c = CHR ''-'' \<longrightarrow> t \<noteq> [] \<and> is_digit (hd t)"
  proof (cases "n < 0")
    case True
    with nat_str_hd [of "nat (- n)"] show ?thesis
      by (intro that [of "CHR ''-''" "nat_str (nat (- n)) @ r"]) (simp_all add: int_str_def)
  next
    case False
    obtain d ds where "nat_str (nat n) = d # ds" by (cases "nat_str (nat n)") simp_all
    moreover from this nat_str_hd [of "nat n"] have "is_digit d" by simp
    moreover from this have "d \<noteq> CHR ''-''" by (metis not_is_digit_minus)
    ultimately show ?thesis
      using False by (intro that [of d "ds @ r"]) (simp_all add: int_str_def)
  qed
  have inf: "take 9 (c # t) \<noteq> ''-Infinity''"
    using t by (cases t) (auto simp: is_digit_def)
  have "c \<noteq> CHR 0x22" "c \<noteq> CHR ''{''" "c \<noteq> CHR ''[''" "c \<noteq> CHR ''n''" "c \<noteq> CHR ''t''" "c \<noteq> CHR ''f''"
    "c \<noteq> CHR ''N''" "c \<noteq> CHR ''I''"
    using c(2) by (auto simp: is_digit_def)
  then have "read_value flt (Suc m) (c # t) = read_number flt (c # t)"
    using inf by (simp only: read_value.simps list.case if_False)
  with read_number_int_str [OF assms, of flt] show ?thesis by (simp only: c(1))
qed

text \<open>Separators: a comma and a colon, then spaces.\<close>

definition separators_ok :: "py_str \<Rightarrow> py_str \<Rightarrow> bool" where
  "separators_ok i k \<longleftrightarrow> (\<exists>u. i = CHR '','' # u \<and> list_all json_space u) \<and> (\<exists>v. k = CHR '':'' # v \<and> list_all json_space v)"

lemma delimited_elems_by [simp]: "separators_ok i k \<Longrightarrow> delimited (render_elems_by i k False xs @ r)"
  by (cases xs) (auto simp: separators_ok_def)

lemma delimited_membs_by [simp]: "separators_ok i k \<Longrightarrow> delimited (render_membs_by i k False kvs @ r)"
  by (cases kvs) (auto simp: separators_ok_def)

lemma elems_by_False: "xs \<noteq> [] \<Longrightarrow> render_elems_by i k False xs = i @ render_elems_by i k True xs"
  by (cases xs) simp_all

lemma membs_by_False: "kvs \<noteq> [] \<Longrightarrow> render_membs_by i k False kvs = i @ render_membs_by i k True kvs"
  by (cases kvs) simp_all

lemma skip_space_elems_by [simp]: "xs \<noteq> [] \<Longrightarrow> skip_space (render_elems_by i k True xs @ r) = render_elems_by i k True xs @ r"
  by (cases xs) simp_all

lemma skip_space_membs_by [simp]: "kvs \<noteq> [] \<Longrightarrow> skip_space (render_membs_by i k True kvs @ r) = render_membs_by i k True kvs @ r"
  by (cases kvs) simp_all

lemma skip_space_closing [simp]:
  "skip_space (CHR '']'' # r) = CHR '']'' # r" "skip_space (CHR ''}'' # r) = CHR ''}'' # r"
  "skip_space (CHR '','' # r) = CHR '','' # r" "skip_space (CHR '':'' # r) = CHR '':'' # r"
  by (simp_all add: skip_space_def json_space_def)

lemma read_elems_step:
  assumes sep: "separators_ok i k" and x: "read_value flt n (render_by i k x @ render_elems_by i k False xs @ r)
      = Some (v, render_elems_by i k False xs @ r)"
    and xs: "xs \<noteq> [] \<Longrightarrow> read_elems flt n (render_elems_by i k True xs @ r) = Some (vs, r)"
    and none: "xs = [] \<Longrightarrow> vs = []"
  shows "read_elems flt (Suc n) (render_elems_by i k True (x # xs) @ r) = Some (v # vs, r)"
proof (cases "xs = []")
  case True
  with x none show ?thesis by simp
next
  case False
  obtain u where i: "i = CHR '','' # u" "list_all json_space u" using sep by (auto simp: separators_ok_def)
  from x False show ?thesis
    by (simp add: elems_by_False i skip_space_append xs [unfolded i])
qed

lemma read_membs_step:
  assumes sep: "separators_ok i k" and x: "read_value flt n (render_by i k x @ render_membs_by i k False kvs @ r)
      = Some (v, render_membs_by i k False kvs @ r)"
    and kvs: "kvs \<noteq> [] \<Longrightarrow> read_membs flt n (render_membs_by i k True kvs @ r) = Some (vs, r)"
    and none: "kvs = [] \<Longrightarrow> vs = []"
  shows "read_membs flt (Suc n) (render_membs_by i k True ((key, x) # kvs) @ r) = Some ((key, v) # vs, r)"
proof -
  obtain w where k: "k = CHR '':'' # w" "list_all json_space w" using sep by (auto simp: separators_ok_def)
  obtain u where i: "i = CHR '','' # u" "list_all json_space u" using sep by (auto simp: separators_ok_def)
  have open_key: "json_str key @ t = CHR 0x22 # concat (map escape_char key) @ CHR 0x22 # t" for t
    by (rule json_str_unfold)
  show ?thesis
  proof (cases "kvs = []")
    case True
    with x none show ?thesis
      by (simp add: open_key read_chars_escapes k skip_space_append)
  next
    case False
    with x kvs show ?thesis
      by (simp add: open_key read_chars_escapes k i membs_by_False skip_space_append)
  qed
qed

lemma render_by_not_Nil [simp]: "render_by i k j \<noteq> []"
  using render_by_head [of i k j] by auto

lemma length_render_pos: "Suc 0 \<le> length (render_by i k j)"
  using render_by_head [of i k j] by auto

text \<open>What is read back with a given fuel: values, the items of a list, the members of an object.\<close>

definition reads_back :: "float_reader \<Rightarrow> py_str \<Rightarrow> py_str \<Rightarrow> nat \<Rightarrow> bool" where
  "reads_back flt i k n \<longleftrightarrow>
     (\<forall>j r. json_ok j \<longrightarrow> delimited r \<longrightarrow> length (render_by i k j) \<le> n \<longrightarrow>
        read_value flt n (render_by i k j @ r) = Some (loaded_of j, r))
     \<and> (\<forall>xs r. xs \<noteq> [] \<longrightarrow> list_all json_ok xs \<longrightarrow> length (render_elems_by i k True xs) \<le> n \<longrightarrow>
        read_elems flt n (render_elems_by i k True xs @ r) = Some (map loaded_of xs, r))
     \<and> (\<forall>kvs r. kvs \<noteq> [] \<longrightarrow> list_all (json_ok \<circ> snd) kvs \<longrightarrow> length (render_membs_by i k True kvs) \<le> n \<longrightarrow>
        read_membs flt n (render_membs_by i k True kvs @ r) = Some (map (map_prod id loaded_of) kvs, r))"

lemma read_value_step:
  assumes all_back: "reads_back flt i k n" and j: "json_ok j" "delimited r" "length (render_by i k j) \<le> Suc n"
  shows "read_value flt (Suc n) (render_by i k j @ r) = Some (loaded_of j, r)"
proof (cases j)
  case (JInt m)
  with j read_value_number [of r m flt n] show ?thesis by simp
next
  case (JList xs)
  show ?thesis
  proof (cases "xs = []")
    case False
    with JList all_back j have "read_elems flt n (render_elems_by i k True xs @ r) = Some (map loaded_of xs, r)"
      by (simp add: reads_back_def list_all_iff)
    moreover obtain x ys where "xs = x # ys" using False by (cases xs) auto
    moreover obtain c q where "render_by i k x = c # q" "head_class x c" using render_by_head by blast
    ultimately show ?thesis
      using JList False skip_space_elems_by [of xs i k r] head_class_not_closing [of x c] by simp
  qed (simp add: JList)
next
  case (JObj kvs)
  show ?thesis
  proof (cases "kvs = []")
    case False
    with JObj all_back j have "read_membs flt n (render_membs_by i k True kvs @ r) = Some (map (map_prod id loaded_of) kvs, r)"
      by (simp add: reads_back_def list_all_iff comp_def)
    moreover obtain kv kws where "kvs = kv # kws" using False by (cases kvs) auto
    moreover have "distinct (map fst (map (map_prod id loaded_of) kvs))" using j JObj by (simp add: comp_def)
    ultimately show ?thesis
      using JObj False skip_space_membs_by [of kvs i k r] by (simp add: json_str_def dict_of_distinct comp_def)
  qed (simp add: JObj)
qed (simp_all add: read_word_def json_str_unfold read_chars_escapes)

lemma reads_back_all:
  assumes sep: "separators_ok i k"
  shows "reads_back flt i k n"
proof (induction n)
  case 0
  have "xs \<noteq> [] \<Longrightarrow> render_elems_by i k True xs \<noteq> []" for xs
    by (cases xs) auto
  moreover have "kvs \<noteq> [] \<Longrightarrow> render_membs_by i k True kvs \<noteq> []" for kvs
    by (cases kvs) (simp_all add: json_str_def)
  ultimately show ?case using length_render_pos [of i k] by (auto simp: reads_back_def)
next
  case (Suc n)
  have elems: "read_elems flt (Suc n) (render_elems_by i k True (x # xs) @ r) = Some (map loaded_of (x # xs), r)"
    if "list_all json_ok (x # xs)" "length (render_elems_by i k True (x # xs)) \<le> Suc n" for x xs r
  proof -
    have xs: "1 \<le> length (render_elems_by i k False xs)"
      by (cases xs) (use sep in \<open>auto simp: separators_ok_def\<close>)
    have len: "length (render_elems_by i k True (x # xs)) = length (render_by i k x) + length (render_elems_by i k False xs)"
      by simp
    have tail: "xs \<noteq> [] \<Longrightarrow> length (render_elems_by i k False xs) = length i + length (render_elems_by i k True xs)"
      by (simp add: elems_by_False)
    have "length (render_by i k x) \<le> n" using that(2) xs len by linarith
    moreover have "xs \<noteq> [] \<Longrightarrow> length (render_elems_by i k True xs) \<le> n"
      using that(2) length_render_pos [of i k x] len tail by linarith
    ultimately show ?thesis
      using Suc that sep unfolding list.map by (intro read_elems_step) (auto simp: reads_back_def)
  qed
  have membs: "read_membs flt (Suc n) (render_membs_by i k True ((key, x) # kvs) @ r)
      = Some (map (map_prod id loaded_of) ((key, x) # kvs), r)"
    if "list_all (json_ok \<circ> snd) ((key, x) # kvs)" "length (render_membs_by i k True ((key, x) # kvs)) \<le> Suc n"
    for key x kvs r
  proof -
    have key: "1 \<le> length (json_str key)" by (simp add: json_str_def)
    have len: "length (render_membs_by i k True ((key, x) # kvs)) = length (json_str key) + length k
      + length (render_by i k x) + length (render_membs_by i k False kvs)"
      by simp
    have tail: "kvs \<noteq> [] \<Longrightarrow> length (render_membs_by i k False kvs) = length i + length (render_membs_by i k True kvs)"
      by (simp add: membs_by_False)
    have "length (render_by i k x) \<le> n" using that(2) key len by linarith
    moreover have "kvs \<noteq> [] \<Longrightarrow> length (render_membs_by i k True kvs) \<le> n"
      using that(2) key len tail by linarith
    ultimately show ?thesis
      using Suc that sep unfolding list.map map_prod_simp id_apply
      by (intro read_membs_step) (auto simp: reads_back_def)
  qed
  show ?case
    unfolding reads_back_def [of _ _ _ "Suc n"]
  proof (intro conjI allI impI)
    fix xs r assume xs: "xs \<noteq> []" "list_all json_ok xs" "length (render_elems_by i k True xs) \<le> Suc n"
    then obtain y ys where "xs = y # ys" by (cases xs) auto
    with xs(2,3) elems [of y ys r]
    show "read_elems flt (Suc n) (render_elems_by i k True xs @ r) = Some (map loaded_of xs, r)" by blast
  next
    fix kvs :: "(py_str \<times> json) list" and r
    assume kvs: "kvs \<noteq> []" "list_all (json_ok \<circ> snd) kvs" "length (render_membs_by i k True kvs) \<le> Suc n"
    then obtain key x kws where "kvs = (key, x) # kws" by (cases kvs) auto
    with kvs(2,3) membs [of key x kws r]
    show "read_membs flt (Suc n) (render_membs_by i k True kvs @ r) = Some (map (map_prod id loaded_of) kvs, r)"
      by blast
  qed (rule read_value_step [OF Suc])
qed

theorem json_loads_render_by:
  assumes "separators_ok i k" and "json_ok j"
  shows "json_loads flt (render_by i k j) = Some (loaded_of j)"
proof -
  have "read_value flt (Suc (length (render_by i k j))) (render_by i k j @ []) = Some (loaded_of j, [])"
    by (rule read_value_step [OF reads_back_all [OF assms(1)] assms(2)]) simp_all
  moreover have "skip_space (render_by i k j) = render_by i k j" using skip_space_render [of i k j "[]"] by simp
  ultimately have "read_value flt (Suc (length (render_by i k j))) (skip_space (render_by i k j)) = Some (loaded_of j, [])"
    by simp
  then show ?thesis unfolding json_loads_def by (simp add: skip_space_def)
qed

lemma json_loads_dumps_spaced: "json_ok j \<Longrightarrow> json_loads flt (dumps_spaced j) = Some (loaded_of j)"
  unfolding dumps_spaced_def by (rule json_loads_render_by) (simp_all add: separators_ok_def json_space_def)

lemma json_loads_render: "json_ok j \<Longrightarrow> json_loads flt (render j) = Some (loaded_of j)"
  unfolding render_by_compact(1) [symmetric]
  by (rule json_loads_render_by) (simp_all add: separators_ok_def)

section \<open>The fuel\<close>

text \<open>What is read is at the front of the text, and not empty; to read it, fuel for as many steps as
  it has characters is enough. So the fuel of \<open>json_loads\<close> decides nothing.\<close>

lemma length_skip_space: "length (skip_space s) \<le> length s"
  by (simp add: skip_space_def length_dropWhile_le)

lemma skip_space_Cons: "skip_space s = d # q \<Longrightarrow> length q < length s"
  using length_skip_space [of s] by simp

lemma read_chars_shorter: "read_chars s = Some (t, r) \<Longrightarrow> length r < length s"
proof (induction "length s" arbitrary: s t r rule: less_induct)
  case less
  have rest: "length r' < length s" if "read_chars s' = Some (t', r')" "length s' < length s" for s' t' r'
    using less.hyps [OF that(2,1)] that(2) by simp
  from less.prems show ?case
    by (cases s)
      ((auto simp: apfst_def map_prod_def split: if_splits list.splits option.splits)[2], (drule rest; simp)+)
qed

lemma read_integer_part_shorter: "read_integer_part s = Some (t, r) \<Longrightarrow> length r < length s"
  by (auto simp: read_integer_part_def less_Suc_eq_le length_dropWhile_le split: list.splits if_splits)

lemma read_fraction_shorter: "length (snd (read_fraction s)) \<le> length s"
  by (auto simp: read_fraction_def length_dropWhile_le le_SucI split: list.splits)

lemma read_exponent_shorter: "length (snd (read_exponent s)) \<le> length s"
  by (auto simp: read_exponent_def Let_def length_dropWhile_le le_SucI split: list.splits)

lemma read_number_shorter: "read_number flt s = Some (v, r) \<Longrightarrow> length r < length s"
proof -
  assume read: "read_number flt s = Some (v, r)"
  obtain sign t where t: "(case s of c # r \<Rightarrow> if c = CHR ''-'' then ([c], r) else ([], s) | [] \<Rightarrow> ([], s)) = (sign, t)"
    by fastforce
  then have "length t \<le> length s" by (auto split: list.splits if_splits)
  from read t obtain digits u where u: "read_integer_part t = Some (digits, u)"
    by (auto simp: read_number_def split: option.splits)
  obtain frac w where w: "read_fraction u = (frac, w)" by fastforce
  obtain expo x where x: "read_exponent w = (expo, x)" by fastforce
  from read t u w x have "r = x" by (auto simp: read_number_def split: if_splits)
  with read_integer_part_shorter [OF u] read_fraction_shorter [of u] read_exponent_shorter [of w] w x \<open>length t \<le> length s\<close>
  show ?thesis by simp
qed

lemma read_word_shorter: "read_word w v s = Some (v', r) \<Longrightarrow> w \<noteq> [] \<Longrightarrow> length r < length s"
  by (cases s) (auto simp: read_word_def split: if_splits)

text \<open>What \<open>read_value\<close> does with a text that starts with no bracket.\<close>

definition read_leaf :: "float_reader \<Rightarrow> py_str \<Rightarrow> (loaded \<times> py_str) option" where
  "read_leaf flt s =
     (if hd s = CHR 0x22 then map_option (apfst L_str) (read_chars (tl s))
      else if hd s = CHR ''n'' then read_word ''null'' L_null s
      else if hd s = CHR ''t'' then read_word ''true'' (L_bool True) s
      else if hd s = CHR ''f'' then read_word ''false'' (L_bool False) s
      else if hd s = CHR ''N'' then read_word ''NaN'' (L_float None) s
      else if hd s = CHR ''I'' then read_word ''Infinity'' (L_float None) s
      else if take 9 s = ''-Infinity'' then Some (L_float None, drop 9 s)
      else read_number flt s)"

lemma read_value_bracket:
  "read_value flt (Suc n) (c # r) =
     (if c = CHR ''{'' then
        (case skip_space r of
           [] \<Rightarrow> None
         | d # q \<Rightarrow>
             if d = CHR ''}'' then Some (L_dict [], q)
             else map_option (apfst (L_dict \<circ> dict_of)) (read_membs flt n (d # q)))
      else if c = CHR ''['' then
        (case skip_space r of
           [] \<Rightarrow> None
         | d # q \<Rightarrow>
             if d = CHR '']'' then Some (L_list [], q)
             else map_option (apfst L_list) (read_elems flt n (d # q)))
      else read_leaf flt (c # r))"
  by (cases "c = CHR ''{''"; cases "c = CHR ''[''") (simp_all add: read_leaf_def)

lemma read_leaf_shorter:
  assumes "read_leaf flt s = Some (v, r)" "s \<noteq> []"
  shows "length r < length s"
proof -
  have "length (tl s) < length s" "length (drop 9 s) < length s" using assms(2) by simp_all
  then show ?thesis
    using assms(1)
    by (auto simp: read_leaf_def dest: read_word_shorter read_number_shorter dest!: read_chars_shorter split: if_splits)
qed

text \<open>A reader of a piece of \<open>s\<close>, given \<open>n\<close> steps.\<close>

definition reads_in :: "(nat \<Rightarrow> py_str \<Rightarrow> ('a \<times> py_str) option) \<Rightarrow> py_str \<Rightarrow> 'a \<Rightarrow> py_str \<Rightarrow> bool" where
  "reads_in read s x r \<longleftrightarrow>
     length r < length s \<and> (\<forall>n. length s \<le> n + length r \<longrightarrow> read n s = Some (x, r))"

lemma reads_inI:
  assumes "length r < length s" "\<And>n. length s \<le> Suc n + length r \<Longrightarrow> read (Suc n) s = Some (x, r)"
  shows "reads_in read s x r"
  unfolding reads_in_def
proof (intro conjI allI impI)
  fix n assume "length s \<le> n + length r"
  with assms show "read n s = Some (x, r)" by (cases n) simp_all
qed (rule assms(1))

lemma reads_inD:
  assumes "reads_in read s x r"
  shows "length r < length s" "length s \<le> n + length r \<Longrightarrow> read n s = Some (x, r)"
  using assms by (simp_all add: reads_in_def)

lemma read_with_fuel:
  "read_value flt m s = Some (v, r) \<Longrightarrow> reads_in (read_value flt) s v r"
  "read_elems flt m s = Some (vs, r) \<Longrightarrow> reads_in (read_elems flt) s vs r"
  "read_membs flt m s = Some (kvs, r) \<Longrightarrow> reads_in (read_membs flt) s kvs r"
proof (induction flt m s and flt m s and flt m s arbitrary: v r and vs r and kvs r
    rule: read_value_read_elems_read_membs.induct)
  case (2 flt m s)
  obtain c t where s: "s = c # t" using "2.prems" by (cases s) auto
  show ?case
  proof (cases "c = CHR ''{'' \<or> c = CHR ''[''")
    case False
    then have leaf: "read_value flt (Suc n) s = read_leaf flt s" for n
      unfolding s read_value_bracket by simp
    with "2.prems" have read: "read_leaf flt s = Some (v, r)" by simp
    have "length r < length s" by (rule read_leaf_shorter [OF read]) (simp add: s)
    then show ?thesis by (rule reads_inI) (simp only: leaf read)
  next
    case True
    obtain d q where d: "skip_space t = d # q" using True "2.prems" by (auto simp: s split: list.splits)
    note q = skip_space_Cons [OF d]
    consider (closed) "c = CHR ''{''" "d = CHR ''}''" | (membs) "c = CHR ''{''" "d \<noteq> CHR ''}''"
      | (closed_list) "c = CHR ''[''" "d = CHR '']''" | (elems) "c = CHR ''[''" "d \<noteq> CHR '']''"
      using True by blast
    then show ?thesis
    proof cases
      case closed
      with "2.prems" d q show ?thesis by (intro reads_inI) (simp_all add: s)
    next
      case membs
      then obtain kvs where kvs: "read_membs flt m (d # q) = Some (kvs, r)" "v = L_dict (dict_of kvs)"
        using "2.prems" d by (auto simp: s)
      have "reads_in (read_membs flt) (d # q) kvs r" using "2.IH"(1) s membs d kvs(1) by auto
      note rest = reads_inD [OF this]
      with membs d q kvs show ?thesis by (intro reads_inI) (simp_all add: s)
    next
      case closed_list
      with "2.prems" d q show ?thesis by (intro reads_inI) (simp_all add: s)
    next
      case elems
      then obtain xs where xs: "read_elems flt m (d # q) = Some (xs, r)" "v = L_list xs"
        using "2.prems" d by (auto simp: s)
      have "reads_in (read_elems flt) (d # q) xs r" using "2.IH"(2) s elems d xs(1) by auto
      note rest = reads_inD [OF this]
      with elems d q xs show ?thesis by (intro reads_inI) (simp_all add: s)
    qed
  qed
next
  case (4 flt m s)
  from "4.prems" obtain x u where x: "read_value flt m s = Some (x, u)" by (auto split: option.splits)
  obtain d q where d: "skip_space u = d # q" using "4.prems" x by (auto split: list.splits)
  note first = reads_inD [OF "4.IH"(1) [OF x]] and q = skip_space_Cons [OF d] and sq = length_skip_space [of q]
  show ?case
  proof (cases "d = CHR '']''")
    case True
    with "4.prems" x d have "vs = [x]" "r = q" by simp_all
    with True x d first q show ?thesis by (intro reads_inI) simp_all
  next
    case False
    with "4.prems" x d obtain ys where ys: "d = CHR '',''" "read_elems flt m (skip_space q) = Some (ys, r)" "vs = x # ys"
      by (auto split: if_splits)
    note rest = reads_inD [OF "4.IH"(2) [OF x refl d False ys(1,2)]]
    show ?thesis using False x d first q sq ys rest by (intro reads_inI) simp_all
  qed
next
  case (6 flt m s)
  obtain t where s: "s = CHR 0x22 # t" using "6.prems" by (auto split: list.splits if_splits)
  obtain key u where u: "read_chars t = Some (key, u)" using "6.prems" by (auto simp: s split: option.splits)
  obtain q where q: "skip_space u = CHR '':'' # q" using "6.prems" u by (auto simp: s split: list.splits if_splits)
  obtain x w where x: "read_value flt m (skip_space q) = Some (x, w)"
    using "6.prems" u q by (auto simp: s split: option.splits)
  obtain e p where e: "skip_space w = e # p" using "6.prems" u q x by (auto simp: s split: list.splits)
  have "reads_in (read_value flt) (skip_space q) x w" using "6.IH"(1) s u q x by auto
  note first = reads_inD [OF this]
  note sizes = read_chars_shorter [OF u] skip_space_Cons [OF q] length_skip_space [of q] skip_space_Cons [OF e]
    length_skip_space [of p]
  show ?case
  proof (cases "e = CHR ''}''")
    case True
    with "6.prems" u q x e have "kvs = [(key, x)]" "r = p" by (simp_all add: s)
    with True u q x e first sizes show ?thesis by (intro reads_inI) (simp_all add: s)
  next
    case False
    with "6.prems" u q x e obtain ys where ys: "e = CHR '',''" "read_membs flt m (skip_space p) = Some (ys, r)"
      "kvs = (key, x) # ys"
      by (auto simp: s split: if_splits)
    have "reads_in (read_membs flt) (skip_space p) ys r" using "6.IH"(2) s u q x e False ys by auto
    note rest = reads_inD [OF this]
    show ?thesis using False u q x e ys first sizes rest by (intro reads_inI) (simp_all add: s)
  qed
qed simp_all

theorem json_loads_any_fuel:
  assumes "length s \<le> n"
  shows "json_loads flt s =
    (case read_value flt n (skip_space s) of
       None \<Rightarrow> None
     | Some (v, r) \<Rightarrow> if skip_space r = [] then Some v else None)"
proof -
  have same: "read_value flt m (skip_space s) = Some (v, r)"
    if "read_value flt k (skip_space s) = Some (v, r)" "length s \<le> m" for k m v r
    using reads_inD(2) [OF read_with_fuel(1) [OF that(1)], of m] length_skip_space [of s] that(2) by simp
  have "read_value flt (Suc (length s)) (skip_space s) = read_value flt n (skip_space s)"
  proof (cases "read_value flt (Suc (length s)) (skip_space s)")
    case None
    with same [of n _ _ "Suc (length s)"] show ?thesis by (cases "read_value flt n (skip_space s)") auto
  next
    case (Some p)
    then obtain v r where "read_value flt (Suc (length s)) (skip_space s) = Some (v, r)" by (cases p) auto
    from same [OF this assms] Some this show ?thesis by simp
  qed
  then show ?thesis by (simp add: json_loads_def)
qed

end
