(* ===== verification/Wire.thy ===== *)
theory Wire
  imports Json_Read
begin

text \<open>
  What the two models of \<open>secondsign.agent.surface\<close> accept and write. Pydantic checks a value
  against the declared fields: the fields of a closed model and no others, a member of an
  enumeration by its value, a reference by its pattern. How it coerces a value that is not an
  integer (its lax mode) and how it reads a datetime are parameters.
\<close>

section \<open>Checking against declared fields\<close>

text \<open>A closed model: every required field, and none that is not declared.\<close>

definition closed_model :: "py_str list \<Rightarrow> py_str list \<Rightarrow> (py_str \<times> loaded) list \<Rightarrow> bool" where
  "closed_model required optional kvs \<longleftrightarrow>
     list_all (has_field kvs) required \<and> list_all (\<lambda>kv. fst kv \<in> set (required @ optional)) kvs"

definition enum_of :: "('a \<Rightarrow> py_str) \<Rightarrow> 'a list \<Rightarrow> loaded \<Rightarrow> 'a option" where
  "enum_of member_value members v =
     (case v of L_str s \<Rightarrow> find (\<lambda>m. member_value m = s) members | _ \<Rightarrow> None)"

definition reference_of :: "loaded \<Rightarrow> py_str option" where
  "reference_of v = (case v of L_str s \<Rightarrow> if is_fingerprint s then Some s else None | _ \<Rightarrow> None)"

text \<open>An integer that is at least zero; \<open>coerce\<close> is asked of what is not an integer.\<close>

definition nonneg_of :: "(loaded \<Rightarrow> int option) \<Rightarrow> loaded \<Rightarrow> int option" where
  "nonneg_of coerce v =
     (case (case v of L_int i \<Rightarrow> Some i | _ \<Rightarrow> coerce v) of
        None \<Rightarrow> None
      | Some i \<Rightarrow> if 0 \<le> i then Some i else None)"

fun all_some :: "'a option list \<Rightarrow> 'a list option" where
  "all_some [] = Some []"
| "all_some (None # xs) = None"
| "all_some (Some x # xs) = map_option (Cons x) (all_some xs)"

lemma all_some_map [simp]: "all_some (map (\<lambda>x. Some (f x)) xs) = Some (map f xs)"
  by (induction xs) simp_all

lemma enum_of_value:
  assumes "\<And>a b. member_value a = member_value b \<Longrightarrow> a = b" and "m \<in> set members"
  shows "enum_of member_value members (L_str (member_value m)) = Some m"
proof -
  from assms(2) obtain n where "find (\<lambda>x. member_value x = member_value m) members = Some n"
    by (cases "find (\<lambda>x. member_value x = member_value m) members") (auto simp: find_None_iff)
  moreover from this have "member_value n = member_value m" by (auto simp: find_Some_iff)
  ultimately show ?thesis using assms(1) by (auto simp: enum_of_def)
qed

lemma enum_of_Some: "enum_of member_value members v = Some m \<Longrightarrow> v = L_str (member_value m)"
  by (auto simp: enum_of_def find_Some_iff split: loaded.splits)

lemma reference_of_Some: "reference_of v = Some s \<longleftrightarrow> v = L_str s \<and> is_fingerprint s"
  by (auto simp: reference_of_def split: loaded.splits if_splits)

section \<open>Requests\<close>

definition ACTION_CLASSES :: "action_class list" where
  "ACTION_CLASSES = [Act_payment, Act_refund, Act_payout, Act_transfer, Act_trade, Act_account_change]"

definition RAIL_CLASSES :: "rail_class list" where
  "RAIL_CLASSES = [Rail_card, Rail_bank_transfer, Rail_wallet, Rail_brokerage, Rail_other]"

definition CURRENCIES :: "currency list" where
  "CURRENCIES = [USD, EUR, GBP, JPY, CHF, CAD, AUD, CNY, HKD, SGD]"

definition REVERSIBILITIES :: "reversibility list" where
  "REVERSIBILITIES = [Irreversible, Delayed_reversible, Reversible]"

lemma members_complete [simp]:
  "a \<in> set ACTION_CLASSES" "r \<in> set RAIL_CLASSES" "c \<in> set CURRENCIES" "v \<in> set REVERSIBILITIES"
  by (cases a, simp_all add: ACTION_CLASSES_def) (cases r, simp_all add: RAIL_CLASSES_def,
    cases c, simp_all add: CURRENCIES_def, cases v, simp_all add: REVERSIBILITIES_def)

lemma enum_of_values [simp]:
  "enum_of action_value ACTION_CLASSES (L_str (action_value a)) = Some a"
  "enum_of rail_value RAIL_CLASSES (L_str (rail_value r)) = Some r"
  "enum_of currency_value CURRENCIES (L_str (currency_value c)) = Some c"
  "enum_of reversibility_value REVERSIBILITIES (L_str (reversibility_value v)) = Some v"
  by (rule enum_of_value; simp)+

definition REQUEST_FIELDS :: "py_str list" where
  "REQUEST_FIELDS =
     [''action'', ''rail'', ''currency'', ''amount_minor'', ''reversibility'', ''counterparty_ref'',
      ''source_account_ref'', ''request_ref'']"

text \<open>\<open>AuthorizationRequest.model_validate\<close> of what \<open>json.loads\<close> returned, and the dump of a request.\<close>

definition model_request :: "(loaded \<Rightarrow> int option) \<Rightarrow> loaded \<Rightarrow> authorization_request option" where
  "model_request coerce v =
     (case v of
        L_dict kvs \<Rightarrow>
          if \<not> closed_model REQUEST_FIELDS [] kvs then None
          else
            (case (enum_of action_value ACTION_CLASSES (dict_get kvs ''action''),
                   enum_of rail_value RAIL_CLASSES (dict_get kvs ''rail''),
                   enum_of currency_value CURRENCIES (dict_get kvs ''currency''),
                   nonneg_of coerce (dict_get kvs ''amount_minor''),
                   enum_of reversibility_value REVERSIBILITIES (dict_get kvs ''reversibility''),
                   reference_of (dict_get kvs ''counterparty_ref''),
                   reference_of (dict_get kvs ''source_account_ref''),
                   reference_of (dict_get kvs ''request_ref'')) of
               (Some action, Some rail, Some currency, Some amount, Some reversibility, Some counterparty,
                  Some source, Some reference) \<Rightarrow>
                 Some \<lparr>rq_action = action, rq_rail = rail, rq_currency = currency, rq_amount_minor = amount,
                       rq_reversibility = reversibility, rq_counterparty_ref = counterparty,
                       rq_source_account_ref = source, rq_request_ref = reference\<rparr>
             | _ \<Rightarrow> None)
      | _ \<Rightarrow> None)"

definition request_json :: "authorization_request \<Rightarrow> json" where
  "request_json q =
     JObj [(''action'', JStr (action_value (rq_action q))), (''rail'', JStr (rail_value (rq_rail q))),
           (''currency'', JStr (currency_value (rq_currency q))), (''amount_minor'', JInt (rq_amount_minor q)),
           (''reversibility'', JStr (reversibility_value (rq_reversibility q))),
           (''counterparty_ref'', JStr (rq_counterparty_ref q)),
           (''source_account_ref'', JStr (rq_source_account_ref q)),
           (''request_ref'', JStr (rq_request_ref q))]"

lemma model_request_ok: "model_request coerce v = Some q \<Longrightarrow> request_ok q"
  by (auto simp: model_request_def request_ok_def nonneg_of_def reference_of_Some
      split: loaded.splits option.splits if_splits prod.splits)

lemma model_request_json: "request_ok q \<Longrightarrow> model_request coerce (loaded_of (request_json q)) = Some q"
  by (simp add: model_request_def request_json_def closed_model_def REQUEST_FIELDS_def has_field_def
      dict_get_def enum_of_value nonneg_of_def reference_of_def request_ok_def)

end
