(* ===== verification/Client.thy ===== *)
theory Client
  imports Wire
begin

text \<open>
  \<open>secondsign_client\<close>, the agent's half of the boundary: its own declaration of the dialect
  (\<open>wire.py\<close>) and the one verb that speaks it (\<open>transport.py\<close>). The package imports nothing of the
  core, so that every enumeration and record is declared here a second time, as it is there.

  What the HTTP exchange with the gateway comes to is a parameter of the request, and so is the
  JSON reader inside pydantic; the checks of the fields are the models'.
\<close>

section \<open>The dialect, declared again\<close>

definition CLIENT_WIRE_VERSION :: int where
  "CLIENT_WIRE_VERSION = 1"

definition wire_fingerprint :: "py_str \<Rightarrow> bool" where
  "wire_fingerprint s \<longleftrightarrow> take 3 s = ''fp:'' \<and> hex64 (drop 3 s)"

datatype wire_status = Wire_completed | Wire_refused | Wire_awaiting_review

datatype wire_action =
  Wire_payment | Wire_refund | Wire_payout | Wire_transfer | Wire_trade | Wire_account_change

datatype wire_rail = Wire_card | Wire_bank_transfer | Wire_wallet | Wire_brokerage | Wire_other

datatype wire_currency =
  Wire_USD | Wire_EUR | Wire_GBP | Wire_JPY | Wire_CHF | Wire_CAD | Wire_AUD | Wire_CNY | Wire_HKD
  | Wire_SGD

datatype wire_reversibility = Wire_irreversible | Wire_delayed_reversible | Wire_reversible

datatype wire_reason =
    Wire_velocity_limit
  | Wire_counterparty_risk
  | Wire_jurisdiction_restricted
  | Wire_market_session_closed
  | Wire_value_band_exceeded
  | Wire_new_counterparty
  | Wire_org_policy
  | Wire_plugin_error
  | Wire_plugin_contract_mismatch
  | Wire_plugin_invalid_result

fun wire_status_value :: "wire_status \<Rightarrow> py_str" where
  "wire_status_value Wire_completed = ''completed''"
| "wire_status_value Wire_refused = ''refused''"
| "wire_status_value Wire_awaiting_review = ''awaiting_review''"

fun wire_action_value :: "wire_action \<Rightarrow> py_str" where
  "wire_action_value Wire_payment = ''payment''"
| "wire_action_value Wire_refund = ''refund''"
| "wire_action_value Wire_payout = ''payout''"
| "wire_action_value Wire_transfer = ''transfer''"
| "wire_action_value Wire_trade = ''trade''"
| "wire_action_value Wire_account_change = ''account_change''"

fun wire_rail_value :: "wire_rail \<Rightarrow> py_str" where
  "wire_rail_value Wire_card = ''card''"
| "wire_rail_value Wire_bank_transfer = ''bank_transfer''"
| "wire_rail_value Wire_wallet = ''wallet''"
| "wire_rail_value Wire_brokerage = ''brokerage''"
| "wire_rail_value Wire_other = ''other''"

fun wire_currency_value :: "wire_currency \<Rightarrow> py_str" where
  "wire_currency_value Wire_USD = ''USD''"
| "wire_currency_value Wire_EUR = ''EUR''"
| "wire_currency_value Wire_GBP = ''GBP''"
| "wire_currency_value Wire_JPY = ''JPY''"
| "wire_currency_value Wire_CHF = ''CHF''"
| "wire_currency_value Wire_CAD = ''CAD''"
| "wire_currency_value Wire_AUD = ''AUD''"
| "wire_currency_value Wire_CNY = ''CNY''"
| "wire_currency_value Wire_HKD = ''HKD''"
| "wire_currency_value Wire_SGD = ''SGD''"

fun wire_reversibility_value :: "wire_reversibility \<Rightarrow> py_str" where
  "wire_reversibility_value Wire_irreversible = ''irreversible''"
| "wire_reversibility_value Wire_delayed_reversible = ''delayed_reversible''"
| "wire_reversibility_value Wire_reversible = ''reversible''"

fun wire_reason_value :: "wire_reason \<Rightarrow> py_str" where
  "wire_reason_value Wire_velocity_limit = ''velocity_limit''"
| "wire_reason_value Wire_counterparty_risk = ''counterparty_risk''"
| "wire_reason_value Wire_jurisdiction_restricted = ''jurisdiction_restricted''"
| "wire_reason_value Wire_market_session_closed = ''market_session_closed''"
| "wire_reason_value Wire_value_band_exceeded = ''value_band_exceeded''"
| "wire_reason_value Wire_new_counterparty = ''new_counterparty''"
| "wire_reason_value Wire_org_policy = ''org_policy''"
| "wire_reason_value Wire_plugin_error = ''plugin_error''"
| "wire_reason_value Wire_plugin_contract_mismatch = ''plugin_contract_mismatch''"
| "wire_reason_value Wire_plugin_invalid_result = ''plugin_invalid_result''"

lemma wire_values_inj [enum_inj, simp]:
  "wire_status_value s = wire_status_value s' \<longleftrightarrow> s = s'"
  "wire_reason_value r = wire_reason_value r' \<longleftrightarrow> r = r'"
  by (cases s; cases s'; simp) (cases r; cases r'; simp)

record wire_request =
  wq_action :: wire_action
  wq_rail :: wire_rail
  wq_currency :: wire_currency
  wq_amount_minor :: int
  wq_reversibility :: wire_reversibility
  wq_counterparty_ref :: py_str
  wq_source_account_ref :: py_str
  wq_request_ref :: py_str

definition wire_request_ok :: "wire_request \<Rightarrow> bool" where
  "wire_request_ok q \<longleftrightarrow>
     0 \<le> wq_amount_minor q
     \<and> wire_fingerprint (wq_counterparty_ref q) \<and> wire_fingerprint (wq_source_account_ref q)
     \<and> wire_fingerprint (wq_request_ref q)"

record wire_outcome =
  wo_status :: wire_status
  wo_decision_ref :: py_str
  wo_decided_at :: datetime
  wo_reasons :: "wire_reason list"

section \<open>The envelopes\<close>

definition require_this_dialect :: "int \<Rightarrow> py_error + int" where
  "require_this_dialect version = (if version \<noteq> CLIENT_WIRE_VERSION then Inl Value_Error else Inr version)"

text \<open>\<open>WireRequest(request=request).model_dump_json()\<close>, and the bytes that are sent.\<close>

definition wire_request_json :: "wire_request \<Rightarrow> json" where
  "wire_request_json q =
     JObj [(''wire_version'', JInt CLIENT_WIRE_VERSION),
           (''request'',
            JObj [(''action'', JStr (wire_action_value (wq_action q))), (''rail'', JStr (wire_rail_value (wq_rail q))),
                  (''currency'', JStr (wire_currency_value (wq_currency q))),
                  (''amount_minor'', JInt (wq_amount_minor q)),
                  (''reversibility'', JStr (wire_reversibility_value (wq_reversibility q))),
                  (''counterparty_ref'', JStr (wq_counterparty_ref q)),
                  (''source_account_ref'', JStr (wq_source_account_ref q)),
                  (''request_ref'', JStr (wq_request_ref q))])]"

definition wire_request_body :: "wire_request \<Rightarrow> bytes" where
  "wire_request_body q = utf8 (render (wire_request_json q))"

text \<open>What pydantic brings to the reading of an answer: its JSON reader and its datetimes.\<close>

record client_parser =
  cp_json :: "bytes \<Rightarrow> loaded option"
  cp_datetime :: "loaded \<Rightarrow> datetime option"

definition WIRE_STATUSES :: "wire_status list" where
  "WIRE_STATUSES = [Wire_completed, Wire_refused, Wire_awaiting_review]"

definition WIRE_REASONS :: "wire_reason list" where
  "WIRE_REASONS =
     [Wire_velocity_limit, Wire_counterparty_risk, Wire_jurisdiction_restricted, Wire_market_session_closed,
      Wire_value_band_exceeded, Wire_new_counterparty, Wire_org_policy, Wire_plugin_error,
      Wire_plugin_contract_mismatch, Wire_plugin_invalid_result]"

definition wire_reference_of :: "loaded \<Rightarrow> py_str option" where
  "wire_reference_of v = (case v of L_str s \<Rightarrow> if wire_fingerprint s then Some s else None | _ \<Rightarrow> None)"

definition wire_reasons_of :: "(py_str \<times> loaded) list \<Rightarrow> wire_reason list option" where
  "wire_reasons_of kvs =
     (if \<not> has_field kvs ''reasons'' then Some []
      else case dict_get kvs ''reasons'' of
          L_list xs \<Rightarrow> all_some (map (enum_of wire_reason_value WIRE_REASONS) xs)
        | _ \<Rightarrow> None)"

definition wire_outcome_of :: "client_parser \<Rightarrow> loaded \<Rightarrow> wire_outcome option" where
  "wire_outcome_of cp v =
     (case v of
        L_dict kvs \<Rightarrow>
          if \<not> closed_model [''status'', ''decision_ref'', ''decided_at''] [''reasons''] kvs then None
          else
            (case (enum_of wire_status_value WIRE_STATUSES (dict_get kvs ''status''),
                   wire_reference_of (dict_get kvs ''decision_ref''),
                   cp_datetime cp (dict_get kvs ''decided_at''),
                   wire_reasons_of kvs) of
               (Some status, Some reference, Some decided, Some reasons) \<Rightarrow>
                 Some \<lparr>wo_status = status, wo_decision_ref = reference, wo_decided_at = decided,
                       wo_reasons = reasons\<rparr>
             | _ \<Rightarrow> None)
      | _ \<Rightarrow> None)"

text \<open>\<open>WireResponse.model_validate_json(payload)\<close>; the version is strict: an integer and no other value.\<close>

definition wire_response_of :: "client_parser \<Rightarrow> bytes \<Rightarrow> wire_outcome option" where
  "wire_response_of cp payload =
     (case cp_json cp payload of
        Some (L_dict kvs) \<Rightarrow>
          if \<not> closed_model [''wire_version'', ''outcome''] [] kvs then None
          else
            (case dict_get kvs ''wire_version'' of
               L_int version \<Rightarrow>
                 (case require_this_dialect version of
                    Inl e \<Rightarrow> None
                  | Inr _ \<Rightarrow> wire_outcome_of cp (dict_get kvs ''outcome''))
             | _ \<Rightarrow> None)
      | _ \<Rightarrow> None)"

section \<open>The transport\<close>

datatype transport_refusal_reason =
  Gateway_unreachable | Tls_rejected | Gateway_declined | Malformed_response

fun transport_reason_value :: "transport_refusal_reason \<Rightarrow> py_str" where
  "transport_reason_value Gateway_unreachable = ''gateway_unreachable''"
| "transport_reason_value Tls_rejected = ''tls_rejected''"
| "transport_reason_value Gateway_declined = ''gateway_declined''"
| "transport_reason_value Malformed_response = ''malformed_response''"

record transport_refusal =
  tf_status :: wire_status
  tf_reason :: transport_refusal_reason

definition transport_refused :: "transport_refusal_reason \<Rightarrow> transport_refusal" where
  "transport_refused reason = \<lparr>tf_status = Wire_refused, tf_reason = reason\<rparr>"

definition is_literal_loopback :: "runtime \<Rightarrow> py_str \<Rightarrow> bool" where
  "is_literal_loopback rt host = (case rt_is_loopback rt host of None \<Rightarrow> False | Some b \<Rightarrow> b)"

text \<open>The client: \<open>_context\<close> is the three files the SSL context was loaded from. \<open>load\<close> is what
  building that context raises.\<close>

record gateway_client =
  cl_host :: py_str
  cl_port :: int
  cl_context :: "(py_str \<times> py_str \<times> py_str) option"

definition truthy :: "py_str option \<Rightarrow> bool" where
  "truthy s = (case s of None \<Rightarrow> False | Some t \<Rightarrow> t \<noteq> [])"

definition gateway_client_init ::
  "runtime \<Rightarrow> (py_str \<times> py_str \<times> py_str \<Rightarrow> py_error option) \<Rightarrow> py_str \<Rightarrow> int
     \<Rightarrow> py_str option \<Rightarrow> py_str option \<Rightarrow> py_str option \<Rightarrow> py_error + gateway_client" where
  "gateway_client_init rt load host port ca_file client_cert client_key =
     (let tls_parts = [ca_file, client_cert, client_key]
      in if list_ex truthy tls_parts \<and> \<not> list_all truthy tls_parts then Inl Value_Error
         else if \<not> list_all truthy tls_parts \<and> \<not> is_literal_loopback rt host then Inl Value_Error
         else if list_all truthy tls_parts
         then
           (let files = (the ca_file, the client_cert, the client_key)
            in case load files of
                 Some e \<Rightarrow> Inl e
               | None \<Rightarrow> Inr \<lparr>cl_host = host, cl_port = port, cl_context = Some files\<rparr>)
         else Inr \<lparr>cl_host = host, cl_port = port, cl_context = None\<rparr>)"

text \<open>What sending the body and reading the answer comes to: a status and a payload, an
  \<open>SSLError\<close>, another \<open>OSError\<close> or an \<open>HTTPException\<close>, or an exception the method does not catch.\<close>

datatype exchange =
    Answered int bytes
  | Tls_failure
  | Transport_failure
  | Uncaught py_error

type_synonym transport = "gateway_client \<Rightarrow> py_str \<Rightarrow> bytes \<Rightarrow> exchange"

datatype client_answer = Outcome wire_outcome | Transport_refusal transport_refusal

definition answer_status :: "client_answer \<Rightarrow> wire_status" where
  "answer_status a = (case a of Outcome o1 \<Rightarrow> wo_status o1 | Transport_refusal f \<Rightarrow> tf_status f)"

definition request_authorization ::
  "client_parser \<Rightarrow> transport \<Rightarrow> gateway_client \<Rightarrow> wire_request \<Rightarrow> py_error + client_answer" where
  "request_authorization cp net client q =
     (case net client ''/authorize'' (wire_request_body q) of
        Tls_failure \<Rightarrow> Inr (Transport_refusal (transport_refused Tls_rejected))
      | Transport_failure \<Rightarrow> Inr (Transport_refusal (transport_refused Gateway_unreachable))
      | Uncaught e \<Rightarrow> Inl e
      | Answered status_code payload \<Rightarrow>
          if status_code \<noteq> 200 then Inr (Transport_refusal (transport_refused Gateway_declined))
          else
            (case wire_response_of cp payload of
               None \<Rightarrow> Inr (Transport_refusal (transport_refused Malformed_response))
             | Some outcome \<Rightarrow> Inr (Outcome outcome)))"

end
