(* ===== verification/Approver.thy ===== *)
theory Approver
  imports Server
begin

text \<open>
  \<open>secondsign.gateway.approver\<close>: the second listener. Its settings, the separation of the two
  channels that is checked before the process starts, and its handlers.
\<close>

section \<open>Settings\<close>

record approver_config =
  ac_host :: py_str
  ac_port :: int
  ac_tls :: tls_termination
  ac_allowlist :: "py_str set"

text \<open>The outer option: \<open>None\<close> when the channel is not configured.\<close>

definition load_approver_config ::
  "runtime \<Rightarrow> environ \<Rightarrow> py_error + startup_refusal_reason + approver_config option" where
  "load_approver_config rt env =
     (let present = filter (\<lambda>name. setting_text env name \<noteq> []) APPROVER_SETTINGS
      in if present = [] then Inr (Inr None)
         else if present \<noteq> APPROVER_SETTINGS then Inr (Inl Incomplete_approver_channel)
         else case parse_bind (setting_text env ''SECONDSIGN_APPROVER_BIND'') of
             None \<Rightarrow> Inr (Inl Malformed_bind)
           | Some (host, port) \<Rightarrow>
               let certificate = setting_text env ''SECONDSIGN_APPROVER_TLS_CERT'';
                   key = setting_text env ''SECONDSIGN_APPROVER_TLS_KEY'';
                   approver_ca = setting_text env ''SECONDSIGN_APPROVER_CA'';
                   entries = allowlist_entries (setting_text env ''SECONDSIGN_APPROVER_ALLOWLIST'')
               in if \<exists>p \<in> {certificate, key, approver_ca}. rt_read_bytes rt p = None
                  then Inr (Inl Unreadable_tls_material)
                  else if entries = [] then Inr (Inl Missing_principal_allowlist)
                  else case check_entries rt entries of
                      Inl e \<Rightarrow> Inl e
                    | Inr (Some reason) \<Rightarrow> Inr (Inl reason)
                    | Inr None \<Rightarrow>
                        Inr (Inr (Some
                          \<lparr>ac_host = host, ac_port = port,
                           ac_tls = \<lparr>tt_certificate = certificate, tt_key = key, tt_client_ca = approver_ca\<rparr>,
                           ac_allowlist = set entries\<rparr>)))"

section \<open>Separation of the channels\<close>

text \<open>\<open>text.find(pattern)\<close>: what precedes the first occurrence and what begins with it.\<close>

fun split_at :: "py_str \<Rightarrow> py_str \<Rightarrow> (py_str \<times> py_str) option" where
  "split_at pattern s =
     (if take (length pattern) s = pattern then Some ([], s)
      else case s of
          [] \<Rightarrow> None
        | c # cs \<Rightarrow> (case split_at pattern cs of None \<Rightarrow> None | Some (before, r) \<Rightarrow> Some (c # before, r)))"

declare split_at.simps [simp del]

lemma split_at_Some:
  "split_at pattern s = Some (before, r) \<Longrightarrow> s = before @ r \<and> take (length pattern) r = pattern"
proof (induction s arbitrary: before)
  case Nil
  then show ?case by (simp add: split_at.simps [of pattern "[]"] split: if_splits)
next
  case (Cons c cs)
  from Cons.prems show ?case
    by (auto simp: split_at.simps [of pattern "c # cs"] dest: Cons.IH split: if_splits option.splits)
qed

text \<open>Universal newlines: how \<open>read_text\<close> reads a line ending.\<close>

fun universal_newlines :: "py_str \<Rightarrow> py_str" where
  "universal_newlines [] = []"
| "universal_newlines [c] = [if c = CHR 0x0D then CHR 0x0A else c]"
| "universal_newlines (c # d # cs) =
     (if c = CHR 0x0D then CHR 0x0A # universal_newlines (if d = CHR 0x0A then cs else d # cs)
      else c # universal_newlines (d # cs))"

definition BEGIN_CERTIFICATE :: py_str where
  "BEGIN_CERTIFICATE = ''-----BEGIN CERTIFICATE-----''"

definition END_CERTIFICATE :: py_str where
  "END_CERTIFICATE = ''-----END CERTIFICATE-----''"

text \<open>The blocks of a PEM file, each from its first marker to the end of the second.\<close>

function pem_blocks :: "py_str \<Rightarrow> py_str list" where
  "pem_blocks s =
     (case split_at BEGIN_CERTIFICATE s of
        None \<Rightarrow> []
      | Some (_, opened) \<Rightarrow>
          (case split_at END_CERTIFICATE opened of
             None \<Rightarrow> []
           | Some (block, closed) \<Rightarrow>
               (block @ END_CERTIFICATE @ [CHR 0x0A]) # pem_blocks (drop (length END_CERTIFICATE) closed)))"
  by pat_completeness auto

termination
proof (relation "measure length")
  show "wf (measure (length :: py_str \<Rightarrow> nat))" by simp
next
  fix s p p' opened q block closed
  assume "split_at BEGIN_CERTIFICATE s = Some p" "(p', opened) = p"
    "split_at END_CERTIFICATE opened = Some q" "(block, closed) = q"
  then have "s = p' @ opened" "opened = block @ closed" "take (length END_CERTIFICATE) closed = END_CERTIFICATE"
    using split_at_Some by blast+
  then show "(drop (length END_CERTIFICATE) closed, s) \<in> measure length"
    by (cases closed) (auto simp: END_CERTIFICATE_def)
qed

declare pem_blocks.simps [simp del]

text \<open>Every certificate of the file, or the exception of reading or decoding it. \<open>read_text\<close> with
  \<open>encoding="ascii"\<close> raises on a byte beyond ASCII, a \<open>ValueError\<close>.\<close>

definition certificate_der_set :: "runtime \<Rightarrow> py_str \<Rightarrow> bytes set option" where
  "certificate_der_set rt path =
     (case rt_read_bytes rt path of
        None \<Rightarrow> None
      | Some bs \<Rightarrow>
          if list_ex (\<lambda>b. 127 < unat b) bs then None
          else map_option set (map_opt (rt_pem_to_der rt) (pem_blocks (universal_newlines (map (\<lambda>b. char_of (unat b)) bs)))))"

text \<open>\<open>None\<close>: the channels are separate.\<close>

definition check_channel_separation ::
  "runtime \<Rightarrow> approver_config \<Rightarrow> py_str option \<Rightarrow> py_str set \<Rightarrow> startup_refusal_reason option" where
  "check_channel_separation rt approver agent_client_ca agent_allowlist =
     (let overlap = (if ac_allowlist approver \<inter> agent_allowlist \<noteq> {} then Some Principal_on_both_channels else None)
      in case agent_client_ca of
           None \<Rightarrow> overlap
         | Some ca \<Rightarrow>
             (case (certificate_der_set rt ca, certificate_der_set rt (tt_client_ca (ac_tls approver))) of
                (Some agents, Some approvers) \<Rightarrow>
                  if agents \<inter> approvers \<noteq> {} then Some Shared_trust_anchor else overlap
              | _ \<Rightarrow> Some Unreadable_tls_material))"

section \<open>The handlers of the approver's listener\<close>

definition MAX_RESOLVE_BODY_BYTES :: int where
  "MAX_RESOLVE_BODY_BYTES = 65536"

definition ANSWERS :: "py_str set" where
  "ANSWERS = {''approve'', ''decline''}"

text \<open>\<open>_ApproverRequestHandler.setup\<close>: this channel is never plaintext.\<close>

definition approver_identity :: "runtime \<Rightarrow> py_str set \<Rightarrow> connection \<Rightarrow> py_error + identity" where
  "approver_identity rt allowlist c =
     (case c of
        Plaintext \<Rightarrow> Inr (Identity_refused No_identity)
      | Tls der peercert \<Rightarrow> tls_identity rt der peercert allowlist)"

definition render_review :: "date_format \<Rightarrow> pending_review \<Rightarrow> json" where
  "render_review fmt review =
     (let request = pr_request review; approval = pr_approval review
      in JObj [(''approval_id'', JStr (pr_approval_id review)),
               (''proposal'', JStr (pd_value (pa_proposal approval))),
               (''action'', JStr (action_value (rq_action request))),
               (''rail'', JStr (rail_value (rq_rail request))),
               (''amount_minor'', JInt (rq_amount_minor request)),
               (''currency'', JStr (currency_value (rq_currency request))),
               (''counterparty_ref'', JStr (rq_counterparty_ref request)),
               (''principal_ref'', JStr (pr_principal_ref review)),
               (''reasons'', JList (map (\<lambda>r. JStr (reason_value r)) (decision_reasons (pa_decision approval)))),
               (''expires_at'', case pa_expires_at approval of None \<Rightarrow> JNull | Some t \<Rightarrow> JStr (fmt t))])"

text \<open>\<open>_checker\<close>: the identity, or the answer that there is none.\<close>

definition checker_of :: "identity \<Rightarrow> http_response + py_str" where
  "checker_of ident =
     (case ident of
        Derived uri \<Rightarrow> Inr uri
      | Identity_refused reason \<Rightarrow> Inl (refused 403 (principal_refusal_value reason))
      | Unidentified \<Rightarrow> Inl (refused 403 ''no_identity''))"

definition approver_get ::
  "date_format \<Rightarrow> 's authorization \<Rightarrow> identity \<Rightarrow> py_str \<Rightarrow> http_response" where
  "approver_get isoformat authorization ident path =
     (case checker_of ident of
        Inl response \<Rightarrow> response
      | Inr uri \<Rightarrow>
          if path \<noteq> ''/reviews'' then refused 404 ''unknown_path''
          else case authorization of
              None \<Rightarrow> refused 503 ''authorization_unavailable''
            | Some (_, sv) \<Rightarrow>
                respond 200 (JObj [(''reviews'', JList (map (render_review isoformat) (service_open_reviews sv)))]))"

fun review_status_value :: "review_outcome_status \<Rightarrow> py_str" where
  "review_status_value Review_executed = ''executed''"
| "review_status_value Review_refused = ''refused''"
| "review_status_value Review_rejected = ''rejected''"

fun rejection_value :: "rejection_reason \<Rightarrow> py_str" where
  "rejection_value Digest_mismatch = ''digest_mismatch''"
| "rejection_value Expired = ''expired''"
| "rejection_value Already_consumed = ''already_consumed''"
| "rejection_value Self_approval = ''self_approval''"
| "rejection_value Not_approved = ''not_approved''"
| "rejection_value Wrong_approval = ''wrong_approval''"
| "rejection_value Unknown_approval = ''unknown_approval''"

definition resolution_json :: "review_resolution \<Rightarrow> json" where
  "resolution_json resolution =
     JObj [(''status'', JStr (review_status_value (rs_status resolution))),
           (''reason'', case rs_reason resolution of None \<Rightarrow> JNull | Some r \<Rightarrow> JStr (rejection_value r))]"

definition REVIEWS_PREFIX :: py_str where "REVIEWS_PREFIX = ''/reviews/''"

text \<open>From the validated answer on.\<close>

definition approver_resolve ::
  "'s authorization \<Rightarrow> py_str \<Rightarrow> py_str \<Rightarrow> proposal_digest \<Rightarrow> bool \<Rightarrow> datetime
     \<Rightarrow> (py_error + http_response) \<times> 's authorization" where
  "approver_resolve authorization checker approval_id proposal approved now =
     (case authorization of
        None \<Rightarrow> (Inr (refused 503 ''authorization_unavailable''), None)
      | Some (dep, sv) \<Rightarrow>
          if checker = [] then (Inl Validation_Error, authorization)
          else
            (case resolve_review dep sv approval_id
                    \<lparr>cv_checker = Checker checker, cv_approval_id = approval_id, cv_proposal = proposal,
                     cv_approved = approved\<rparr> now of
               (Inl e, sv1) \<Rightarrow> (Inl e, Some (dep, sv1))
             | (Inr resolution, sv1) \<Rightarrow> (Inr (respond 200 (resolution_json resolution)), Some (dep, sv1))))"

definition approver_post ::
  "decoders \<Rightarrow> 's authorization \<Rightarrow> identity \<Rightarrow> http_request \<Rightarrow> datetime
     \<Rightarrow> (py_error + http_response) \<times> 's authorization" where
  "approver_post dc authorization ident req now =
     (case checker_of ident of
        Inl response \<Rightarrow> (Inr response, authorization)
      | Inr checker \<Rightarrow>
          if take (length REVIEWS_PREFIX) (hr_path req) \<noteq> REVIEWS_PREFIX \<or> length (hr_path req) \<le> length REVIEWS_PREFIX
          then (Inr (refused 404 ''unknown_path''), authorization)
          else
            (case read_body dc MAX_RESOLVE_BODY_BYTES req of
               Inl response \<Rightarrow> (Inr response, authorization)
             | Inr payload \<Rightarrow>
                 if list_ex (has_field payload) PRINCIPAL_FIELDS \<or> has_field payload ''checker''
                 then (Inr (refused 400 ''body_supplied_principal''), authorization)
                 else
                   (case in_str_set (dict_get payload ''answer'') ANSWERS of
                      Inl e \<Rightarrow> (Inl e, authorization)
                    | Inr known \<Rightarrow>
                        if \<not> known then (Inr (refused 400 ''malformed_answer''), authorization)
                        else
                          (case dc_proposal dc (dict_get payload ''proposal'') of
                             None \<Rightarrow> (Inr (refused 400 ''malformed_proposal''), authorization)
                           | Some proposal \<Rightarrow>
                               approver_resolve authorization checker
                                 (drop (length REVIEWS_PREFIX) (hr_path req)) proposal
                                 (dict_get payload ''answer'' = L_str ''approve'') now))))"

end
