(* ===== verification/Rails.thy ===== *)
theory Rails
  imports Execution
begin

text \<open>
  \<open>secondsign.rails\<close>: the two executors that hold a credential, the generic HTTP one (\<open>http.py\<close>)
  and the Stripe one (\<open>stripe.py\<close>). What the network answers to a request and what the SDK's call
  comes to are parameters; what is sent, and how the answer is read, is the code's.
\<close>

section \<open>The HTTP executor\<close>

definition VIA_HEADER :: py_str where "VIA_HEADER = ''X-SecondSign-Via''"

record rail_http_request =
  hq_url :: py_str
  hq_headers :: "(py_str \<times> py_str) list"
  hq_body :: json

text \<open>What opening the request comes to. The opener does not follow a redirect, so that a 3xx is
  an \<open>HTTPError\<close> like any other status outside 2xx. \<open>Http_transport_error\<close> is an \<open>OSError\<close> or an
  \<open>HTTPException\<close>, \<open>Http_exception\<close> anything else that is raised.\<close>

datatype http_attempt =
    Http_response int
  | Http_error int
  | Http_transport_error
  | Http_exception

definition status_for :: "int \<Rightarrow> execution_status" where
  "status_for code =
     (if 200 \<le> code \<and> code < 300 then Ex_success
      else if 400 \<le> code \<and> code < 500 then Ex_failure
      else Ex_unknown)"

definition http_rail_request :: "py_str \<Rightarrow> py_str \<Rightarrow> transaction_intent \<Rightarrow> rail_http_request" where
  "http_rail_request url credential intent =
     \<lparr>hq_url = url,
      hq_headers =
        [(''Content-Type'', ''application/json''), (''Authorization'', ''Bearer '' @ credential),
         (''Idempotency-Key'', i_idempotency_key intent), (VIA_HEADER, ''gateway'')],
      hq_body =
        JObj [(''amount_minor'', JInt (d_value_upper_minor (i_dimensions intent))),
              (''currency'', JStr (currency_value (d_quote_currency (i_dimensions intent)))),
              (''counterparty_ref'', JStr (d_counterparty_ref (i_dimensions intent))),
              (''source_account_ref'', JStr (d_source_account_ref (i_dimensions intent))),
              (''idempotency_key'', JStr (i_idempotency_key intent))]\<rparr>"

text \<open>The network may answer depending on everything it was asked to move before.\<close>

type_synonym network = "transaction_intent list \<Rightarrow> rail_http_request \<Rightarrow> http_attempt"

definition http_rail :: "py_str \<Rightarrow> py_str \<Rightarrow> network \<Rightarrow> rail" where
  "http_rail url credential net sent intent =
     (case net sent (http_rail_request url credential intent) of
        Http_response code \<Rightarrow> Rail_returns \<lparr>rr_status = status_for code, rr_reference = None\<rparr>
      | Http_error code \<Rightarrow> Rail_returns \<lparr>rr_status = status_for code, rr_reference = None\<rparr>
      | Http_transport_error \<Rightarrow> Rail_returns \<lparr>rr_status = Ex_unknown, rr_reference = None\<rparr>
      | Http_exception \<Rightarrow> Rail_raises)"

section \<open>The Stripe executor\<close>

definition SUCCESS_STATUSES :: "py_str set" where "SUCCESS_STATUSES = {''succeeded''}"
definition FAILURE_STATUSES :: "py_str set" where "FAILURE_STATUSES = {''canceled'', ''requires_payment_method''}"

definition map_status :: "py_str option \<Rightarrow> execution_status" where
  "map_status status =
     (case status of
        None \<Rightarrow> Ex_unknown
      | Some s \<Rightarrow> if s \<in> SUCCESS_STATUSES then Ex_success else if s \<in> FAILURE_STATUSES then Ex_failure else Ex_unknown)"

text \<open>The arguments of \<open>PaymentIntent.create\<close> (which also has \<open>confirm=True\<close>).\<close>

record stripe_create =
  sr_amount :: int
  sr_currency :: py_str
  sr_payment_method :: py_str
  sr_idempotency_key :: py_str
  sr_api_key :: py_str

datatype stripe_error =
    API_connection_error | API_error | Card_error | Invalid_request_error | Authentication_error
  | Rate_limit_error | Idempotency_error | Other_stripe_error

text \<open>What the call comes to: a payment intent, an error of the SDK, or another exception, such as a
  missing SDK.\<close>

datatype stripe_attempt =
    Stripe_created "py_str option" "py_str option"
  | Stripe_raises stripe_error
  | Stripe_exception

fun stripe_error_status :: "stripe_error \<Rightarrow> execution_status" where
  "stripe_error_status API_connection_error = Ex_unknown"
| "stripe_error_status API_error = Ex_unknown"
| "stripe_error_status Card_error = Ex_failure"
| "stripe_error_status Invalid_request_error = Ex_failure"
| "stripe_error_status Authentication_error = Ex_failure"
| "stripe_error_status Rate_limit_error = Ex_failure"
| "stripe_error_status Idempotency_error = Ex_failure"
| "stripe_error_status Other_stripe_error = Ex_unknown"

definition stripe_request :: "py_str \<Rightarrow> py_str \<Rightarrow> transaction_intent \<Rightarrow> stripe_create" where
  "stripe_request api_key payment_method intent =
     \<lparr>sr_amount = d_value_upper_minor (i_dimensions intent),
      sr_currency = map (\<lambda>c. if is_upper c then char_of (of_char c + 32 :: nat) else c)
        (currency_value (d_quote_currency (i_dimensions intent))),
      sr_payment_method = payment_method, sr_idempotency_key = i_idempotency_key intent, sr_api_key = api_key\<rparr>"

definition stripe_rail ::
  "py_str \<Rightarrow> py_str \<Rightarrow> (transaction_intent list \<Rightarrow> stripe_create \<Rightarrow> stripe_attempt) \<Rightarrow> rail" where
  "stripe_rail api_key payment_method sdk sent intent =
     (case sdk sent (stripe_request api_key payment_method intent) of
        Stripe_created status reference \<Rightarrow>
          Rail_returns \<lparr>rr_status = map_status status, rr_reference = reference\<rparr>
      | Stripe_raises e \<Rightarrow> Rail_returns \<lparr>rr_status = stripe_error_status e, rr_reference = None\<rparr>
      | Stripe_exception \<Rightarrow> Rail_raises)"

section \<open>Reading an answer\<close>

lemma status_for_simps:
  "status_for code = Ex_success \<longleftrightarrow> 200 \<le> code \<and> code < 300"
  "status_for code = Ex_failure \<longleftrightarrow> 400 \<le> code \<and> code < 500"
  by (simp_all add: status_for_def)

definition declined :: "http_attempt \<Rightarrow> bool" where
  "declined a \<longleftrightarrow> (\<exists>code. (a = Http_response code \<or> a = Http_error code) \<and> 400 \<le> code \<and> code < 500)"

definition accepted :: "http_attempt \<Rightarrow> bool" where
  "accepted a \<longleftrightarrow> (\<exists>code. (a = Http_response code \<or> a = Http_error code) \<and> 200 \<le> code \<and> code < 300)"

lemma http_outcome_status:
  "eo_status (outcome_of digest (http_rail url credential net sent intent)) =
     (let a = net sent (http_rail_request url credential intent)
      in if accepted a then Ex_success else if declined a then Ex_failure else Ex_unknown)"
  by (auto simp: http_rail_def outcome_of_def accepted_def declined_def status_for_def
      split: http_attempt.splits)

lemma http_failure_iff:
  "eo_status (outcome_of digest (http_rail url credential net sent intent)) = Ex_failure
     \<longleftrightarrow> declined (net sent (http_rail_request url credential intent))"
  by (auto simp: http_outcome_status Let_def accepted_def declined_def)

end
