(* ===== verification/Process.thy ===== *)
theory Process
  imports Approver Rails Service_Money
begin

text \<open>
  The gateway process: \<open>build_authorization\<close> and \<open>main\<close> of \<open>secondsign.gateway.server\<close>, and the
  requests a started process serves on its two listeners. Binding an address, the threads that
  serve the listeners and the fingerprint key drawn from the system's generator are not
  modelled: a step is one request, and the key is a parameter.
\<close>

section \<open>The reference deployment\<close>

definition REFERENCE_WINDOW_SECONDS :: int where "REFERENCE_WINDOW_SECONDS = 3600"
definition REFERENCE_LIMIT_MINOR :: int where "REFERENCE_LIMIT_MINOR = 50000"
definition REFERENCE_REVIEW_ABOVE_MINOR :: int where "REFERENCE_REVIEW_ABOVE_MINOR = 20000"

definition reference_limit :: "bool \<Rightarrow> amount_limit" where
  "reference_limit review_band =
     \<lparr>l_quote_currency = USD, l_window_seconds = REFERENCE_WINDOW_SECONDS,
      l_max_aggregate_minor = REFERENCE_LIMIT_MINOR,
      l_review_above_minor = (if review_band then Some REFERENCE_REVIEW_ABOVE_MINOR else None)\<rparr>"

text \<open>What the process is given by its surroundings, beside the settings: how pydantic writes a
  datetime, the network and the fingerprint key.\<close>

record surroundings =
  su_format :: date_format
  su_network :: network
  su_key :: bytes

definition build_authorization ::
  "surroundings \<Rightarrow> environ \<Rightarrow> bool \<Rightarrow> memory_sink authorization" where
  "build_authorization su env review_band =
     (let url = setting_text env ''SECONDSIGN_RAIL_URL'';
          credential = setting_text env ''SECONDSIGN_RAIL_API_KEY''
      in if url = [] \<or> credential = [] then None
         else
           let limit = reference_limit review_band
           in Some (\<lparr>dp_format = su_format su,
                     dp_policies = [amount_evaluate limit, coverage_evaluate {l_quote_currency limit}],
                     dp_rail = http_rail url credential (su_network su),
                     dp_sink = memory_sink_ops, dp_key = su_key su\<rparr>,
                    service_init (l_window_seconds limit) []))"

section \<open>Starting\<close>

record gateway_process =
  ps_config :: gateway_config
  ps_approver :: "approver_config option"
  ps_authorization :: "memory_sink authorization"

definition tls_material_loads :: "runtime \<Rightarrow> tls_termination \<Rightarrow> bool" where
  "tls_material_loads rt tls = rt_tls_loads rt (tt_certificate tls) (tt_key tls) (tt_client_ca tls)"

text \<open>\<open>main\<close> up to serving: the refusal it exits on, or the process that serves.\<close>

definition start_process ::
  "runtime \<Rightarrow> surroundings \<Rightarrow> environ \<Rightarrow> py_error + startup_refusal_reason + gateway_process" where
  "start_process rt su env =
     (case load_config rt env of
        Inl e \<Rightarrow> Inl e
      | Inr (Inl reason) \<Rightarrow> Inr (Inl reason)
      | Inr (Inr config) \<Rightarrow>
          (case load_approver_config rt env of
             Inl e \<Rightarrow> Inl e
           | Inr (Inl reason) \<Rightarrow> Inr (Inl reason)
           | Inr (Inr approver) \<Rightarrow>
               (case Option.bind approver (\<lambda>a. check_channel_separation rt a
                        (map_option tt_client_ca (gc_tls config)) (gc_allowlist config)) of
                  Some reason \<Rightarrow> Inr (Inl reason)
                | None \<Rightarrow>
                    let authorization = build_authorization su env (approver \<noteq> None)
                    in if \<not> pred_option (tls_material_loads rt) (gc_tls config)
                         \<or> \<not> pred_option (\<lambda>a. tls_material_loads rt (ac_tls a)) approver
                       then Inr (Inl Unreadable_tls_material)
                       else Inr (Inr \<lparr>ps_config = config, ps_approver = approver,
                                      ps_authorization = authorization\<rparr>))))"

section \<open>Serving\<close>

text \<open>A POST on the agents' listener: the identity of the connection, then the handler. A listener
  with TLS has no plaintext connection, and the other way round.\<close>

definition serve_agent ::
  "runtime \<Rightarrow> decoders \<Rightarrow> gateway_process \<Rightarrow> connection \<Rightarrow> http_request \<Rightarrow> datetime
     \<Rightarrow> (py_error + http_response) \<times> gateway_process" where
  "serve_agent rt dc p c req now =
     (case gateway_identity rt (gc_allowlist (ps_config p)) c of
        Inl e \<Rightarrow> (Inl e, p)
      | Inr ident \<Rightarrow>
          (let (r, authorization) = gateway_post dc (ps_authorization p) ident req now
           in (r, p\<lparr>ps_authorization := authorization\<rparr>)))"

definition serve_approver ::
  "runtime \<Rightarrow> decoders \<Rightarrow> gateway_process \<Rightarrow> approver_config \<Rightarrow> connection \<Rightarrow> http_request \<Rightarrow> datetime
     \<Rightarrow> (py_error + http_response) \<times> gateway_process" where
  "serve_approver rt dc p approver c req now =
     (case approver_identity rt (ac_allowlist approver) c of
        Inl e \<Rightarrow> (Inl e, p)
      | Inr ident \<Rightarrow>
          (let (r, authorization) = approver_post dc (ps_authorization p) ident req now
           in (r, p\<lparr>ps_authorization := authorization\<rparr>)))"

inductive serves :: "runtime \<Rightarrow> decoders \<Rightarrow> gateway_process \<Rightarrow> gateway_process \<Rightarrow> bool" for rt dc p0 where
  serves_start: "serves rt dc p0 p0"
| serves_agent: "serves rt dc p0 p \<Longrightarrow> (c = Plaintext) = (gc_tls (ps_config p) = None) \<Longrightarrow>
    serve_agent rt dc p c req now = (r, p') \<Longrightarrow> serves rt dc p0 p'"
| serves_approver: "serves rt dc p0 p \<Longrightarrow> ps_approver p = Some approver \<Longrightarrow> c \<noteq> Plaintext \<Longrightarrow>
    serve_approver rt dc p approver c req now = (r, p') \<Longrightarrow> serves rt dc p0 p'"

text \<open>What pydantic promises of a validated request.\<close>

definition decoders_ok :: "decoders \<Rightarrow> bool" where
  "decoders_ok dc \<longleftrightarrow> (\<forall>v request. dc_request dc v = Some request \<longrightarrow> request_ok request)"

section \<open>Each handler is at most one call of the service\<close>

lemma gateway_post_service:
  assumes "gateway_post dc authorization ident req now = (r, authorization')"
  obtains (same) "authorization' = authorization"
    | (call) dep sv uri request where "authorization = Some (dep, sv)" "ident = Derived uri"
      "\<exists>v. dc_request dc v = Some request" "authorization' = Some (dep, snd (authorize dep sv uri request now))"
proof (cases "\<exists>dep sv uri request. admitted dc authorization ident req dep sv uri request")
  case False
  with gateway_post_shape [of dc authorization ident req now] assms show ?thesis by (auto intro: same)
next
  case True
  with gateway_post_shape [of dc authorization ident req now] assms show ?thesis
    by (auto simp: admitted_def intro: call)
qed

text \<open>What is asked of an answer before the service sees it: the path names a review, the body is an
  object without a checker or a principal, and says one of the two answers and a proposal.\<close>

definition answers ::
  "decoders \<Rightarrow> http_request \<Rightarrow> py_str \<Rightarrow> bool \<Rightarrow> proposal_digest \<Rightarrow> bool" where
  "answers dc req a approved proposal \<longleftrightarrow>
     hr_path req = REVIEWS_PREFIX @ a \<and> a \<noteq> []
     \<and> (\<exists>payload. read_body dc MAX_RESOLVE_BODY_BYTES req = Inr payload
          \<and> \<not> has_field payload ''checker'' \<and> \<not> list_ex (has_field payload) PRINCIPAL_FIELDS
          \<and> dict_get payload ''answer'' = L_str (if approved then ''approve'' else ''decline'')
          \<and> dc_proposal dc (dict_get payload ''proposal'') = Some proposal)"

lemma in_str_set_true: "in_str_set v S = Inr True \<longleftrightarrow> (\<exists>s \<in> S. v = L_str s)"
  by (cases v) auto

lemma approver_resolve_service:
  assumes "approver_resolve authorization checker a proposal approved now = (r, authorization')"
  shows "authorization' = authorization
    \<or> (\<exists>dep sv. authorization = Some (dep, sv) \<and> checker \<noteq> []
        \<and> authorization' = Some (dep, snd (resolve_review dep sv a
            \<lparr>cv_checker = Checker checker, cv_approval_id = a, cv_proposal = proposal, cv_approved = approved\<rparr> now)))"
  using assms by (auto simp: approver_resolve_def split: option.splits prod.splits sum.splits if_splits)

lemma approver_post_service:
  assumes run: "approver_post dc authorization ident req now = (r, authorization')"
  obtains (same) "authorization' = authorization"
    | (call) dep sv uri a approved proposal where "authorization = Some (dep, sv)" "ident = Derived uri"
      "answers dc req a approved proposal"
      "authorization' = Some (dep, snd (resolve_review dep sv a
         \<lparr>cv_checker = Checker uri, cv_approval_id = a, cv_proposal = proposal, cv_approved = approved\<rparr> now))"
proof (cases "authorization' = authorization")
  case True
  then show ?thesis by (rule same)
next
  case False
  let ?a = "drop (length REVIEWS_PREFIX) (hr_path req)"
  from run False obtain uri payload proposal where got: "checker_of ident = Inr uri"
    "take (length REVIEWS_PREFIX) (hr_path req) = REVIEWS_PREFIX" "length REVIEWS_PREFIX < length (hr_path req)"
    "read_body dc MAX_RESOLVE_BODY_BYTES req = Inr payload"
    "\<not> has_field payload ''checker''" "\<not> list_ex (has_field payload) PRINCIPAL_FIELDS"
    "in_str_set (dict_get payload ''answer'') ANSWERS = Inr True"
    "dc_proposal dc (dict_get payload ''proposal'') = Some proposal"
    "approver_resolve authorization uri ?a proposal (dict_get payload ''answer'' = L_str ''approve'') now
       = (r, authorization')"
    by (auto simp: approver_post_def split: sum.splits if_splits option.splits)
  let ?approved = "dict_get payload ''answer'' = L_str ''approve''"
  have uri: "ident = Derived uri" using got(1) by (auto simp: checker_of_def split: identity.splits)
  have path: "hr_path req = REVIEWS_PREFIX @ ?a" "?a \<noteq> []"
    using got(2,3) append_take_drop_id [of "length REVIEWS_PREFIX" "hr_path req"] by simp_all
  have said: "dict_get payload ''answer'' = L_str (if ?approved then ''approve'' else ''decline'')"
    using got(7) unfolding in_str_set_true ANSWERS_def by auto
  have "answers dc req ?a ?approved proposal"
    unfolding answers_def using path got(4-6,8) said by blast
  with approver_resolve_service [OF got(9)] False uri show ?thesis by (auto intro: call)
qed

section \<open>A started process\<close>

definition reference_deployment :: "surroundings \<Rightarrow> environ \<Rightarrow> bool \<Rightarrow> memory_sink deployment" where
  "reference_deployment su env review_band =
     \<lparr>dp_format = su_format su, dp_policies = deployment_policies (reference_limit review_band),
      dp_rail = http_rail (setting_text env ''SECONDSIGN_RAIL_URL'')
        (setting_text env ''SECONDSIGN_RAIL_API_KEY'') (su_network su),
      dp_sink = memory_sink_ops, dp_key = su_key su\<rparr>"

lemma reference_deployment_simps [simp]:
  "dp_policies (reference_deployment su env b) = deployment_policies (reference_limit b)"
  "dp_rail (reference_deployment su env b) = http_rail (setting_text env ''SECONDSIGN_RAIL_URL'')
     (setting_text env ''SECONDSIGN_RAIL_API_KEY'') (su_network su)"
  "dp_format (reference_deployment su env b) = su_format su"
  by (simp_all add: reference_deployment_def)

lemma reference_limit_simps [simp]:
  "amount_limit_ok (reference_limit b)" "l_quote_currency (reference_limit b) = USD"
  "l_window_seconds (reference_limit b) = 3600" "l_max_aggregate_minor (reference_limit b) = 50000"
  "l_review_above_minor (reference_limit b) = (if b then Some 20000 else None)"
  by (simp_all add: reference_limit_def amount_limit_ok_def REFERENCE_WINDOW_SECONDS_def
      REFERENCE_LIMIT_MINOR_def REFERENCE_REVIEW_ABOVE_MINOR_def)

lemma build_authorization_eq:
  "build_authorization su env b =
     (if setting_text env ''SECONDSIGN_RAIL_URL'' = [] \<or> setting_text env ''SECONDSIGN_RAIL_API_KEY'' = []
      then None else Some (reference_deployment su env b, service_init 3600 []))"
  by (simp add: build_authorization_def reference_deployment_def deployment_policies_def Let_def)

lemma start_process_cases:
  assumes "start_process rt su env = Inr (Inr p)"
  obtains "load_config rt env = Inr (Inr (ps_config p))"
    "load_approver_config rt env = Inr (Inr (ps_approver p))"
    "\<And>a. ps_approver p = Some a \<Longrightarrow> check_channel_separation rt a
       (map_option tt_client_ca (gc_tls (ps_config p))) (gc_allowlist (ps_config p)) = None"
    "ps_authorization p = build_authorization su env (ps_approver p \<noteq> None)"
  using assms by (force simp: start_process_def Let_def split: sum.splits option.splits if_splits)

text \<open>The service inside, after any requests: a run of the reference deployment.\<close>

definition refines_service :: "surroundings \<Rightarrow> environ \<Rightarrow> gateway_process \<Rightarrow> bool" where
  "refines_service su env p \<longleftrightarrow>
     (case ps_authorization p of
        None \<Rightarrow> setting_text env ''SECONDSIGN_RAIL_URL'' = [] \<or> setting_text env ''SECONDSIGN_RAIL_API_KEY'' = []
      | Some (dep, sv) \<Rightarrow> dep = reference_deployment su env (ps_approver p \<noteq> None) \<and> reachable dep 3600 [] sv)"

lemma start_refines: "start_process rt su env = Inr (Inr p) \<Longrightarrow> refines_service su env p"
  by (erule start_process_cases)
    (auto simp: refines_service_def build_authorization_eq reachable_def intro: runs.runs_refl)

lemma reachable_authorize:
  "reachable dep w s sv \<Longrightarrow> request_ok request \<Longrightarrow> reachable dep w s (snd (authorize dep sv c request now))"
  by (cases "authorize dep sv c request now") (auto simp: reachable_def intro: runs.runs_authorize)

lemma reachable_resolve: "reachable dep w s sv \<Longrightarrow> reachable dep w s (snd (resolve_review dep sv a verdict now))"
  by (cases "resolve_review dep sv a verdict now") (auto simp: reachable_def intro: runs.runs_resolve)

lemma serve_agent_step:
  assumes "serve_agent rt dc p c req now = (r, p')"
  obtains (same) "p' = p"
    | (call) dep sv uri request where "ps_authorization p = Some (dep, sv)"
      "gateway_identity rt (gc_allowlist (ps_config p)) c = Inr (Derived uri)"
      "\<exists>v. dc_request dc v = Some request"
      "p' = p\<lparr>ps_authorization := Some (dep, snd (authorize dep sv uri request now))\<rparr>"
proof (cases "gateway_identity rt (gc_allowlist (ps_config p)) c")
  case (Inl e)
  with assms show ?thesis by (intro same) (simp add: serve_agent_def)
next
  case (Inr ident)
  obtain q authorization' where run: "gateway_post dc (ps_authorization p) ident req now = (q, authorization')"
    by fastforce
  with assms Inr have p': "p' = p\<lparr>ps_authorization := authorization'\<rparr>" by (simp add: serve_agent_def)
  from run show ?thesis
    by (cases rule: gateway_post_service) (use p' Inr in \<open>auto intro: same call\<close>)
qed

lemma serve_approver_step:
  assumes "serve_approver rt dc p approver c req now = (r, p')"
  obtains (same) "p' = p"
    | (call) dep sv uri a approved proposal where "ps_authorization p = Some (dep, sv)"
      "approver_identity rt (ac_allowlist approver) c = Inr (Derived uri)" "answers dc req a approved proposal"
      "p' = p\<lparr>ps_authorization := Some (dep, snd (resolve_review dep sv a
         \<lparr>cv_checker = Checker uri, cv_approval_id = a, cv_proposal = proposal, cv_approved = approved\<rparr> now))\<rparr>"
proof (cases "approver_identity rt (ac_allowlist approver) c")
  case (Inl e)
  with assms show ?thesis by (intro same) (simp add: serve_approver_def)
next
  case (Inr ident)
  obtain q authorization' where run: "approver_post dc (ps_authorization p) ident req now = (q, authorization')"
    by fastforce
  with assms Inr have p': "p' = p\<lparr>ps_authorization := authorization'\<rparr>" by (simp add: serve_approver_def)
  from run show ?thesis
    by (cases rule: approver_post_service) (use p' Inr in \<open>auto intro: same call\<close>)
qed

lemma serves_refines:
  "serves rt dc p0 p \<Longrightarrow> decoders_ok dc \<Longrightarrow> refines_service su env p0 \<Longrightarrow>
     refines_service su env p \<and> ps_config p = ps_config p0 \<and> ps_approver p = ps_approver p0"
proof (induction rule: serves.induct)
  case serves_start
  then show ?case by simp
next
  case (serves_agent p c req now r p')
  note IH = serves_agent.IH [OF serves_agent.prems]
  from serves_agent(3) show ?case
    by (cases rule: serve_agent_step)
      (use IH serves_agent.prems(1) in \<open>auto simp: refines_service_def decoders_ok_def intro!: reachable_authorize\<close>)
next
  case (serves_approver p approver c req now r p')
  note IH = serves_approver.IH [OF serves_approver.prems]
  from serves_approver(4) show ?case
    by (cases rule: serve_approver_step)
      (use IH in \<open>auto simp: refines_service_def intro!: reachable_resolve\<close>)
qed

end
