(* ===== verification/Process_Properties.thy ===== *)
theory Process_Properties
  imports Process Service_Properties
begin

text \<open>
  What a started process guarantees, whatever is sent to its listeners, whoever sends it and
  whatever the network answers: the service inside it is the verified one, its spend window, and
  the separation of the agents' channel from the approvers'.
\<close>

section \<open>The gateway of a run\<close>

text \<open>An invariant of the gateway and the ledger holds along a run when every dispatch keeps it.\<close>

lemma gateway_invariant:
  assumes reach: "reachable dep w s sv"
    and start: "J \<lparr>gw_store = Map.empty, gw_dispatched = []\<rparr>"
    and step: "\<And>sv sv' intent dec g. money_ok sv \<Longrightarrow> wl_window_seconds (sv_ledger sv) = w \<Longrightarrow>
      money_moves dep sv sv' intent dec g \<Longrightarrow> J (sv_gateway sv) \<Longrightarrow> J (sv_gateway sv')"
  shows "J (sv_gateway sv)"
proof -
  have "runs dep (service_init w s) sv" using reach by (simp add: reachable_def)
  then show ?thesis
  proof (induction rule: runs.induct)
    case runs_refl
    from start show ?case by (simp add: service_init_def)
  next
    case (runs_authorize sv request c now r sv')
    have "reachable dep w s sv" using runs_authorize(1) by (simp add: reachable_def)
    from reachable_money [OF this]
    have ok: "money_ok (clocked sv now)" "wl_window_seconds (sv_ledger (clocked sv now)) = w"
      by (simp_all add: money_ok_clocked)
    from runs_authorize(3,2) show ?case
      by (cases rule: authorize_money) (use step [OF ok] runs_authorize.IH in auto)
  next
    case (runs_resolve sv a verdict now r sv')
    have reached: "reachable dep w s sv" using runs_resolve(1) by (simp add: reachable_def)
    from reachable_money [OF this]
    have ok: "money_ok (clocked sv now)" "wl_window_seconds (sv_ledger (clocked sv now)) = w"
      by (simp_all add: money_ok_clocked)
    have rok: "reviews_ok dep sv" by (rule reachable_reviews_ok [OF reached])
    from runs_resolve(2) rok show ?case
      by (cases rule: resolve_money) (use step [OF ok] runs_resolve.IH in auto)
  qed
qed

text \<open>The log is kept in order, and the outcome recorded for an entry is what the rail answered to it
  at its turn.\<close>

definition outcomes_recorded :: "rail \<Rightarrow> memory_store gateway \<Rightarrow> bool" where
  "outcomes_recorded rail gw \<longleftrightarrow>
     (\<forall>k < length (gw_dispatched gw). \<exists>digest. gw_store gw (i_idempotency_key (gw_dispatched gw ! k))
        = Some (Some (outcome_of digest (rail (take k (gw_dispatched gw)) (gw_dispatched gw ! k)))))"

lemma outcomes_recorded_execute:
  assumes "memory.sent_once gw" and "outcomes_recorded rail gw"
    and "execute fmt memory_ops rail gw intent dec g now = (result, gw')"
  shows "outcomes_recorded rail gw'"
  using TrueI assms(3)
proof (cases rule: memory.execute_cases)
  case (dispatched outcome)
  have "\<forall>i \<in> set (gw_dispatched gw). i_idempotency_key i \<noteq> i_idempotency_key intent"
    using assms(1) dispatched(2) by (auto simp: memory.sent_once_def)
  then have "i_idempotency_key (gw_dispatched gw ! k) \<noteq> i_idempotency_key intent"
    if "k < length (gw_dispatched gw)" for k
    using that by simp
  with assms(2) dispatched(3,6,7) show ?thesis
    by (auto simp: outcomes_recorded_def nth_append less_Suc_eq)
next
  case (repeated recorded)
  with assms(2) show ?thesis by (simp add: outcomes_recorded_def)
next
  case (refused reason)
  with assms(2) show ?thesis by simp
qed

lemma reachable_outcomes: "reachable dep w s sv \<Longrightarrow> outcomes_recorded (dp_rail dep) (sv_gateway sv)"
proof (erule gateway_invariant)
  show "outcomes_recorded (dp_rail dep) \<lparr>gw_store = Map.empty, gw_dispatched = []\<rparr>"
    by (simp add: outcomes_recorded_def)
next
  fix sv sv' :: "'a service" and intent dec g
  assume "money_ok sv" "money_moves dep sv sv' intent dec g" "outcomes_recorded (dp_rail dep) (sv_gateway sv)"
  then show "outcomes_recorded (dp_rail dep) (sv_gateway sv')"
    by (auto elim!: money_movesE intro: outcomes_recorded_execute simp: money_ok_def)
qed

text \<open>So what may have moved can be read off the rail's answers.\<close>

lemma moved_by_answer:
  assumes "outcomes_recorded rail gw"
    and counted: "\<And>digest k. eo_status (outcome_of digest (rail (take k (gw_dispatched gw)) (gw_dispatched gw ! k)))
      = Ex_failure \<longleftrightarrow> \<not> Q k"
  shows "moved gw = map ((!) (gw_dispatched gw)) (filter Q [0..<length (gw_dispatched gw)])"
proof -
  let ?sent = "gw_dispatched gw"
  let ?P = "\<lambda>i. \<exists>outcome. gw_store gw (i_idempotency_key i) = Some (Some outcome) \<and> eo_status outcome \<noteq> Ex_failure"
  have "moved gw = filter ?P (map ((!) ?sent) [0..<length ?sent])" by (simp add: moved_def map_nth)
  also have "\<dots> = map ((!) ?sent) (filter (\<lambda>k. ?P (?sent ! k)) [0..<length ?sent])"
    by (simp add: filter_map comp_def)
  also have "filter (\<lambda>k. ?P (?sent ! k)) [0..<length ?sent] = filter Q [0..<length ?sent]"
  proof (rule filter_cong [OF refl])
    fix k assume "k \<in> set [0..<length ?sent]"
    then obtain digest where "gw_store gw (i_idempotency_key (?sent ! k))
        = Some (Some (outcome_of digest (rail (take k ?sent) (?sent ! k))))"
      using assms(1) by (auto simp: outcomes_recorded_def)
    with counted [of digest k] show "?P (?sent ! k) = Q k" by simp
  qed
  finally show ?thesis .
qed

section \<open>What the reference deployment decides\<close>

lemma reference_decision:
  assumes "money_ok sv" and "wl_window_seconds (sv_ledger sv) = 3600" and "intent_ok intent"
  shows "\<exists>dec. service_decide (reference_deployment su env b) sv intent (sv_now_floor sv) = Inr dec
    \<and> dec_verdict dec =
    (let total = spent (sv_ledger sv) (key_from_intent intent) (sv_now_floor sv)
       + d_value_upper_minor (i_dimensions intent)
     in if d_quote_currency (i_dimensions intent) \<noteq> USD \<or> 50000 < total then Deny
        else if b \<and> 20000 < total then Review else Allow)"
proof -
  let ?a = "window_aggregate_at (sv_ledger sv) (key_from_intent intent) (sv_now_floor sv)"
  let ?ctx = "\<lparr>pc_window_aggregate = Some ?a\<rparr>"
  have "ledger_ok (sv_ledger sv)" using assms(1,2) by (auto simp: money_ok_def ledger_ok_def ledger_timed_def)
  then have ctx: "context_ok ?ctx" by (simp add: context_ok_def ledger_ok_aggregate)
  obtain dec where "service_decide (reference_deployment su env b) sv intent (sv_now_floor sv) = Inr dec"
    "dec_verdict dec = deployment_verdict (reference_limit b) intent ?ctx"
    using decide_deployment [OF reference_limit_simps(1) [of b] ctx assms(3), where fmt = "su_format su"]
    by (auto simp: service_decide_def Let_def)
  moreover have "applicable (reference_limit b) intent ?ctx = Some ?a"
    using assms(2) by (simp add: applicable_def window_aggregate_at_def)
  ultimately show ?thesis
    by (cases b) (simp_all add: deployment_verdict_def amount_band_def prospective_def spent_def Let_def)
qed

lemma moves_dispatched:
  assumes "money_moves dep sv sv' intent dec g"
  shows "gw_dispatched (sv_gateway sv') = gw_dispatched (sv_gateway sv)
    \<or> gw_dispatched (sv_gateway sv') = gw_dispatched (sv_gateway sv) @ [intent]"
  using assms
proof (cases rule: money_movesE)
  case (1 result)
  from TrueI 1(4) show ?thesis by (cases rule: memory.execute_cases) auto
qed

lemma reference_moves:
  assumes "money_ok sv" and "wl_window_seconds (sv_ledger sv) = 3600"
    and "money_moves (reference_deployment su env b) sv sv' intent dec g"
  shows "d_quote_currency (i_dimensions intent) = USD
    \<and> (let total = spent (sv_ledger sv) (key_from_intent intent) (sv_now_floor sv)
         + d_value_upper_minor (i_dimensions intent)
       in total \<le> 50000 \<and> (b \<and> dec_verdict dec = Allow \<longrightarrow> total \<le> 20000))"
  using assms(3)
proof (cases rule: money_movesE)
  case (1 result)
  from reference_decision [OF assms(1,2) 1(1), of su env b] 1(2,3) show ?thesis
    by (auto simp: Let_def split: if_splits)
qed

lemma reference_dispatches_usd:
  assumes "reachable (reference_deployment su env b) 3600 s sv"
  shows "\<forall>i \<in> set (gw_dispatched (sv_gateway sv)). d_quote_currency (i_dimensions i) = USD"
proof -
  have "(\<lambda>gw. \<forall>i \<in> set (gw_dispatched gw). d_quote_currency (i_dimensions i) = USD) (sv_gateway sv)"
  proof (rule gateway_invariant [OF assms])
    fix sv sv' :: "memory_sink service" and intent dec g
    assume ok: "money_ok sv" "wl_window_seconds (sv_ledger sv) = 3600"
      and m: "money_moves (reference_deployment su env b) sv sv' intent dec g"
      and "\<forall>i \<in> set (gw_dispatched (sv_gateway sv)). d_quote_currency (i_dimensions i) = USD"
    moreover have "d_quote_currency (i_dimensions intent) = USD" using reference_moves [OF ok m] by simp
    ultimately show "\<forall>i \<in> set (gw_dispatched (sv_gateway sv')). d_quote_currency (i_dimensions i) = USD"
      using moves_dispatched [OF m] by auto
  qed simp
  then show ?thesis by simp
qed

section \<open>Two channels\<close>

lemma derived_principal: "derive_principal rt peercert allowlist = Inr (Derived uri) \<Longrightarrow> uri \<in> allowlist"
  by (auto simp: derive_principal_Derived)

lemma derived_on_allowlist:
  "gateway_identity rt allowlist c = Inr (Derived uri) \<Longrightarrow> uri \<in> allowlist"
  "approver_identity rt allowlist c = Inr (Derived uri) \<Longrightarrow> uri \<in> allowlist"
  by (auto simp: gateway_identity_def approver_identity_def tls_identity_def
      dest: derived_principal split: connection.splits option.splits)

lemma approver_conditions:
  assumes "load_approver_config rt env = Inr (Inr (Some a))"
  shows "tls_conditions rt (ac_tls a) (ac_allowlist a)"
proof -
  have some: "\<forall>name \<in> set APPROVER_SETTINGS. setting_text env name \<noteq> []"
    using assms by (auto simp: load_approver_config_def Let_def filter_id_conv split: if_splits)
  then have "setting_text env ''SECONDSIGN_APPROVER_TLS_CERT'' \<noteq> []" "setting_text env ''SECONDSIGN_APPROVER_TLS_KEY'' \<noteq> []"
    "setting_text env ''SECONDSIGN_APPROVER_CA'' \<noteq> []" by (simp_all add: APPROVER_SETTINGS_def)
  moreover note check_entries_fine [of rt "allowlist_entries (setting_text env ''SECONDSIGN_APPROVER_ALLOWLIST'')"]
  ultimately show ?thesis
    using assms
    by (auto simp: load_approver_config_def Let_def tls_conditions_def
        split: if_splits option.splits prod.splits sum.splits)
qed

lemma separation_sound:
  assumes "check_channel_separation rt a agent_ca allowlist = None"
  shows "ac_allowlist a \<inter> allowlist = {}"
    and "agent_ca = Some ca \<Longrightarrow> \<exists>A B. certificate_der_set rt ca = Some A
      \<and> certificate_der_set rt (tt_client_ca (ac_tls a)) = Some B \<and> A \<inter> B = {}"
  using assms by (auto simp: check_channel_separation_def Let_def split: option.splits if_splits)

section \<open>Which requests move money\<close>

text \<open>A dispatch through either listener is one of the service's: what it sends, under whom.\<close>

lemma agent_dispatch:
  assumes "decoders_ok dc" and "serve_agent rt dc p c req now = (r, p')"
    and "ps_authorization p = Some (dep, sv)" and "ps_authorization p' = Some (dep', sv')"
    and "gw_dispatched (sv_gateway sv') \<noteq> gw_dispatched (sv_gateway sv)"
  obtains uri request intent dec where "money_moves dep (clocked sv now) sv' intent dec None"
    "dec_verdict dec = Allow" "gateway_identity rt (gc_allowlist (ps_config p)) c = Inr (Derived uri)"
    "intent = completed request (reservation_key_of dep uri (rq_request_ref request)) now"
  using assms(2)
proof (cases rule: serve_agent_step)
  case same
  with assms(3-5) show ?thesis by simp
next
  case (call dep1 sv1 uri request)
  then obtain q where run: "authorize dep sv uri request now = (q, sv')"
    using assms(3,4) by (cases "authorize dep sv uri request now") auto
  have "request_ok request" using call(3) assms(1) by (auto simp: decoders_ok_def)
  with run show ?thesis
    by (cases rule: authorize_money) (use assms(5) call(2) that in auto)
qed

lemma approver_dispatch:
  assumes "reachable dep w s sv" and "serve_approver rt dc p a c req now = (r, p')"
    and "ps_authorization p = Some (dep, sv)" and "ps_authorization p' = Some (dep', sv')"
    and "gw_dispatched (sv_gateway sv') \<noteq> gw_dispatched (sv_gateway sv)"
  obtains uri approval intent dec g where "money_moves dep (clocked sv now) sv' intent dec (Some g)"
    "approver_identity rt (ac_allowlist a) c = Inr (Derived uri)"
    "answers dc req approval True (compute_proposal_digest (dp_format dep) intent)"
    "approval \<notin> sv_consumed sv" "approval \<in> sv_consumed sv'"
  using assms(2)
proof (cases rule: serve_approver_step)
  case same
  with assms(3-5) show ?thesis by simp
next
  case (call dep1 sv1 uri approval approved proposal)
  let ?verdict = "\<lparr>cv_checker = Checker uri, cv_approval_id = approval, cv_proposal = proposal, cv_approved = approved\<rparr>"
  obtain q where run: "resolve_review dep sv approval ?verdict now = (q, sv')"
    using call(1,4) assms(3,4) by (cases "resolve_review dep sv approval ?verdict now") auto
  from run reachable_reviews_ok [OF assms(1)] show ?thesis
  proof (cases rule: resolve_money)
    case idle
    with assms(5) show ?thesis by simp
  next
    case (moves review intent dec g)
    have "proposal = compute_proposal_digest (dp_format dep) intent" "approved"
      using moves(4,5,7) by (simp_all add: review_ok_def answers_approval_def)
    with call(2,3) moves(6,8) show ?thesis by (intro that [OF moves(1), of uri approval]) simp_all
  qed
qed

section \<open>A process to run\<close>

definition demo_surroundings :: surroundings where
  "demo_surroundings =
     \<lparr>su_format = int_str, su_network = (\<lambda>_ _. Http_response 200), su_key = replicate 32 0\<rparr>"

text \<open>Each client CA file holds one certificate.\<close>

definition demo_files :: "py_str \<Rightarrow> bytes option" where
  "demo_files path =
     Some (map of_char (BEGIN_CERTIFICATE @ path @ END_CERTIFICATE))"

definition demo_platform :: runtime where
  "demo_platform = demo_runtime\<lparr>rt_read_bytes := demo_files\<rparr>"

definition demo_settings :: environ where
  "demo_settings = demo_environ @
     [(''SECONDSIGN_RAIL_URL'', ''https://rail''), (''SECONDSIGN_RAIL_API_KEY'', ''sk''),
      (''SECONDSIGN_APPROVER_BIND'', ''10.0.0.7:8788''), (''SECONDSIGN_APPROVER_TLS_CERT'', ''cert.pem''),
      (''SECONDSIGN_APPROVER_TLS_KEY'', ''key.pem''), (''SECONDSIGN_APPROVER_CA'', ''people.pem''),
      (''SECONDSIGN_APPROVER_ALLOWLIST'', ''spiffe://bank/ann'')]"

definition demo_approver :: approver_config where
  "demo_approver =
     \<lparr>ac_host = ''10.0.0.7'', ac_port = 8788,
      ac_tls = \<lparr>tt_certificate = ''cert.pem'', tt_key = ''key.pem'', tt_client_ca = ''people.pem''\<rparr>,
      ac_allowlist = {''spiffe://bank/ann''}\<rparr>"

definition demo_process :: gateway_process where
  "demo_process =
     \<lparr>ps_config = demo_gateway_config, ps_approver = Some demo_approver,
      ps_authorization = Some (reference_deployment demo_surroundings demo_settings True, service_init 3600 [])\<rparr>"

lemma demo_listener: "load_config demo_platform demo_settings = Inr (Inr demo_gateway_config)"
proof -
  have "parse_bind ''10.0.0.7:8787'' = Some (''10.0.0.7'', 8787)" by (simp add: text_evaluation)
  moreover have "allowlist_entries ''spiffe://bank/agent, spiffe://bank/other''
      = [''spiffe://bank/agent'', ''spiffe://bank/other'']" by (simp add: text_evaluation)
  ultimately show ?thesis
    by (simp add: load_config_def demo_settings_def demo_environ_def SETTING_PREFIX_def KNOWN_SETTINGS_def
        APPROVER_SETTINGS_def setting_text_def listener_config_def is_loopback_def demo_platform_def
        demo_runtime_def demo_files_def demo_gateway_config_def)
qed

lemma demo_channel: "load_approver_config demo_platform demo_settings = Inr (Inr (Some demo_approver))"
proof -
  have "parse_bind ''10.0.0.7:8788'' = Some (''10.0.0.7'', 8788)" by (simp add: text_evaluation)
  moreover have "allowlist_entries ''spiffe://bank/ann'' = [''spiffe://bank/ann'']" by (simp add: text_evaluation)
  ultimately show ?thesis
    by (simp add: load_approver_config_def demo_settings_def demo_environ_def APPROVER_SETTINGS_def
        setting_text_def demo_platform_def demo_runtime_def demo_files_def demo_approver_def)
qed

lemma demo_anchors:
  "certificate_der_set demo_platform ''agents.pem'' = Some {map of_char (BEGIN_CERTIFICATE @ ''agents.pem'' @ END_CERTIFICATE @ ''\<newline>'')}"
  "certificate_der_set demo_platform ''people.pem'' = Some {map of_char (BEGIN_CERTIFICATE @ ''people.pem'' @ END_CERTIFICATE @ ''\<newline>'')}"
  by code_simp+

lemma demo_separate:
  "check_channel_separation demo_platform demo_approver (Some ''agents.pem'')
     {''spiffe://bank/agent'', ''spiffe://bank/other''} = None"
  by (simp add: check_channel_separation_def demo_approver_def demo_anchors)

lemma demo_start: "start_process demo_platform demo_surroundings demo_settings = Inr (Inr demo_process)"
  using demo_listener demo_channel demo_separate
  by (simp add: start_process_def demo_gateway_config_def build_authorization_eq demo_process_def
      tls_material_loads_def demo_platform_def demo_runtime_def)
    (simp add: demo_settings_def demo_environ_def setting_text_def)

text \<open>An agent with a certificate proposes a payment of 50.00 US dollars.\<close>

definition demo_agent :: connection where
  "demo_agent = Tls (Some demo_certificate)
     (Some \<lparr>pk_subject_alt_name = [(''URI'', ''spiffe://bank/agent'')],
            pk_not_before = Some ''0'', pk_not_after = Some ''86400''\<rparr>)"

definition demo_decoders :: decoders where
  "demo_decoders =
     \<lparr>dc_loads = (\<lambda>_. Some (L_dict [(''wire_version'', L_int 1), (''request'', L_null)])),
      dc_request = (\<lambda>_. Some (demo_request 5000)), dc_proposal = (\<lambda>_. None)\<rparr>"

definition demo_post :: http_request where
  "demo_post = \<lparr>hr_path = ''/authorize'', hr_content_length = None, hr_stream = []\<rparr>"

lemma demo_decoders_ok: "decoders_ok demo_decoders"
  using demo_request_ok [of 5000] by (simp add: decoders_ok_def demo_decoders_def)

lemma demo_identity:
  "gateway_identity demo_platform (gc_allowlist demo_gateway_config) demo_agent
     = Inr (Derived ''spiffe://bank/agent'')"
proof -
  have "py_int ''0'' = Some 0" "py_int ''86400'' = Some 86400" by (simp_all add: text_evaluation)
  moreover have "demo_certificate \<noteq> []"
    by (simp add: demo_certificate_def encode_certificate_def der_encode_def)
  ultimately show ?thesis
    by (simp add: demo_agent_def gateway_identity_def tls_identity_def verify_client_purpose_def
        demo_certificate_purpose derive_principal_def demo_platform_def demo_runtime_def
        demo_gateway_config_def MAX_CLIENT_LEAF_SECONDS_def)
qed

lemma demo_posted:
  "gateway_post demo_decoders (Some (dep, sv)) (Derived uri) demo_post now =
     (map_sum id (\<lambda>outcome. respond 200 (JObj [(''wire_version'', JInt WIRE_VERSION),
        (''outcome'', outcome_json (dp_format dep) outcome)])) (fst (authorize dep sv uri (demo_request 5000) now)),
      Some (dep, snd (authorize dep sv uri (demo_request 5000) now)))"
proof -
  have "py_int ''0'' = Some 0" by (simp add: text_evaluation)
  then have "read_body demo_decoders MAX_AUTHORIZE_BODY_BYTES demo_post
      = Inr [(''wire_version'', L_int 1), (''request'', L_null)]"
    by (simp add: read_body_def demo_post_def demo_decoders_def MAX_AUTHORIZE_BODY_BYTES_def)
  moreover have "names_no_principal [(''wire_version'', L_int 1), (''request'', L_null)]"
    by (simp add: names_no_principal_def PRINCIPAL_FIELDS_def dict_get_def)
  ultimately show ?thesis
    by (subst gateway_post_payload)
      (auto simp: demo_post_def dict_get_def unhashable_def speaks_version_one_def gateway_authorize_def
        demo_decoders_def split: prod.split sum.split)
qed

lemma demo_served:
  obtains r p sv where "serve_agent demo_platform demo_decoders demo_process demo_agent demo_post 0 = (r, p)"
    "serves demo_platform demo_decoders demo_process p"
    "ps_authorization p = Some (reference_deployment demo_surroundings demo_settings True, sv)"
    "map (\<lambda>i. d_value_upper_minor (i_dimensions i)) (gw_dispatched (sv_gateway sv)) = [5000]"
proof -
  let ?dep = "reference_deployment demo_surroundings demo_settings True"
  let ?c = "''spiffe://bank/agent''" and ?start = "service_init 3600 [] :: memory_sink service"
  let ?k = "reservation_key_of ?dep ?c (rq_request_ref (demo_request 5000))"
  obtain r p where serve: "serve_agent demo_platform demo_decoders demo_process demo_agent demo_post 0 = (r, p)"
    by fastforce
  obtain q sv where run: "authorize ?dep ?start ?c (demo_request 5000) 0 = (q, sv)" by fastforce
  have p: "p = demo_process\<lparr>ps_authorization := Some (?dep, sv)\<rparr>"
    using serve demo_identity demo_posted [of ?dep ?start ?c 0] run
    by (simp add: serve_agent_def demo_process_def)
  have "serves demo_platform demo_decoders demo_process p"
    using serves_agent [OF serves_start _ serve] by (simp add: demo_agent_def demo_process_def demo_gateway_config_def)
  moreover have "map (\<lambda>i. d_value_upper_minor (i_dimensions i)) (gw_dispatched (sv_gateway sv)) = [5000]"
  proof -
    have rok: "request_ok (demo_request 5000)" "mappable (demo_request 5000)" using demo_request_ok by auto
    let ?now = "clocked ?start 0" and ?i = "completed (demo_request 5000) ?k 0"
    have now: "sv_now_floor ?now = 0" by (simp add: DATETIME_MIN_def seconds_def)
    have "money_ok ?now" by (rule money_ok_clocked) simp
    moreover have "wl_window_seconds (sv_ledger ?now) = 3600" by (simp add: service_init_def)
    moreover have "intent_ok ?i" by (rule completed_ok [OF rok(1)]) simp
    ultimately obtain dec where dec: "service_decide ?dep ?now ?i 0 = Inr dec"
      "dec_verdict dec = (let total = spent (sv_ledger ?now) (key_from_intent ?i) 0 + d_value_upper_minor (i_dimensions ?i)
         in if d_quote_currency (i_dimensions ?i) \<noteq> USD \<or> 50000 < total then Deny
            else if True \<and> 20000 < total then Review else Allow)"
      using reference_decision [of ?now ?i demo_surroundings demo_settings True] now by auto
    have "dec_verdict dec = Allow"
      unfolding dec(2)
      by (simp add: Let_def service_init_def spent_def window_aggregate_at_def inside_window_def)
        (simp add: completed_def demo_request_def)
    from authorize_allowed [OF rok refl _ _ _ dec(1) this run]
    have "gw_dispatched (sv_gateway sv) = gw_dispatched (sv_gateway ?start) @ [?i]"
      by (simp add: DATETIME_MIN_def seconds_def)
    then show ?thesis by (simp add: completed_def demo_request_def)
  qed
  ultimately show ?thesis by (intro that [OF serve]) (simp_all add: p)
qed

section \<open>Properties\<close>

text \<open>[C13] Refinement: whatever requests a started process has served on either listener, its settings
  are the ones it started with, and the service inside it, if it has a rail, is in a state that the
  reference deployment of the authorization service reaches. The listeners add nothing to it.\<close>

theorem process_refines_service:
  assumes "decoders_ok dc" and "start_process rt su env = Inr (Inr p0)" and "serves rt dc p0 p"
  shows "ps_config p = ps_config p0 \<and> ps_approver p = ps_approver p0 \<and> refines_service su env p"
  using serves_refines [OF assms(3,1) start_refines [OF assms(2)]] by simp

theorem process_refines_service_witness:
  "\<exists>p sv. serves demo_platform demo_decoders demo_process p
     \<and> ps_authorization p = Some (reference_deployment demo_surroundings demo_settings True, sv)
     \<and> gw_dispatched (sv_gateway sv) \<noteq> [] \<and> refines_service demo_surroundings demo_settings p"
proof (rule demo_served)
  fix r p sv
  assume "serves demo_platform demo_decoders demo_process p"
    "ps_authorization p = Some (reference_deployment demo_surroundings demo_settings True, sv)"
    "map (\<lambda>i. d_value_upper_minor (i_dimensions i)) (gw_dispatched (sv_gateway sv)) = [5000]"
  with process_refines_service [OF demo_decoders_ok demo_start] show ?thesis by fastforce
qed







end
