(* ===== verification/Service_Answers.thy ===== *)
theory Service_Answers
  imports Process_Properties
begin

text \<open>
  What the answers of the authorization service are worth: \<open>completed\<close> is told only where the rail
  reported success for the one intent sent under the handle, now or earlier. And what the service
  does not refuse: a fresh proposal inside the limits is sent, and an approved review as well.
\<close>

section \<open>Answers are grounded\<close>

definition answer_grounded :: "memory_store \<Rightarrow> py_str \<Rightarrow> authorization_outcome \<Rightarrow> bool" where
  "answer_grounded store k answer \<longleftrightarrow>
     is_fingerprint (ao_decision_ref answer)
     \<and> (ao_status answer = Completed \<longrightarrow>
          (\<exists>outcome. store k = Some (Some outcome) \<and> eo_status outcome = Ex_success))"

definition answers_grounded :: "'s service \<Rightarrow> bool" where
  "answers_grounded sv \<longleftrightarrow>
     (\<forall>k rv. sv_reservations sv k = Some rv \<longrightarrow> answer_grounded (gw_store (sv_gateway sv)) k (rv_answer rv))"

text \<open>Recorded outcomes stay.\<close>

definition keeps_outcomes :: "memory_store \<Rightarrow> memory_store \<Rightarrow> bool" where
  "keeps_outcomes s s' \<longleftrightarrow> (\<forall>k outcome. s k = Some (Some outcome) \<longrightarrow> s' k = Some (Some outcome))"

lemma keeps_outcomes_refl [simp]: "keeps_outcomes s s"
  by (simp add: keeps_outcomes_def)

lemma answer_grounded_keep: "answer_grounded s k answer \<Longrightarrow> keeps_outcomes s s' \<Longrightarrow> answer_grounded s' k answer"
  by (auto simp: answer_grounded_def keeps_outcomes_def)

lemma answers_grounded_step:
  assumes "answers_grounded sv" and "keeps_outcomes (gw_store (sv_gateway sv)) (gw_store (sv_gateway sv'))"
    and "\<And>k rv. sv_reservations sv' k = Some rv \<Longrightarrow> sv_reservations sv k = Some rv
      \<or> answer_grounded (gw_store (sv_gateway sv')) k (rv_answer rv)"
  shows "answers_grounded sv'"
  using assms unfolding answers_grounded_def by (meson answer_grounded_keep)

lemma refuse_grounded [simp]: "answer_grounded store k (service_refuse dep k' now d)"
  by (simp add: answer_grounded_def service_refuse_def Let_def)

lemma execute_keeps_outcomes:
  assumes "execute fmt memory_ops rail gw intent dec g now = (r, gw')"
  shows "keeps_outcomes (gw_store gw) (gw_store gw')"
    "status_of (Some r) = Some Ex_success \<Longrightarrow>
       \<exists>outcome. gw_store gw' (i_idempotency_key intent) = Some (Some outcome) \<and> eo_status outcome = Ex_success"
  using TrueI assms
  by (cases rule: memory.execute_cases;
      auto simp: keeps_outcomes_def status_of_def split: option.splits)+

lemma settle_grounded:
  assumes "service_settle dep sv k prop dec p now out a = (Inr answer, sv')"
    and "status_of out = Some Ex_success \<Longrightarrow>
       \<exists>outcome. gw_store (sv_gateway sv) k = Some (Some outcome) \<and> eo_status outcome = Ex_success"
  shows "answer_grounded (gw_store (sv_gateway sv')) k answer"
proof -
  obtain sv1 where one: "service_record dep sv dec p now out a = (Inr answer, sv1)"
    using assms(1) by (auto simp: service_settle_def split: prod.splits sum.splits)
  have "is_fingerprint (ao_decision_ref answer)"
    by (rule service_record_frame [OF one]) simp
  moreover have "ao_status answer = Completed \<Longrightarrow> status_of out = Some Ex_success"
    using service_settle_frame(8) [OF assms(1)] by (auto simp: agent_status_def split: if_splits)
  ultimately show ?thesis
    using assms(2) service_settle_frame(1) [OF assms(1)] by (auto simp: answer_grounded_def)
qed

lemma settle_answers_grounded:
  assumes settle: "service_settle dep sv k prop dec p now out a = (r, sv')" and "answers_grounded sv"
    and "status_of out = Some Ex_success \<Longrightarrow>
       \<exists>outcome. gw_store (sv_gateway sv) k = Some (Some outcome) \<and> eo_status outcome = Ex_success"
  shows "answers_grounded sv' \<and> (\<forall>answer. r = Inr answer \<longrightarrow> answer_grounded (gw_store (sv_gateway sv')) k answer)"
proof (cases r)
  case (Inl e)
  have "answers_grounded sv'"
    using service_settle_frame(1,6) [OF settle [unfolded Inl]] assms(2)
    by (intro answers_grounded_step [OF assms(2)]) auto
  with Inl show ?thesis by simp
next
  case (Inr answer)
  have ans: "answer_grounded (gw_store (sv_gateway sv')) k answer"
    using settle [unfolded Inr] assms(3) by (rule settle_grounded)
  moreover from ans service_settle_frame(1,7) [OF settle [unfolded Inr]] have "answers_grounded sv'"
    by (intro answers_grounded_step [OF assms(2)]) (auto split: if_splits)
  ultimately show ?thesis using Inr by simp
qed

lemma dispatch_grounded:
  assumes "service_dispatch dep sv intent dec now g = (result, sv1)" and "answers_grounded sv"
  shows "answers_grounded sv1"
    and "status_of (Some result) = Some Ex_success \<Longrightarrow>
      \<exists>outcome. gw_store (sv_gateway sv1) (i_idempotency_key intent) = Some (Some outcome)
        \<and> eo_status outcome = Ex_success"
proof -
  note d = service_dispatch_frame [OF assms(1)] and x = execute_keeps_outcomes [OF service_dispatch_frame(1) [OF assms(1)]]
  show "answers_grounded sv1" by (rule answers_grounded_step [OF assms(2) x(1)]) (simp add: d(5))
  show "status_of (Some result) = Some Ex_success \<Longrightarrow>
      \<exists>outcome. gw_store (sv_gateway sv1) (i_idempotency_key intent) = Some (Some outcome)
        \<and> eo_status outcome = Ex_success" by (rule x(2))
qed

lemma clocked_grounded [simp]: "answers_grounded (clocked sv now) = answers_grounded sv"
  by (simp add: answers_grounded_def)

lemma hold_grounded:
  assumes hold: "service_hold dep sv request dec prop k p now = (r, sv')" and "dec_verdict dec = Review"
    and "answers_grounded sv"
  shows "answers_grounded sv'" and "r = Inr answer \<Longrightarrow> answer_grounded (gw_store (sv_gateway sv')) k answer"
proof -
  note frame = service_hold_frame [OF hold assms(2)]
  have ans: "answer_grounded (gw_store (sv_gateway sv')) k answer" if r: "r = Inr answer" for answer
  proof -
    let ?sv1 = "sv\<lparr>sv_pending := pending_hold (sv_pending sv) (held_review dep request dec prop k p now)\<rparr>"
    obtain q sv2 where one: "service_settle dep ?sv1 k prop dec p now None None = (q, sv2)" by fastforce
    have "q = Inr answer" using hold assms(2) one r
      by (auto simp: service_hold_def approval_request_def held_review_def Let_def split: sum.splits)
    with one have "answer_grounded (gw_store (sv_gateway sv2)) k answer"
      by (auto intro: settle_grounded simp: status_of_def)
    with service_settle_frame(1) [OF one] frame(1) show ?thesis by simp
  qed
  show "r = Inr answer \<Longrightarrow> answer_grounded (gw_store (sv_gateway sv')) k answer" by (rule ans)
  show "answers_grounded sv'"
  proof (cases r)
    case (Inl e)
    with frame(1) frame(6) [OF Inl] show ?thesis by (intro answers_grounded_step [OF assms(3)]) auto
  next
    case (Inr answer)
    with frame(1) frame(7) [OF Inr] ans [OF Inr] show ?thesis
      by (intro answers_grounded_step [OF assms(3)]) (auto split: if_splits)
  qed
qed

lemma authorize_grounded:
  assumes run: "authorize dep sv c request now = (r, sv')" and rok: "request_ok request"
    and ok: "answers_grounded sv"
  shows "answers_grounded sv'"
    and "r = Inr answer \<Longrightarrow>
      answer_grounded (gw_store (sv_gateway sv')) (reservation_key_of dep c (rq_request_ref request)) answer"
proof -
  have "answers_grounded sv' \<and> (\<forall>answer. r = Inr answer \<longrightarrow>
      answer_grounded (gw_store (sv_gateway sv')) (reservation_key_of dep c (rq_request_ref request)) answer)"
    using run rok
  proof (cases rule: authorize_cases)
    case (held k intent rv)
    then show ?thesis using ok by (auto simp: answers_grounded_def)
  next
    case (review k intent dec)
    have g: "answers_grounded (clocked sv now)" using ok by simp
    from hold_grounded [OF review(7,6) g] review(2) show ?thesis by auto
  next
    case (denied k intent dec)
    have g: "answers_grounded (clocked sv now)" using ok by simp
    from settle_answers_grounded [OF denied(7) g] denied(2) show ?thesis by (simp add: status_of_def)
  next
    case (allowed k intent dec result sv1)
    have g: "answers_grounded (clocked sv now)" using ok by simp
    note d = dispatch_grounded [OF allowed(7) g]
    have key: "i_idempotency_key intent = k" using allowed(3) by simp
    from settle_answers_grounded [OF allowed(8) d(1)] d(2) allowed(2) key show ?thesis by simp
  qed (use ok in auto)
  then show "answers_grounded sv'" "r = Inr answer \<Longrightarrow>
      answer_grounded (gw_store (sv_gateway sv')) (reservation_key_of dep c (rq_request_ref request)) answer" by auto
qed

lemma resolve_grounded:
  assumes run: "resolve_review dep sv a verdict now = (r, sv')" and reviews: "reviews_ok dep sv"
    and ok: "answers_grounded sv"
  shows "answers_grounded sv'"
  using run reviews
proof (cases rule: resolve_cases)
  case (denied review intent dec q)
  note frame = service_audit_frame [OF denied(5)]
  then show ?thesis using ok by (simp add: answers_grounded_def)
next
  case (rejected review intent dec reason)
  have g: "answers_grounded (clocked sv now)" using ok by simp
  note frame = resolve_rejected_frame [OF rejected(6)]
  show ?thesis
  proof (cases "reason \<in> TERMINAL_REJECTIONS")
    case False
    with frame(5) ok show ?thesis by simp
  next
    case True
    show ?thesis
    proof (cases r)
      case (Inl e)
      with frame(1) frame(6) [OF Inl] show ?thesis by (intro answers_grounded_step [OF g]) auto
    next
      case (Inr res)
      with frame(1) frame(7) [OF True Inr] show ?thesis
        by (intro answers_grounded_step [OF g]) (auto split: if_splits)
    qed
  qed
next
  case (granted review intent dec g)
  let ?sv = "(clocked sv now)\<lparr>sv_consumed := insert a (sv_consumed sv)\<rparr>"
  have start: "answers_grounded ?sv" using ok by (simp add: answers_grounded_def)
  from granted(8) show ?thesis
  proof (cases rule: resolve_granted_frame)
    case (1 result sv1 q sv2)
    note d = dispatch_grounded [OF 1(1) start]
    have key: "i_idempotency_key intent = pr_reservation_key review" using granted(2) by simp
    have "answers_grounded sv2" using settle_answers_grounded [OF 1(2) d(1)] d(2) key by simp
    then show ?thesis using 1(4) by (auto simp: answers_grounded_def split: sum.splits)
  qed
qed (use ok in auto)

lemma reachable_grounded: "reachable dep w s sv \<Longrightarrow> answers_grounded sv"
proof -
  assume "reachable dep w s sv"
  then have "runs dep (service_init w s) sv" by (simp add: reachable_def)
  then show ?thesis
  proof (induction rule: runs.induct)
    case runs_refl
    show ?case by (simp add: answers_grounded_def service_init_def)
  next
    case (runs_authorize sv request c now r sv')
    then show ?case by (blast intro: authorize_grounded)
  next
    case (runs_resolve sv a verdict now r sv')
    have "reviews_ok dep sv" using runs_reviews_ok [OF runs_resolve(1)] by simp
    with runs_resolve show ?case by (blast intro: resolve_grounded)
  qed
qed

section \<open>With a ledger that records\<close>

text \<open>Where no receipt is lost, a key the gateway has used has an answer.\<close>

definition store_answered :: "'s service \<Rightarrow> bool" where
  "store_answered sv \<longleftrightarrow> (\<forall>k. gw_store (sv_gateway sv) k \<noteq> None \<longrightarrow> sv_reservations sv k \<noteq> None)"

lemma settle_returns:
  assumes "dp_sink dep = memory_sink_ops" and "verify_chain (sv_sink sv)" and "is_fingerprint p"
    and "service_settle dep sv k prop dec p now out a = (r, sv')"
  shows "\<exists>answer. r = Inr answer"
proof -
  obtain q where q: "audit_record (dp_sink dep) (sv_sink sv) (dec_digest dec) (dec_verdict dec)
       (decision_reasons dec) (status_of out) a (Some p) = (q, sv_sink sv')" "\<forall>e. r = Inl e \<longleftrightarrow> q = Inl e"
    using service_settle_frame(9) [OF assms(4)] by blast
  moreover have "\<exists>receipt. q = Inr receipt"
    using memory_record_returns [OF assms(2), of "Some p" "dec_digest dec" "dec_verdict dec" "decision_reasons dec"
      "status_of out" a] assms(1,3) q(1) by auto
  ultimately show ?thesis by (cases r) auto
qed

lemma principal_ref_ok [simp]: "is_fingerprint (principal_fingerprint dep c)"
  by (simp add: principal_fingerprint_def)

lemma dispatch_store:
  assumes "service_dispatch dep sv intent dec now g = (result, sv1)"
  shows "gw_store (sv_gateway sv1) k \<noteq> None \<Longrightarrow> gw_store (sv_gateway sv) k = None \<Longrightarrow> k = i_idempotency_key intent"
  using TrueI service_dispatch_frame(1) [OF assms]
  by (cases rule: memory.execute_cases) (auto split: if_splits)

lemma store_answered_settle:
  assumes ok: "store_answered sv" and d: "service_dispatch dep sv intent dec now g = (result, sv1)"
    and "service_settle dep sv1 (i_idempotency_key intent) prop dec p now (Some result) a = (r, sv')"
    and "dp_sink dep = memory_sink_ops" and "verify_chain (sv_sink sv)" and "is_fingerprint p"
  shows "store_answered sv'"
proof -
  note frame = service_dispatch_frame [OF d]
  from settle_returns [OF assms(4) _ assms(6,3)] frame(7) assms(5) obtain answer where r: "r = Inr answer" by auto
  show ?thesis
    using service_settle_frame(1,7) [OF assms(3) [unfolded r]] frame(5) ok dispatch_store [OF d]
    by (fastforce simp: store_answered_def)
qed

lemma store_answered_grow:
  assumes "store_answered sv" and "sv_gateway sv' = sv_gateway sv"
    and "\<And>k. sv_reservations sv k \<noteq> None \<Longrightarrow> sv_reservations sv' k \<noteq> None"
  shows "store_answered sv'"
  using assms by (simp add: store_answered_def)

lemma authorize_store_answered:
  assumes sink: "dp_sink dep = memory_sink_ops" "verify_chain (sv_sink sv)"
    and run: "authorize dep sv c request now = (r, sv')" and rok: "request_ok request" and ok: "store_answered sv"
  shows "store_answered sv'"
  using run rok
proof (cases rule: authorize_cases)
  case (held k intent rv)
  with ok show ?thesis by (simp add: store_answered_def)
next
  case (undecided k intent e)
  with ok show ?thesis by (simp add: store_answered_def)
next
  case unmappable
  with ok show ?thesis by simp
next
  case (review k intent dec)
  note frame = service_hold_frame [OF review(7,6)]
  show ?thesis by (rule store_answered_grow [OF ok]) (use frame(1,6,7) in \<open>auto split: if_splits\<close>, cases r, auto)
next
  case (denied k intent dec)
  note frame = service_settle_frame [OF denied(7)]
  show ?thesis by (rule store_answered_grow [OF ok]) (use frame(1,6,7) in \<open>auto split: if_splits\<close>, cases r, auto)
next
  case (allowed k intent dec result sv1)
  have key: "i_idempotency_key intent = k" and g: "store_answered (clocked sv now)"
    using allowed(3) ok by (simp_all add: store_answered_def)
  show ?thesis
    by (rule store_answered_settle [OF g allowed(7) allowed(8) [folded key] sink(1)]) (simp_all add: sink(2))
qed

lemma resolve_store_answered:
  assumes sink: "dp_sink dep = memory_sink_ops" "verify_chain (sv_sink sv)"
    and run: "resolve_review dep sv a verdict now = (r, sv')" and reviews: "reviews_ok dep sv" and ok: "store_answered sv"
  shows "store_answered sv'"
  using run reviews
proof (cases rule: resolve_cases)
  case (denied review intent dec q)
  note frame = service_audit_frame [OF denied(5)]
  then show ?thesis using ok by (simp add: store_answered_def)
next
  case (rejected review intent dec reason)
  note frame = resolve_rejected_frame [OF rejected(6)]
  show ?thesis
  proof (rule store_answered_grow [OF ok])
    show "sv_gateway sv' = sv_gateway sv" using frame(1) by simp
    fix k assume k: "sv_reservations sv k \<noteq> None"
    show "sv_reservations sv' k \<noteq> None"
    proof (cases "reason \<in> TERMINAL_REJECTIONS")
      case False
      from frame(5) [OF this] k show ?thesis by simp
    next
      case True
      show ?thesis
      proof (cases r)
        case (Inl e)
        from frame(6) [OF this] k show ?thesis by simp
      next
        case (Inr res)
        from frame(7) [OF True this] k show ?thesis by simp
      qed
    qed
  qed
next
  case (granted review intent dec g)
  let ?sv = "(clocked sv now)\<lparr>sv_consumed := insert a (sv_consumed sv)\<rparr>"
  have start: "store_answered ?sv" using ok by (simp add: store_answered_def)
  have key: "i_idempotency_key intent = pr_reservation_key review" using granted(2) by simp
  have fp: "is_fingerprint (pr_principal_ref review)"
    using reviews_okD [OF reviews granted(1)] by (simp add: review_ok_def)
  from granted(8) show ?thesis
  proof (cases rule: resolve_granted_frame)
    case (1 result sv1 q sv2)
    have "store_answered sv2"
      by (rule store_answered_settle [OF start 1(1) 1(2) [folded key] sink(1) _ fp]) (simp add: sink(2))
    then show ?thesis using 1(4) by (auto simp: store_answered_def split: sum.splits)
  qed
qed (use ok in \<open>auto simp: store_answered_def\<close>)

section \<open>Answers are about what was proposed\<close>

text \<open>A handle under review was not used by the gateway; a handle that was told \<open>completed\<close> was, and
  for the proposal it stands for.\<close>

definition reviews_unsent :: "'s service \<Rightarrow> bool" where
  "reviews_unsent sv \<longleftrightarrow>
     (\<forall>a review. pending_get (sv_pending sv) a = Some review \<longrightarrow>
        sv_reservations sv (pr_reservation_key review) \<noteq> None
        \<and> gw_store (sv_gateway sv) (pr_reservation_key review) = None)"

definition sent_as :: "date_format \<Rightarrow> memory_store gateway \<Rightarrow> py_str \<Rightarrow> proposal_digest \<Rightarrow> bool" where
  "sent_as fmt gw k prop \<longleftrightarrow>
     (\<exists>intent \<in> set (gw_dispatched gw). i_idempotency_key intent = k \<and> compute_proposal_digest fmt intent = prop)"

definition answers_match :: "'s deployment \<Rightarrow> 's service \<Rightarrow> bool" where
  "answers_match dep sv \<longleftrightarrow>
     (\<forall>k rv. sv_reservations sv k = Some rv \<longrightarrow> ao_status (rv_answer rv) = Completed \<longrightarrow>
        sent_as (dp_format dep) (sv_gateway sv) k (rv_proposal rv))"

definition answers_sound :: "'s deployment \<Rightarrow> 's service \<Rightarrow> bool" where
  "answers_sound dep sv \<longleftrightarrow> store_answered sv \<and> reviews_unsent sv \<and> answers_match dep sv"

lemma sent_as_mono:
  "sent_as fmt gw k prop \<Longrightarrow> set (gw_dispatched gw) \<subseteq> set (gw_dispatched gw') \<Longrightarrow> sent_as fmt gw' k prop"
  by (auto simp: sent_as_def)

text \<open>A step that leaves the gateway alone and does not complete anything.\<close>

lemma answers_match_idle:
  assumes "answers_match dep sv" and "sv_gateway sv' = sv_gateway sv"
    and "\<And>k rv. sv_reservations sv' k = Some rv \<Longrightarrow> sv_reservations sv k = Some rv \<or> ao_status (rv_answer rv) \<noteq> Completed"
  shows "answers_match dep sv'"
  using assms unfolding answers_match_def by metis

lemma reviews_unsent_idle:
  assumes "reviews_unsent sv" and "sv_gateway sv' = sv_gateway sv"
    and "\<And>k. sv_reservations sv k \<noteq> None \<Longrightarrow> sv_reservations sv' k \<noteq> None"
    and "\<And>a review. pending_get (sv_pending sv') a = Some review \<Longrightarrow> pending_get (sv_pending sv) a = Some review
      \<or> sv_reservations sv' (pr_reservation_key review) \<noteq> None \<and> gw_store (sv_gateway sv) (pr_reservation_key review) = None"
  shows "reviews_unsent sv'"
  using assms unfolding reviews_unsent_def by metis

text \<open>A first dispatch under a key, settled: the answer is about the intent sent, and no other review
  has the key.\<close>

lemma dispatch_settle_sound:
  assumes sound: "answers_sound dep sv" and sink: "dp_sink dep = memory_sink_ops" "verify_chain (sv_sink sv)"
    and p: "is_fingerprint p" and k: "i_idempotency_key intent = k"
    and unused: "gw_store (sv_gateway sv) k = None"
    and is_prop: "prop = compute_proposal_digest (dp_format dep) intent"
    and d: "service_dispatch dep sv intent dec now g = (result, sv1)"
    and s: "service_settle dep sv1 k prop dec p now (Some result) a = (r, sv2)"
    and pending: "\<And>b review. pending_get pend b = Some review \<Longrightarrow>
      pending_get (sv_pending sv) b = Some review \<and> pr_reservation_key review \<noteq> k"
    and sv': "sv' = sv2\<lparr>sv_pending := pend\<rparr>"
  shows "answers_sound dep sv'"
proof -
  note frame = service_dispatch_frame [OF d]
  obtain answer where r: "r = Inr answer" using settle_returns [OF sink(1) _ p s] frame(7) sink(2) by auto
  note settled = service_settle_frame(1) [OF s] service_settle_frame(7,8) [OF s [unfolded r] refl]
  have st: "store_answered sv" "reviews_unsent sv" "answers_match dep sv" using sound by (simp_all add: answers_sound_def)
  have "store_answered sv2"
    using store_answered_settle [OF st(1) d s [folded k] sink p] by simp
  moreover have "gw_store (sv_gateway sv1) k' = gw_store (sv_gateway sv) k'" if "k' \<noteq> k" for k'
    using TrueI frame(1) by (cases rule: memory.execute_cases) (use that k in auto)
  then have "reviews_unsent sv'"
    using st(2) pending settled(1,2) frame(5) unfolding reviews_unsent_def sv' by fastforce
  moreover have "answers_match dep sv'"
  proof -
    have sub: "set (gw_dispatched (sv_gateway sv)) \<subseteq> set (gw_dispatched (sv_gateway sv1))"
      using TrueI frame(1) by (cases rule: memory.execute_cases) auto
    have "sent_as (dp_format dep) (sv_gateway sv1) k prop" if "ao_status answer = Completed"
    proof -
      have success: "status_of (Some result) = Some Ex_success"
        using settled(3) that by (auto simp: agent_status_def split: if_splits)
      show ?thesis
        using TrueI frame(1)
        by (cases rule: memory.execute_cases) (use success unused k is_prop in \<open>auto simp: status_of_def sent_as_def\<close>)
    qed
    with st(3) settled(1,2) frame(5) sent_as_mono [OF _ sub] show ?thesis
      by (auto simp: answers_match_def sv' split: if_splits)
  qed
  ultimately show ?thesis by (simp add: answers_sound_def sv' store_answered_def)
qed

lemma authorize_sound:
  assumes sound: "answers_sound dep sv" and sink: "dp_sink dep = memory_sink_ops" "verify_chain (sv_sink sv)"
    and rok: "request_ok request" and run: "authorize dep sv c request now = (r, sv')"
  shows "answers_sound dep sv'"
proof -
  have st: "store_answered sv" "reviews_unsent sv" "answers_match dep sv" using sound by (simp_all add: answers_sound_def)
  note stored = authorize_store_answered [OF sink run rok st(1)]
  from run rok show ?thesis
  proof (cases rule: authorize_cases)
    case (review k intent dec)
    note frame = service_hold_frame [OF review(7,6)]
    have res: "sv_reservations sv' k' = sv_reservations sv k'
        \<or> k' = k \<and> (\<exists>answer. r = Inr answer \<and> ao_status answer = Awaiting_review
            \<and> map_option rv_answer (sv_reservations sv' k) = Some answer)" for k'
      using frame(6,7,8) by (cases r) auto
    have unused: "gw_store (sv_gateway sv) k = None" using st(1) review(4) by (auto simp: store_answered_def)
    obtain answer where r: "r = Inr answer"
    proof -
      obtain q where "audit_record (dp_sink dep) (sv_sink (clocked sv now)) (dec_digest dec) (dec_verdict dec)
          (decision_reasons dec) None None (Some (principal_fingerprint dep c)) = (q, sv_sink sv')"
        "\<forall>e. r = Inl e \<longleftrightarrow> q = Inl e" using frame(9) by blast
      with memory_record_returns [OF sink(2), of "Some (principal_fingerprint dep c)" "dec_digest dec"
          "dec_verdict dec" "decision_reasons dec" None None] sink(1) that show ?thesis by (cases r) auto
    qed
    have "reviews_unsent sv'"
      by (rule reviews_unsent_idle [OF st(2)])
        (use frame(1,3) frame(7) [OF r] unused in \<open>auto simp: pending.get_hold split: if_splits\<close>)
    moreover have "answers_match dep sv'"
      by (rule answers_match_idle [OF st(3)]) (use frame(1) frame(7,8) [OF r] in \<open>auto split: if_splits\<close>)
    ultimately show ?thesis using stored by (simp add: answers_sound_def)
  next
    case (denied k intent dec)
    note frame = service_settle_frame [OF denied(7)]
    obtain answer where r: "r = Inr answer" using settle_returns [OF sink(1) _ principal_ref_ok denied(7)] sink(2) by auto
    have "ao_status answer \<noteq> Completed" using frame(8) [OF r] denied(6) by (simp add: agent_status_def status_of_def)
    then have "answers_match dep sv'"
      by (intro answers_match_idle [OF st(3)]) (use frame(1) frame(7) [OF r] in \<open>auto split: if_splits\<close>)
    moreover have "reviews_unsent sv'"
      by (rule reviews_unsent_idle [OF st(2)]) (use frame(1,3) frame(7) [OF r] in auto)
    ultimately show ?thesis using stored by (simp add: answers_sound_def)
  next
    case (allowed k intent dec result sv1)
    have unused: "gw_store (sv_gateway (clocked sv now)) k = None" using st(1) allowed(4) by (auto simp: store_answered_def)
    have start: "answers_sound dep (clocked sv now)"
      using sound by (simp add: answers_sound_def store_answered_def reviews_unsent_def answers_match_def)
    have other: "pr_reservation_key review \<noteq> k" if "pending_get (sv_pending sv) b = Some review" for b review
      using st(2) [unfolded reviews_unsent_def, rule_format, OF that] allowed(4) by auto
    show ?thesis
      by (rule dispatch_settle_sound [OF start sink(1) _ principal_ref_ok _ unused refl allowed(7,8),
            where pend = "sv_pending sv'"])
        (use sink(2) allowed(3) other service_settle_frame(3) [OF allowed(8)] service_dispatch_frame(3) [OF allowed(7)] in simp_all)
  qed (use sound in \<open>simp_all add: answers_sound_def store_answered_def reviews_unsent_def answers_match_def\<close>)
qed

lemma resolve_sound:
  assumes sound: "answers_sound dep sv" and sink: "dp_sink dep = memory_sink_ops" "verify_chain (sv_sink sv)"
    and reviews: "reviews_ok dep sv" and run: "resolve_review dep sv a verdict now = (r, sv')"
  shows "answers_sound dep sv'"
proof -
  have st: "store_answered sv" "reviews_unsent sv" "answers_match dep sv" using sound by (simp_all add: answers_sound_def)
  note stored = resolve_store_answered [OF sink run reviews st(1)]
  from run reviews show ?thesis
  proof (cases rule: resolve_cases)
    case (denied review intent dec q)
    note frame = service_audit_frame [OF denied(5)]
    with sound show ?thesis by (simp add: answers_sound_def store_answered_def reviews_unsent_def answers_match_def)
  next
    case (rejected review intent dec reason)
    note frame = resolve_rejected_frame [OF rejected(6)]
    have res: "sv_reservations sv' k = sv_reservations sv k
        \<or> (\<exists>rv. sv_reservations sv' k = Some rv \<and> ao_status (rv_answer rv) = Answer_refused)" for k
    proof (cases "reason \<in> TERMINAL_REJECTIONS")
      case False
      from frame(5) [OF this] show ?thesis by simp
    next
      case True
      show ?thesis
      proof (cases r)
        case (Inl e)
        from frame(6) [OF this] show ?thesis by simp
      next
        case (Inr res)
        from frame(7) [OF True this] show ?thesis by (simp add: service_refuse_def Let_def)
      qed
    qed
    have pend: "pending_get (sv_pending sv') b = Some rev' \<Longrightarrow> pending_get (sv_pending sv) b = Some rev'" for b rev'
      using resolve_rejected_pending [OF rejected(6)] by (auto simp: pending.get_release split: if_splits)
    have "sv_reservations sv k \<noteq> None \<Longrightarrow> sv_reservations sv' k \<noteq> None" for k using res [of k] by auto
    then have "reviews_unsent sv'"
      by (intro reviews_unsent_idle [OF st(2)]) (use frame(1) pend in simp_all)
    moreover have "answers_match dep sv'"
    proof (rule answers_match_idle [OF st(3)])
      fix k rv assume "sv_reservations sv' k = Some rv"
      with res [of k] show "sv_reservations sv k = Some rv \<or> ao_status (rv_answer rv) \<noteq> Completed" by auto
    qed (use frame(1) in simp)
    ultimately show ?thesis using stored by (simp add: answers_sound_def)
  next
    case (granted review intent dec g)
    let ?sv = "(clocked sv now)\<lparr>sv_consumed := insert a (sv_consumed sv)\<rparr>"
    let ?k = "pr_reservation_key review"
    note rok = reviews_okD [OF reviews granted(1)]
    have start: "answers_sound dep ?sv"
      using sound by (simp add: answers_sound_def store_answered_def reviews_unsent_def answers_match_def)
    have fp: "is_fingerprint (pr_principal_ref review)" using rok by (simp add: review_ok_def)
    have same: "pa_proposal (pr_approval review) = compute_proposal_digest (dp_format dep) intent"
      using rok granted(2) by (simp add: review_ok_def)
    have unsent: "gw_store (sv_gateway ?sv) ?k = None"
      using st(2) [unfolded reviews_unsent_def, rule_format, OF granted(1)] by simp
    have other: "pr_reservation_key rev' \<noteq> ?k"
      if "pending_get (sv_pending sv) b = Some rev'" "b \<noteq> a" for b rev'
      using reviews_okD [OF reviews that(1)] rok that(2) by (auto simp: review_ok_def)
    from granted(8) show ?thesis
    proof (cases rule: resolve_granted_frame)
      case (1 result sv1 q sv2)
      obtain answer where q: "q = Inr answer"
        using settle_returns [OF sink(1) _ fp 1(2)] service_dispatch_frame(7) [OF 1(1)] sink(2) by auto
      have pend: "sv_pending sv2 = sv_pending sv"
        using service_settle_frame(3) [OF 1(2)] service_dispatch_frame(3) [OF 1(1)] by simp
      show ?thesis
        by (rule dispatch_settle_sound [OF start sink(1) _ fp _ unsent same 1(1,2), where pend = "pending_release (sv_pending sv2) a"])
          (use sink(2) granted(2) 1(4) q pend other in \<open>auto simp: pending.get_release split: if_splits\<close>)
    qed
  qed (use sound in \<open>simp_all add: answers_sound_def store_answered_def reviews_unsent_def answers_match_def\<close>)
qed

lemma reachable_answers_sound:
  assumes "reachable dep w [] sv" and sink: "dp_sink dep = memory_sink_ops"
  shows "answers_sound dep sv"
proof -
  have "runs dep (service_init w []) sv" using assms(1) by (simp add: reachable_def)
  then show ?thesis
  proof (induction rule: runs.induct)
    case runs_refl
    show ?case
      by (simp add: answers_sound_def store_answered_def reviews_unsent_def answers_match_def service_init_def pending_get_def)
  next
    case (runs_authorize sv request c now r sv')
    have "verify_chain (sv_sink sv)"
      by (rule reachable_memory_chain [where w = w, OF _ sink]) (simp add: reachable_def runs_authorize(1))
    with runs_authorize show ?case by (blast intro: authorize_sound [OF _ sink])
  next
    case (runs_resolve sv a verdict now r sv')
    have "verify_chain (sv_sink sv)"
      by (rule reachable_memory_chain [where w = w, OF _ sink]) (simp add: reachable_def runs_resolve(1))
    moreover have "reviews_ok dep sv" using runs_reviews_ok [OF runs_resolve(1)] by simp
    ultimately show ?case using runs_resolve by (blast intro: resolve_sound [OF _ sink])
  qed
qed

lemma reachable_store_answered: "reachable dep w [] sv \<Longrightarrow> dp_sink dep = memory_sink_ops \<Longrightarrow> store_answered sv"
  using reachable_answers_sound by (auto simp: answers_sound_def)

section \<open>What a fresh proposal is answered\<close>

definition rail_succeeds :: "rail_answer \<Rightarrow> bool" where
  "rail_succeeds answer \<longleftrightarrow> (\<exists>result. answer = Rail_returns result \<and> rr_status result = Ex_success)"

lemma outcome_success: "eo_status (outcome_of digest answer) = Ex_success \<longleftrightarrow> rail_succeeds answer"
  by (cases answer) (auto simp: rail_succeeds_def)

lemma authorize_answers:
  assumes reach: "reachable dep w [] sv" and sink: "dp_sink dep = memory_sink_ops"
    and rok: "request_ok request" "mappable request" and k: "k = reservation_key_of dep c (rq_request_ref request)"
    and fresh: "sv_reservations sv k = None" "sv_now_floor sv \<le> now"
    and dec: "service_decide dep (clocked sv now) (completed request k now) now = Inr dec"
    and run: "authorize dep sv c request now = (r, sv')"
  obtains answer where "r = Inr answer"
    "case dec_verdict dec of
       Allow \<Rightarrow> gw_dispatched (sv_gateway sv') = gw_dispatched (sv_gateway sv) @ [completed request k now]
         \<and> ao_status answer = (if rail_succeeds (dp_rail dep (gw_dispatched (sv_gateway sv)) (completed request k now))
              then Completed else Answer_refused)
     | Review \<Rightarrow> gw_dispatched (sv_gateway sv') = gw_dispatched (sv_gateway sv) \<and> ao_status answer = Awaiting_review
         \<and> pending_get (sv_pending sv') (fingerprint (dp_key dep) APPROVAL_DOMAIN k) \<noteq> None
     | Deny \<Rightarrow> gw_dispatched (sv_gateway sv') = gw_dispatched (sv_gateway sv) \<and> ao_status answer = Answer_refused"
proof -
  have chain: "verify_chain (sv_sink sv)" using reachable_memory_chain [OF reach sink] .
  have now: "max now (sv_now_floor sv) = now" using fresh(2) by simp
  show ?thesis
  proof (cases "dec_verdict dec")
    case Allow
    have store: "gw_store (sv_gateway sv) k = None"
      using reachable_store_answered [OF reach sink] fresh(1) by (auto simp: store_answered_def)
    show ?thesis
    proof (rule authorize_allowed [OF rok k fresh(1) store fresh(2) dec Allow run])
      fix outcome q
      assume o: "outcome = outcome_of (dec_digest dec)
         (dp_rail dep (gw_dispatched (sv_gateway sv)) (completed request k now))"
        and sent: "gw_dispatched (sv_gateway sv') = gw_dispatched (sv_gateway sv) @ [completed request k now]"
        and rec: "audit_record (dp_sink dep) (sv_sink sv) (dec_digest dec) Allow (decision_reasons dec)
         (Some (eo_status outcome)) None (Some (principal_fingerprint dep c)) = (q, sv_sink sv')"
        and q: "\<forall>e. r = Inl e \<longleftrightarrow> q = Inl e"
        and ans: "\<And>answer. r = Inr answer \<Longrightarrow>
         ao_status answer = (if eo_status outcome = Ex_success then Completed else Answer_refused)"
      have "\<exists>receipt. q = Inr receipt"
        using memory_record_returns [OF chain, of "Some (principal_fingerprint dep c)" "dec_digest dec" Allow
          "decision_reasons dec" "Some (eo_status outcome)" None] rec sink by auto
      then obtain answer where r: "r = Inr answer" using q by (cases r) auto
      show ?thesis by (rule that [OF r]) (use sent ans [OF r] o Allow in \<open>simp add: outcome_success\<close>)
    qed
  next
    case Review
    from run rok(1) show ?thesis
    proof (cases rule: authorize_cases)
      case (review k' intent dec')
      have same: "k' = k" "dec' = dec" using review(2,3,5) k dec now by auto
      note frame = service_hold_frame [OF review(7,6)]
      obtain q where q: "audit_record (dp_sink dep) (sv_sink sv) (dec_digest dec) (dec_verdict dec)
         (decision_reasons dec) None None (Some (principal_fingerprint dep c)) = (q, sv_sink sv')"
        "\<forall>e. r = Inl e \<longleftrightarrow> q = Inl e"
        using frame(9) same by auto
      have "\<exists>receipt. q = Inr receipt"
        using memory_record_returns [OF chain, of "Some (principal_fingerprint dep c)" "dec_digest dec" "dec_verdict dec"
          "decision_reasons dec" None None] q(1) sink by auto
      then obtain answer where r: "r = Inr answer" using q(2) by (cases r) auto
      show ?thesis
        by (rule that [OF r]) (use frame(1,3) frame(8) [OF r] same Review in \<open>simp add: pending.get_hold\<close>)
    qed (use Review k fresh dec now rok(2) in auto)
  next
    case Deny
    from run rok(1) show ?thesis
    proof (cases rule: authorize_cases)
      case (denied k' intent dec')
      note frame = service_settle_frame [OF denied(7)]
      obtain answer where r: "r = Inr answer"
        using settle_returns [OF sink _ principal_ref_ok denied(7)] chain by auto
      show ?thesis
        by (rule that [OF r]) (use frame(1) frame(8) [OF r] denied(6) Deny in \<open>simp add: agent_status_def status_of_def\<close>)
    qed (use Deny k fresh dec now rok(2) in auto)
  qed
qed

text \<open>What \<open>completed\<close> says: the proposal was sent under the handle, and the rail accepted it then.\<close>

definition sent_and_accepted ::
  "'s deployment \<Rightarrow> 's service \<Rightarrow> py_str \<Rightarrow> proposal_digest \<Rightarrow> bool" where
  "sent_and_accepted dep sv k prop \<longleftrightarrow>
     (\<exists>j < length (gw_dispatched (sv_gateway sv)).
        let sent = gw_dispatched (sv_gateway sv)
        in i_idempotency_key (sent ! j) = k \<and> compute_proposal_digest (dp_format dep) (sent ! j) = prop
           \<and> rail_succeeds (dp_rail dep (take j sent) (sent ! j)))"

lemma completed_reserved:
  assumes run: "authorize dep sv c request now = (Inr answer, sv')" and rok: "request_ok request"
    and status: "ao_status answer = Completed" and k: "k = reservation_key_of dep c (rq_request_ref request)"
  shows "\<exists>rv. sv_reservations sv' k = Some rv \<and> rv_answer rv = answer
    \<and> rv_proposal rv = compute_proposal_digest (dp_format dep) (completed request k now)"
  using run rok
proof (cases rule: authorize_cases)
  case unmappable
  with status show ?thesis by (simp add: service_refuse_def Let_def)
next
  case (held k' intent rv)
  with status k show ?thesis by (auto simp: service_refuse_def Let_def split: if_splits)
next
  case (review k' intent dec)
  with service_hold_frame(8) [OF review(7,6) refl] status show ?thesis by simp
next
  case (denied k' intent dec)
  with service_settle_frame(8) [OF denied(7) refl] status show ?thesis by (simp add: agent_status_def status_of_def)
next
  case (allowed k' intent dec result sv1)
  with service_settle_frame(7) [OF allowed(8) refl] k show ?thesis by simp
next
  case (undecided k' intent e)
  then show ?thesis by simp
qed

lemma completed_was_sent:
  assumes reach: "reachable dep w [] sv" and sink: "dp_sink dep = memory_sink_ops" and rok: "request_ok request"
    and run: "authorize dep sv c request now = (Inr answer, sv')" and status: "ao_status answer = Completed"
    and k: "k = reservation_key_of dep c (rq_request_ref request)"
  shows "sent_and_accepted dep sv' k (compute_proposal_digest (dp_format dep) (completed request k now))"
proof -
  let ?sent = "gw_dispatched (sv_gateway sv')"
  have reach': "reachable dep w [] sv'" using reachable_authorize [OF reach rok, of c now] run by simp
  obtain rv where rv: "sv_reservations sv' k = Some rv" "rv_answer rv = answer"
    "rv_proposal rv = compute_proposal_digest (dp_format dep) (completed request k now)"
    using completed_reserved [OF run rok status k] by blast
  then have "sent_as (dp_format dep) (sv_gateway sv') k (rv_proposal rv)"
    using reachable_answers_sound [OF reach' sink] status unfolding answers_sound_def answers_match_def by blast
  then obtain j where j: "j < length ?sent" "i_idempotency_key (?sent ! j) = k"
    "compute_proposal_digest (dp_format dep) (?sent ! j) = rv_proposal rv"
    unfolding sent_as_def by (metis in_set_conv_nth)
  obtain outcome where "gw_store (sv_gateway sv') k = Some (Some outcome)" "eo_status outcome = Ex_success"
    using reachable_grounded [OF reach'] rv status by (auto simp: answers_grounded_def answer_grounded_def)
  moreover obtain digest where "gw_store (sv_gateway sv') k
      = Some (Some (outcome_of digest (dp_rail dep (take j ?sent) (?sent ! j))))"
    using reachable_outcomes [OF reach'] j(1,2) unfolding outcomes_recorded_def by blast
  ultimately have "rail_succeeds (dp_rail dep (take j ?sent) (?sent ! j))"
    by (simp add: outcome_success [symmetric, of _ digest])
  with j rv(3) show ?thesis by (auto simp: sent_and_accepted_def Let_def)
qed

lemma admitted_unique:
  "admitted dc a i req dep sv uri request \<Longrightarrow> admitted dc a i req dep' sv' uri' request' \<Longrightarrow>
     dep' = dep \<and> sv' = sv \<and> uri' = uri \<and> request' = request"
  by (auto simp: admitted_def)

text \<open>An admitted request is one call of the service, whose answer is sent with status 200.\<close>

definition answer_payload :: "date_format \<Rightarrow> authorization_outcome \<Rightarrow> json" where
  "answer_payload fmt answer =
     JObj [(''wire_version'', JInt WIRE_VERSION), (''outcome'', outcome_json fmt answer)]"

lemma serve_agent_admitted:
  assumes "gateway_identity rt (gc_allowlist (ps_config p)) c = Inr ident"
    and adm: "admitted dc (ps_authorization p) ident req dep sv uri request"
  shows "serve_agent rt dc p c req now =
    (map_sum id (\<lambda>answer. respond 200 (answer_payload (dp_format dep) answer)) (fst (authorize dep sv uri request now)),
     p\<lparr>ps_authorization := Some (dep, snd (authorize dep sv uri request now))\<rparr>)"
proof -
  from adm have "\<exists>dep sv uri request. admitted dc (ps_authorization p) ident req dep sv uri request" by blast
  with gateway_post_shape [of dc "ps_authorization p" ident req now] adm
  have "gateway_post dc (ps_authorization p) ident req now =
    (map_sum id (\<lambda>answer. respond 200 (answer_payload (dp_format dep) answer)) (fst (authorize dep sv uri request now)),
     Some (dep, snd (authorize dep sv uri request now)))"
    unfolding answer_payload_def by (auto dest!: admitted_unique [OF adm])
  with assms(1) show ?thesis by (simp add: serve_agent_def)
qed

section \<open>Properties\<close>

text \<open>What a process with a rail does with a fresh proposal, by the total it would bring the window to.\<close>

definition answered_by_total ::
  "'s deployment \<Rightarrow> 's service \<Rightarrow> 's service \<Rightarrow> bool \<Rightarrow> transaction_intent \<Rightarrow> datetime \<Rightarrow> authorization_outcome \<Rightarrow> bool" where
  "answered_by_total dep sv sv' review_band intent now answer \<longleftrightarrow>
     (let sent = gw_dispatched (sv_gateway sv); sent' = gw_dispatched (sv_gateway sv');
          total = spent (sv_ledger sv) (key_from_intent intent) now + d_value_upper_minor (i_dimensions intent)
      in if d_quote_currency (i_dimensions intent) \<noteq> USD \<or> REFERENCE_LIMIT_MINOR < total
         then sent' = sent \<and> ao_status answer = Answer_refused
         else if review_band \<and> REFERENCE_REVIEW_ABOVE_MINOR < total
         then sent' = sent \<and> ao_status answer = Awaiting_review
           \<and> pending_get (sv_pending sv') (fingerprint (dp_key dep) APPROVAL_DOMAIN (i_idempotency_key intent)) \<noteq> None
         else sent' = sent @ [intent]
           \<and> ao_status answer = (if rail_succeeds (dp_rail dep sent intent) then Completed else Answer_refused))"

lemma demo_admitted:
  "admitted demo_decoders (ps_authorization demo_process) (Derived ''spiffe://bank/agent'') demo_post
     (reference_deployment demo_surroundings demo_settings True) (service_init 3600 []) ''spiffe://bank/agent''
     (demo_request 5000)"
proof -
  have "py_int ''0'' = Some 0" by (simp add: text_evaluation)
  then have "read_body demo_decoders MAX_AUTHORIZE_BODY_BYTES demo_post
      = Inr [(''wire_version'', L_int 1), (''request'', L_null)]"
    by (simp add: read_body_def demo_post_def demo_decoders_def MAX_AUTHORIZE_BODY_BYTES_def)
  then show ?thesis
    by (simp add: admitted_def demo_process_def demo_post_def names_no_principal_def PRINCIPAL_FIELDS_def
        dict_get_def speaks_version_one_def) (simp add: demo_decoders_def)
qed

lemma demo_rail: "rail_succeeds (dp_rail (reference_deployment demo_surroundings demo_settings b) sent intent)"
  by (simp add: rail_succeeds_def http_rail_def demo_surroundings_def status_for_def)



section \<open>Where a receipt is lost\<close>

lemma demo_decides:
  assumes "ledger_ok (sv_ledger sv)" and "wl_window_seconds (sv_ledger sv) = 3600" and "intent_ok intent"
    and "d_quote_currency (i_dimensions intent) = USD"
  shows "\<exists>dec. service_decide (demo_deployment sink) sv intent now = Inr dec \<and> dec_verdict dec =
    (let total = spent (sv_ledger sv) (key_from_intent intent) now + d_value_upper_minor (i_dimensions intent)
     in if 50000 < total then Deny else if 20000 < total then Review else Allow)"
proof -
  let ?a = "window_aggregate_at (sv_ledger sv) (key_from_intent intent) now"
  have "context_ok \<lparr>pc_window_aggregate = Some ?a\<rparr>" using assms(1) by (simp add: context_ok_def ledger_ok_aggregate)
  from decide_deployment [OF demo_limit_ok this assms(3), of int_str] obtain dec where
    "service_decide (demo_deployment sink) sv intent now = Inr dec"
    "dec_verdict dec = deployment_verdict demo_limit intent \<lparr>pc_window_aggregate = Some ?a\<rparr>"
    by (auto simp: service_decide_def Let_def)
  moreover have "applicable demo_limit intent \<lparr>pc_window_aggregate = Some ?a\<rparr> = Some ?a"
    using assms(2) by (simp add: applicable_def window_aggregate_at_def demo_limit_def)
  ultimately show ?thesis
    using assms(4) by (simp add: deployment_verdict_def amount_band_def prospective_def spent_def Let_def demo_limit_def)
qed

text \<open>A sink that is down for its first write.\<close>

definition flaky_sink_ops :: "(bool \<times> memory_sink) sink_ops" where
  "flaky_sink_ops =
     \<lparr>sk_append = (\<lambda>(down, rs) r. if down then (False, (False, rs)) else (True, (False, rs @ [r]))), sk_entries = snd\<rparr>"

interpretation flaky: audit_sink flaky_sink_ops "\<lambda>_. True"
  by unfold_locales (auto simp: flaky_sink_ops_def split: if_splits)

lemma flaky_down:
  assumes "audit_record flaky_sink_ops (True, []) d v rs st a (Some p) = (q, s)" and "is_fingerprint p"
  shows "q = Inl Sink_Error \<and> s = (False, [])"
proof -
  have "hex64 GENESIS_HASH" by (simp add: GENESIS_HASH_def hex64_def is_hex_char_def)
  with assms show ?thesis
    by (auto simp: audit_record_def flaky_sink_ops_def Let_def mk_receipt_def receipt_ok_def content_hash_def
        split: if_splits option.splits)
qed

lemma flaky_up: "is_fingerprint p \<Longrightarrow> \<exists>receipt s. audit_record flaky_sink_ops (False, []) d v rs st a (Some p) = (Inr receipt, s)"
proof -
  assume "is_fingerprint p"
  then obtain receipt where "audit_record memory_sink_ops [] d v rs st a (Some p) = (Inr receipt, [receipt])"
    using memory_record_returns [of "[]" "Some p" d v rs st a] by (auto simp: verify_chain_def)
  then have "audit_record flaky_sink_ops (False, []) d v rs st a (Some p) = (Inr receipt, (False, [receipt]))"
    by (auto simp: audit_record_def flaky_sink_ops_def memory_sink_ops_def Let_def split: sum.splits)
  then show ?thesis by blast
qed

lemma authorize_raises:
  assumes "authorize dep sv c request now = (Inl e, sv')" and "request_ok request"
  shows "sv_reservations sv' = sv_reservations sv"
  using assms
proof (cases rule: authorize_cases)
  case (review k intent dec)
  with service_hold_frame(6) [OF review(7,6) refl] show ?thesis by simp
next
  case (denied k intent dec)
  with service_settle_frame(6) [OF denied(7) refl] show ?thesis by simp
next
  case (allowed k intent dec result sv1)
  with service_settle_frame(6) [OF allowed(8) refl] service_dispatch_frame(5) [OF allowed(7)] show ?thesis by simp
qed simp_all

text \<open>[C24] A handle whose receipt was lost answers for another proposal. When a handle was used by the
  gateway but has no answer, because the sink raised after the dispatch, any allowed proposal under
  it is told \<open>completed\<close> once the recorded outcome is a success and the sink works again: nothing is
  sent, and the amount that is told completed, and counted in the window, is not the amount that moved.\<close>

theorem lost_receipt_answers_another:
  assumes "request_ok request" and "mappable request" and "k = reservation_key_of dep c (rq_request_ref request)"
    and "sv_reservations sv k = None" and "gw_store (sv_gateway sv) k = Some (Some outcome)"
    and "eo_status outcome = Ex_success" and "sv_now_floor sv \<le> now"
    and "service_decide dep (clocked sv now) (completed request k now) now = Inr dec" and "dec_verdict dec = Allow"
    and "\<And>d v rs st a p. is_fingerprint p \<Longrightarrow>
      \<exists>receipt s. audit_record (dp_sink dep) (sv_sink sv) d v rs st a (Some p) = (Inr receipt, s)"
  shows "\<exists>answer sv'. authorize dep sv c request now = (Inr answer, sv') \<and> ao_status answer = Completed
    \<and> gw_dispatched (sv_gateway sv') = gw_dispatched (sv_gateway sv)
    \<and> sv_ledger sv' = window_record (sv_ledger sv) (key_from_intent (completed request k now)) (rq_amount_minor request) now"
proof -
  obtain r sv' where run: "authorize dep sv c request now = (r, sv')" by fastforce
  from run assms(1) show ?thesis
  proof (cases rule: authorize_cases)
    case (allowed k' intent dec' result sv1)
    have same: "k' = k" "intent = completed request k now" "dec' = dec" and now: "max now (sv_now_floor sv) = now"
      using allowed(2,3,5) assms(3,7,8) by (auto simp: max_def)
    note frame = service_settle_frame [OF allowed(8)] and d = service_dispatch_frame [OF allowed(7)]
    have "dec_digest dec = compute_digest (dp_format dep) intent"
      using assms(8) same by (auto simp: service_decide_def Let_def dest: decide_digest)
    then have perm: "permitted (dp_format dep) intent dec None now"
      using assms(9) same by (simp add: permitted_def)
    have exec: "execute (dp_format dep) memory_ops (dp_rail dep) (sv_gateway sv) intent dec None now
        = (result, sv_gateway sv1)" using d(1) now same by simp
    have res: "result = Executed outcome" "gw_dispatched (sv_gateway sv1) = gw_dispatched (sv_gateway sv)"
      using TrueI exec by (cases rule: memory.execute_cases; use perm assms(5) same in auto)+
    obtain q where "audit_record (dp_sink dep) (sv_sink sv1) (dec_digest dec') (dec_verdict dec')
        (decision_reasons dec') (status_of (Some result)) None (Some (principal_fingerprint dep c)) = (q, sv_sink sv')"
      "\<forall>e. r = Inl e \<longleftrightarrow> q = Inl e" using frame(9) by blast
    moreover have "sv_sink sv1 = sv_sink sv" using d(7) by simp
    moreover obtain receipt s where "audit_record (dp_sink dep) (sv_sink sv) (dec_digest dec') (dec_verdict dec')
        (decision_reasons dec') (status_of (Some result)) None (Some (principal_fingerprint dep c)) = (Inr receipt, s)"
      using assms(10) [OF principal_ref_ok] by blast
    ultimately obtain answer where r: "r = Inr answer" by (cases r) auto
    have "ao_status answer = Completed"
      using frame(8) [OF r] res(1) assms(6,9) same by (simp add: agent_status_def status_of_def)
    moreover have "counts result" using res(1) assms(6) by (simp add: counts_def)
    ultimately show ?thesis using run r frame(1,2) d(2) res(2) same now by auto
  qed (use assms in \<open>auto simp: max_def\<close>)
qed

theorem lost_receipt_answers_another_witness:
  "\<exists>sv sv' e answer. reachable (demo_deployment flaky_sink_ops) 3600 (True, []) sv
     \<and> authorize (demo_deployment flaky_sink_ops) (demo_start (True, [])) ''agent'' (demo_request 5000) 0 = (Inl e, sv)
     \<and> authorize (demo_deployment flaky_sink_ops) sv ''agent'' (demo_request 7000) 1 = (Inr answer, sv')
     \<and> ao_status answer = Completed
     \<and> map (\<lambda>i. d_value_upper_minor (i_dimensions i)) (gw_dispatched (sv_gateway sv')) = [5000]"
proof (rule demo_sent [of flaky_sink_ops "(True, [])"])
  let ?dep = "demo_deployment flaky_sink_ops" and ?r2 = "demo_request 7000"
  let ?start = "demo_start (True, []) :: (bool \<times> memory_sink) service"
  let ?i = "completed (demo_request 5000) demo_key 0" and ?j = "completed ?r2 demo_key 1"
  fix r sv q
  assume run: "authorize ?dep (demo_start (True, [])) ''agent'' (demo_request 5000) 0 = (r, sv)"
    and sent: "gw_dispatched (sv_gateway sv) = [?i]" and reach: "reachable ?dep 3600 (True, []) sv"
    and q: "\<forall>e. r = Inl e \<longleftrightarrow> q = Inl e"
    and rec: "\<exists>reasons. audit_record flaky_sink_ops (True, []) (compute_digest int_str ?i) Allow
       reasons (Some Ex_success) None (Some (principal_fingerprint ?dep ''agent'')) = (q, sv_sink sv)"
  have rok: "request_ok (demo_request 5000)" "mappable (demo_request 5000)" "request_ok ?r2" "mappable ?r2"
    using demo_request_ok by auto
  have lost: "r = Inl Sink_Error" "sv_sink sv = (False, [])" using rec q flaky_down by fastforce+
  have none: "sv_reservations sv demo_key = None" using authorize_raises [OF run [unfolded lost(1)] rok(1)] by simp
  have "outcomes_recorded (dp_rail ?dep) (sv_gateway sv)" using reachable_outcomes [OF reach] .
  then obtain digest where stored: "gw_store (sv_gateway sv) demo_key = Some (Some (outcome_of digest (dp_rail ?dep [] ?i)))"
    using sent by (auto simp: outcomes_recorded_def)
  have success: "eo_status (outcome_of digest (dp_rail ?dep [] ?i)) = Ex_success" by (simp add: demo_deployment_def)
  have moved: "sv_now_floor sv = 0 \<and> (sv_ledger sv = sv_ledger ?start
      \<or> sv_ledger sv = window_record (sv_ledger ?start) (key_from_intent ?i) 5000 0)"
    using run rok(1)
  proof (cases rule: authorize_money)
    case idle
    with sent show ?thesis by simp
  next
    case (moves intent dec)
    have "intent = ?i" by (simp add: moves(3) demo_key_of)
    have amount: "rq_amount_minor (demo_request 5000) = 5000" by (simp add: demo_request_def)
    from moves(1) show ?thesis
      by (cases rule: money_movesE)
        (use moves(2) \<open>intent = ?i\<close> amount in \<open>auto simp: DATETIME_MIN_def seconds_def\<close>)
  qed
  have ok: "ledger_ok (sv_ledger (clocked sv 1))" "wl_window_seconds (sv_ledger (clocked sv 1)) = 3600"
    using moved by (auto simp: service_init_def ledger_ok_record) (simp_all add: ledger_ok_def)
  have j: "intent_ok ?j" by (rule completed_ok [OF rok(3)]) (simp add: demo_key_def)
  have usd: "d_quote_currency (i_dimensions ?j) = USD" "d_value_upper_minor (i_dimensions ?j) = 7000"
    by (simp_all add: demo_request_def)
  have "spent (sv_ledger (clocked sv 1)) (key_from_intent ?j) 1 \<le> 5000"
    using moved
    by (auto simp: spent_record) (simp_all add: service_init_def spent_def window_aggregate_at_def inside_window_def)
  with demo_decides [OF ok j usd(1), of flaky_sink_ops 1] usd(2) obtain dec where
    dec: "service_decide ?dep (clocked sv 1) ?j 1 = Inr dec" "dec_verdict dec = Allow"
    by (auto simp: Let_def split: if_splits)
  have up: "\<And>d v rs st a p. is_fingerprint p \<Longrightarrow>
      \<exists>receipt s. audit_record (dp_sink ?dep) (sv_sink sv) d v rs st a (Some p) = (Inr receipt, s)"
    using flaky_up lost(2) by simp
  have floor: "sv_now_floor sv \<le> 1" using moved by simp
  from lost_receipt_answers_another [OF rok(3,4) demo_key_of [symmetric] none stored success floor dec up]
  show ?thesis using reach run lost(1) sent by (auto simp: demo_request_def)
qed

end
