(* ===== verification/Client_Gateway.thy ===== *)
theory Client_Gateway
  imports Client Service_Answers
begin

text \<open>
  The two ends of the wire together. The vocabularies that \<open>secondsign_client\<close> and the core declare
  apart are the same, and an agent's call through the client, over the connection it has, into the
  handler of a served process and back, is the call of the authorization service, or a refusal.

  What the two packages rely on is the locale \<open>wire_ends\<close>: that the JSON text one end writes is read
  back by the other, that a valid request validates and that a written datetime is read. It is
  interpreted by the readers of theories \<open>Json_Read\<close> and \<open>Wire\<close>.
\<close>

section \<open>The two vocabularies\<close>

fun core_action :: "wire_action \<Rightarrow> action_class" where
  "core_action Wire_payment = Act_payment"
| "core_action Wire_refund = Act_refund"
| "core_action Wire_payout = Act_payout"
| "core_action Wire_transfer = Act_transfer"
| "core_action Wire_trade = Act_trade"
| "core_action Wire_account_change = Act_account_change"

fun core_rail :: "wire_rail \<Rightarrow> rail_class" where
  "core_rail Wire_card = Rail_card"
| "core_rail Wire_bank_transfer = Rail_bank_transfer"
| "core_rail Wire_wallet = Rail_wallet"
| "core_rail Wire_brokerage = Rail_brokerage"
| "core_rail Wire_other = Rail_other"

fun core_currency :: "wire_currency \<Rightarrow> currency" where
  "core_currency Wire_USD = USD"
| "core_currency Wire_EUR = EUR"
| "core_currency Wire_GBP = GBP"
| "core_currency Wire_JPY = JPY"
| "core_currency Wire_CHF = CHF"
| "core_currency Wire_CAD = CAD"
| "core_currency Wire_AUD = AUD"
| "core_currency Wire_CNY = CNY"
| "core_currency Wire_HKD = HKD"
| "core_currency Wire_SGD = SGD"

fun core_reversibility :: "wire_reversibility \<Rightarrow> reversibility" where
  "core_reversibility Wire_irreversible = Irreversible"
| "core_reversibility Wire_delayed_reversible = Delayed_reversible"
| "core_reversibility Wire_reversible = Reversible"

fun client_status :: "agent_outcome_status \<Rightarrow> wire_status" where
  "client_status Completed = Wire_completed"
| "client_status Answer_refused = Wire_refused"
| "client_status Awaiting_review = Wire_awaiting_review"

fun client_reason :: "reason_code \<Rightarrow> wire_reason" where
  "client_reason velocity_limit = Wire_velocity_limit"
| "client_reason counterparty_risk = Wire_counterparty_risk"
| "client_reason jurisdiction_restricted = Wire_jurisdiction_restricted"
| "client_reason market_session_closed = Wire_market_session_closed"
| "client_reason value_band_exceeded = Wire_value_band_exceeded"
| "client_reason new_counterparty = Wire_new_counterparty"
| "client_reason org_policy = Wire_org_policy"
| "client_reason plugin_error = Wire_plugin_error"
| "client_reason plugin_contract_mismatch = Wire_plugin_contract_mismatch"
| "client_reason plugin_invalid_result = Wire_plugin_invalid_result"

definition core_request :: "wire_request \<Rightarrow> authorization_request" where
  "core_request q =
     \<lparr>rq_action = core_action (wq_action q), rq_rail = core_rail (wq_rail q),
      rq_currency = core_currency (wq_currency q), rq_amount_minor = wq_amount_minor q,
      rq_reversibility = core_reversibility (wq_reversibility q), rq_counterparty_ref = wq_counterparty_ref q,
      rq_source_account_ref = wq_source_account_ref q, rq_request_ref = wq_request_ref q\<rparr>"

definition client_outcome :: "authorization_outcome \<Rightarrow> wire_outcome" where
  "client_outcome answer =
     \<lparr>wo_status = client_status (ao_status answer), wo_decision_ref = ao_decision_ref answer,
      wo_decided_at = ao_decided_at answer, wo_reasons = map client_reason (ao_reasons answer)\<rparr>"

lemma same_values [simp]:
  "action_value (core_action a) = wire_action_value a" "rail_value (core_rail r) = wire_rail_value r"
  "currency_value (core_currency c) = wire_currency_value c"
  "reversibility_value (core_reversibility v) = wire_reversibility_value v"
  "wire_status_value (client_status s) = agent_status_value s" "wire_reason_value (client_reason e) = reason_value e"
  by ((cases a; simp), (cases r; simp), (cases c; simp), (cases v; simp), (cases s; simp), (cases e; simp))

lemma wire_fingerprint_iff [simp]: "wire_fingerprint = is_fingerprint"
  by (rule ext) (simp add: wire_fingerprint_def is_fingerprint_def)

lemma core_request_ok: "wire_request_ok q \<Longrightarrow> request_ok (core_request q)"
  by (simp add: wire_request_ok_def request_ok_def core_request_def)

lemma wire_request_json_core:
  "wire_request_json q = JObj [(''wire_version'', JInt WIRE_VERSION), (''request'', request_json (core_request q))]"
  by (simp add: wire_request_json_def request_json_def core_request_def CLIENT_WIRE_VERSION_def WIRE_VERSION_def)

lemma core_onto:
  "\<exists>a. core_action a = b1" "\<exists>a. core_rail a = b2" "\<exists>a. core_currency a = b3" "\<exists>a. core_reversibility a = b4"
  by ((cases b1; metis core_action.simps), (cases b2; metis core_rail.simps), (cases b3; metis core_currency.simps),
    (cases b4; metis core_reversibility.simps))

lemma client_onto: "\<exists>a. client_status a = b1" "\<exists>a. client_reason a = b2"
  by ((cases b1; metis client_status.simps), (cases b2; metis client_reason.simps))

lemma same_range:
  fixes f :: "'a \<Rightarrow> 'b" and g :: "'b \<Rightarrow> 'c" and h :: "'a \<Rightarrow> 'c"
  assumes "\<And>b. \<exists>a. f a = b" and "\<And>a. g (f a) = h a"
  shows "range h = range g"
proof -
  have "range f = UNIV" using assms(1) by (metis surjI surj_def)
  then have "range g = range (g \<circ> f)" by (metis image_comp)
  then show ?thesis using assms(2) by (simp add: comp_def)
qed

section \<open>The length of a request\<close>

lemma utf8_length: "length (utf8 s) \<le> 2 * length s"
proof (induction s)
  case (Cons c s)
  have "length (utf8_char c) \<le> 2" by (simp add: utf8_char_def Let_def)
  with Cons show ?case by (simp add: utf8_Cons)
qed simp

lemma json_str_length: "length (json_str s) \<le> 6 * length s + 2"
proof -
  have "length (concat (map escape_char s)) \<le> 6 * length s"
  proof (induction s)
    case (Cons c s)
    have "length (escape_char c) \<le> 6" by (simp add: escape_char_def)
    with Cons show ?case by simp
  qed simp
  then show ?thesis by (simp add: json_str_def)
qed

lemma int_str_length: "numeral_ok i \<Longrightarrow> length (int_str i) \<le> 4301"
  by (auto simp: int_str_def numeral_ok_def MAX_STR_DIGITS_def abs_if split: if_splits)

lemma wire_value_length:
  "length (wire_action_value a) \<le> 20" "length (wire_rail_value r) \<le> 20"
  "length (wire_currency_value c) \<le> 20" "length (wire_reversibility_value v) \<le> 20"
  by ((cases a; simp), (cases r; simp), (cases c; simp), (cases v; simp))

lemma fingerprint_length: "is_fingerprint s \<Longrightarrow> length s \<le> 67"
  by (auto simp: is_fingerprint_def hex64_def)

lemma body_length:
  assumes "wire_request_ok q" and "numeral_ok (wq_amount_minor q)"
  shows "length (wire_request_body q) \<le> 24000"
proof -
  note bounds = json_str_length [of "wire_action_value (wq_action q)"] json_str_length [of "wire_rail_value (wq_rail q)"]
    json_str_length [of "wire_currency_value (wq_currency q)"]
    json_str_length [of "wire_reversibility_value (wq_reversibility q)"]
    json_str_length [of "wq_counterparty_ref q"] json_str_length [of "wq_source_account_ref q"]
    json_str_length [of "wq_request_ref q"]
    wire_value_length(1) [of "wq_action q"] wire_value_length(2) [of "wq_rail q"]
    wire_value_length(3) [of "wq_currency q"] wire_value_length(4) [of "wq_reversibility q"]
  note keys = json_str_length [of "''wire_version''"] json_str_length [of "''request''"] json_str_length [of "''action''"]
    json_str_length [of "''rail''"] json_str_length [of "''currency''"] json_str_length [of "''amount_minor''"]
    json_str_length [of "''reversibility''"] json_str_length [of "''counterparty_ref''"]
    json_str_length [of "''source_account_ref''"] json_str_length [of "''request_ref''"]
  have refs: "length (wq_counterparty_ref q) \<le> 67" "length (wq_source_account_ref q) \<le> 67" "length (wq_request_ref q) \<le> 67"
    using assms(1) fingerprint_length by (auto simp: wire_request_ok_def)
  have one: "length (int_str CLIENT_WIRE_VERSION) \<le> 4301"
    by (rule int_str_length)
      (simp add: numeral_ok_def CLIENT_WIRE_VERSION_def MAX_STR_DIGITS_def nat_str.simps [of "Suc 0"])
  have "length (render (wire_request_json q)) \<le> 12000"
    using bounds keys refs one int_str_length [OF assms(2)] by (simp add: wire_request_json_def)
  with utf8_length [of "render (wire_request_json q)"] show ?thesis by (simp add: wire_request_body_def)
qed

section \<open>One exchange\<close>

text \<open>What \<open>http.client\<close> puts on the connection, and what it reads back: the handler's answer, whose
  payload \<open>_respond\<close> writes with \<open>json.dumps\<close>. A handler that raises closes the connection without an
  answer, which \<open>http.client\<close> reports as \<open>RemoteDisconnected\<close>, a \<open>ConnectionResetError\<close>.\<close>

definition client_post :: "py_str \<Rightarrow> bytes \<Rightarrow> http_request" where
  "client_post path body =
     \<lparr>hr_path = path, hr_content_length = Some (nat_str (length body)), hr_stream = body\<rparr>"

definition dial ::
  "runtime \<Rightarrow> decoders \<Rightarrow> gateway_process \<Rightarrow> connection \<Rightarrow> datetime \<Rightarrow> py_str \<Rightarrow> bytes
     \<Rightarrow> exchange \<times> gateway_process" where
  "dial rt dc p c now path body =
     (case serve_agent rt dc p c (client_post path body) now of
        (Inl e, p') \<Rightarrow> (Transport_failure, p')
      | (Inr response, p') \<Rightarrow> (Answered (hs_status response) (utf8 (dumps_spaced (hs_payload response))), p'))"

text \<open>The client's verb over a connection to the agents' listener: its answer, and the process after.\<close>

definition ask_gateway ::
  "runtime \<Rightarrow> decoders \<Rightarrow> client_parser \<Rightarrow> gateway_process \<Rightarrow> connection \<Rightarrow> datetime \<Rightarrow> gateway_client
     \<Rightarrow> wire_request \<Rightarrow> (py_error + client_answer) \<times> gateway_process" where
  "ask_gateway rt dc cp p c now client q =
     (request_authorization cp (\<lambda>_ path body. fst (dial rt dc p c now path body)) client q,
      snd (dial rt dc p c now ''/authorize'' (wire_request_body q)))"

abbreviation posted :: "wire_request \<Rightarrow> http_request" where
  "posted q \<equiv> client_post ''/authorize'' (wire_request_body q)"

lemma posted_path [simp]: "hr_path (posted q) = ''/authorize''"
  by (simp add: client_post_def)

lemma same_authorization: "ps_authorization (p :: gateway_process) = a \<Longrightarrow> p\<lparr>ps_authorization := a\<rparr> = p"
  by (cases p) simp

text \<open>What it ought to be: the service's answer to the request under the principal of the connection,
  or one of two refusals.\<close>

definition service_answer ::
  "runtime \<Rightarrow> gateway_process \<Rightarrow> connection \<Rightarrow> datetime \<Rightarrow> wire_request
     \<Rightarrow> client_answer \<times> gateway_process" where
  "service_answer rt p c now q =
     (let declined = Transport_refusal (transport_refused Gateway_declined);
          unreachable = Transport_refusal (transport_refused Gateway_unreachable)
      in case gateway_identity rt (gc_allowlist (ps_config p)) c of
           Inl e \<Rightarrow> (unreachable, p)
         | Inr (Derived uri) \<Rightarrow>
             (case ps_authorization p of
                None \<Rightarrow> (declined, p)
              | Some (dep, sv) \<Rightarrow>
                  (case authorize dep sv uri (core_request q) now of
                     (Inl e, sv') \<Rightarrow> (unreachable, p\<lparr>ps_authorization := Some (dep, sv')\<rparr>)
                   | (Inr answer, sv') \<Rightarrow>
                       (Outcome (client_outcome answer), p\<lparr>ps_authorization := Some (dep, sv')\<rparr>)))
         | Inr _ \<Rightarrow> (declined, p))"

section \<open>What the two ends rely on\<close>

text \<open>Of the gateway: \<open>json.loads\<close> reads what the client's pydantic wrote, and the model of a request
  validates one that is valid. Of the client: pydantic reads what \<open>json.dumps\<close> wrote, and a datetime
  in the text the gateway's pydantic gives it.\<close>

locale wire_ends =
  fixes dc :: decoders
    and cp :: client_parser
    and fmt :: date_format
  assumes gateway_loads: "json_ok j \<Longrightarrow> dc_loads dc (utf8 (render j)) = Some (loaded_of j)"
    and gateway_validates: "request_ok q \<Longrightarrow> dc_request dc (loaded_of (request_json q)) = Some q"
    and client_loads: "json_ok j \<Longrightarrow> cp_json cp (utf8 (dumps_spaced j)) = Some (loaded_of j)"
    and client_datetime: "cp_datetime cp (L_str (fmt t)) = Some t"
begin

lemma posted_body:
  assumes "wire_request_ok q" and "numeral_ok (wq_amount_minor q)"
  shows "read_body dc MAX_AUTHORIZE_BODY_BYTES (posted q)
    = Inr [(''wire_version'', L_int WIRE_VERSION), (''request'', loaded_of (request_json (core_request q)))]"
proof -
  note short = body_length [OF assms]
  have "length (nat_str (length (wire_request_body q))) \<le> Suc 4"
    by (rule length_nat_str) (use short in simp)
  then have "py_int (nat_str (length (wire_request_body q))) = Some (int (length (wire_request_body q)))"
    by (intro py_int_nat_str) (simp add: MAX_STR_DIGITS_def)
  moreover have "json_ok (wire_request_json q)"
    using assms(2) by (simp add: wire_request_json_def numeral_ok_def CLIENT_WIRE_VERSION_def MAX_STR_DIGITS_def
        nat_str.simps [of "Suc 0"])
  then have "dc_loads dc (wire_request_body q) = Some (loaded_of (wire_request_json q))"
    by (simp add: wire_request_body_def gateway_loads)
  ultimately show ?thesis
    using short by (simp add: read_body_def client_post_def MAX_AUTHORIZE_BODY_BYTES_def wire_request_json_core)
qed

lemma posted_admitted:
  assumes "wire_request_ok q" and "numeral_ok (wq_amount_minor q)"
  shows "admitted dc (Some (dep, sv)) (Derived uri) (posted q) dep sv uri (core_request q)"
proof -
  have "names_no_principal [(''wire_version'', L_int WIRE_VERSION), (''request'', loaded_of (request_json (core_request q)))]"
    by (simp add: names_no_principal_def PRINCIPAL_FIELDS_def dict_get_def request_json_def)
  with posted_body [OF assms] gateway_validates [OF core_request_ok [OF assms(1)]] show ?thesis
    by (simp add: admitted_def client_post_def dict_get_def speaks_version_one_def WIRE_VERSION_def)
qed

lemma client_reads_answer:
  assumes "is_fingerprint (ao_decision_ref answer)"
  shows "wire_response_of cp (utf8 (dumps_spaced (answer_payload fmt answer))) = Some (client_outcome answer)"
proof -
  have "json_ok (answer_payload fmt answer)"
    by (simp add: answer_payload_def outcome_json_def numeral_ok_def WIRE_VERSION_def MAX_STR_DIGITS_def
        nat_str.simps [of "Suc 0"] list_all_iff)
  then have "cp_json cp (utf8 (dumps_spaced (answer_payload fmt answer))) = Some (loaded_of (answer_payload fmt answer))"
    by (rule client_loads)
  moreover have "enum_of wire_status_value WIRE_STATUSES (L_str (agent_status_value (ao_status answer)))
      = Some (client_status (ao_status answer))"
    by (cases "ao_status answer") (simp_all add: enum_of_def WIRE_STATUSES_def)
  moreover have "enum_of wire_reason_value WIRE_REASONS (L_str (reason_value r)) = Some (client_reason r)" for r
    by (cases r) (simp_all add: enum_of_def WIRE_REASONS_def)
  ultimately show ?thesis
    using assms
    by (simp add: wire_response_of_def answer_payload_def outcome_json_def wire_outcome_of_def closed_model_def
        has_field_def dict_get_def require_this_dialect_def CLIENT_WIRE_VERSION_def WIRE_VERSION_def client_datetime
        wire_reference_of_def wire_reasons_of_def client_outcome_def comp_def)
qed

lemma dial_refused:
  assumes "serve_agent rt dc p c (posted q) now = (Inr (refused status reason), p')" and "status \<noteq> 200"
  shows "ask_gateway rt dc cp p c now client q = (Inr (Transport_refusal (transport_refused Gateway_declined)), p')"
  using assms by (simp add: ask_gateway_def dial_def request_authorization_def refused_def respond_def)

lemma posted_authorize:
  assumes q: "wire_request_ok q" "numeral_ok (wq_amount_minor q)" and ident: "\<forall>reason. ident \<noteq> Identity_refused reason"
  shows "gateway_post dc authorization ident (posted q) now = gateway_authorize dc authorization ident
    [(''wire_version'', L_int WIRE_VERSION), (''request'', loaded_of (request_json (core_request q)))] now"
proof -
  have "names_no_principal [(''wire_version'', L_int WIRE_VERSION), (''request'', loaded_of (request_json (core_request q)))]"
    by (simp add: names_no_principal_def PRINCIPAL_FIELDS_def dict_get_def request_json_def)
  from gateway_post_payload [OF ident posted_path posted_body [OF q] this, of authorization now] show ?thesis
    by (simp add: Let_def dict_get_def unhashable_def speaks_version_one_def WIRE_VERSION_def)
qed

lemma ask_is_authorize:
  assumes q: "wire_request_ok q" "numeral_ok (wq_amount_minor q)"
    and ok: "\<And>dep sv. ps_authorization p = Some (dep, sv) \<Longrightarrow> dp_format dep = fmt \<and> answers_grounded sv"
  shows "ask_gateway rt dc cp p c now client q = apfst Inr (service_answer rt p c now q)"
proof (cases "gateway_identity rt (gc_allowlist (ps_config p)) c")
  case (Inl e)
  then show ?thesis
    by (simp add: service_answer_def ask_gateway_def dial_def request_authorization_def serve_agent_def)
next
  case (Inr ident)
  show ?thesis
  proof (cases ident)
    case (Identity_refused reason)
    then have "serve_agent rt dc p c (posted q) now = (Inr (refused 403 (principal_refusal_value reason)), p)"
      using Inr by (simp add: serve_agent_def gateway_post_def)
    from dial_refused [OF this, of client] Inr Identity_refused show ?thesis by (simp add: service_answer_def Let_def)
  next
    case Unidentified
    then obtain status reason where "serve_agent rt dc p c (posted q) now = (Inr (refused status reason), p)" "status \<noteq> 200"
      using Inr posted_authorize [OF q, of Unidentified "ps_authorization p" now]
      by (cases "ps_authorization p") (auto simp: serve_agent_def gateway_authorize_def)
    from dial_refused [OF this, of client] Inr Unidentified show ?thesis by (simp add: service_answer_def Let_def)
  next
    case (Derived uri)
    show ?thesis
    proof (cases "ps_authorization p")
      case None
      then have "serve_agent rt dc p c (posted q) now = (Inr (refused 503 ''authorization_unavailable''), p)"
        using Inr Derived posted_authorize [OF q, of "Derived uri" "None :: memory_sink authorization" now] same_authorization [OF None]
        by (simp add: serve_agent_def gateway_authorize_def)
      from dial_refused [OF this, of client] Inr Derived None show ?thesis by (simp add: service_answer_def Let_def)
    next
      case (Some dsv)
      obtain dep sv where auth: "ps_authorization p = Some (dep, sv)" using Some by (cases dsv) simp
      note fmt = ok [OF auth]
      obtain r sv' where run: "authorize dep sv uri (core_request q) now = (r, sv')" by fastforce
      have served: "serve_agent rt dc p c (posted q) now
          = (map_sum id (\<lambda>answer. respond 200 (answer_payload fmt answer)) r, p\<lparr>ps_authorization := Some (dep, sv')\<rparr>)"
        using serve_agent_admitted [of rt p c "Derived uri" dc "posted q" dep sv uri "core_request q" now]
          posted_admitted [OF q, of dep sv uri] Inr Derived auth run fmt by simp
      show ?thesis
      proof (cases r)
        case (Inl e)
        with served run Inr Derived auth show ?thesis
          by (simp add: ask_gateway_def dial_def request_authorization_def service_answer_def)
      next
        case r: (Inr answer)
        have "is_fingerprint (ao_decision_ref answer)"
          using authorize_grounded(2) [OF run core_request_ok [OF q(1)] conjunct2 [OF fmt] r] by (simp add: answer_grounded_def)
        from client_reads_answer [OF this] served r run Inr Derived auth show ?thesis
          by (simp add: ask_gateway_def dial_def request_authorization_def service_answer_def respond_def)
      qed
    qed
  qed
qed

end

section \<open>Two ends that keep to it\<close>

text \<open>\<open>bytes.decode()\<close>, of the text \<open>utf8\<close> gives.\<close>

fun utf8_text :: "bytes \<Rightarrow> py_str" where
  "utf8_text [] = []"
| "utf8_text (b # r) =
     (if unat b < 128 then char_of (unat b) # utf8_text r
      else case r of
          [] \<Rightarrow> []
        | d # r' \<Rightarrow> char_of ((unat b - 192) * 64 + (unat d - 128)) # utf8_text r')"

lemma utf8_text_char: "utf8_text (utf8_char c @ r) = c # utf8_text r"
proof -
  let ?n = "of_char c :: nat"
  have n: "?n < 256" by (rule nat_of_char_less_256)
  then have two: "192 + ?n div 64 < 256" "128 + ?n mod 64 < 256" by linarith+
  show ?thesis
  proof (cases "?n < 128")
    case True
    then show ?thesis by (simp add: utf8_char_def Let_def unat_of_nat_byte)
  next
    case False
    with n two show ?thesis by (simp add: utf8_char_def Let_def unat_of_nat_byte del: of_nat_add)
  qed
qed

lemma utf8_text_utf8 [simp]: "utf8_text (utf8 s) = s"
  by (induction s) (simp_all add: utf8_Cons utf8_text_char)

definition reference_loads :: "float_reader \<Rightarrow> bytes \<Rightarrow> loaded option" where
  "reference_loads flt b = json_loads flt (utf8_text b)"

text \<open>A datetime written as the number of its microseconds.\<close>

definition read_microseconds :: "loaded \<Rightarrow> datetime option" where
  "read_microseconds v =
     (case v of
        L_str s \<Rightarrow> Some (case s of
            c # digits \<Rightarrow> if c = CHR ''-'' then - int (str_nat digits) else int (str_nat s)
          | [] \<Rightarrow> 0)
      | _ \<Rightarrow> None)"

lemma read_microseconds_int_str: "read_microseconds (L_str (int_str t)) = Some t"
proof (cases "t < 0")
  case True
  then show ?thesis by (simp add: read_microseconds_def int_str_def)
next
  case False
  obtain d ds where d: "nat_str (nat t) = d # ds" by (cases "nat_str (nat t)") simp_all
  then have "d \<noteq> CHR ''-''" using nat_str_hd [of "nat t"] not_is_digit_minus by (metis list.sel(1))
  moreover have "str_nat (d # ds) = nat t" using d str_nat_nat_str by metis
  ultimately show ?thesis using False d by (simp add: read_microseconds_def int_str_def)
qed

definition reference_decoders :: decoders where
  "reference_decoders =
     \<lparr>dc_loads = reference_loads (\<lambda>_. None), dc_request = model_request (\<lambda>_. None), dc_proposal = (\<lambda>_. None)\<rparr>"

definition reference_parser :: client_parser where
  "reference_parser = \<lparr>cp_json = reference_loads (\<lambda>_. None), cp_datetime = read_microseconds\<rparr>"

interpretation reference: wire_ends reference_decoders reference_parser int_str
  by unfold_locales
    (simp_all add: reference_decoders_def reference_parser_def reference_loads_def json_loads_render
      json_loads_dumps_spaced model_request_json read_microseconds_int_str)

lemma reference_decoders_ok: "decoders_ok reference_decoders"
  by (auto simp: decoders_ok_def reference_decoders_def dest: model_request_ok)

section \<open>A started process at the other end\<close>

lemma process_ends:
  assumes "decoders_ok dc" and "start_process rt su env = Inr (Inr p0)" and "serves rt dc p0 p"
    and "ps_authorization p = Some (dep, sv)"
  shows "dp_format dep = su_format su" "dp_sink dep = memory_sink_ops" "reachable dep 3600 [] sv"
  using serves_refines [OF assms(3,1) start_refines [OF assms(2)]] assms(4)
  by (auto simp: refines_service_def reference_deployment_def)

lemma process_transparent:
  assumes ends: "wire_ends dc cp (su_format su)"
    and run: "decoders_ok dc" "start_process rt su env = Inr (Inr p0)" "serves rt dc p0 p"
    and q: "wire_request_ok q" "numeral_ok (wq_amount_minor q)"
  shows "ask_gateway rt dc cp p c now client q = apfst Inr (service_answer rt p c now q)"
proof (rule wire_ends.ask_is_authorize [OF ends q])
  fix dep and sv :: "memory_sink service"
  assume auth: "ps_authorization p = Some (dep, sv)"
  show "dp_format dep = su_format su \<and> answers_grounded sv"
    using process_ends(1) [OF run auth] reachable_grounded [OF process_ends(3) [OF run auth]] by simp
qed

lemma service_answer_completed:
  assumes "service_answer rt p c now q = (a, p')" and "answer_status a = Wire_completed"
  obtains dep sv sv' uri answer where "gateway_identity rt (gc_allowlist (ps_config p)) c = Inr (Derived uri)"
    "ps_authorization p = Some (dep, sv)" "authorize dep sv uri (core_request q) now = (Inr answer, sv')"
    "ao_status answer = Completed" "ps_authorization p' = Some (dep, sv')"
proof -
  have declined: "answer_status (Transport_refusal (transport_refused reason)) \<noteq> Wire_completed" for reason
    by (simp add: answer_status_def transport_refused_def)
  have outcome: "answer_status (Outcome (client_outcome answer)) = Wire_completed \<Longrightarrow> ao_status answer = Completed" for answer
    by (cases "ao_status answer") (simp_all add: answer_status_def client_outcome_def)
  from assms declined obtain uri where ident: "gateway_identity rt (gc_allowlist (ps_config p)) c = Inr (Derived uri)"
    by (auto simp: service_answer_def Let_def split: sum.splits identity.splits)
  with assms declined obtain dep sv where auth: "ps_authorization p = Some (dep, sv)"
    by (auto simp: service_answer_def Let_def split: option.splits)
  obtain r sv' where run: "authorize dep sv uri (core_request q) now = (r, sv')" by fastforce
  with assms declined ident auth obtain answer where r: "r = Inr answer"
    by (cases r) (auto simp: service_answer_def Let_def)
  with assms run ident auth have "a = Outcome (client_outcome answer)" "ps_authorization p' = Some (dep, sv')"
    by (auto simp: service_answer_def Let_def)
  with assms(2) outcome that [OF ident auth run [unfolded r]] show ?thesis by blast
qed

definition demo_wire_request :: wire_request where
  "demo_wire_request =
     \<lparr>wq_action = Wire_payment, wq_rail = Wire_card, wq_currency = Wire_USD, wq_amount_minor = 5000,
      wq_reversibility = Wire_reversible, wq_counterparty_ref = ''fp:'' @ replicate 64 (CHR ''a''),
      wq_source_account_ref = ''fp:'' @ replicate 64 (CHR ''b''),
      wq_request_ref = ''fp:'' @ replicate 64 (CHR ''c'')\<rparr>"

lemma demo_core: "core_request demo_wire_request = demo_request 5000"
  by (simp add: core_request_def demo_wire_request_def demo_request_def)

lemma demo_wire_ok: "wire_request_ok demo_wire_request" "numeral_ok (wq_amount_minor demo_wire_request)"
proof -
  show "wire_request_ok demo_wire_request"
    by (simp add: wire_request_ok_def demo_wire_request_def is_fingerprint_def hex64_def is_hex_char_def)
  have "length (nat_str 5000) \<le> Suc 3" by (rule length_nat_str) simp
  then show "numeral_ok (wq_amount_minor demo_wire_request)"
    by (simp add: numeral_ok_def demo_wire_request_def MAX_STR_DIGITS_def)
qed

definition demo_client :: gateway_client where
  "demo_client = \<lparr>cl_host = ''10.0.0.7'', cl_port = 8787, cl_context = Some (''ca.pem'', ''agent.pem'', ''agent.key'')\<rparr>"

lemma demo_ends: "wire_ends reference_decoders reference_parser (su_format demo_surroundings)"
  using reference.wire_ends_axioms by (simp add: demo_surroundings_def)

text \<open>The demonstration process, asked over the wire for 50 US dollars.\<close>

lemma demo_asked:
  obtains answer sv' where "service_answer demo_platform demo_process demo_agent 0 demo_wire_request
      = (Outcome (client_outcome answer), demo_process\<lparr>ps_authorization :=
          Some (reference_deployment demo_surroundings demo_settings True, sv')\<rparr>)"
    "ao_status answer = Completed"
proof -
  let ?dep = "reference_deployment demo_surroundings demo_settings True" and ?u = "''spiffe://bank/agent''"
  let ?start = "service_init 3600 [] :: memory_sink service"
  let ?k = "reservation_key_of ?dep ?u (rq_request_ref (demo_request 5000))"
  let ?i = "completed (demo_request 5000) ?k 0"
  have rok: "request_ok (demo_request 5000)" "mappable (demo_request 5000)" using demo_request_ok by auto
  have floor: "sv_now_floor ?start \<le> 0" by (simp add: DATETIME_MIN_def seconds_def)
  have reach: "reachable ?dep 3600 [] ?start" by (simp add: reachable_def runs.runs_refl)
  have sink: "dp_sink ?dep = memory_sink_ops" by (simp add: reference_deployment_def)
  have money: "money_ok (clocked ?start 0)" "wl_window_seconds (sv_ledger (clocked ?start 0)) = 3600"
    using reachable_money [OF reach] by (simp_all add: money_ok_clocked)
  have now: "sv_now_floor (clocked ?start 0) = 0" using floor by simp
  obtain dec where dec: "service_decide ?dep (clocked ?start 0) ?i 0 = Inr dec" "dec_verdict dec =
    (let total = spent (sv_ledger (clocked ?start 0)) (key_from_intent ?i) 0 + d_value_upper_minor (i_dimensions ?i)
     in if d_quote_currency (i_dimensions ?i) \<noteq> USD \<or> 50000 < total then Deny
        else if True \<and> 20000 < total then Review else Allow)"
    using reference_decision [OF money completed_ok [OF rok(1) reservation_key_ok [of ?dep ?u "rq_request_ref (demo_request 5000)"],
        of 0], of demo_surroundings demo_settings True, unfolded now] by blast
  have allow: "dec_verdict dec = Allow"
    unfolding dec(2)
    by (simp add: Let_def service_init_def spent_def window_aggregate_at_def inside_window_def)
      (simp add: demo_request_def)
  obtain r sv' where run: "authorize ?dep ?start ?u (demo_request 5000) 0 = (r, sv')" by fastforce
  have free: "sv_reservations ?start ?k = None" by simp
  obtain answer where r: "r = Inr answer" "ao_status answer = Completed"
    by (rule authorize_answers [OF reach sink rok refl free floor dec(1) run])
      (use allow demo_rail [of True "[]" ?i] in simp)
  have ident: "gateway_identity demo_platform (gc_allowlist (ps_config demo_process)) demo_agent = Inr (Derived ?u)"
    using demo_identity by (simp add: demo_process_def)
  have auth: "ps_authorization demo_process = Some (?dep, ?start)" by (simp add: demo_process_def)
  show ?thesis
    by (rule that [OF _ r(2), of sv']) (simp add: service_answer_def Let_def ident auth demo_core run r)
qed

lemma completed_status: "enum_of wire_status_value WIRE_STATUSES v = Some Wire_completed \<longleftrightarrow> v = L_str ''completed''"
  by (auto simp: enum_of_def WIRE_STATUSES_def split: loaded.splits if_splits)

lemma completed_outcome:
  "(\<exists>outcome. wire_outcome_of cp v = Some outcome \<and> wo_status outcome = Wire_completed) \<longleftrightarrow>
   (\<exists>okvs s. v = L_dict okvs \<and> closed_model [''status'', ''decision_ref'', ''decided_at''] [''reasons''] okvs
      \<and> dict_get okvs ''status'' = L_str ''completed'' \<and> dict_get okvs ''decision_ref'' = L_str s \<and> is_fingerprint s
      \<and> cp_datetime cp (dict_get okvs ''decided_at'') \<noteq> None \<and> wire_reasons_of okvs \<noteq> None)"
  unfolding wire_outcome_of_def completed_status [symmetric]
  by (cases v) (auto simp: wire_reference_of_def split: option.splits loaded.splits if_splits)

lemma completed_response:
  "(\<exists>outcome. wire_response_of cp payload = Some outcome \<and> wo_status outcome = Wire_completed) \<longleftrightarrow>
   (\<exists>kvs. cp_json cp payload = Some (L_dict kvs) \<and> closed_model [''wire_version'', ''outcome''] [] kvs
      \<and> dict_get kvs ''wire_version'' = L_int 1
      \<and> (\<exists>outcome. wire_outcome_of cp (dict_get kvs ''outcome'') = Some outcome \<and> wo_status outcome = Wire_completed))"
  by (auto simp: wire_response_of_def require_this_dialect_def CLIENT_WIRE_VERSION_def
      split: option.splits loaded.splits if_splits sum.splits)

lemma completed_exchange:
  "(\<exists>a. request_authorization cp net client q = Inr a \<and> answer_status a = Wire_completed) \<longleftrightarrow>
   (\<exists>payload. net client ''/authorize'' (wire_request_body q) = Answered 200 payload
      \<and> (\<exists>outcome. wire_response_of cp payload = Some outcome \<and> wo_status outcome = Wire_completed))"
  by (auto simp: request_authorization_def answer_status_def transport_refused_def split: exchange.splits option.splits)

section \<open>Properties\<close>

text \<open>One dialect: the client's declarations and the core's agree, though neither package imports
  the other. The version, the shape of a reference and every vocabulary are the same, and the body
  the client sends is the core's dump of the same request under the core's version.\<close>

theorem dialects_agree:
  "CLIENT_WIRE_VERSION = WIRE_VERSION \<and> wire_fingerprint = is_fingerprint
   \<and> range wire_action_value = range action_value \<and> range wire_rail_value = range rail_value
   \<and> range wire_currency_value = range currency_value
   \<and> range wire_reversibility_value = range reversibility_value
   \<and> range wire_reason_value = range reason_value \<and> range wire_status_value = range agent_status_value
   \<and> wire_request_ok q = request_ok (core_request q)
   \<and> wire_request_json q = JObj [(''wire_version'', JInt WIRE_VERSION), (''request'', request_json (core_request q))]"
proof -
  have "range wire_action_value = range action_value" by (rule same_range [of core_action]) (simp_all add: core_onto)
  moreover have "range wire_rail_value = range rail_value" by (rule same_range [of core_rail]) (simp_all add: core_onto)
  moreover have "range wire_currency_value = range currency_value"
    by (rule same_range [of core_currency]) (simp_all add: core_onto)
  moreover have "range wire_reversibility_value = range reversibility_value"
    by (rule same_range [of core_reversibility]) (simp_all add: core_onto)
  moreover have "range reason_value = range wire_reason_value"
    by (rule same_range [of client_reason]) (simp_all add: client_onto)
  moreover have "range agent_status_value = range wire_status_value"
    by (rule same_range [of client_status]) (simp_all add: client_onto)
  moreover have "wire_request_ok q = request_ok (core_request q)"
    by (simp add: wire_request_ok_def request_ok_def core_request_def)
  ultimately show ?thesis
    using wire_request_json_core by (simp add: CLIENT_WIRE_VERSION_def WIRE_VERSION_def)
qed

text \<open>[C23] The client says \<open>completed\<close> only on the gateway's word: exactly when the exchange brought a
  response of status 200 whose body is one closed object of this dialect, with an outcome that has no
  field but its own, a proper reference, a readable time, known reasons, and literally that status. A
  failed handshake, an unreachable gateway, another status and any other body never read as it.\<close>

theorem client_completed_exactly_when:
  "(\<exists>a. request_authorization cp net client q = Inr a \<and> answer_status a = Wire_completed) \<longleftrightarrow>
   (\<exists>payload kvs okvs s. net client ''/authorize'' (wire_request_body q) = Answered 200 payload
      \<and> cp_json cp payload = Some (L_dict kvs) \<and> closed_model [''wire_version'', ''outcome''] [] kvs
      \<and> dict_get kvs ''wire_version'' = L_int 1 \<and> dict_get kvs ''outcome'' = L_dict okvs
      \<and> closed_model [''status'', ''decision_ref'', ''decided_at''] [''reasons''] okvs
      \<and> dict_get okvs ''status'' = L_str ''completed''
      \<and> dict_get okvs ''decision_ref'' = L_str s \<and> is_fingerprint s
      \<and> cp_datetime cp (dict_get okvs ''decided_at'') \<noteq> None \<and> wire_reasons_of okvs \<noteq> None)"
  unfolding completed_exchange completed_response completed_outcome by blast

text \<open>[C5] The wire is transparent: a valid request that an agent makes through the client, over its
  connection to a served process, is answered with the authorization service's own answer to that
  request under the principal of the connection's certificate, and with a refusal where there is no
  principal, no service or an error in it; the process is left as that one call of the service
  leaves it, or as it was.\<close>

theorem wire_transparent:
  assumes "wire_ends dc cp (su_format su)" and "decoders_ok dc"
    and "start_process rt su env = Inr (Inr p0)" and "serves rt dc p0 p"
    and "wire_request_ok q" and "numeral_ok (wq_amount_minor q)"
  shows "ask_gateway rt dc cp p c now client q = apfst Inr (service_answer rt p c now q)"
  by (rule process_transparent [OF assms])

theorem wire_transparent_witness:
  "\<exists>answer p'. ask_gateway demo_platform reference_decoders reference_parser demo_process demo_agent 0 demo_client
      demo_wire_request = (Inr (Outcome (client_outcome answer)), p') \<and> ao_status answer = Completed"
proof (rule demo_asked)
  fix answer sv'
  assume "service_answer demo_platform demo_process demo_agent 0 demo_wire_request
      = (Outcome (client_outcome answer), demo_process\<lparr>ps_authorization :=
          Some (reference_deployment demo_surroundings demo_settings True, sv')\<rparr>)" "ao_status answer = Completed"
  then show ?thesis
    using wire_transparent [OF demo_ends reference_decoders_ok demo_start serves_start demo_wire_ok] by auto
qed

text \<open>[C3] What an agent may build on \<open>completed\<close>: when the client tells it so, the agent's connection
  has a principal on the allowlist, the very proposal it made was sent to the rail under its handle,
  and the rail reported success when it was.\<close>

theorem completed_means_moved:
  assumes ends: "wire_ends dc cp (su_format su)" and run: "decoders_ok dc"
      "start_process rt su env = Inr (Inr p0)" "serves rt dc p0 p"
    and q: "wire_request_ok q" "numeral_ok (wq_amount_minor q)"
    and told: "ask_gateway rt dc cp p c now client q = (Inr a, p')" "answer_status a = Wire_completed"
  shows "\<exists>uri dep sv'. gateway_identity rt (gc_allowlist (ps_config p)) c = Inr (Derived uri)
    \<and> uri \<in> gc_allowlist (ps_config p) \<and> ps_authorization p' = Some (dep, sv')
    \<and> (let k = reservation_key_of dep uri (wq_request_ref q)
       in sent_and_accepted dep sv' k (compute_proposal_digest (dp_format dep) (completed (core_request q) k now)))"
proof -
  have "service_answer rt p c now q = (a, p')"
    using process_transparent [OF ends run q, of c now client] told(1) by (cases "service_answer rt p c now q") simp
  from this told(2) show ?thesis
  proof (rule service_answer_completed)
    fix dep and sv sv' :: "memory_sink service" and uri answer
    assume at: "gateway_identity rt (gc_allowlist (ps_config p)) c = Inr (Derived uri)"
      "ps_authorization p = Some (dep, sv)" "authorize dep sv uri (core_request q) now = (Inr answer, sv')"
      "ao_status answer = Completed" "ps_authorization p' = Some (dep, sv')"
    note ok = process_ends [OF run at(2)]
    have "rq_request_ref (core_request q) = wq_request_ref q" by (simp add: core_request_def)
    with completed_was_sent [OF ok(3,2) core_request_ok [OF q(1)] at(3,4) refl] at derived_on_allowlist(1) [OF at(1)]
    show ?thesis by (auto simp: Let_def)
  qed
qed

theorem completed_means_moved_witness:
  "\<exists>dep (sv' :: memory_sink service).
     let k = reservation_key_of dep ''spiffe://bank/agent'' (wq_request_ref demo_wire_request)
     in sent_and_accepted dep sv' k (compute_proposal_digest (dp_format dep) (completed (demo_request 5000) k 0))"
proof (rule demo_asked)
  fix answer sv'
  let ?p = "demo_process\<lparr>ps_authorization := Some (reference_deployment demo_surroundings demo_settings True, sv')\<rparr>"
  assume a: "service_answer demo_platform demo_process demo_agent 0 demo_wire_request
      = (Outcome (client_outcome answer), ?p)" "ao_status answer = Completed"
  have "ask_gateway demo_platform reference_decoders reference_parser demo_process demo_agent 0 demo_client
      demo_wire_request = (Inr (Outcome (client_outcome answer)), ?p)"
    using process_transparent [OF demo_ends reference_decoders_ok demo_start serves_start demo_wire_ok] a(1) by simp
  moreover have "answer_status (Outcome (client_outcome answer)) = Wire_completed"
    using a(2) by (simp add: answer_status_def client_outcome_def)
  moreover have "gateway_identity demo_platform (gc_allowlist (ps_config demo_process)) demo_agent
      = Inr (Derived ''spiffe://bank/agent'')" using demo_identity by (simp add: demo_process_def)
  ultimately show ?thesis
    using completed_means_moved [OF demo_ends reference_decoders_ok demo_start serves_start demo_wire_ok]
    unfolding demo_core by fastforce
qed

end
