(* ===== verification/Kits.thy ===== *)
theory Kits
  imports Prelude
begin

text \<open>
  What the suites of \<open>secondsign.conformance\<close> are made of. A test is a step on the state of what is
  under test that fails, as \<open>None\<close>, where an assertion does or an exception leaves it; a loop over a
  corpus stops at its first failure.
\<close>

definition require :: "bool \<Rightarrow> 's \<Rightarrow> 's option" where
  "require b s = (if b then Some s else None)"

fun for_each :: "('a \<Rightarrow> 's \<Rightarrow> 's option) \<Rightarrow> 'a list \<Rightarrow> 's \<Rightarrow> 's option" where
  "for_each body [] s = Some s"
| "for_each body (x # xs) s = Option.bind (body x s) (for_each body xs)"

text \<open>A corpus whose objects the subject may write to: what is left of each is what the next test
  is given.\<close>

fun each_object :: "('a \<Rightarrow> 's \<Rightarrow> ('a \<times> 's) option) \<Rightarrow> 'a list \<times> 's \<Rightarrow> ('a list \<times> 's) option" where
  "each_object body ([], s) = Some ([], s)"
| "each_object body (x # xs, s) =
     Option.bind (body x s) (\<lambda>(x', s').
       map_option (\<lambda>(xs', s''). (x' # xs', s'')) (each_object body (xs, s')))"

lemma require_simps [simp]: "require True s = Some s" "require False s = None"
  by (simp_all add: require_def)

lemma require_eq_Some [simp]: "require b s = Some s' \<longleftrightarrow> b \<and> s' = s"
  by (auto simp: require_def)

lemma require_bind [simp]: "Option.bind (require b s) rest = (if b then rest s else None)"
  by (simp add: require_def)

lemma for_each_require: "for_each (\<lambda>x. require (P x)) xs s = require (\<forall>x \<in> set xs. P x) s"
  by (induction xs) (auto simp: require_def)

lemma for_each_Some [simp]: "for_each (\<lambda>x. Some) xs s = Some s"
  by (induction xs) simp_all

lemma for_each_total: "(\<And>x s. \<exists>s'. body x s = Some s') \<Longrightarrow> \<exists>s'. for_each body xs s = Some s'"
proof (induction xs arbitrary: s)
  case (Cons x xs)
  from Cons.prems [of x s] obtain s1 where "body x s = Some s1" by blast
  with Cons.IH [OF Cons.prems, of s1] show ?case by simp
qed simp

lemma each_object_require:
  "each_object (\<lambda>x s. require (P x) (x, s)) (xs, s) = require (\<forall>x \<in> set xs. P x) (xs, s)"
  by (induction xs) (auto simp: require_def)

text \<open>A suite whose tests each come down to a condition on where it started.\<close>

lemma for_each_tests:
  assumes "list_all2 (\<lambda>test b. body test x = require b x) tests bs"
  shows "for_each body tests x = require (list_all id bs) x"
  using assms by (induction rule: list_all2_induct) (auto simp: require_def)

end
