(* ===== verification/Wire_Kit.thy ===== *)
theory Wire_Kit
  imports Client_Gateway Kits
begin

text \<open>
  \<open>conformance/wire_client.py\<close>: the probe that stands in for a gateway and the tests a client of the
  wire contract has to pass; and the clients it is asked about, the reference client and the
  minimal client of \<open>examples/wire_client\<close> with its two broken variants.

  A candidate talks to whatever listens: an attempt is what it does next, to report a status, to
  raise, or to send a request and go on from what comes of it.
\<close>

section \<open>Attempts\<close>

text \<open>What \<open>http.client\<close> gives back of a request: a response, an \<open>SSLError\<close> (an \<open>OSError\<close> of its own),
  another \<open>OSError\<close>, or an \<open>HTTPException\<close>.\<close>

datatype wire_event = Response int bytes | Ssl_error | Os_error | Http_exception

datatype 's attempt =
    Report py_str 's
  | Attempt_raises py_error
  | Send py_str http_request "wire_event \<Rightarrow> 's attempt"

type_synonym 's candidate = "py_str \<Rightarrow> int \<Rightarrow> (py_str \<times> json) list \<Rightarrow> 's \<Rightarrow> 's attempt"

section \<open>The probe\<close>

record recorded_request =
  rr_method :: py_str
  rr_path :: py_str
  rr_body :: bytes

text \<open>\<open>pb_error_page\<close> is what \<open>BaseHTTPRequestHandler\<close> writes under the status 501 it gives every
  method but POST.\<close>

record probe =
  pb_listening :: bool
  pb_received :: "recorded_request list"
  pb_scripted :: "int \<times> bytes"
  pb_error_page :: bytes

text \<open>\<open>do_POST\<close>. A length that is no integer ends the handler; to read more than was sent, or to the
  end of the stream, waits for the client to give up.\<close>

definition probe_answer :: "probe \<Rightarrow> py_str \<Rightarrow> http_request \<Rightarrow> wire_event \<times> probe" where
  "probe_answer probe command req =
     (if \<not> pb_listening probe then (Os_error, probe)
      else if command \<noteq> ''POST'' then (Response 501 (pb_error_page probe), probe)
      else case py_int (case hr_content_length req of None \<Rightarrow> ''0'' | Some h \<Rightarrow> if h = [] then ''0'' else h) of
          None \<Rightarrow> (Os_error, probe)
        | Some n \<Rightarrow>
            (let whole = 0 \<le> n \<and> n \<le> int (length (hr_stream req));
                 body = (if 0 \<le> n then take (nat n) (hr_stream req) else hr_stream req);
                 recorded = \<lparr>rr_method = command, rr_path = hr_path req, rr_body = body\<rparr>
             in (if whole then case pb_scripted probe of (status, payload) \<Rightarrow> Response status payload else Os_error,
                 probe\<lparr>pb_received := pb_received probe @ [recorded]\<rparr>)))"

primrec run_attempt :: "'s attempt \<Rightarrow> probe \<Rightarrow> (py_error + py_str \<times> 's) \<times> probe" where
  "run_attempt (Report status s) probe = (Inr (status, s), probe)"
| "run_attempt (Attempt_raises e) probe = (Inl e, probe)"
| "run_attempt (Send command req rest) probe =
     (case probe_answer probe command req of (event, probe') \<Rightarrow> run_attempt (rest event) probe')"

section \<open>The fixtures\<close>

definition CLOSED_STATUS_VOCABULARY :: "py_str set" where
  "CLOSED_STATUS_VOCABULARY = agent_status_value ` {Completed, Answer_refused, Awaiting_review}"

definition UNSPOKEN_WIRE_VERSION :: int where
  "UNSPOKEN_WIRE_VERSION = Max SUPPORTED_WIRE_VERSIONS + 1"

definition doubled :: "py_str \<Rightarrow> py_str" where
  "doubled s = ''fp:'' @ concat (replicate 32 s)"

definition CERTIFICATION_REQUEST :: "(py_str \<times> json) list" where
  "CERTIFICATION_REQUEST =
     [(''action'', JStr ''payment''), (''rail'', JStr ''card''), (''currency'', JStr ''USD''),
      (''amount_minor'', JInt 4200), (''reversibility'', JStr ''irreversible''),
      (''counterparty_ref'', JStr (doubled ''cd'')), (''source_account_ref'', JStr (doubled ''ef'')),
      (''request_ref'', JStr (doubled ''12''))]"

definition CERTIFICATION_INSTANT :: py_str where
  "CERTIFICATION_INSTANT = ''2026-01-01T00:00:00+00:00''"

definition certification_json :: "py_str \<Rightarrow> int \<Rightarrow> json" where
  "certification_json status version =
     JObj [(''wire_version'', JInt version),
           (''outcome'',
            JObj [(''status'', JStr status), (''decision_ref'', JStr (doubled ''ab'')),
                  (''decided_at'', JStr CERTIFICATION_INSTANT), (''reasons'', JList [])])]"

definition certification_response :: "py_str \<Rightarrow> int \<Rightarrow> bytes" where
  "certification_response status version = utf8 (dumps_spaced (certification_json status version))"

definition COMPLETED_RESPONSE :: bytes where
  "COMPLETED_RESPONSE = certification_response (agent_status_value Completed) WIRE_VERSION"

text \<open>What a run of the kit is given from outside: \<open>json.loads\<close> and the validation of a request, the
  port the system chose, and the error page.\<close>

record surroundings_of_kit =
  ks_decoders :: decoders
  ks_port :: int
  ks_error_page :: bytes

definition PROBE_HOST :: py_str where
  "PROBE_HOST = ''127.0.0.1''"

definition fresh_probe :: "surroundings_of_kit \<Rightarrow> bool \<Rightarrow> int \<Rightarrow> bytes \<Rightarrow> probe" where
  "fresh_probe ks listening status_code body =
     \<lparr>pb_listening = listening, pb_received = [], pb_scripted = (status_code, body), pb_error_page = ks_error_page ks\<rparr>"

section \<open>The tests\<close>

type_synonym 's wire_test = "surroundings_of_kit \<Rightarrow> 's candidate \<Rightarrow> 's \<Rightarrow> 's option"

text \<open>\<open>_ask\<close>, and what is made of its answer and of what the probe recorded. A candidate that
  raises fails the test.\<close>

definition attempted ::
  "surroundings_of_kit \<Rightarrow> 's candidate \<Rightarrow> bool \<Rightarrow> int \<Rightarrow> bytes \<Rightarrow> 's
     \<Rightarrow> (py_str \<Rightarrow> recorded_request list \<Rightarrow> bool) \<Rightarrow> 's option" where
  "attempted ks attempt listening status_code body s check =
     (case run_attempt (attempt PROBE_HOST (ks_port ks) CERTIFICATION_REQUEST s)
              (fresh_probe ks listening status_code body) of
        (Inl e, _) \<Rightarrow> None
      | (Inr (status, s'), probe) \<Rightarrow> require (check status (pb_received probe)) s')"

definition ask ::
  "surroundings_of_kit \<Rightarrow> 's candidate \<Rightarrow> int \<Rightarrow> bytes \<Rightarrow> (py_str \<Rightarrow> recorded_request list \<Rightarrow> bool)
     \<Rightarrow> 's \<Rightarrow> 's option" where
  "ask ks attempt status_code body check s = attempted ks attempt True status_code body s check"

definition sole_request :: "recorded_request list \<Rightarrow> recorded_request option" where
  "sole_request received = (case received of [recorded] \<Rightarrow> Some recorded | _ \<Rightarrow> None)"

definition sole_envelope :: "surroundings_of_kit \<Rightarrow> recorded_request list \<Rightarrow> (py_str \<times> loaded) list option" where
  "sole_envelope ks received =
     Option.bind (sole_request received) (\<lambda>recorded.
       case dc_loads (ks_decoders ks) (rr_body recorded) of Some (L_dict envelope) \<Rightarrow> Some envelope | _ \<Rightarrow> None)"

definition sole_proposal :: "surroundings_of_kit \<Rightarrow> recorded_request list \<Rightarrow> (py_str \<times> loaded) list option" where
  "sole_proposal ks received =
     Option.bind (sole_envelope ks received) (\<lambda>envelope.
       if \<not> has_field envelope ''request'' then None
       else case dict_get envelope ''request'' of L_dict proposal \<Rightarrow> Some proposal | _ \<Rightarrow> None)"

definition holds_of :: "'a option \<Rightarrow> ('a \<Rightarrow> bool) \<Rightarrow> bool" where
  "holds_of v check = (case v of None \<Rightarrow> False | Some x \<Rightarrow> check x)"

definition ask_completed ::
  "surroundings_of_kit \<Rightarrow> 's candidate \<Rightarrow> (recorded_request list \<Rightarrow> bool) \<Rightarrow> 's \<Rightarrow> 's option" where
  "ask_completed ks attempt check = ask ks attempt 200 COMPLETED_RESPONSE (\<lambda>_. check)"

definition test_asks_the_gateway_before_answering :: "'s wire_test" where
  "test_asks_the_gateway_before_answering ks attempt =
     ask_completed ks attempt (\<lambda>received. holds_of (sole_request received) (\<lambda>_. True))"

definition test_posts_the_envelope_to_the_authorize_path :: "'s wire_test" where
  "test_posts_the_envelope_to_the_authorize_path ks attempt =
     ask_completed ks attempt (\<lambda>received. holds_of (sole_request received)
       (\<lambda>recorded. rr_method recorded = ''POST'' \<and> rr_path recorded = ''/authorize''))"

definition test_the_envelope_carries_the_version_and_the_request_only :: "'s wire_test" where
  "test_the_envelope_carries_the_version_and_the_request_only ks attempt =
     ask_completed ks attempt (\<lambda>received. holds_of (sole_envelope ks received)
       (\<lambda>envelope. fst ` set envelope = {''wire_version'', ''request''}))"

definition test_announces_a_wire_version_this_contract_defines :: "'s wire_test" where
  "test_announces_a_wire_version_this_contract_defines ks attempt =
     ask_completed ks attempt (\<lambda>received. holds_of (sole_envelope ks received)
       (\<lambda>envelope. case dict_get envelope ''wire_version'' of
          L_int version \<Rightarrow> version \<in> SUPPORTED_WIRE_VERSIONS
        | _ \<Rightarrow> False))"

definition test_the_request_is_the_closed_agent_surface :: "'s wire_test" where
  "test_the_request_is_the_closed_agent_surface ks attempt =
     ask_completed ks attempt (\<lambda>received. holds_of (sole_proposal ks received)
       (\<lambda>proposal. (case dict_get proposal ''amount_minor'' of L_int _ \<Rightarrow> True | _ \<Rightarrow> False)
          \<and> dc_request (ks_decoders ks) (L_dict proposal) \<noteq> None))"

text \<open>\<open>==\<close> between a value that was read and one of the fixture: numbers are equal across types,
  and a dict does not know an order.\<close>

fun same_value :: "loaded \<Rightarrow> json \<Rightarrow> bool" where
  "same_value (L_str s) (JStr t) = (s = t)"
| "same_value (L_int i) (JInt j) = (i = j)"
| "same_value (L_float f) (JInt j) = (f = Some j)"
| "same_value (L_bool b) (JInt j) = ((if b then 1 else 0) = j)"
| "same_value _ _ = False"

definition same_dict :: "(py_str \<times> loaded) list \<Rightarrow> (py_str \<times> json) list \<Rightarrow> bool" where
  "same_dict kvs fixture \<longleftrightarrow>
     fst ` set kvs = fst ` set fixture \<and> list_all (\<lambda>(k, v). same_value (dict_get kvs k) v) fixture"

definition test_the_request_is_the_one_it_was_handed :: "'s wire_test" where
  "test_the_request_is_the_one_it_was_handed ks attempt =
     ask_completed ks attempt (\<lambda>received. holds_of (sole_proposal ks received)
       (\<lambda>proposal. same_dict proposal CERTIFICATION_REQUEST))"

definition test_carries_no_principal_in_either_pocket :: "'s wire_test" where
  "test_carries_no_principal_in_either_pocket ks attempt s =
     (case run_attempt (attempt PROBE_HOST (ks_port ks) CERTIFICATION_REQUEST s)
              (fresh_probe ks True 200 COMPLETED_RESPONSE) of
        (Inl e, _) \<Rightarrow> None
      | (Inr (_, s'), probe) \<Rightarrow>
          (case sole_envelope ks (pb_received probe) of
             None \<Rightarrow> None
           | Some envelope \<Rightarrow>
               ask_completed ks attempt (\<lambda>received. holds_of (sole_proposal ks received)
                 (\<lambda>proposal. list_all (\<lambda>name. \<not> has_field envelope name \<and> \<not> has_field proposal name)
                   PRINCIPAL_FIELDS)) s'))"

definition test_relays_the_gateway_answer_unchanged :: "'s wire_test" where
  "test_relays_the_gateway_answer_unchanged ks attempt =
     for_each
       (\<lambda>decided. ask ks attempt 200 (certification_response (agent_status_value decided) WIRE_VERSION)
          (\<lambda>status _. status = agent_status_value decided))
       [Completed, Awaiting_review]"

definition reads_refused :: "py_str \<Rightarrow> recorded_request list \<Rightarrow> bool" where
  "reads_refused status received \<longleftrightarrow> status = agent_status_value Answer_refused"

definition test_a_gateway_that_declines_reads_as_refused :: "'s wire_test" where
  "test_a_gateway_that_declines_reads_as_refused ks attempt =
     ask ks attempt 503 (utf8 (dumps_spaced (JObj [(''refused'', JStr ''authorization_unavailable'')]))) reads_refused"

definition UNPARSEABLE :: bytes where
  "UNPARSEABLE = utf8 ''<html><body>504 Gateway Timeout</body></html>''"

definition test_an_unparseable_answer_is_refused :: "'s wire_test" where
  "test_an_unparseable_answer_is_refused ks attempt = ask ks attempt 200 UNPARSEABLE reads_refused"

definition test_an_unknown_status_is_refused :: "'s wire_test" where
  "test_an_unknown_status_is_refused ks attempt =
     ask ks attempt 200 (certification_response ''authorized'' WIRE_VERSION) reads_refused"

definition test_a_foreign_dialect_is_refused_rather_than_parsed :: "'s wire_test" where
  "test_a_foreign_dialect_is_refused_rather_than_parsed ks attempt =
     ask ks attempt 200 (certification_response (agent_status_value Completed) UNSPOKEN_WIRE_VERSION) reads_refused"

definition test_an_unreachable_gateway_yields_refused_not_a_verdict :: "'s wire_test" where
  "test_an_unreachable_gateway_yields_refused_not_a_verdict ks attempt s =
     attempted ks attempt False 200 COMPLETED_RESPONSE s reads_refused"

text \<open>The answers are all asked for before the first is looked at: a raise among them fails the test
  as an answer outside the vocabulary does.\<close>

definition test_every_answer_is_in_the_closed_vocabulary :: "'s wire_test" where
  "test_every_answer_is_in_the_closed_vocabulary ks attempt =
     for_each
       (\<lambda>(status_code, body). ask ks attempt status_code body (\<lambda>status _. status \<in> CLOSED_STATUS_VOCABULARY))
       [(200, COMPLETED_RESPONSE),
        (503, utf8 (dumps_spaced (JObj [(''refused'', JStr ''unavailable'')]))),
        (200, utf8 ''not json at all'')]"

definition wire_kit :: "surroundings_of_kit \<Rightarrow> 's candidate \<Rightarrow> 's \<Rightarrow> 's option" where
  "wire_kit ks attempt =
     for_each (\<lambda>test. test ks attempt)
       [test_asks_the_gateway_before_answering,
        test_posts_the_envelope_to_the_authorize_path,
        test_the_envelope_carries_the_version_and_the_request_only,
        test_announces_a_wire_version_this_contract_defines,
        test_the_request_is_the_closed_agent_surface,
        test_the_request_is_the_one_it_was_handed,
        test_carries_no_principal_in_either_pocket,
        test_relays_the_gateway_answer_unchanged,
        test_a_gateway_that_declines_reads_as_refused,
        test_an_unparseable_answer_is_refused,
        test_an_unknown_status_is_refused,
        test_a_foreign_dialect_is_refused_rather_than_parsed,
        test_an_unreachable_gateway_yields_refused_not_a_verdict,
        test_every_answer_is_in_the_closed_vocabulary]"

section \<open>Candidates\<close>

text \<open>\<open>secondsign_client\<close>, driven as its own tests drive it: \<open>AuthorizationRequest(**request)\<close>, a
  \<open>GatewayClient\<close> for the address, and the value of the status it answers.\<close>

definition exchange_of :: "wire_event \<Rightarrow> exchange" where
  "exchange_of event =
     (case event of
        Response status payload \<Rightarrow> Answered status payload
      | Ssl_error \<Rightarrow> Tls_failure
      | Os_error \<Rightarrow> Transport_failure
      | Http_exception \<Rightarrow> Transport_failure)"

definition WIRE_ACTIONS :: "wire_action list" where
  "WIRE_ACTIONS = [Wire_payment, Wire_refund, Wire_payout, Wire_transfer, Wire_trade, Wire_account_change]"

definition WIRE_RAILS :: "wire_rail list" where
  "WIRE_RAILS = [Wire_card, Wire_bank_transfer, Wire_wallet, Wire_brokerage, Wire_other]"

definition WIRE_CURRENCIES :: "wire_currency list" where
  "WIRE_CURRENCIES =
     [Wire_USD, Wire_EUR, Wire_GBP, Wire_JPY, Wire_CHF, Wire_CAD, Wire_AUD, Wire_CNY, Wire_HKD, Wire_SGD]"

definition WIRE_REVERSIBILITIES :: "wire_reversibility list" where
  "WIRE_REVERSIBILITIES = [Wire_irreversible, Wire_delayed_reversible, Wire_reversible]"

definition wire_request_of :: "(loaded \<Rightarrow> int option) \<Rightarrow> loaded \<Rightarrow> wire_request option" where
  "wire_request_of coerce v =
     (case v of
        L_dict kvs \<Rightarrow>
          if \<not> closed_model REQUEST_FIELDS [] kvs then None
          else
            (case (enum_of wire_action_value WIRE_ACTIONS (dict_get kvs ''action''),
                   enum_of wire_rail_value WIRE_RAILS (dict_get kvs ''rail''),
                   enum_of wire_currency_value WIRE_CURRENCIES (dict_get kvs ''currency''),
                   nonneg_of coerce (dict_get kvs ''amount_minor''),
                   enum_of wire_reversibility_value WIRE_REVERSIBILITIES (dict_get kvs ''reversibility''),
                   wire_reference_of (dict_get kvs ''counterparty_ref''),
                   wire_reference_of (dict_get kvs ''source_account_ref''),
                   wire_reference_of (dict_get kvs ''request_ref'')) of
               (Some action, Some rail, Some currency, Some amount, Some reversibility, Some counterparty,
                  Some source, Some reference) \<Rightarrow>
                 Some \<lparr>wq_action = action, wq_rail = rail, wq_currency = currency, wq_amount_minor = amount,
                       wq_reversibility = reversibility, wq_counterparty_ref = counterparty,
                       wq_source_account_ref = source, wq_request_ref = reference\<rparr>
             | _ \<Rightarrow> None)
      | _ \<Rightarrow> None)"

definition reference_client :: "runtime \<Rightarrow> (loaded \<Rightarrow> int option) \<Rightarrow> client_parser \<Rightarrow> 's candidate" where
  "reference_client rt coerce cp host port request s =
     (case gateway_client_init rt (\<lambda>_. None) host port None None None of
        Inl e \<Rightarrow> Attempt_raises e
      | Inr client \<Rightarrow>
          (case wire_request_of coerce (loaded_of (JObj request)) of
             None \<Rightarrow> Attempt_raises Validation_Error
           | Some q \<Rightarrow>
               Send ''POST'' (client_post ''/authorize'' (wire_request_body q)) (\<lambda>event.
                 case request_authorization cp (\<lambda>_ _ _. exchange_of event) client q of
                   Inl e \<Rightarrow> Attempt_raises e
                 | Inr a \<Rightarrow> Report (wire_status_value (answer_status a)) s)))"

text \<open>The minimal client of the examples, over its reading of an answer. \<open>value in frozenset\<close> raises
  for a value that has no hash.\<close>

definition in_vocabulary :: "loaded \<Rightarrow> py_error + bool" where
  "in_vocabulary v =
     (case v of
        L_str s \<Rightarrow> Inr (s \<in> CLOSED_STATUS_VOCABULARY)
      | _ \<Rightarrow> if unhashable v then Inl Type_Error else Inr False)"

definition read_outcome :: "(py_str \<times> loaded) list \<Rightarrow> py_error + py_str" where
  "read_outcome answer =
     (case dict_get answer ''outcome'' of
        L_dict outcome \<Rightarrow>
          (case in_vocabulary (dict_get outcome ''status'') of
             Inl e \<Rightarrow> Inl e
           | Inr known \<Rightarrow>
               (case dict_get outcome ''status'' of
                  L_str status \<Rightarrow> Inr (if known then status else agent_status_value Answer_refused)
                | _ \<Rightarrow> Inr (agent_status_value Answer_refused)))
      | _ \<Rightarrow> Inr (agent_status_value Answer_refused))"

definition minimal_read_answer :: "decoders \<Rightarrow> bytes \<Rightarrow> py_error + py_str" where
  "minimal_read_answer dc raw =
     (case dc_loads dc raw of
        Some (L_dict answer) \<Rightarrow>
          (case in_int_set (dict_get answer ''wire_version'') SUPPORTED_WIRE_VERSIONS of
             Inl e \<Rightarrow> Inl e
           | Inr speaks \<Rightarrow>
               if \<not> speaks then Inr (agent_status_value Answer_refused) else read_outcome answer)
      | _ \<Rightarrow> Inr (agent_status_value Answer_refused))"

definition dialect_blind_read_answer :: "decoders \<Rightarrow> bytes \<Rightarrow> py_error + py_str" where
  "dialect_blind_read_answer dc raw =
     (case dc_loads dc raw of
        Some (L_dict answer) \<Rightarrow> read_outcome answer
      | _ \<Rightarrow> Inr (agent_status_value Answer_refused))"

definition optimist_read_answer :: "decoders \<Rightarrow> bytes \<Rightarrow> py_error + py_str" where
  "optimist_read_answer dc raw =
     map_sum id (\<lambda>conformant. if conformant = agent_status_value Answer_refused
                               then agent_status_value Completed else conformant)
       (minimal_read_answer dc raw)"

definition minimal_client :: "(bytes \<Rightarrow> py_error + py_str) \<Rightarrow> 's candidate" where
  "minimal_client read_answer host port request s =
     (let envelope = JObj [(''wire_version'', JInt WIRE_VERSION), (''request'', JObj request)]
      in Send ''POST'' (client_post ''/authorize'' (utf8 (dumps_spaced envelope))) (\<lambda>event.
           case event of
             Response status_code raw \<Rightarrow>
               if status_code \<noteq> 200 then Report (agent_status_value Answer_refused) s
               else (case read_answer raw of Inl e \<Rightarrow> Attempt_raises e | Inr status \<Rightarrow> Report status s)
           | Ssl_error \<Rightarrow> Report (agent_status_value Answer_refused) s
           | Os_error \<Rightarrow> Report (agent_status_value Answer_refused) s
           | Http_exception \<Rightarrow> Attempt_raises External_Error))"

section \<open>One posted request\<close>

text \<open>The candidates here send one request and report on what comes of it.\<close>

definition posts_once :: "bytes \<Rightarrow> (wire_event \<Rightarrow> py_error + py_str) \<Rightarrow> 's \<Rightarrow> 's attempt" where
  "posts_once body read s =
     Send ''POST'' (client_post ''/authorize'' body) (\<lambda>event.
       case read event of Inl e \<Rightarrow> Attempt_raises e | Inr status \<Rightarrow> Report status s)"

lemma probe_answer_posted:
  assumes "length body < 10 ^ 5"
  shows "probe_answer (fresh_probe ks True status payload) ''POST'' (client_post ''/authorize'' body)
    = (Response status payload,
       (fresh_probe ks True status payload)\<lparr>pb_received := [\<lparr>rr_method = ''POST'', rr_path = ''/authorize'', rr_body = body\<rparr>]\<rparr>)"
proof -
  have "length (nat_str (length body)) \<le> Suc 4" by (rule length_nat_str) (use assms in simp)
  then have "py_int (nat_str (length body)) = Some (int (length body))"
    by (intro py_int_nat_str) (simp add: MAX_STR_DIGITS_def)
  then show ?thesis by (simp add: probe_answer_def fresh_probe_def client_post_def Let_def)
qed

lemma run_posts_once:
  assumes "length body < 10 ^ 5"
  shows "run_attempt (posts_once body read s) (fresh_probe ks True status payload)
    = (map_sum id (\<lambda>reported. (reported, s)) (read (Response status payload)),
       (fresh_probe ks True status payload)\<lparr>pb_received := [\<lparr>rr_method = ''POST'', rr_path = ''/authorize'', rr_body = body\<rparr>]\<rparr>)"
  by (simp add: posts_once_def probe_answer_posted [OF assms] split: sum.split)

lemma run_posts_once_unreachable:
  "run_attempt (posts_once body read s) (fresh_probe ks False status payload)
    = (map_sum id (\<lambda>reported. (reported, s)) (read Os_error), fresh_probe ks False status payload)"
  by (simp add: posts_once_def probe_answer_def fresh_probe_def split: sum.split)

text \<open>The request side: what is posted is read as the version and the proposal that was handed over.\<close>

definition certified_body :: "surroundings_of_kit \<Rightarrow> bytes \<Rightarrow> bool" where
  "certified_body ks body \<longleftrightarrow>
     length body < 10 ^ 5
     \<and> dc_loads (ks_decoders ks) body
         = Some (loaded_of (JObj [(''wire_version'', JInt WIRE_VERSION), (''request'', JObj CERTIFICATION_REQUEST)]))
     \<and> dc_request (ks_decoders ks) (loaded_of (JObj CERTIFICATION_REQUEST)) \<noteq> None"

text \<open>The answer side.\<close>

definition reads_as_promised :: "(wire_event \<Rightarrow> py_error + py_str) \<Rightarrow> bool" where
  "reads_as_promised read \<longleftrightarrow>
     read (Response 200 COMPLETED_RESPONSE) = Inr (agent_status_value Completed)
     \<and> read (Response 200 (certification_response (agent_status_value Awaiting_review) WIRE_VERSION))
         = Inr (agent_status_value Awaiting_review)
     \<and> read (Response 503 (utf8 (dumps_spaced (JObj [(''refused'', JStr ''authorization_unavailable'')]))))
         = Inr (agent_status_value Answer_refused)
     \<and> read (Response 200 UNPARSEABLE) = Inr (agent_status_value Answer_refused)
     \<and> read (Response 200 (certification_response ''authorized'' WIRE_VERSION)) = Inr (agent_status_value Answer_refused)
     \<and> read (Response 200 (certification_response (agent_status_value Completed) UNSPOKEN_WIRE_VERSION))
         = Inr (agent_status_value Answer_refused)
     \<and> read Os_error = Inr (agent_status_value Answer_refused)
     \<and> (\<exists>status \<in> CLOSED_STATUS_VOCABULARY.
          read (Response 503 (utf8 (dumps_spaced (JObj [(''refused'', JStr ''unavailable'')])))) = Inr status)
     \<and> (\<exists>status \<in> CLOSED_STATUS_VOCABULARY. read (Response 200 (utf8 ''not json at all'')) = Inr status)"

abbreviation posted_once :: "bytes \<Rightarrow> recorded_request list" where
  "posted_once body \<equiv> [\<lparr>rr_method = ''POST'', rr_path = ''/authorize'', rr_body = body\<rparr>]"

definition posts_to ::
  "surroundings_of_kit \<Rightarrow> 's candidate \<Rightarrow> bytes \<Rightarrow> (wire_event \<Rightarrow> py_error + py_str) \<Rightarrow> bool" where
  "posts_to ks attempt body read \<longleftrightarrow>
     (\<forall>s. attempt PROBE_HOST (ks_port ks) CERTIFICATION_REQUEST s = posts_once body read s)"

lemma ask_posts_once:
  assumes "posts_to ks attempt body read" and "length body < 10 ^ 5"
  shows "ask ks attempt status_code payload check s =
    require (\<exists>status. read (Response status_code payload) = Inr status \<and> check status (posted_once body)) s"
  using assms(1)
  by (cases "read (Response status_code payload)")
    (simp_all add: posts_to_def ask_def attempted_def run_posts_once [OF assms(2)] require_def)

lemma unreachable_posts_once:
  assumes "posts_to ks attempt body read"
  shows "attempted ks attempt False status_code payload s check =
    require (\<exists>status. read Os_error = Inr status \<and> check status []) s"
  using assms
  by (cases "read Os_error")
    (simp_all add: posts_to_def attempted_def run_posts_once_unreachable, simp_all add: fresh_probe_def require_def)

lemma same_dict_request: "same_dict (map (map_prod id loaded_of) CERTIFICATION_REQUEST) CERTIFICATION_REQUEST"
  by (simp add: same_dict_def CERTIFICATION_REQUEST_def dict_get_def)

lemma relays_posts_once:
  assumes "posts_to ks attempt body read" and "length body < 10 ^ 5"
  shows "test_relays_the_gateway_answer_unchanged ks attempt s = require
      (read (Response 200 COMPLETED_RESPONSE) = Inr (agent_status_value Completed)
       \<and> read (Response 200 (certification_response (agent_status_value Awaiting_review) WIRE_VERSION))
           = Inr (agent_status_value Awaiting_review)) s"
  by (auto simp: test_relays_the_gateway_answer_unchanged_def ask_posts_once [OF assms] COMPLETED_RESPONSE_def require_def)

lemma wire_kit_posts_once:
  assumes posts: "posts_to ks attempt body read" and body: "certified_body ks body"
  shows "wire_kit ks attempt s = require (reads_as_promised read) s"
proof -
  have short: "length body < 10 ^ 5" using body by (simp add: certified_body_def)
  note ask = ask_posts_once [OF posts short]
  have sole: "sole_request (posted_once body) = Some \<lparr>rr_method = ''POST'', rr_path = ''/authorize'', rr_body = body\<rparr>"
    by (simp add: sole_request_def)
  have envelope: "sole_envelope ks (posted_once body)
      = Some [(''wire_version'', L_int WIRE_VERSION), (''request'', loaded_of (JObj CERTIFICATION_REQUEST))]"
    using body by (simp add: sole_envelope_def sole certified_body_def)
  then have proposal: "sole_proposal ks (posted_once body) = Some (map (map_prod id loaded_of) CERTIFICATION_REQUEST)"
    by (simp add: sole_proposal_def has_field_def dict_get_def)
  have version: "dict_get [(''wire_version'', L_int WIRE_VERSION), (''request'', r)] ''wire_version'' = L_int WIRE_VERSION" for r
    by (simp add: dict_get_def)
  have valid: "\<exists>q. dc_request (ks_decoders ks) (L_dict (map (map_prod id loaded_of) CERTIFICATION_REQUEST)) = Some q"
    using body by (simp add: certified_body_def)
  have amount: "dict_get (map (map_prod id loaded_of) CERTIFICATION_REQUEST) ''amount_minor'' = L_int 4200"
    by (simp add: CERTIFICATION_REQUEST_def dict_get_def)
  have names: "list_all (\<lambda>name. \<not> has_field [(''wire_version'', L_int WIRE_VERSION), (''request'', r)] name
      \<and> \<not> has_field (map (map_prod id loaded_of) CERTIFICATION_REQUEST) name) PRINCIPAL_FIELDS" for r
    by (simp add: PRINCIPAL_FIELDS_def has_field_def CERTIFICATION_REQUEST_def)
  note sent = sole envelope proposal version valid amount names same_dict_request
  let ?says = "\<lambda>event status. read event = Inr status"
  let ?refused = "agent_status_value Answer_refused"
  let ?told = "\<exists>status. ?says (Response 200 COMPLETED_RESPONSE) status"
  have told: "ask_completed ks attempt check s = require (?told \<and> check (posted_once body)) s" for check s
    by (simp add: ask_completed_def ask)
  have run: "run_attempt (attempt PROBE_HOST (ks_port ks) CERTIFICATION_REQUEST s) (fresh_probe ks True 200 COMPLETED_RESPONSE)
      = (map_sum id (\<lambda>reported. (reported, s)) (read (Response 200 COMPLETED_RESPONSE)),
         (fresh_probe ks True 200 COMPLETED_RESPONSE)\<lparr>pb_received := posted_once body\<rparr>)" for s
    using posts by (simp add: posts_to_def run_posts_once [OF short])
  have principal: "test_carries_no_principal_in_either_pocket ks attempt s = require ?told s" for s
    by (cases "read (Response 200 COMPLETED_RESPONSE)")
      (simp_all add: test_carries_no_principal_in_either_pocket_def run told holds_of_def envelope proposal names)
  note relays = relays_posts_once [OF posts short]
  let ?vocabulary = "\<exists>status \<in> CLOSED_STATUS_VOCABULARY. ?says (Response 200 COMPLETED_RESPONSE) status"
  let ?declines = "\<exists>status \<in> CLOSED_STATUS_VOCABULARY.
      ?says (Response 503 (utf8 (dumps_spaced (JObj [(''refused'', JStr ''unavailable'')])))) status"
  let ?garbage = "\<exists>status \<in> CLOSED_STATUS_VOCABULARY. ?says (Response 200 (utf8 ''not json at all'')) status"
  have every: "test_every_answer_is_in_the_closed_vocabulary ks attempt s = require (?vocabulary \<and> ?declines \<and> ?garbage) s" for s
    by (auto simp: test_every_answer_is_in_the_closed_vocabulary_def ask require_def)
  let ?bs = "[?told, ?told, ?told, ?told, ?told, ?told, ?told,
    ?says (Response 200 COMPLETED_RESPONSE) (agent_status_value Completed)
      \<and> ?says (Response 200 (certification_response (agent_status_value Awaiting_review) WIRE_VERSION))
           (agent_status_value Awaiting_review),
    ?says (Response 503 (utf8 (dumps_spaced (JObj [(''refused'', JStr ''authorization_unavailable'')])))) ?refused,
    ?says (Response 200 UNPARSEABLE) ?refused,
    ?says (Response 200 (certification_response ''authorized'' WIRE_VERSION)) ?refused,
    ?says (Response 200 (certification_response (agent_status_value Completed) UNSPOKEN_WIRE_VERSION)) ?refused,
    ?says Os_error ?refused, ?vocabulary \<and> ?declines \<and> ?garbage]"
  have "wire_kit ks attempt s = require (list_all id ?bs) s"
    unfolding wire_kit_def
    by (rule for_each_tests)
      (simp add: test_asks_the_gateway_before_answering_def test_posts_the_envelope_to_the_authorize_path_def
        test_the_envelope_carries_the_version_and_the_request_only_def
        test_announces_a_wire_version_this_contract_defines_def test_the_request_is_the_closed_agent_surface_def
        test_the_request_is_the_one_it_was_handed_def test_a_gateway_that_declines_reads_as_refused_def
        test_an_unparseable_answer_is_refused_def test_an_unknown_status_is_refused_def
        test_a_foreign_dialect_is_refused_rather_than_parsed_def
        test_an_unreachable_gateway_yields_refused_not_a_verdict_def
        told principal relays every sent holds_of_def ask unreachable_posts_once [OF posts] reads_refused_def
        SUPPORTED_WIRE_VERSIONS_def)
  also have "list_all id ?bs \<longleftrightarrow> reads_as_promised read"
    by (auto simp: reads_as_promised_def CLOSED_STATUS_VOCABULARY_def)
  finally show ?thesis .
qed

section \<open>The two conformant clients\<close>

definition certification_wire_request :: wire_request where
  "certification_wire_request =
     \<lparr>wq_action = Wire_payment, wq_rail = Wire_card, wq_currency = Wire_USD, wq_amount_minor = 4200,
      wq_reversibility = Wire_irreversible, wq_counterparty_ref = doubled ''cd'',
      wq_source_account_ref = doubled ''ef'', wq_request_ref = doubled ''12''\<rparr>"

lemma doubled_fingerprints [simp]:
  "is_fingerprint (doubled ''cd'')" "is_fingerprint (doubled ''ef'')" "is_fingerprint (doubled ''12'')"
  "is_fingerprint (doubled ''ab'')"
  by (code_simp, code_simp, code_simp, code_simp)

lemma certification_request_read:
  "wire_request_of coerce (loaded_of (JObj CERTIFICATION_REQUEST)) = Some certification_wire_request"
  by (simp add: wire_request_of_def certification_wire_request_def CERTIFICATION_REQUEST_def closed_model_def
      REQUEST_FIELDS_def has_field_def dict_get_def enum_of_def WIRE_ACTIONS_def WIRE_RAILS_def WIRE_CURRENCIES_def
      WIRE_REVERSIBILITIES_def nonneg_of_def wire_reference_of_def)

lemma certification_request_ok: "wire_request_ok certification_wire_request" "numeral_ok 4200"
proof -
  show "wire_request_ok certification_wire_request"
    by (simp add: wire_request_ok_def certification_wire_request_def)
  have "length (nat_str 4200) \<le> Suc 3" by (rule length_nat_str) simp
  then show "numeral_ok 4200" by (simp add: numeral_ok_def MAX_STR_DIGITS_def)
qed

lemma certification_request_json:
  "wire_request_json certification_wire_request
   = JObj [(''wire_version'', JInt WIRE_VERSION), (''request'', JObj CERTIFICATION_REQUEST)]"
  by (simp add: wire_request_json_def certification_wire_request_def CERTIFICATION_REQUEST_def CLIENT_WIRE_VERSION_def
      WIRE_VERSION_def)

lemma certification_request_core: "request_json (core_request certification_wire_request) = JObj CERTIFICATION_REQUEST"
  using certification_request_json by (simp add: wire_request_json_core)

lemma unspoken: "UNSPOKEN_WIRE_VERSION = 2"
  by (simp add: UNSPOKEN_WIRE_VERSION_def SUPPORTED_WIRE_VERSIONS_def WIRE_VERSION_def)

lemma certification_json_ok: "0 \<le> version \<Longrightarrow> version < 10 \<Longrightarrow> json_ok (certification_json status version)"
  by (simp add: certification_json_def small_numeral)

lemma envelope_json_ok: "json_ok (JObj [(''wire_version'', JInt WIRE_VERSION), (''request'', JObj CERTIFICATION_REQUEST)])"
  by (simp add: CERTIFICATION_REQUEST_def WIRE_VERSION_def small_numeral certification_request_ok(2))

definition minimal_reads :: "(bytes \<Rightarrow> py_error + py_str) \<Rightarrow> wire_event \<Rightarrow> py_error + py_str" where
  "minimal_reads read_answer event =
     (case event of
        Response status_code raw \<Rightarrow>
          if status_code \<noteq> 200 then Inr (agent_status_value Answer_refused) else read_answer raw
      | Http_exception \<Rightarrow> Inl External_Error
      | _ \<Rightarrow> Inr (agent_status_value Answer_refused))"

lemma minimal_client_posts:
  "posts_to ks (minimal_client read_answer)
     (utf8 (dumps_spaced (JObj [(''wire_version'', JInt WIRE_VERSION), (''request'', JObj CERTIFICATION_REQUEST)])))
     (minimal_reads read_answer)"
  unfolding posts_to_def minimal_client_def posts_once_def Let_def
proof (intro allI arg_cong [where f = "Send _ _"] ext)
  fix s event
  show "(case event of
           Response status_code raw \<Rightarrow>
             if status_code \<noteq> 200 then Report (agent_status_value Answer_refused) s
             else (case read_answer raw of Inl e \<Rightarrow> Attempt_raises e | Inr status \<Rightarrow> Report status s)
         | Ssl_error \<Rightarrow> Report (agent_status_value Answer_refused) s
         | Os_error \<Rightarrow> Report (agent_status_value Answer_refused) s
         | Http_exception \<Rightarrow> Attempt_raises External_Error)
       = (case minimal_reads read_answer event of Inl e \<Rightarrow> Attempt_raises e | Inr status \<Rightarrow> Report status s)"
    by (cases event) (simp_all add: minimal_reads_def)
qed

text \<open>Of the readers the kit and the clients rely on: as \<open>wire_ends\<close>, that \<open>json.loads\<close> also reads
  what \<open>json.dumps\<close> wrote, that neither reader takes a page or a sentence for JSON, and that the
  instant of the fixtures is one.\<close>

locale probe_ends = wire_ends +
  assumes spaced_loads: "json_ok j \<Longrightarrow> dc_loads dc (utf8 (dumps_spaced j)) = Some (loaded_of j)"
    and page_unread: "dc_loads dc UNPARSEABLE = None" "cp_json cp UNPARSEABLE = None"
    and sentence_unread: "dc_loads dc (utf8 ''not json at all'') = None" "cp_json cp (utf8 ''not json at all'') = None"
    and instant_read: "\<exists>t. cp_datetime cp (L_str CERTIFICATION_INSTANT) = Some t"
begin

lemma scripted_loads:
  assumes "0 \<le> version" and "version < 10"
  shows "dc_loads dc (certification_response status version) = Some (loaded_of (certification_json status version))"
    and "cp_json cp (certification_response status version) = Some (loaded_of (certification_json status version))"
  using certification_json_ok [OF assms] by (simp_all add: certification_response_def spaced_loads client_loads)

lemma request_valid: "dc_request dc (loaded_of (JObj CERTIFICATION_REQUEST)) \<noteq> None"
  using gateway_validates [OF core_request_ok [OF certification_request_ok(1)]]
  by (simp only: certification_request_core option.distinct not_False_eq_True)

lemma reference_body:
  assumes "ks_decoders ks = dc"
  shows "certified_body ks (wire_request_body certification_wire_request)"
proof -
  have "length (wire_request_body certification_wire_request) \<le> 24000"
    by (rule body_length) (simp_all add: certification_request_ok, simp add: certification_wire_request_def certification_request_ok)
  then have "length (wire_request_body certification_wire_request) < 10 ^ 5" by simp
  moreover have "dc_loads dc (wire_request_body certification_wire_request)
      = Some (loaded_of (JObj [(''wire_version'', JInt WIRE_VERSION), (''request'', JObj CERTIFICATION_REQUEST)]))"
    unfolding wire_request_body_def certification_request_json by (rule gateway_loads [OF envelope_json_ok])
  ultimately show ?thesis using assms request_valid by (simp add: certified_body_def)
qed

lemma reference_reads:
  "reads_as_promised (\<lambda>event. map_sum id (wire_status_value \<circ> answer_status)
     (request_authorization cp (\<lambda>_ _ _. exchange_of event) client q))"
proof -
  obtain t where t: "cp_datetime cp (L_str CERTIFICATION_INSTANT) = Some t" using instant_read by blast
  let ?answer = "\<lambda>status version. wire_response_of cp (certification_response status version)"
  note read = scripted_loads(2) wire_response_of_def certification_json_def closed_model_def has_field_def dict_get_def
    require_this_dialect_def CLIENT_WIRE_VERSION_def WIRE_VERSION_def unspoken wire_outcome_of_def enum_of_def
    WIRE_STATUSES_def wire_reference_of_def wire_reasons_of_def t
  have answers: "\<exists>r. ?answer ''completed'' WIRE_VERSION = Some r \<and> wo_status r = Wire_completed"
    "\<exists>r. ?answer ''awaiting_review'' WIRE_VERSION = Some r \<and> wo_status r = Wire_awaiting_review"
    "?answer ''authorized'' WIRE_VERSION = None" "?answer ''completed'' UNSPOKEN_WIRE_VERSION = None"
    by (simp_all add: read)
  have unread: "wire_response_of cp UNPARSEABLE = None" "wire_response_of cp (utf8 ''not json at all'') = None"
    by (simp_all add: wire_response_of_def page_unread sentence_unread)
  show ?thesis
    using answers unread
    by (auto simp: reads_as_promised_def request_authorization_def exchange_of_def answer_status_def
        transport_refused_def COMPLETED_RESPONSE_def CLOSED_STATUS_VOCABULARY_def)
qed

lemma minimal_body:
  assumes "ks_decoders ks = dc"
  shows "certified_body ks (utf8 (dumps_spaced (JObj [(''wire_version'', JInt WIRE_VERSION),
    (''request'', JObj CERTIFICATION_REQUEST)])))"
proof -
  have "length (dumps_spaced (JObj [(''wire_version'', JInt WIRE_VERSION), (''request'', JObj CERTIFICATION_REQUEST)])) < 20000"
  proof -
    have refs: "length (doubled ''cd'') \<le> 67" "length (doubled ''ef'') \<le> 67" "length (doubled ''12'') \<le> 67"
      by (simp_all add: fingerprint_length)
    have numerals: "length (int_str WIRE_VERSION) \<le> 4301" "length (int_str 4200) \<le> 4301"
      by (simp_all add: int_str_length certification_request_ok(2) small_numeral WIRE_VERSION_def)
    note bounds = json_str_length [of "''payment''"] json_str_length [of "''card''"] json_str_length [of "''USD''"]
      json_str_length [of "''irreversible''"] json_str_length [of "doubled ''cd''"] json_str_length [of "doubled ''ef''"]
      json_str_length [of "doubled ''12''"] json_str_length [of "''wire_version''"] json_str_length [of "''request''"]
      json_str_length [of "''action''"] json_str_length [of "''rail''"] json_str_length [of "''currency''"]
      json_str_length [of "''amount_minor''"] json_str_length [of "''reversibility''"]
      json_str_length [of "''counterparty_ref''"] json_str_length [of "''source_account_ref''"]
      json_str_length [of "''request_ref''"]
    show ?thesis using refs numerals bounds by (simp add: dumps_spaced_def CERTIFICATION_REQUEST_def)
  qed
  then have "length (utf8 (dumps_spaced (JObj [(''wire_version'', JInt WIRE_VERSION),
      (''request'', JObj CERTIFICATION_REQUEST)]))) < 10 ^ 5"
    using utf8_length [of "dumps_spaced (JObj [(''wire_version'', JInt WIRE_VERSION), (''request'', JObj CERTIFICATION_REQUEST)])"]
    by simp
  with assms request_valid spaced_loads [OF envelope_json_ok] show ?thesis by (simp add: certified_body_def)
qed

lemma minimal_answers:
  assumes "0 \<le> version" and "version < 10"
  shows "minimal_read_answer dc (certification_response status version) =
      Inr (if version = 1 \<and> status \<in> CLOSED_STATUS_VOCABULARY then status else ''refused'')"
    and "dialect_blind_read_answer dc (certification_response status version) =
      Inr (if status \<in> CLOSED_STATUS_VOCABULARY then status else ''refused'')"
  by (simp_all add: minimal_read_answer_def dialect_blind_read_answer_def scripted_loads(1) [OF assms]
      certification_json_def dict_get_def read_outcome_def in_vocabulary_def SUPPORTED_WIRE_VERSIONS_def WIRE_VERSION_def)

lemma minimal_unread:
  "minimal_read_answer dc UNPARSEABLE = Inr ''refused''" "minimal_read_answer dc (utf8 ''not json at all'') = Inr ''refused''"
  by (simp_all add: minimal_read_answer_def page_unread sentence_unread)

lemma broken_relay:
  assumes "ks_decoders ks = dc"
    and "read_answer = dialect_blind_read_answer dc \<or> read_answer = optimist_read_answer dc"
  shows "test_relays_the_gateway_answer_unchanged ks (minimal_client read_answer) s = Some s"
proof -
  have v: "(0 :: int) \<le> 1" "(1 :: int) < 10" by simp_all
  have short: "length (utf8 (dumps_spaced (JObj [(''wire_version'', JInt WIRE_VERSION), (''request'', JObj CERTIFICATION_REQUEST)])))
      < 10 ^ 5" using minimal_body [OF assms(1)] by (simp add: certified_body_def)
  from assms(2) show ?thesis
    by (auto simp: relays_posts_once [OF minimal_client_posts short] minimal_reads_def COMPLETED_RESPONSE_def minimal_answers [OF v] optimist_read_answer_def
        WIRE_VERSION_def CLOSED_STATUS_VOCABULARY_def)
qed

lemma minimal_promised:
  "reads_as_promised (minimal_reads (minimal_read_answer dc))"
  "\<not> reads_as_promised (minimal_reads (dialect_blind_read_answer dc))"
  "\<not> reads_as_promised (minimal_reads (optimist_read_answer dc))"
proof -
  have v: "(0 :: int) \<le> 1" "(1 :: int) < 10" "(0 :: int) \<le> 2" "(2 :: int) < 10" by simp_all
  note answers = minimal_answers [OF v(1,2)] minimal_answers [OF v(3,4)] minimal_unread WIRE_VERSION_def unspoken
  show "reads_as_promised (minimal_reads (minimal_read_answer dc))"
    by (simp add: reads_as_promised_def minimal_reads_def COMPLETED_RESPONSE_def answers CLOSED_STATUS_VOCABULARY_def)
  show "\<not> reads_as_promised (minimal_reads (dialect_blind_read_answer dc))"
    by (simp add: reads_as_promised_def minimal_reads_def answers CLOSED_STATUS_VOCABULARY_def)
  show "\<not> reads_as_promised (minimal_reads (optimist_read_answer dc))"
    by (simp add: reads_as_promised_def minimal_reads_def answers optimist_read_answer_def)
qed


end

lemma reference_reads_no_page:
  "reference_loads (\<lambda>_. None) UNPARSEABLE = None" "reference_loads (\<lambda>_. None) (utf8 ''not json at all'') = None"
  by (simp_all add: reference_loads_def UNPARSEABLE_def json_loads_def skip_space_def json_space_def read_word_def
      read_number_def read_integer_part_def is_digit_def)

interpretation probe: probe_ends reference_decoders reference_parser int_str
  by unfold_locales
    (simp_all add: reference_decoders_def reference_parser_def reference_reads_no_page,
     simp_all add: reference_loads_def json_loads_dumps_spaced read_microseconds_def CERTIFICATION_INSTANT_def)

section \<open>Under the kit\<close>

lemma reference_client_posts:
  assumes "rt_is_loopback rt PROBE_HOST = Some True"
  shows "posts_to ks (reference_client rt coerce cp :: 's candidate) (wire_request_body certification_wire_request)
    (\<lambda>event. map_sum id (wire_status_value \<circ> answer_status)
       (request_authorization cp (\<lambda>_ _ _. exchange_of event)
          \<lparr>cl_host = PROBE_HOST, cl_port = ks_port ks, cl_context = None\<rparr> certification_wire_request))"
proof -
  have init: "gateway_client_init rt (\<lambda>_. None) PROBE_HOST (ks_port ks) None None None
      = Inr \<lparr>cl_host = PROBE_HOST, cl_port = ks_port ks, cl_context = None\<rparr>"
    using assms by (simp add: gateway_client_init_def truthy_def is_literal_loopback_def)
  have same: "(case r of Inl e \<Rightarrow> Attempt_raises e | Inr a \<Rightarrow> Report (wire_status_value (answer_status a)) s)
      = (case map_sum id (wire_status_value \<circ> answer_status) r of Inl e \<Rightarrow> Attempt_raises e | Inr status \<Rightarrow> Report status s)"
    for r :: "py_error + client_answer" and s :: 's by (cases r) simp_all
  show ?thesis
    by (simp add: posts_to_def reference_client_def init certification_request_read posts_once_def same del: loaded_of.simps)
qed

section \<open>Properties\<close>

text \<open>[C26] What the kit says of the four clients the repository asks it about, with readers that read
  what was written: the reference client and the minimal client pass all fourteen tests, and the
  client that ignores the dialect and the one that takes an unreadable answer for success fail,
  although a well-formed answer is relayed by both as by the others.\<close>

theorem kit_separates_the_clients:
  assumes ends: "probe_ends dc cp fmt" and ks: "ks_decoders ks = dc"
    and loopback: "rt_is_loopback rt PROBE_HOST = Some True"
  shows "wire_kit ks (reference_client rt coerce cp) s = Some s
    \<and> wire_kit ks (minimal_client (minimal_read_answer dc)) s = Some s
    \<and> wire_kit ks (minimal_client (dialect_blind_read_answer dc)) s = None
    \<and> wire_kit ks (minimal_client (optimist_read_answer dc)) s = None
    \<and> test_relays_the_gateway_answer_unchanged ks (minimal_client (dialect_blind_read_answer dc)) s = Some s
    \<and> test_relays_the_gateway_answer_unchanged ks (minimal_client (optimist_read_answer dc)) s = Some s"
  by (simp add: wire_kit_posts_once [OF reference_client_posts [OF loopback] probe_ends.reference_body [OF ends ks]]
      wire_kit_posts_once [OF minimal_client_posts probe_ends.minimal_body [OF ends ks]]
      probe_ends.reference_reads [OF ends] probe_ends.minimal_promised [OF ends]
      probe_ends.broken_relay [OF ends ks])

definition demo_kit :: surroundings_of_kit where
  "demo_kit = \<lparr>ks_decoders = reference_decoders, ks_port = 49152, ks_error_page = []\<rparr>"

theorem kit_separates_the_clients_witness:
  "\<exists>rt. rt_is_loopback rt PROBE_HOST = Some True
     \<and> wire_kit demo_kit (reference_client rt (\<lambda>_. None) reference_parser) () = Some ()
     \<and> wire_kit demo_kit (minimal_client (optimist_read_answer reference_decoders)) () = None"
proof -
  let ?rt = "\<lparr>rt_urlsplit = \<lambda>_. None, rt_is_loopback = \<lambda>_. Some True, rt_cert_seconds = \<lambda>_. None, rt_read_bytes = \<lambda>_. None,
    rt_pem_to_der = \<lambda>_. None, rt_tls_loads = \<lambda>_ _ _. True\<rparr>"
  have "rt_is_loopback ?rt PROBE_HOST = Some True" by simp
  from kit_separates_the_clients [OF probe.probe_ends_axioms _ this, of demo_kit "\<lambda>_. None" "()"] this show ?thesis
    by (intro exI [of _ ?rt]) (simp add: demo_kit_def)
qed

text \<open>Where the minimal client is not the client it says it is. It reports completed exactly when a
  response of status 200 carries an object whose version equals one and whose outcome has that
  status, but a version equals one that is the boolean true; and it raises, where every failure is to
  be a refusal, on an answer whose version or status is a list or an object, and on any answer that
  is not HTTP. No test of the kit asks for one of these.\<close>

theorem minimal_client_reads_exactly:
  "(minimal_reads (minimal_read_answer dc) event = Inr ''completed'' \<longleftrightarrow>
      (\<exists>raw answer outcome. event = Response 200 raw \<and> dc_loads dc raw = Some (L_dict answer)
         \<and> dict_get answer ''wire_version'' \<in> {L_int 1, L_float (Some 1), L_bool True}
         \<and> dict_get answer ''outcome'' = L_dict outcome \<and> dict_get outcome ''status'' = L_str ''completed''))
   \<and> ((\<exists>e. minimal_reads (minimal_read_answer dc) event = Inl e) \<longleftrightarrow>
      event = Http_exception
      \<or> (\<exists>raw answer. event = Response 200 raw \<and> dc_loads dc raw = Some (L_dict answer)
          \<and> (unhashable (dict_get answer ''wire_version'')
             \<or> dict_get answer ''wire_version'' \<in> {L_int 1, L_float (Some 1), L_bool True}
               \<and> (\<exists>outcome. dict_get answer ''outcome'' = L_dict outcome \<and> unhashable (dict_get outcome ''status'')))))"
proof -
  have version: "in_int_set v SUPPORTED_WIRE_VERSIONS
      = (if unhashable v then Inl Type_Error else Inr (v \<in> {L_int 1, L_float (Some 1), L_bool True}))" for v
    by (cases v) (auto simp: unhashable_def SUPPORTED_WIRE_VERSIONS_def WIRE_VERSION_def)
  have outcome: "read_outcome answer = Inr ''completed'' \<longleftrightarrow>
      (\<exists>outcome. dict_get answer ''outcome'' = L_dict outcome \<and> dict_get outcome ''status'' = L_str ''completed'')"
    "(\<exists>e. read_outcome answer = Inl e) \<longleftrightarrow>
      (\<exists>outcome. dict_get answer ''outcome'' = L_dict outcome \<and> unhashable (dict_get outcome ''status''))" for answer
    by (auto simp: read_outcome_def in_vocabulary_def unhashable_def CLOSED_STATUS_VOCABULARY_def split: loaded.splits if_splits)
  show ?thesis
    by (cases event)
      (auto simp: minimal_reads_def minimal_read_answer_def version outcome unhashable_def split: option.splits loaded.splits if_splits)
qed

end
