(* ===== verification/Policy_Kit.thy ===== *)
theory Policy_Kit
  imports Kits Wire
begin

text \<open>
  \<open>conformance/policy_plugin.py\<close>: the corpus of views and the twelve tests an extension has to pass
  to be called compatible, over the runner of theory \<open>Contracts\<close>.

  The kit asks whether an extension keeps a memory or changes what it is shown, so that an extension
  is here the object it is: a call of \<open>evaluate\<close> has the state of the object and the view, and leaves
  both; the tests of a class share one extension and run in the order they are written in.
\<close>

section \<open>The corpus\<close>

definition RISK_BANDS :: "risk_band list" where
  "RISK_BANDS = [Band_low, Band_elevated, Band_high, Band_prohibited]"

definition SOURCE_TRUSTS :: "source_trust list" where
  "SOURCE_TRUSTS = [Untrusted_data, Mixed, Unknown_trust, Trusted_instruction]"

definition MARKET_SESSIONS :: "market_session list" where
  "MARKET_SESSIONS =
     [Session_not_applicable, Session_open, Session_closed, Session_pre_market, Session_post_market,
      Session_halted]"

definition KIT_EPOCH :: datetime where
  "KIT_EPOCH = seconds 1767268800"

definition KIT_REF_A :: py_str where
  "KIT_REF_A = ''fp:'' @ concat (replicate 32 ''a1'')"

definition KIT_REF_B :: py_str where
  "KIT_REF_B = ''fp:'' @ concat (replicate 32 ''b2'')"

definition kit_view :: policy_view where
  "kit_view =
     \<lparr>v_contract_version = CONTRACT_VERSION, v_action_class = Act_payment,
      v_rail_class = Rail_bank_transfer, v_value_lower_minor = 1000, v_value_upper_minor = 1000,
      v_quote_currency = USD, v_counterparty_ref = KIT_REF_A, v_source_account_ref = KIT_REF_B,
      v_not_before = KIT_EPOCH, v_not_after = KIT_EPOCH + seconds 300, v_reversibility = Irreversible,
      v_source_trust = Trusted_instruction, v_scope_count = 1, v_recent_count_window = 0,
      v_counterparty_risk_band = Band_low, v_new_counterparty = False, v_cross_border = False,
      v_market_session = Session_not_applicable\<rparr>"

definition conformance_corpus :: "policy_view list" where
  "conformance_corpus =
     [kit_view,
      kit_view\<lparr>v_value_lower_minor := 0, v_value_upper_minor := 0\<rparr>,
      kit_view\<lparr>v_value_lower_minor := 1, v_value_upper_minor := 9999999999\<rparr>,
      kit_view\<lparr>v_scope_count := 0\<rparr>,
      kit_view\<lparr>v_scope_count := 10000\<rparr>,
      kit_view\<lparr>v_recent_count_window := 10000\<rparr>,
      kit_view\<lparr>v_new_counterparty := True\<rparr>,
      kit_view\<lparr>v_cross_border := True\<rparr>,
      kit_view\<lparr>v_reversibility := Reversible\<rparr>]
     @ map (\<lambda>member. kit_view\<lparr>v_action_class := member\<rparr>) ACTION_CLASSES
     @ map (\<lambda>member. kit_view\<lparr>v_rail_class := member\<rparr>) RAIL_CLASSES
     @ map (\<lambda>member. kit_view\<lparr>v_counterparty_risk_band := member\<rparr>) RISK_BANDS
     @ map (\<lambda>member. kit_view\<lparr>v_source_trust := member\<rparr>) SOURCE_TRUSTS
     @ map (\<lambda>member. kit_view\<lparr>v_market_session := member\<rparr>) MARKET_SESSIONS
     @ map (\<lambda>member. kit_view\<lparr>v_quote_currency := member\<rparr>) CURRENCIES"

section \<open>An extension that may keep a memory\<close>

record 's extension =
  x_contract_version :: "int option"
  x_evaluate :: "('s \<Rightarrow> policy_view \<Rightarrow> plugin_answer \<times> policy_view \<times> 's) option"

text \<open>What the runner sees of it in one state, and what a consultation leaves: an extension of
  another contract version, or without \<open>evaluate\<close>, is not called.\<close>

definition plugin_at :: "'s extension \<Rightarrow> 's \<Rightarrow> plugin" where
  "plugin_at x s =
     \<lparr>p_contract_version = x_contract_version x,
      p_evaluate = map_option (\<lambda>evaluate view. fst (evaluate s view)) (x_evaluate x)\<rparr>"

definition left_by :: "'s extension \<Rightarrow> policy_view \<Rightarrow> 's \<Rightarrow> policy_view \<times> 's" where
  "left_by x view s =
     (if x_contract_version x \<noteq> Some CONTRACT_VERSION then (view, s)
      else case x_evaluate x of None \<Rightarrow> (view, s) | Some evaluate \<Rightarrow> snd (evaluate s view))"

fun consult_each :: "'s extension list \<Rightarrow> policy_view \<Rightarrow> 's \<Rightarrow> plugin_judgement list \<times> policy_view \<times> 's" where
  "consult_each [] view s = ([], view, s)"
| "consult_each (x # xs) view s =
     (let (view', s') = left_by x view s;
          (js, view'', s'') = consult_each xs view' s'
      in (evaluate_isolated (plugin_at x s) view # js, view'', s''))"

text \<open>\<open>run_plugins\<close> over objects, with what is left of the view and of the state.\<close>

definition run_extensions ::
  "'s extension list \<Rightarrow> policy_view \<Rightarrow> 's \<Rightarrow> (py_error + plugin_judgement) \<times> policy_view \<times> 's" where
  "run_extensions xs view s =
     (let (js, view', s') = consult_each xs view s in (reduce combine neutral js, view', s'))"

text \<open>A pure plugin, as an object without a memory.\<close>

definition stateless :: "plugin \<Rightarrow> 's extension" where
  "stateless p =
     \<lparr>x_contract_version = p_contract_version p,
      x_evaluate = map_option (\<lambda>evaluate s view. (evaluate view, view, s)) (p_evaluate p)\<rparr>"

section \<open>The neighbours\<close>

definition always_deny :: plugin where
  "always_deny =
     \<lparr>p_contract_version = Some CONTRACT_VERSION,
      p_evaluate = Some (\<lambda>view. Judgement \<lparr>j_contract_version = CONTRACT_VERSION, j_verdict = DENY,
        j_findings = [\<lparr>f_code = org_policy, f_observed = None, f_limit = None\<rparr>]\<rparr>)\<rparr>"

definition always_abstain :: plugin where
  "always_abstain =
     \<lparr>p_contract_version = Some CONTRACT_VERSION,
      p_evaluate = Some (\<lambda>view. Judgement \<lparr>j_contract_version = CONTRACT_VERSION, j_verdict = ABSTAIN,
        j_findings = []\<rparr>)\<rparr>"

definition exploding :: plugin where
  "exploding = \<lparr>p_contract_version = Some CONTRACT_VERSION, p_evaluate = Some (\<lambda>view. Raises)\<rparr>"

section \<open>The tests\<close>

type_synonym 's test = "'s extension \<Rightarrow> 's \<Rightarrow> 's option"

definition judged ::
  "'s extension list \<Rightarrow> policy_view \<Rightarrow> 's \<Rightarrow> (plugin_judgement \<Rightarrow> policy_view \<Rightarrow> 's \<Rightarrow> 'r option) \<Rightarrow> 'r option" where
  "judged xs view s rest =
     (case run_extensions xs view s of
        (Inl e, _) \<Rightarrow> None
      | (Inr result, view', s') \<Rightarrow> rest result view' s')"

text \<open>\<open>_judgements\<close> with the body of the loop that consumes it.\<close>

definition judgements_of :: "'s extension \<Rightarrow> (plugin_judgement \<Rightarrow> bool) \<Rightarrow> 's \<Rightarrow> 's option" where
  "judgements_of x check =
     for_each (\<lambda>view s. judged [x] view s (\<lambda>result _ s'. require (check result) s')) conformance_corpus"

text \<open>\<open>_raw_judgements\<close>: the call itself. What is not a judgement has no \<open>findings\<close> to read.\<close>

definition raw_judgements_of :: "'s extension \<Rightarrow> (plugin_judgement \<Rightarrow> bool) \<Rightarrow> 's \<Rightarrow> 's option" where
  "raw_judgements_of x check =
     for_each
       (\<lambda>view s.
          case x_evaluate x of
            None \<Rightarrow> None
          | Some evaluate \<Rightarrow>
              (case evaluate s view of
                 (Raises, _) \<Rightarrow> None
               | (Other, _) \<Rightarrow> None
               | (Judgement result, _, s') \<Rightarrow> require (check result) s'
               | (Hostile result, _, s') \<Rightarrow> require (check result) s'))
       conformance_corpus"

definition test_declares_the_supported_contract_version :: "'s test" where
  "test_declares_the_supported_contract_version x =
     require (x_contract_version x = Some CONTRACT_VERSION)"

definition test_returns_a_judgement_for_every_view_in_the_corpus :: "'s test" where
  "test_returns_a_judgement_for_every_view_in_the_corpus x = judgements_of x (\<lambda>result. True)"

definition runner_failures :: "reason_code set" where
  "runner_failures = {plugin_error, plugin_invalid_result, plugin_contract_mismatch}"

definition test_never_trips_the_runner_failure_paths :: "'s test" where
  "test_never_trips_the_runner_failure_paths x =
     judgements_of x (\<lambda>result. runner_failures \<inter> set (judgement_reasons result) = {})"

definition test_never_claims_approval :: "'s test" where
  "test_never_claims_approval x =
     judgements_of x (\<lambda>result. j_verdict result \<in> {ABSTAIN, REVIEW, DENY})"

definition test_does_not_mutate_the_view :: "'s test" where
  "test_does_not_mutate_the_view x =
     for_each (\<lambda>view s. judged [x] view s (\<lambda>_ view' s'. require (view' = view) s')) conformance_corpus"

definition test_is_deterministic :: "'s test" where
  "test_is_deterministic x =
     for_each
       (\<lambda>view s.
          judged [x] view s (\<lambda>first view' s'.
            judged [x] view' s' (\<lambda>second _ s''. require (first = second) s'')))
       conformance_corpus"

text \<open>The judgements on a list of views, with what is left of the views.\<close>

fun judged_in_turn ::
  "'s extension \<Rightarrow> policy_view list \<Rightarrow> 's \<Rightarrow> (plugin_judgement list \<times> policy_view list \<times> 's) option" where
  "judged_in_turn x [] s = Some ([], [], s)"
| "judged_in_turn x (view # views) s =
     judged [x] view s (\<lambda>result view' s'.
       map_option (\<lambda>(results, views', s''). (result # results, view' # views', s''))
         (judged_in_turn x views s'))"

definition test_has_no_side_effects_across_views :: "'s test" where
  "test_has_no_side_effects_across_views x s =
     (case judged_in_turn x conformance_corpus s of
        None \<Rightarrow> None
      | Some (fresh, views, s') \<Rightarrow>
          (case judged_in_turn x (rev views) s' of
             None \<Rightarrow> None
           | Some (replayed, _, s'') \<Rightarrow> require (fresh = rev replayed) s''))"

definition test_findings_stay_within_the_closed_vocabulary :: "'s test" where
  "test_findings_stay_within_the_closed_vocabulary x =
     raw_judgements_of x (\<lambda>result. list_all finding_ok (j_findings result))"

text \<open>\<open>str.strip\<close> leaves nothing exactly of a text of white space.\<close>

definition test_every_concern_is_actionable :: "'s test" where
  "test_every_concern_is_actionable x =
     judgements_of x (\<lambda>result. j_verdict result \<noteq> ABSTAIN \<longrightarrow>
       j_findings result \<noteq> [] \<and> py_strip (render_judgement result) \<noteq> [])"

definition test_cannot_weaken_another_extension :: "'s test" where
  "test_cannot_weaken_another_extension x =
     for_each
       (\<lambda>view s. judged [stateless always_deny, x] view s (\<lambda>with_deny _ s'. require (j_verdict with_deny = DENY) s'))
       conformance_corpus"

definition test_registration_order_does_not_change_the_outcome :: "'s test" where
  "test_registration_order_does_not_change_the_outcome x =
     for_each
       (\<lambda>view s.
          judged [x, stateless always_abstain, stateless always_deny] view s (\<lambda>forward view' s'.
            judged [stateless always_deny, stateless always_abstain, x] view' s' (\<lambda>reverse _ s''.
              require (j_verdict forward = j_verdict reverse
                \<and> set (judgement_reasons forward) = set (judgement_reasons reverse)) s'')))
       conformance_corpus"

definition test_a_failing_neighbour_does_not_suppress_this_plugin :: "'s test" where
  "test_a_failing_neighbour_does_not_suppress_this_plugin x =
     for_each
       (\<lambda>view s.
          judged [x] view s (\<lambda>alone view' s'.
            judged [stateless exploding, x] view' s' (\<lambda>beside _ s''.
              require (set (judgement_reasons alone) \<subseteq> set (judgement_reasons beside)) s'')))
       conformance_corpus"

text \<open>A class that sets no \<open>plugin\<close> fails in \<open>_plugin\<close>.\<close>

definition policy_kit :: "'s extension option \<Rightarrow> 's \<Rightarrow> 's option" where
  "policy_kit plugin s =
     Option.bind plugin (\<lambda>x.
       for_each (\<lambda>test. test x)
         [test_declares_the_supported_contract_version,
          test_returns_a_judgement_for_every_view_in_the_corpus,
          test_never_trips_the_runner_failure_paths,
          test_never_claims_approval,
          test_does_not_mutate_the_view,
          test_is_deterministic,
          test_has_no_side_effects_across_views,
          test_findings_stay_within_the_closed_vocabulary,
          test_every_concern_is_actionable,
          test_cannot_weaken_another_extension,
          test_registration_order_does_not_change_the_outcome,
          test_a_failing_neighbour_does_not_suppress_this_plugin] s)"

section \<open>A pure plugin under test\<close>

lemma plugin_at_stateless [simp]: "plugin_at (stateless p) s = p"
  by (cases p) (simp add: plugin_at_def stateless_def option.map_comp comp_def option.map_ident)

lemma left_by_stateless [simp]: "left_by (stateless p) view s = (view, s)"
  by (simp add: left_by_def stateless_def split: option.split)

lemma consult_each_stateless:
  "consult_each (map stateless ps) view s = (map (\<lambda>p. evaluate_isolated p view) ps, view, s)"
  by (induction ps) simp_all

lemma run_extensions_stateless:
  "run_extensions (map stateless ps) view s = (run_plugins ps view, view, s)"
  by (simp add: run_extensions_def consult_each_stateless run_plugins_def)

text \<open>The judgement the runner ends in, and what it is made of.\<close>

definition judgement_on :: "plugin list \<Rightarrow> policy_view \<Rightarrow> plugin_judgement" where
  "judgement_on ps view = projr (run_plugins ps view)"

lemma judgement_on:
  shows run_plugins_judgement_on: "run_plugins ps view = Inr (judgement_on ps view)"
    and judgement_on_ok: "judgement_ok (judgement_on ps view)"
    and judgement_on_canonical: "judgement_canonical (judgement_on ps view)"
    and judgement_on_verdict: "j_verdict (judgement_on ps view)
      = Max (insert ABSTAIN ((\<lambda>p. j_verdict (evaluate_isolated p view)) ` set ps))"
    and judgement_on_findings: "set (j_findings (judgement_on ps view))
      = (\<Union>p \<in> set ps. set (j_findings (evaluate_isolated p view)))"
  using run_plugins_total [of ps view] by (auto simp: judgement_on_def)

lemma set_judgement_reasons [simp]: "set (judgement_reasons j) = f_code ` set (j_findings j)"
  by (simp add: judgement_reasons_def)

lemma judgement_on_cong:
  assumes "j_verdict (judgement_on ps view) = j_verdict (judgement_on qs view)"
    and "set (j_findings (judgement_on ps view)) = set (j_findings (judgement_on qs view))"
  shows "run_plugins ps view = run_plugins qs view"
  using judgements.canon_ext [OF judgement_on_ok judgement_on_ok judgement_on_canonical judgement_on_canonical] assms
  by (simp add: run_plugins_judgement_on)

lemma judged_stateless:
  "judged (map stateless ps) view s rest = rest (judgement_on ps view) view s"
  by (simp add: judged_def run_extensions_stateless run_plugins_judgement_on)

lemmas judged_pure [simp] =
  judged_stateless [where ps = "[p]" for p, simplified]
  judged_stateless [where ps = "[p, q]" for p q, simplified]
  judged_stateless [where ps = "[p, q, r]" for p q r, simplified]

lemma judged_in_turn_stateless:
  "judged_in_turn (stateless p) views s = Some (map (judgement_on [p]) views, views, s)"
  by (induction views) simp_all

lemma judgements_of_stateless:
  "judgements_of (stateless p) check s
   = require (\<forall>view \<in> set conformance_corpus. check (judgement_on [p] view)) s"
  by (simp add: judgements_of_def for_each_require)

text \<open>What the kit certifies of it.\<close>

definition certified :: "plugin \<Rightarrow> bool" where
  "certified p \<longleftrightarrow>
     p_contract_version p = Some CONTRACT_VERSION
     \<and> (\<forall>view \<in> set conformance_corpus.
          \<exists>j. answers p view j \<and> runner_failures \<inter> f_code ` set (j_findings j) = {})"

lemma evaluate_isolated_unanswered:
  "\<nexists>j. answers p view j \<Longrightarrow> \<exists>code \<in> runner_failures. evaluate_isolated p view = deny_judgement code"
  by (auto simp: answers_def evaluate_isolated_def runner_failures_def split: option.split plugin_answer.split)

lemma certified_iff:
  "certified p \<longleftrightarrow>
     p_contract_version p = Some CONTRACT_VERSION
     \<and> (\<forall>view \<in> set conformance_corpus.
          runner_failures \<inter> f_code ` set (j_findings (evaluate_isolated p view)) = {})"
proof -
  have "(\<exists>j. answers p view j \<and> runner_failures \<inter> f_code ` set (j_findings j) = {})
      \<longleftrightarrow> runner_failures \<inter> f_code ` set (j_findings (evaluate_isolated p view)) = {}" (is "?l \<longleftrightarrow> ?r") for view
  proof
    show "?l \<Longrightarrow> ?r" using evaluate_isolated_answers by force
    assume ?r
    moreover have "\<not> runner_failures \<inter> f_code ` set (j_findings (deny_judgement code)) = {}"
      if "code \<in> runner_failures" for code using that by (simp add: deny_judgement_def)
    ultimately have "\<exists>j. answers p view j"
      using evaluate_isolated_unanswered [of p view] \<open>?r\<close> by metis
    with \<open>?r\<close> show ?l using evaluate_isolated_answers by force
  qed
  then show ?thesis by (simp add: certified_def)
qed

lemma render_finding_visible: "\<exists>c \<in> set (render_finding f). \<not> py_space c"
  by (cases "f_code f") (auto simp: render_finding_def py_space_def Let_def)

lemma set_join_spaces: "x \<in> set ss \<Longrightarrow> set x \<subseteq> set (join_spaces ss)"
  by (induction ss rule: join_spaces.induct) auto

lemma py_strip_visible: "\<exists>c \<in> set s. \<not> py_space c \<Longrightarrow> py_strip s \<noteq> []"
  by (auto simp: py_strip_def dropWhile_eq_Nil_conv dest: set_dropWhileD)
    (metis (no_types, lifting) UnE set_append set_takeWhileD takeWhile_dropWhile_id)

lemma concern_actionable:
  assumes "judgement_ok j" and "j_verdict j \<noteq> ABSTAIN"
  shows "j_findings j \<noteq> [] \<and> py_strip (render_judgement j) \<noteq> []"
proof -
  from assms have ne: "j_findings j \<noteq> []" by (simp add: judgement_ok_def)
  then have "\<exists>c \<in> set (join_spaces (map render_finding (j_findings j))). \<not> py_space c"
    using render_finding_visible [of "hd (j_findings j)"] set_join_spaces [of "render_finding (hd (j_findings j))"]
    by (metis hd_in_set image_eqI list.set_map subsetD)
  with assms(2) ne show ?thesis by (simp add: render_judgement_def py_strip_visible)
qed

lemma raw_judgements_of_answered:
  assumes "\<And>view. view \<in> set conformance_corpus \<Longrightarrow> \<exists>j. answers p view j \<and> check j"
  shows "raw_judgements_of (stateless p) check s = Some s"
proof -
  have "for_each
       (\<lambda>view s.
          case x_evaluate (stateless p) of
            None \<Rightarrow> None
          | Some evaluate \<Rightarrow>
              (case evaluate s view of
                 (Raises, _) \<Rightarrow> None
               | (Other, _) \<Rightarrow> None
               | (Judgement result, _, s') \<Rightarrow> require (check result) s'
               | (Hostile result, _, s') \<Rightarrow> require (check result) s')) views s = Some s"
    if "set views \<subseteq> set conformance_corpus" for views
    using that
  proof (induction views)
    case (Cons view views)
    then obtain j where "answers p view j" "check j" using assms by auto
    then show ?case using Cons by (auto simp: answers_def stateless_def)
  qed simp
  then show ?thesis by (simp add: raw_judgements_of_def)
qed

lemma always_deny_verdict [simp]: "j_verdict (evaluate_isolated always_deny view) = DENY"
  by (simp add: evaluate_isolated_def always_deny_def judgement_ok_def finding_ok_def)

text \<open>Nine of the tests no pure plugin fails: they are about a memory, about writing to the view, or
  about what the runner does with whatever it is given.\<close>

lemma pure_tests [simp]:
  "test_returns_a_judgement_for_every_view_in_the_corpus (stateless p) s = Some s"
  "test_never_claims_approval (stateless p) s = Some s"
  "test_does_not_mutate_the_view (stateless p) s = Some s"
  "test_is_deterministic (stateless p) s = Some s"
  "test_has_no_side_effects_across_views (stateless p) s = Some s"
  "test_every_concern_is_actionable (stateless p) s = Some s"
  "test_cannot_weaken_another_extension (stateless p) s = Some s"
  "test_registration_order_does_not_change_the_outcome (stateless p) s = Some s"
  "test_a_failing_neighbour_does_not_suppress_this_plugin (stateless p) s = Some s"
proof -
  show "test_returns_a_judgement_for_every_view_in_the_corpus (stateless p) s = Some s"
    by (simp add: test_returns_a_judgement_for_every_view_in_the_corpus_def judgements_of_stateless)
  have "j_verdict j \<in> {ABSTAIN, REVIEW, DENY}" for j :: plugin_judgement
    by (cases "j_verdict j") simp_all
  then show "test_never_claims_approval (stateless p) s = Some s"
    by (simp add: test_never_claims_approval_def judgements_of_stateless)
  show "test_does_not_mutate_the_view (stateless p) s = Some s" "test_is_deterministic (stateless p) s = Some s"
    by (simp_all add: test_does_not_mutate_the_view_def test_is_deterministic_def for_each_require)
  show "test_has_no_side_effects_across_views (stateless p) s = Some s"
    by (simp add: test_has_no_side_effects_across_views_def judged_in_turn_stateless rev_map)
  show "test_every_concern_is_actionable (stateless p) s = Some s"
    using concern_actionable [OF judgement_on_ok]
    by (simp add: test_every_concern_is_actionable_def judgements_of_stateless)
  show "test_cannot_weaken_another_extension (stateless p) s = Some s"
    by (simp add: test_cannot_weaken_another_extension_def for_each_require judgement_on_verdict
        max_absorb1)
  show "test_registration_order_does_not_change_the_outcome (stateless p) s = Some s"
    by (simp add: test_registration_order_does_not_change_the_outcome_def for_each_require
        judgement_on_verdict judgement_on_findings insert_commute Un_ac)
  show "test_a_failing_neighbour_does_not_suppress_this_plugin (stateless p) s = Some s"
    by (auto simp: test_a_failing_neighbour_does_not_suppress_this_plugin_def for_each_require judgement_on_findings)
qed

lemma trips_stateless:
  "test_never_trips_the_runner_failure_paths (stateless p) s
   = require (\<forall>view \<in> set conformance_corpus.
       runner_failures \<inter> f_code ` set (j_findings (evaluate_isolated p view)) = {}) s"
  by (simp add: test_never_trips_the_runner_failure_paths_def judgements_of_stateless judgement_on_findings)

section \<open>An object that may keep a memory\<close>

lemma consult_each_ok:
  "consult_each xs view s = (js, r) \<Longrightarrow> \<forall>j \<in> set js. judgement_ok j"
  by (induction xs arbitrary: view s js r) (auto simp: Let_def split: prod.splits)

lemma run_extensions_cases:
  obtains js view' s' result where "consult_each xs view s = (js, view', s')"
    and "run_extensions xs view s = (Inr result, view', s')" and "\<forall>j \<in> set js. judgement_ok j"
    and "reduce combine neutral js = Inr result" and "judgement_ok result"
proof -
  obtain js view' s' where js: "consult_each xs view s = (js, view', s')" by (metis prod_cases3)
  then have ok: "\<forall>j \<in> set js. judgement_ok j" by (simp add: consult_each_ok)
  from judgements.reduce_total [OF this] obtain result
    where "reduce combine neutral js = Inr result" "judgement_ok result" by blast
  with js ok that show ?thesis by (simp add: run_extensions_def)
qed

lemma judgements_of_total:
  assumes "\<And>j. judgement_ok j \<Longrightarrow> check j"
  shows "\<exists>s'. judgements_of x check s = Some s'"
  unfolding judgements_of_def
proof (rule for_each_total)
  fix view s
  obtain js view' s' result where "run_extensions [x] view s = (Inr result, view', s')" "judgement_ok result"
    by (rule run_extensions_cases [of "[x]" view s]) blast
  with assms show "\<exists>s'. judged [x] view s (\<lambda>result _ s'. require (check result) s') = Some s'"
    by (simp add: judged_def)
qed

lemma policy_kit_certified: "policy_kit (Some (stateless p)) s = (if certified p then Some s else None)"
proof -
  have declared: "x_contract_version (stateless p) = p_contract_version p" by (simp add: stateless_def)
  have "test_findings_stay_within_the_closed_vocabulary (stateless p) s = Some s" if "certified p"
    unfolding test_findings_stay_within_the_closed_vocabulary_def
    by (rule raw_judgements_of_answered) (use that in \<open>auto simp: certified_def answers_def judgement_ok_def list_all_iff\<close>)
  then show ?thesis
    by (simp add: policy_kit_def test_declares_the_supported_contract_version_def declared trips_stateless
        certified_iff)
qed

section \<open>The corpus holds what it says\<close>

text \<open>Every view of the corpus can be built, and every member of the six enumerations is in one.\<close>

lemma members_of_enumerations [simp]:
  "b \<in> set RISK_BANDS" "t \<in> set SOURCE_TRUSTS" "m \<in> set MARKET_SESSIONS"
  by (cases b, simp_all add: RISK_BANDS_def) (cases t, simp_all add: SOURCE_TRUSTS_def,
    cases m, simp_all add: MARKET_SESSIONS_def)

lemma kit_references [simp]: "is_fingerprint KIT_REF_A" "is_fingerprint KIT_REF_B"
  by (code_simp, code_simp)

lemma conformance_corpus_ok: "view \<in> set conformance_corpus \<Longrightarrow> policy_view_ok view"
  by (auto simp: conformance_corpus_def kit_view_def policy_view_ok_def seconds_def)

lemma conformance_corpus_covers:
  "v_action_class ` set conformance_corpus = UNIV" "v_rail_class ` set conformance_corpus = UNIV"
  "v_counterparty_risk_band ` set conformance_corpus = UNIV" "v_source_trust ` set conformance_corpus = UNIV"
  "v_market_session ` set conformance_corpus = UNIV" "v_quote_currency ` set conformance_corpus = UNIV"
proof -
  have onto: "field ` set conformance_corpus = UNIV"
    if "\<And>m. \<exists>view \<in> set conformance_corpus. field view = m" for field :: "policy_view \<Rightarrow> 'm"
    using that by (auto simp: set_eq_iff image_iff) metis
  show "v_action_class ` set conformance_corpus = UNIV" "v_rail_class ` set conformance_corpus = UNIV"
    "v_counterparty_risk_band ` set conformance_corpus = UNIV" "v_source_trust ` set conformance_corpus = UNIV"
    "v_market_session ` set conformance_corpus = UNIV" "v_quote_currency ` set conformance_corpus = UNIV"
    by (rule onto, fastforce simp: conformance_corpus_def bex_Un)+
qed

text \<open>A certificate is one on these views: for every other view there is a certified plugin that the
  runner cannot make use of.\<close>

lemma silent_plugin_certified: "certified silent_plugin"
  by (simp add: certified_def answers_def silent_plugin_def neutral_def judgement_ok_def CONTRACT_VERSION_def)

lemma certificate_ends_at_the_corpus:
  assumes "view \<notin> set conformance_corpus"
  shows "\<exists>p. certified p \<and> evaluate_isolated p view = deny_judgement plugin_error"
proof -
  let ?p = "\<lparr>p_contract_version = Some CONTRACT_VERSION,
    p_evaluate = Some (\<lambda>v. if v = view then Raises else Judgement neutral)\<rparr>"
  have "certified ?p" using assms by (auto simp: certified_def answers_def neutral_def judgement_ok_def)
  moreover have "evaluate_isolated ?p view = deny_judgement plugin_error" by (simp add: evaluate_isolated_def)
  ultimately show ?thesis by blast
qed

text \<open>An object that alternates is caught.\<close>

definition alternating :: "bool extension" where
  "alternating =
     \<lparr>x_contract_version = Some CONTRACT_VERSION,
      x_evaluate = Some (\<lambda>s view. (if s then Judgement neutral else Judgement (deny_judgement org_policy), view, \<not> s))\<rparr>"

lemma alternating_not_deterministic: "test_is_deterministic alternating s = None"
proof -
  have run: "run_extensions [alternating] view s
      = (reduce combine neutral [if s then neutral else deny_judgement org_policy], view, \<not> s)" for view s
    by (simp add: run_extensions_def left_by_def alternating_def plugin_at_def evaluate_isolated_def
        neutral_def judgement_ok_def deny_judgement_def finding_ok_def)
  have unit: "judgement_ok neutral" by (rule judgements.unit_ok)
  have "combine neutral neutral \<noteq> combine neutral (deny_judgement org_policy)"
  proof
    assume same: "combine neutral neutral = combine neutral (deny_judgement org_policy)"
    from combine_spec [OF unit deny_judgement_ok [of org_policy]] obtain c
      where c: "combine neutral (deny_judgement org_policy) = Inr c" "j_verdict c = max (j_verdict neutral) DENY"
      by auto
    from combine_spec [OF unit unit] same c(1) have "j_verdict c = j_verdict neutral" by auto
    with c(2) show False by (simp add: neutral_def max_def)
  qed
  moreover have "\<exists>r. combine neutral (if s then neutral else deny_judgement org_policy) = Inr r" for s
    using combine_spec [OF unit unit] combine_spec [OF unit deny_judgement_ok [of org_policy]] by auto
  ultimately have "judged [alternating] view s (\<lambda>first view' s'.
      judged [alternating] view' s' (\<lambda>second _ s''. require (first = second) s'')) = None" for view s
    by (auto simp: judged_def run require_def split: sum.splits)
  then show ?thesis by (simp add: test_is_deterministic_def conformance_corpus_def)
qed

section \<open>Properties\<close>

text \<open>[C27] What the kit certifies of a pure plugin, exactly: it passes all twelve tests when it declares
  the contract version and on each of the corpus views answers a judgement that the validators
  accept and that names none of the runner's own failures; nothing else fails it, and where it
  passes the state of the extension is as it was.\<close>

theorem policy_kit_certifies:
  "policy_kit (Some (stateless p)) s =
     (if p_contract_version p = Some CONTRACT_VERSION
         \<and> (\<forall>view \<in> set conformance_corpus. \<exists>j. answers p view j
              \<and> f_code ` set (j_findings j) \<inter> {plugin_error, plugin_invalid_result, plugin_contract_mismatch} = {})
      then Some s else None)"
  unfolding policy_kit_certified certified_def runner_failures_def Int_commute [of "f_code ` _"] ..

theorem policy_kit_certifies_witness:
  "policy_kit (Some (stateless always_deny)) () = Some () \<and> policy_kit (Some (stateless exploding)) () = None"
proof -
  have "\<exists>j. answers always_deny view j \<and> f_code ` set (j_findings j)
      \<inter> {plugin_error, plugin_invalid_result, plugin_contract_mismatch} = {}" for view
    by (auto simp: answers_def always_deny_def judgement_ok_def finding_ok_def)
  moreover have "hd conformance_corpus \<in> set conformance_corpus" by (rule hd_in_set) (simp add: conformance_corpus_def)
  moreover have "\<not> answers exploding view j" for view j by (simp add: answers_def exploding_def)
  ultimately show ?thesis
    using policy_kit_certifies [of always_deny "()"] policy_kit_certifies [of exploding "()"]
    by (auto simp: always_deny_def)
qed

text \<open>Four of the tests certify the runner and not the extension: there is no extension, whatever
  memory it keeps and whatever it does to the view, that fails them from any state. In particular
  an installed DENY stands beside every extension.\<close>

theorem backstop_tests_never_fail:
  "(\<exists>s'. test_returns_a_judgement_for_every_view_in_the_corpus x s = Some s')
   \<and> (\<exists>s'. test_never_claims_approval x s = Some s')
   \<and> (\<exists>s'. test_every_concern_is_actionable x s = Some s')
   \<and> (\<exists>s'. test_cannot_weaken_another_extension x s = Some s')"
proof (intro conjI)
  show "\<exists>s'. test_returns_a_judgement_for_every_view_in_the_corpus x s = Some s'"
    unfolding test_returns_a_judgement_for_every_view_in_the_corpus_def by (rule judgements_of_total) simp
  have "j_verdict j \<in> {ABSTAIN, REVIEW, DENY}" for j :: plugin_judgement
    by (cases "j_verdict j") simp_all
  then show "\<exists>s'. test_never_claims_approval x s = Some s'"
    unfolding test_never_claims_approval_def by (intro judgements_of_total)
  show "\<exists>s'. test_every_concern_is_actionable x s = Some s'"
    unfolding test_every_concern_is_actionable_def using concern_actionable by (intro judgements_of_total) blast
  show "\<exists>s'. test_cannot_weaken_another_extension x s = Some s'"
    unfolding test_cannot_weaken_another_extension_def
  proof (rule for_each_total)
    fix view s
    obtain js view' s' result where run: "consult_each [stateless always_deny, x] view s = (js, view', s')"
      "run_extensions [stateless always_deny, x] view s = (Inr result, view', s')"
      "\<forall>j \<in> set js. judgement_ok j" "reduce combine neutral js = Inr result"
      by (rule run_extensions_cases [of "[stateless always_deny, x]" view s]) blast
    from run(1) have "evaluate_isolated always_deny view \<in> set js" by (auto simp: Let_def split: prod.splits)
    from judgements.reduce_lower(1) [OF run(3,4) this] have "j_verdict result = DENY"
      by simp
    with run(2) show "\<exists>s'. judged [stateless always_deny, x] view s
        (\<lambda>with_deny _ s'. require (j_verdict with_deny = DENY) s') = Some s'"
      by (simp add: judged_def)
  qed
qed

end
