(* ===== verification/Adapters.thy ===== *)
theory Adapters
  imports Intent
begin

text \<open>
  \<open>secondsign.adapters\<close>: the redacted call of a vendor's tool (\<open>contract.py\<close>) and its mapping to a
  transaction intent for card payments (\<open>stripe.py\<close>) and brokerage trades (\<open>alpaca.py\<close>).
\<close>

section \<open>The contract\<close>

record tool_call =
  tc_counterparty_ref :: py_str
  tc_source_account_ref :: py_str
  tc_not_before :: datetime
  tc_not_after :: datetime
  tc_declared_source_trust :: source_trust
  tc_scope_count :: int

definition tool_call_ok :: "'a tool_call_scheme \<Rightarrow> bool" where
  "tool_call_ok c \<longleftrightarrow>
     is_fingerprint (tc_counterparty_ref c) \<and> is_fingerprint (tc_source_account_ref c)
     \<and> 0 \<le> tc_scope_count c \<and> \<not> tc_not_after c \<le> tc_not_before c"

datatype reject_code =
    Unsupported_action
  | Unsupported_currency
  | Malformed_call
  | Outside_supported_limits
  | Market_closed
  | Stale_quote

definition TRUST_ORDER :: "source_trust list" where
  "TRUST_ORDER = [Untrusted_data, Mixed, Unknown_trust, Trusted_instruction]"

definition trust_rank :: "source_trust \<Rightarrow> nat" where
  "trust_rank trust = length (takeWhile (\<lambda>t. t \<noteq> trust) TRUST_ORDER)"

text \<open>The members every call has in \<open>model_dump(mode="json")\<close>.\<close>

definition tool_call_members :: "date_format \<Rightarrow> 'a tool_call_scheme \<Rightarrow> (py_str \<times> json) list" where
  "tool_call_members fmt c =
     [(''counterparty_ref'', JStr (tc_counterparty_ref c)),
      (''source_account_ref'', JStr (tc_source_account_ref c)),
      (''not_before'', JStr (fmt (tc_not_before c))),
      (''not_after'', JStr (fmt (tc_not_after c))),
      (''declared_source_trust'', JStr (trust_value (tc_declared_source_trust c))),
      (''scope_count'', JInt (tc_scope_count c))]"

text \<open>The dimensions both adapters fill in from the call.\<close>

definition call_dimensions ::
  "'a tool_call_scheme \<Rightarrow> int \<Rightarrow> int \<Rightarrow> currency \<Rightarrow> rail_class \<Rightarrow> py_error + decision_dimensions" where
  "call_dimensions c lower upper quote rail =
     mk_dimensions
       \<lparr>d_value_lower_minor = lower, d_value_upper_minor = upper, d_quote_currency = quote,
        d_counterparty_ref = tc_counterparty_ref c, d_source_account_ref = tc_source_account_ref c,
        d_rail_class = rail, d_not_before = tc_not_before c, d_not_after = tc_not_after c,
        d_reversibility = Irreversible, d_source_trust = tc_declared_source_trust c,
        d_scope_count = tc_scope_count c\<rparr>"

section \<open>Card payments\<close>

definition STRIPE_CURRENCIES :: "currency set" where
  "STRIPE_CURRENCIES = {USD, EUR, GBP, CAD, AUD}"

record stripe_call = tool_call +
  ca_amount_minor :: int
  ca_quote_currency :: currency
  ca_target_kind :: payment_target_kind
  ca_new_beneficiary :: bool
  ca_cross_border :: bool
  ca_settlement_priority :: settlement_priority

definition stripe_call_ok :: "stripe_call \<Rightarrow> bool" where
  "stripe_call_ok c \<longleftrightarrow> tool_call_ok c \<and> 0 \<le> ca_amount_minor c"

definition stripe_text :: "date_format \<Rightarrow> stripe_call \<Rightarrow> py_str" where
  "stripe_text fmt c = dumps (JObj (tool_call_members fmt c @
       [(''amount_minor'', JInt (ca_amount_minor c)),
        (''quote_currency'', JStr (currency_value (ca_quote_currency c))),
        (''target_kind'', JStr (target_value (ca_target_kind c))),
        (''new_beneficiary'', JBool (ca_new_beneficiary c)),
        (''cross_border'', JBool (ca_cross_border c)),
        (''settlement_priority'', JStr (priority_value (ca_settlement_priority c)))]))"

definition stripe_key :: "date_format \<Rightarrow> stripe_call \<Rightarrow> py_str" where
  "stripe_key fmt c = ''stripe-'' @ sha256_hex (stripe_text fmt c)"

definition stripe_derive :: "date_format \<Rightarrow> stripe_call \<Rightarrow> py_error + reject_code + transaction_intent" where
  "stripe_derive fmt c =
     (if ca_amount_minor c = 0 then Inr (Inl Malformed_call)
      else if ca_quote_currency c \<notin> STRIPE_CURRENCIES then Inr (Inl Unsupported_currency)
      else case call_dimensions c (ca_amount_minor c) (ca_amount_minor c) (ca_quote_currency c) Rail_card of
          Inl e \<Rightarrow> Inl e
        | Inr dimensions \<Rightarrow>
            Inr (Inr \<lparr>i_dimensions = dimensions,
              i_payload = Payment \<lparr>pp_target_kind = ca_target_kind c, pp_new_beneficiary = ca_new_beneficiary c,
                pp_cross_border = ca_cross_border c, pp_settlement_priority = ca_settlement_priority c\<rparr>,
              i_idempotency_key = stripe_key fmt c\<rparr>))"

section \<open>Brokerage trades\<close>

definition MAX_QUOTE_AGE_SECONDS :: int where "MAX_QUOTE_AGE_SECONDS = 30"

definition TRADEABLE_SESSION :: market_session where "TRADEABLE_SESSION = Session_open"

record alpaca_call = tool_call +
  al_symbol :: py_str
  al_quantity :: int
  al_side :: trade_side
  al_order_type :: order_type
  al_limit_price_minor :: "int option"
  al_quote_currency :: currency
  al_estimated_value_lower_minor :: int
  al_estimated_value_upper_minor :: int
  al_market_session :: market_session
  al_quote_age_seconds :: int

definition alpaca_call_ok :: "alpaca_call \<Rightarrow> bool" where
  "alpaca_call_ok c \<longleftrightarrow>
     tool_call_ok c \<and> al_symbol c \<noteq> [] \<and> 0 < al_quantity c
     \<and> (case al_limit_price_minor c of None \<Rightarrow> True | Some p \<Rightarrow> 0 \<le> p)
     \<and> 0 \<le> al_estimated_value_lower_minor c \<and> 0 \<le> al_estimated_value_upper_minor c
     \<and> 0 \<le> al_quote_age_seconds c
     \<and> \<not> al_estimated_value_upper_minor c < al_estimated_value_lower_minor c"

fun session_value :: "market_session \<Rightarrow> py_str" where
  "session_value Session_not_applicable = ''not_applicable''"
| "session_value Session_open = ''open''"
| "session_value Session_closed = ''closed''"
| "session_value Session_pre_market = ''pre_market''"
| "session_value Session_post_market = ''post_market''"
| "session_value Session_halted = ''halted''"

definition alpaca_text :: "date_format \<Rightarrow> alpaca_call \<Rightarrow> py_str" where
  "alpaca_text fmt c = dumps (JObj (tool_call_members fmt c @
       [(''symbol'', JStr (al_symbol c)),
        (''quantity'', JInt (al_quantity c)),
        (''side'', JStr (side_value (al_side c))),
        (''order_type'', JStr (order_value (al_order_type c))),
        (''limit_price_minor'', json_opt_int (al_limit_price_minor c)),
        (''quote_currency'', JStr (currency_value (al_quote_currency c))),
        (''estimated_value_lower_minor'', JInt (al_estimated_value_lower_minor c)),
        (''estimated_value_upper_minor'', JInt (al_estimated_value_upper_minor c)),
        (''market_session'', JStr (session_value (al_market_session c))),
        (''quote_age_seconds'', JInt (al_quote_age_seconds c))]))"

definition alpaca_key :: "date_format \<Rightarrow> alpaca_call \<Rightarrow> py_str" where
  "alpaca_key fmt c = ''alpaca-'' @ sha256_hex (alpaca_text fmt c)"

definition alpaca_derive :: "date_format \<Rightarrow> alpaca_call \<Rightarrow> py_error + reject_code + transaction_intent" where
  "alpaca_derive fmt c =
     (if al_market_session c \<noteq> TRADEABLE_SESSION then Inr (Inl Market_closed)
      else if MAX_QUOTE_AGE_SECONDS < al_quote_age_seconds c then Inr (Inl Stale_quote)
      else if (al_order_type c = Order_limit) \<noteq> (al_limit_price_minor c \<noteq> None) then Inr (Inl Malformed_call)
      else case call_dimensions c (al_estimated_value_lower_minor c) (al_estimated_value_upper_minor c)
                  (al_quote_currency c) Rail_brokerage of
          Inl e \<Rightarrow> Inl e
        | Inr dimensions \<Rightarrow>
            (case mk_trade_payload
                    \<lparr>tp_symbol = al_symbol c, tp_quantity = al_quantity c, tp_side = al_side c,
                     tp_order_type = al_order_type c, tp_limit_price_minor = al_limit_price_minor c\<rparr> of
               Inl e \<Rightarrow> Inl e
             | Inr payload \<Rightarrow>
                 Inr (Inr \<lparr>i_dimensions = dimensions, i_payload = Trade payload,
                           i_idempotency_key = alpaca_key fmt c\<rparr>)))"

section \<open>What the calls are written as\<close>

lemma session_value_inj [enum_inj, simp]: "session_value a = session_value b \<longleftrightarrow> a = b"
  by (cases a; cases b) simp_all

text \<open>The canonical text of an object identifies its values.\<close>

lemma dumps_object_eq:
  "map fst a = map fst b \<Longrightarrow> distinct (map fst a) \<Longrightarrow>
     dumps (JObj a) = dumps (JObj b) \<longleftrightarrow> map (sort_keys \<circ> snd) a = map (sort_keys \<circ> snd) b"
  by (simp only: dumps_inj sort_keys_object_eq)

lemma stripe_text_eq: "inj fmt \<Longrightarrow> stripe_text fmt c = stripe_text fmt d \<longleftrightarrow> c = d"
  unfolding stripe_text_def
  by (subst dumps_object_eq) (auto simp: tool_call_members_def inj_eq intro: stripe_call.equality)

lemma alpaca_text_eq: "inj fmt \<Longrightarrow> alpaca_text fmt c = alpaca_text fmt d \<longleftrightarrow> c = d"
  unfolding alpaca_text_def
  by (subst dumps_object_eq) (auto simp: tool_call_members_def inj_eq intro: alpaca_call.equality)

lemma call_dimensions_ok:
  assumes "tool_call_ok c" and "0 \<le> lower" and "lower \<le> upper"
  shows "\<exists>d. call_dimensions c lower upper quote rail = Inr d \<and> dimensions_ok d
    \<and> d_value_lower_minor d = lower \<and> d_value_upper_minor d = upper \<and> d_quote_currency d = quote
    \<and> d_counterparty_ref d = tc_counterparty_ref c \<and> d_source_account_ref d = tc_source_account_ref c
    \<and> d_rail_class d = rail \<and> d_not_before d = tc_not_before c \<and> d_not_after d = tc_not_after c
    \<and> d_reversibility d = Irreversible \<and> d_source_trust d = tc_declared_source_trust c
    \<and> d_scope_count d = tc_scope_count c"
  using assms by (simp add: call_dimensions_def mk_dimensions_def dimensions_ok_def tool_call_ok_def)

section \<open>Properties\<close>

text \<open>The card mapping is total and faithful: a well-formed call never makes it raise; it is
  rejected exactly when it moves nothing or names a currency that is not settled, and otherwise
  becomes a valid intent over exactly the call's amount, references and window, irreversible, on
  the card rail, with a provenance that is not raised and the derived key.\<close>

theorem stripe_derive_faithful:
  assumes "stripe_call_ok c"
  shows "case stripe_derive fmt c of
      Inl e \<Rightarrow> False
    | Inr (Inl code) \<Rightarrow> code = (if ca_amount_minor c = 0 then Malformed_call else Unsupported_currency)
        \<and> (ca_amount_minor c = 0 \<or> ca_quote_currency c \<notin> {USD, EUR, GBP, CAD, AUD})
    | Inr (Inr i) \<Rightarrow> intent_ok i \<and> 0 < ca_amount_minor c \<and> ca_quote_currency c \<in> {USD, EUR, GBP, CAD, AUD}
        \<and> d_value_lower_minor (i_dimensions i) = ca_amount_minor c
        \<and> d_value_upper_minor (i_dimensions i) = ca_amount_minor c
        \<and> d_quote_currency (i_dimensions i) = ca_quote_currency c
        \<and> d_counterparty_ref (i_dimensions i) = tc_counterparty_ref c
        \<and> d_source_account_ref (i_dimensions i) = tc_source_account_ref c
        \<and> d_not_before (i_dimensions i) = tc_not_before c \<and> d_not_after (i_dimensions i) = tc_not_after c
        \<and> d_rail_class (i_dimensions i) = Rail_card \<and> d_reversibility (i_dimensions i) = Irreversible
        \<and> trust_rank (d_source_trust (i_dimensions i)) \<le> trust_rank (tc_declared_source_trust c)
        \<and> i_idempotency_key i = stripe_key fmt c"
proof -
  have c: "tool_call_ok c" "0 \<le> ca_amount_minor c" using assms by (simp_all add: stripe_call_ok_def)
  from call_dimensions_ok [OF c order_refl, of "ca_quote_currency c" Rail_card] obtain d where
    "call_dimensions c (ca_amount_minor c) (ca_amount_minor c) (ca_quote_currency c) Rail_card = Inr d"
    "dimensions_ok d" "d_value_lower_minor d = ca_amount_minor c" "d_value_upper_minor d = ca_amount_minor c"
    "d_quote_currency d = ca_quote_currency c" "d_counterparty_ref d = tc_counterparty_ref c"
    "d_source_account_ref d = tc_source_account_ref c" "d_rail_class d = Rail_card"
    "d_not_before d = tc_not_before c" "d_not_after d = tc_not_after c" "d_reversibility d = Irreversible"
    "d_source_trust d = tc_declared_source_trust c" by blast
  moreover have "stripe_key fmt c \<noteq> []" by (simp add: stripe_key_def)
  ultimately show ?thesis
    using c(2) by (simp add: stripe_derive_def STRIPE_CURRENCIES_def intent_ok_def)
qed

definition demo_stripe_call :: stripe_call where
  "demo_stripe_call =
     \<lparr>tc_counterparty_ref = ''fp:'' @ replicate 64 (CHR ''a''), tc_source_account_ref = ''fp:'' @ replicate 64 (CHR ''b''),
      tc_not_before = 0, tc_not_after = 100, tc_declared_source_trust = Mixed, tc_scope_count = 1,
      ca_amount_minor = 2500, ca_quote_currency = EUR, ca_target_kind = Target_card, ca_new_beneficiary = False,
      ca_cross_border = True, ca_settlement_priority = Standard\<rparr>"

definition demo_alpaca_call :: alpaca_call where
  "demo_alpaca_call =
     \<lparr>tc_counterparty_ref = ''fp:'' @ replicate 64 (CHR ''a''), tc_source_account_ref = ''fp:'' @ replicate 64 (CHR ''b''),
      tc_not_before = 0, tc_not_after = 100, tc_declared_source_trust = Mixed, tc_scope_count = 1,
      al_symbol = ''aapl'', al_quantity = 3, al_side = Buy, al_order_type = Order_market,
      al_limit_price_minor = None, al_quote_currency = USD, al_estimated_value_lower_minor = 100,
      al_estimated_value_upper_minor = 200, al_market_session = Session_open, al_quote_age_seconds = 5\<rparr>"

lemma demo_call_refs:
  "is_fingerprint (''fp:'' @ replicate 64 (CHR ''a''))" "is_fingerprint (''fp:'' @ replicate 64 (CHR ''b''))"
  by (simp_all add: is_fingerprint_def hex64_def is_hex_char_def)

theorem stripe_derive_faithful_witness:
  "\<exists>i. stripe_derive int_str demo_stripe_call = Inr (Inr i) \<and> intent_ok i
     \<and> d_value_upper_minor (i_dimensions i) = 2500 \<and> d_source_trust (i_dimensions i) = Mixed"
proof -
  have "stripe_call_ok demo_stripe_call"
    using demo_call_refs by (simp add: stripe_call_ok_def tool_call_ok_def demo_stripe_call_def)
  from stripe_derive_faithful [OF this, of int_str] show ?thesis
    by (cases "stripe_derive int_str demo_stripe_call")
      (auto simp: demo_stripe_call_def stripe_derive_def call_dimensions_def mk_dimensions_def STRIPE_CURRENCIES_def
        split: sum.splits if_splits)
qed

text \<open>The keys the adapters derive are bound to the whole call: two calls have the same key
  exactly when they agree in every field, or their canonical texts are an explicit SHA-256
  collision, and no card call shares a key with a trade.\<close>

theorem adapter_keys_bind:
  assumes "inj fmt"
  shows "(stripe_key fmt c = stripe_key fmt c' \<longleftrightarrow> c = c' \<or> sha256_collision (stripe_text fmt c) (stripe_text fmt c'))
    \<and> (alpaca_key fmt t = alpaca_key fmt t' \<longleftrightarrow> t = t' \<or> sha256_collision (alpaca_text fmt t) (alpaca_text fmt t'))
    \<and> stripe_key fmt c \<noteq> alpaca_key fmt t"
  using stripe_text_eq [OF assms, of c c'] alpaca_text_eq [OF assms, of t t']
  by (simp add: stripe_key_def alpaca_key_def sha256_hex_eq)

theorem adapter_keys_bind_witness:
  "stripe_key int_str demo_stripe_call = stripe_key int_str (demo_stripe_call\<lparr>ca_amount_minor := 2501\<rparr>)
     \<longleftrightarrow> sha256_collision (stripe_text int_str demo_stripe_call)
          (stripe_text int_str (demo_stripe_call\<lparr>ca_amount_minor := 2501\<rparr>))"
  using adapter_keys_bind [OF inj_int_str, of demo_stripe_call "demo_stripe_call\<lparr>ca_amount_minor := 2501\<rparr>"
      demo_alpaca_call demo_alpaca_call]
  by (simp add: demo_stripe_call_def)

text \<open>The trade mapping raises on some well-formed calls: exactly on those that pass its own
  checks, for an open session, a fresh quote and a price where the order needs one, with a symbol
  the intent's payload does not accept.\<close>

theorem alpaca_derive_raises_exactly:
  assumes "alpaca_call_ok c"
  shows "(\<exists>e. alpaca_derive fmt c = Inl e) \<longleftrightarrow>
     al_market_session c = Session_open \<and> al_quote_age_seconds c \<le> 30
     \<and> ((al_order_type c = Order_limit) = (al_limit_price_minor c \<noteq> None)) \<and> \<not> is_symbol (al_symbol c)"
proof -
  from assms have "tool_call_ok c" "0 \<le> al_estimated_value_lower_minor c"
    "al_estimated_value_lower_minor c \<le> al_estimated_value_upper_minor c" by (simp_all add: alpaca_call_ok_def)
  from call_dimensions_ok [OF this, of "al_quote_currency c" Rail_brokerage] obtain d where
    "call_dimensions c (al_estimated_value_lower_minor c) (al_estimated_value_upper_minor c)
       (al_quote_currency c) Rail_brokerage = Inr d" by blast
  moreover have "mk_trade_payload \<lparr>tp_symbol = al_symbol c, tp_quantity = al_quantity c, tp_side = al_side c,
      tp_order_type = al_order_type c, tp_limit_price_minor = al_limit_price_minor c\<rparr>
    = (if is_symbol (al_symbol c) then Inr \<lparr>tp_symbol = al_symbol c, tp_quantity = al_quantity c, tp_side = al_side c,
      tp_order_type = al_order_type c, tp_limit_price_minor = al_limit_price_minor c\<rparr> else Inl Validation_Error)"
    using assms by (simp add: mk_trade_payload_def trade_payload_ok_def alpaca_call_ok_def)
  ultimately show ?thesis
    by (auto simp: alpaca_derive_def TRADEABLE_SESSION_def MAX_QUOTE_AGE_SECONDS_def)
qed

theorem alpaca_derive_raises_exactly_witness:
  "alpaca_call_ok demo_alpaca_call \<and> (\<exists>e. alpaca_derive int_str demo_alpaca_call = Inl e)"
proof -
  have ok: "alpaca_call_ok demo_alpaca_call"
    using demo_call_refs by (simp add: alpaca_call_ok_def tool_call_ok_def demo_alpaca_call_def)
  moreover have "\<not> is_symbol ''aapl''" by (simp add: is_symbol_def is_upper_def)
  ultimately show ?thesis
    using alpaca_derive_raises_exactly [OF ok, of int_str] by (simp add: demo_alpaca_call_def)
qed

end
