(* ===== verification/Port_Kits.thy ===== *)
theory Port_Kits
  imports Kits Adapters Approval Receipts
begin

text \<open>
  The suites of \<open>secondsign.conformance\<close> for the three ports a deployment fills in: rail adapters
  (\<open>rail_adapter.py\<close>), approval providers (\<open>approval_provider.py\<close>) and audit sinks
  (\<open>audit_sink.py\<close>). What is under test is an object: a call has its state and the object it is
  handed, and leaves both. The calls and the pending approvals of a corpus are the same objects in
  every test; a sink is built anew for each.
\<close>

text \<open>A suite: its tests in turn over one corpus and one subject, which refuse an empty corpus.\<close>

definition on_corpus :: "('c list \<times> 's \<Rightarrow> ('c list \<times> 's) option) \<Rightarrow> 'c list \<times> 's \<Rightarrow> ('c list \<times> 's) option" where
  "on_corpus test run = (if fst run = [] then None else test run)"

lemma on_corpus_simps [simp]:
  "on_corpus test ([], s) = None" "xs \<noteq> [] \<Longrightarrow> on_corpus test (xs, s) = test (xs, s)"
  by (simp_all add: on_corpus_def)

section \<open>Rail adapters\<close>

datatype derived =
    Derive_raises py_error
  | Derive_other
  | Derive_reject reject_code
  | Derive_intent transaction_intent

record ('a, 's) rail_adapter =
  ra_rail_class :: "rail_class option"
  ra_derive :: "'s \<Rightarrow> 'a tool_call_scheme \<Rightarrow> derived \<times> 'a tool_call_scheme \<times> 's"

text \<open>A call of \<open>derive\<close> that returns, with what is checked of the call it leaves and the result.\<close>

definition derive_checked ::
  "('a, 's) rail_adapter \<Rightarrow> ('a tool_call_scheme \<Rightarrow> derived \<Rightarrow> bool)
     \<Rightarrow> 'a tool_call_scheme \<Rightarrow> 's \<Rightarrow> ('a tool_call_scheme \<times> 's) option" where
  "derive_checked adapter check call s =
     (case ra_derive adapter s call of
        (Derive_raises e, _) \<Rightarrow> None
      | (result, call', s') \<Rightarrow> require (check call' result) (call', s'))"

type_synonym ('a, 's) rail_test = "('a, 's) rail_adapter \<Rightarrow> 'a tool_call_scheme list \<times> 's \<Rightarrow> ('a tool_call_scheme list \<times> 's) option"

text \<open>\<open>_intents\<close> with the body of the loop that consumes it.\<close>

definition each_intent ::
  "('a, 's) rail_adapter \<Rightarrow> ('a tool_call_scheme \<Rightarrow> transaction_intent \<Rightarrow> bool)
     \<Rightarrow> 'a tool_call_scheme list \<times> 's \<Rightarrow> ('a tool_call_scheme list \<times> 's) option" where
  "each_intent adapter check =
     on_corpus (each_object (derive_checked adapter
       (\<lambda>call result. case result of Derive_intent intent \<Rightarrow> check call intent | _ \<Rightarrow> False)))"

definition test_declares_the_rail_class_it_serves :: "('a, 's) rail_test" where
  "test_declares_the_rail_class_it_serves adapter = require (ra_rail_class adapter \<noteq> None)"

definition test_derive_returns_an_intent_or_a_reject :: "('a, 's) rail_test" where
  "test_derive_returns_an_intent_or_a_reject adapter =
     on_corpus (each_object (derive_checked adapter (\<lambda>_ result. result \<noteq> Derive_other)))"

definition test_every_valid_call_maps_to_an_intent :: "('a, 's) rail_test" where
  "test_every_valid_call_maps_to_an_intent adapter = each_intent adapter (\<lambda>_ _. True)"

definition test_intents_carry_the_declared_rail_class :: "('a, 's) rail_test" where
  "test_intents_carry_the_declared_rail_class adapter =
     each_intent adapter (\<lambda>_ intent. ra_rail_class adapter = Some (d_rail_class (i_dimensions intent)))"

text \<open>\<open>type(call).model_fields\<close> is a parameter: the declared fields of the class of a call.\<close>

definition test_the_idempotency_key_cannot_be_supplied_by_the_caller ::
  "('a tool_call_scheme \<Rightarrow> py_str list) \<Rightarrow> ('a, 's) rail_test" where
  "test_the_idempotency_key_cannot_be_supplied_by_the_caller model_fields adapter =
     on_corpus (each_object (\<lambda>call s. require (''idempotency_key'' \<notin> set (model_fields call)) (call, s)))"

definition test_the_idempotency_key_is_derived_and_non_empty :: "('a, 's) rail_test" where
  "test_the_idempotency_key_is_derived_and_non_empty adapter =
     each_intent adapter (\<lambda>_ intent. i_idempotency_key intent \<noteq> [])"

definition test_derivation_is_deterministic :: "('a, 's) rail_test" where
  "test_derivation_is_deterministic adapter =
     on_corpus (each_object (\<lambda>call s.
       case ra_derive adapter s call of
         (Derive_raises e, _) \<Rightarrow> None
       | (first, call', s') \<Rightarrow> derive_checked adapter (\<lambda>_ second. first = second) call' s'))"

definition test_does_not_mutate_the_call :: "('a, 's) rail_test" where
  "test_does_not_mutate_the_call adapter =
     on_corpus (each_object (\<lambda>call. derive_checked adapter (\<lambda>call' _. call' = call) call))"

definition test_source_trust_is_never_upgraded :: "('a, 's) rail_test" where
  "test_source_trust_is_never_upgraded adapter =
     each_intent adapter (\<lambda>call intent.
       trust_rank (d_source_trust (i_dimensions intent)) \<le> trust_rank (tc_declared_source_trust call))"

definition rail_kit ::
  "('a tool_call_scheme \<Rightarrow> py_str list) \<Rightarrow> ('a, 's) rail_adapter option
     \<Rightarrow> 'a tool_call_scheme list \<times> 's \<Rightarrow> ('a tool_call_scheme list \<times> 's) option" where
  "rail_kit model_fields adapter run =
     Option.bind adapter (\<lambda>a.
       for_each (\<lambda>test. test a)
         [test_declares_the_rail_class_it_serves,
          test_derive_returns_an_intent_or_a_reject,
          test_every_valid_call_maps_to_an_intent,
          test_intents_carry_the_declared_rail_class,
          test_the_idempotency_key_cannot_be_supplied_by_the_caller model_fields,
          test_the_idempotency_key_is_derived_and_non_empty,
          test_derivation_is_deterministic,
          test_does_not_mutate_the_call,
          test_source_trust_is_never_upgraded] run)"

text \<open>An adapter whose \<open>derive\<close> is a function of the call, and the two reference adapters as such.\<close>

definition pure_adapter :: "rail_class \<Rightarrow> ('a tool_call_scheme \<Rightarrow> derived) \<Rightarrow> ('a, 's) rail_adapter" where
  "pure_adapter rail derive = \<lparr>ra_rail_class = Some rail, ra_derive = (\<lambda>s call. (derive call, call, s))\<rparr>"

definition derived_of :: "py_error + reject_code + transaction_intent \<Rightarrow> derived" where
  "derived_of result =
     (case result of
        Inl e \<Rightarrow> Derive_raises e
      | Inr (Inl code) \<Rightarrow> Derive_reject code
      | Inr (Inr intent) \<Rightarrow> Derive_intent intent)"

definition TOOL_CALL_FIELDS :: "py_str list" where
  "TOOL_CALL_FIELDS =
     [''counterparty_ref'', ''source_account_ref'', ''not_before'', ''not_after'', ''declared_source_trust'',
      ''scope_count'']"

definition STRIPE_CALL_FIELDS :: "py_str list" where
  "STRIPE_CALL_FIELDS = TOOL_CALL_FIELDS @
     [''amount_minor'', ''quote_currency'', ''target_kind'', ''new_beneficiary'', ''cross_border'',
      ''settlement_priority'']"

definition ALPACA_CALL_FIELDS :: "py_str list" where
  "ALPACA_CALL_FIELDS = TOOL_CALL_FIELDS @
     [''symbol'', ''quantity'', ''side'', ''order_type'', ''limit_price_minor'', ''quote_currency'',
      ''estimated_value_lower_minor'', ''estimated_value_upper_minor'', ''market_session'',
      ''quote_age_seconds'']"

definition stripe_adapter :: "date_format \<Rightarrow> (unit stripe_call_ext, 's) rail_adapter" where
  "stripe_adapter fmt = pure_adapter Rail_card (\<lambda>call. derived_of (stripe_derive fmt call))"

definition alpaca_adapter :: "date_format \<Rightarrow> (unit alpaca_call_ext, 's) rail_adapter" where
  "alpaca_adapter fmt = pure_adapter Rail_brokerage (\<lambda>call. derived_of (alpaca_derive fmt call))"

section \<open>Approval providers\<close>

text \<open>What \<open>present\<close> returns when it returns a \<open>CheckerVerdict\<close>: built around its validators, its
  checker can be a maker.\<close>

record returned_verdict =
  rv_checker :: "maker_identity + checker_identity"
  rv_approval_id :: py_str
  rv_proposal :: proposal_digest
  rv_approved :: bool

datatype presented = Present_raises py_error | Present_other | Presented returned_verdict

type_synonym 's provider = "'s \<Rightarrow> pending_approval \<Rightarrow> presented \<times> pending_approval \<times> 's"

type_synonym 's provider_test =
  "'s provider \<Rightarrow> pending_approval list \<times> 's \<Rightarrow> (pending_approval list \<times> 's) option"

definition each_verdict ::
  "'s provider \<Rightarrow> (pending_approval \<Rightarrow> returned_verdict \<Rightarrow> bool)
     \<Rightarrow> pending_approval list \<times> 's \<Rightarrow> (pending_approval list \<times> 's) option" where
  "each_verdict present check =
     on_corpus (each_object (\<lambda>pending s.
       case present s pending of
         (Presented verdict, pending', s') \<Rightarrow> require (check pending' verdict) (pending', s')
       | _ \<Rightarrow> None))"

definition test_returns_a_checker_verdict :: "'s provider_test" where
  "test_returns_a_checker_verdict present = each_verdict present (\<lambda>_ _. True)"

definition test_verdict_binds_to_the_presented_digest :: "'s provider_test" where
  "test_verdict_binds_to_the_presented_digest present =
     each_verdict present (\<lambda>pending verdict. rv_proposal verdict = pa_proposal pending)"

definition test_verdict_names_the_approval_it_answers :: "'s provider_test" where
  "test_verdict_names_the_approval_it_answers present =
     each_verdict present (\<lambda>pending verdict. rv_approval_id verdict = pa_approval_id pending)"

definition test_checker_is_the_distinct_checker_type :: "'s provider_test" where
  "test_checker_is_the_distinct_checker_type present =
     each_verdict present (\<lambda>_ verdict. \<not> isl (rv_checker verdict))"

definition test_does_not_mutate_the_pending :: "'s provider_test" where
  "test_does_not_mutate_the_pending present =
     on_corpus (each_object (\<lambda>pending s.
       case present s pending of
         (Present_raises e, _) \<Rightarrow> None
       | (_, pending', s') \<Rightarrow> require (pending' = pending) (pending', s')))"

definition approval_kit ::
  "'s provider option \<Rightarrow> pending_approval list \<times> 's \<Rightarrow> (pending_approval list \<times> 's) option" where
  "approval_kit provider run =
     Option.bind provider (\<lambda>present.
       for_each (\<lambda>test. test present)
         [test_returns_a_checker_verdict,
          test_verdict_binds_to_the_presented_digest,
          test_verdict_names_the_approval_it_answers,
          test_checker_is_the_distinct_checker_type,
          test_does_not_mutate_the_pending] run)"

section \<open>Audit sinks\<close>

text \<open>What is left of a sink after every receipt of a corpus was appended to it; \<open>None\<close> when one
  of the calls raised.\<close>

fun append_all :: "'s sink_ops \<Rightarrow> audit_receipt list \<Rightarrow> 's \<Rightarrow> 's option" where
  "append_all ops [] s = Some s"
| "append_all ops (receipt # receipts) s =
     (case sk_append ops s receipt of (returned, s') \<Rightarrow> if returned then append_all ops receipts s' else None)"

definition test_appends_are_retrievable_in_order :: "'s sink_ops \<Rightarrow> 's \<Rightarrow> audit_receipt list \<Rightarrow> bool" where
  "test_appends_are_retrievable_in_order ops fresh corpus =
     (case append_all ops corpus fresh of None \<Rightarrow> False | Some s \<Rightarrow> sk_entries ops s = corpus)"

definition test_a_fresh_sink_is_empty :: "'s sink_ops \<Rightarrow> 's \<Rightarrow> bool" where
  "test_a_fresh_sink_is_empty ops fresh \<longleftrightarrow> sk_entries ops fresh = []"

text \<open>\<open>zip\<close> is strict: it raises where one is longer than the other.\<close>

definition test_appending_preserves_each_receipt_unchanged ::
  "'s sink_ops \<Rightarrow> 's \<Rightarrow> audit_receipt list \<Rightarrow> bool" where
  "test_appending_preserves_each_receipt_unchanged ops fresh corpus =
     (case append_all ops corpus fresh of
        None \<Rightarrow> False
      | Some s \<Rightarrow> list_all2 (\<lambda>stored original. stored = original) (sk_entries ops s) corpus)"

definition sink_kit :: "'s sink_ops \<Rightarrow> 's option \<Rightarrow> audit_receipt list \<Rightarrow> bool" where
  "sink_kit ops factory corpus =
     (case factory of
        None \<Rightarrow> False
      | Some fresh \<Rightarrow>
          corpus \<noteq> [] \<and> test_appends_are_retrievable_in_order ops fresh corpus
          \<and> test_a_fresh_sink_is_empty ops fresh
          \<and> test_appending_preserves_each_receipt_unchanged ops fresh corpus)"

section \<open>What passing comes to\<close>

lemma pure_adapter_simps [simp]:
  "ra_rail_class (pure_adapter rail derive) = Some rail"
  "ra_derive (pure_adapter rail derive) s call = (derive call, call, s)"
  by (simp_all add: pure_adapter_def)

lemma derive_checked_pure [simp]:
  "derive_checked (pure_adapter rail derive) check =
     (\<lambda>call s. require ((\<forall>e. derive call \<noteq> Derive_raises e) \<and> check call (derive call)) (call, s))"
proof (intro ext)
  fix call s
  show "derive_checked (pure_adapter rail derive) check call s =
     require ((\<forall>e. derive call \<noteq> Derive_raises e) \<and> check call (derive call)) (call, s)"
    by (cases "derive call") (simp_all add: derive_checked_def)
qed

lemma on_corpus_each [simp]:
  "on_corpus (each_object (\<lambda>x s. require (P x) (x, s))) (xs, s)
   = require (xs \<noteq> [] \<and> (\<forall>x \<in> set xs. P x)) (xs, s)"
  by (simp add: on_corpus_def each_object_require)

text \<open>A pure adapter, call by call.\<close>

definition maps_faithfully :: "rail_class \<Rightarrow> 'a tool_call_scheme \<Rightarrow> derived \<Rightarrow> bool" where
  "maps_faithfully rail call result =
     (case result of
        Derive_intent intent \<Rightarrow>
          d_rail_class (i_dimensions intent) = rail \<and> i_idempotency_key intent \<noteq> []
          \<and> trust_rank (d_source_trust (i_dimensions intent)) \<le> trust_rank (tc_declared_source_trust call)
      | _ \<Rightarrow> False)"

lemma each_intent_pure:
  "each_intent (pure_adapter rail derive) check (calls, s) =
     require (calls \<noteq> [] \<and> (\<forall>call \<in> set calls. \<exists>intent. derive call = Derive_intent intent \<and> check call intent))
       (calls, s)"
proof -
  have "(\<forall>e. derive call \<noteq> Derive_raises e) \<and> (case derive call of Derive_intent intent \<Rightarrow> check call intent | _ \<Rightarrow> False)
      \<longleftrightarrow> (\<exists>intent. derive call = Derive_intent intent \<and> check call intent)" for call
    by (cases "derive call") simp_all
  then show ?thesis by (simp add: each_intent_def)
qed

lemma deterministic_pure:
  fixes s :: 's
  shows
  "test_derivation_is_deterministic (pure_adapter rail derive) (calls, s) =
     require (calls \<noteq> [] \<and> (\<forall>call \<in> set calls. \<forall>e. derive call \<noteq> Derive_raises e)) (calls, s)"
proof -
  have "(\<lambda>call (s :: 's). case ra_derive (pure_adapter rail derive) s call of
       (Derive_raises e, _) \<Rightarrow> None
     | (first, call', s') \<Rightarrow> derive_checked (pure_adapter rail derive) (\<lambda>_ second. first = second) call' s')
    = (\<lambda>call s. require (\<forall>e. derive call \<noteq> Derive_raises e) (call, s))" (is "?twice = ?once")
  proof (intro ext)
    fix call s
    show "?twice call s = ?once call s" by (cases "derive call") simp_all
  qed
  then show ?thesis by (simp only: test_derivation_is_deterministic_def on_corpus_each)
qed

text \<open>A pure adapter passes the nine tests exactly when the corpus is not empty and every call of it
  has no key to set and is mapped to an intent on the declared rail, under a key, with no more trust
  than it declared.\<close>

lemma rail_kit_pure:
  fixes s :: 's
  shows
  "rail_kit model_fields (Some (pure_adapter rail derive)) (calls, s) =
     require (calls \<noteq> [] \<and> (\<forall>call \<in> set calls. ''idempotency_key'' \<notin> set (model_fields call)
       \<and> maps_faithfully rail call (derive call))) (calls, s)"
proof -
  have faithful: "maps_faithfully rail call (derive call) \<longleftrightarrow>
      (\<exists>i. derive call = Derive_intent i \<and> d_rail_class (i_dimensions i) = rail)
      \<and> (\<exists>i. derive call = Derive_intent i \<and> i_idempotency_key i \<noteq> [])
      \<and> (\<exists>i. derive call = Derive_intent i
            \<and> trust_rank (d_source_trust (i_dimensions i)) \<le> trust_rank (tc_declared_source_trust call))" for call
    by (cases "derive call") (auto simp: maps_faithfully_def)
  let ?a = "pure_adapter rail derive :: ('a, 's) rail_adapter"
  let ?on = "\<lambda>check. \<forall>call \<in> set calls. \<exists>i. derive call = Derive_intent i \<and> check call i"
  let ?bs = "[True, calls \<noteq> [] \<and> (\<forall>call \<in> set calls. (\<forall>e. derive call \<noteq> Derive_raises e) \<and> derive call \<noteq> Derive_other),
       calls \<noteq> [] \<and> ?on (\<lambda>_ _. True), calls \<noteq> [] \<and> ?on (\<lambda>_ i. rail = d_rail_class (i_dimensions i)),
       calls \<noteq> [] \<and> (\<forall>call \<in> set calls. ''idempotency_key'' \<notin> set (model_fields call)),
       calls \<noteq> [] \<and> ?on (\<lambda>_ i. i_idempotency_key i \<noteq> []),
       calls \<noteq> [] \<and> (\<forall>call \<in> set calls. \<forall>e. derive call \<noteq> Derive_raises e),
       calls \<noteq> [] \<and> (\<forall>call \<in> set calls. \<forall>e. derive call \<noteq> Derive_raises e),
       calls \<noteq> [] \<and> ?on (\<lambda>call i. trust_rank (d_source_trust (i_dimensions i)) \<le> trust_rank (tc_declared_source_trust call))]"
  have "rail_kit model_fields (Some ?a) (calls, s) = require (list_all id ?bs) (calls, s)"
    unfolding rail_kit_def bind.bind_lunit
    by (rule for_each_tests)
      (simp add: each_intent_pure deterministic_pure test_declares_the_rail_class_it_serves_def
        test_derive_returns_an_intent_or_a_reject_def
        test_every_valid_call_maps_to_an_intent_def test_intents_carry_the_declared_rail_class_def
        test_the_idempotency_key_cannot_be_supplied_by_the_caller_def
        test_the_idempotency_key_is_derived_and_non_empty_def test_does_not_mutate_the_call_def
        test_source_trust_is_never_upgraded_def)
  also have "list_all id ?bs \<longleftrightarrow> calls \<noteq> [] \<and> (\<forall>call \<in> set calls. ''idempotency_key'' \<notin> set (model_fields call)
       \<and> maps_faithfully rail call (derive call))"
    unfolding faithful by auto
  finally show ?thesis .
qed

lemma stripe_maps_iff:
  assumes "stripe_call_ok call"
  shows "maps_faithfully Rail_card call (derived_of (stripe_derive fmt call)) \<longleftrightarrow>
    0 < ca_amount_minor call \<and> ca_quote_currency call \<in> STRIPE_CURRENCIES"
proof -
  from assms have "tool_call_ok call" "0 \<le> ca_amount_minor call" by (simp_all add: stripe_call_ok_def)
  from call_dimensions_ok [OF this order_refl, of "ca_quote_currency call" Rail_card] obtain d where
    "call_dimensions call (ca_amount_minor call) (ca_amount_minor call) (ca_quote_currency call) Rail_card = Inr d"
    "d_rail_class d = Rail_card" "d_source_trust d = tc_declared_source_trust call" by blast
  with \<open>0 \<le> ca_amount_minor call\<close> show ?thesis
    by (auto simp: maps_faithfully_def derived_of_def stripe_derive_def stripe_key_def)
qed

lemma alpaca_maps_iff:
  assumes "alpaca_call_ok call"
  shows "maps_faithfully Rail_brokerage call (derived_of (alpaca_derive fmt call)) \<longleftrightarrow>
    al_market_session call = Session_open \<and> al_quote_age_seconds call \<le> MAX_QUOTE_AGE_SECONDS
    \<and> (al_order_type call = Order_limit \<longleftrightarrow> al_limit_price_minor call \<noteq> None) \<and> is_symbol (al_symbol call)"
proof -
  from assms have "tool_call_ok call" "0 \<le> al_estimated_value_lower_minor call"
    "al_estimated_value_lower_minor call \<le> al_estimated_value_upper_minor call" by (simp_all add: alpaca_call_ok_def)
  from call_dimensions_ok [OF this, of "al_quote_currency call" Rail_brokerage] obtain d where
    "call_dimensions call (al_estimated_value_lower_minor call) (al_estimated_value_upper_minor call)
       (al_quote_currency call) Rail_brokerage = Inr d"
    "d_rail_class d = Rail_brokerage" "d_source_trust d = tc_declared_source_trust call" by blast
  with assms show ?thesis
    by (auto simp: maps_faithfully_def derived_of_def alpaca_derive_def alpaca_key_def TRADEABLE_SESSION_def
        mk_trade_payload_def trade_payload_ok_def alpaca_call_ok_def)
qed

lemma no_key_fields:
  "''idempotency_key'' \<notin> set STRIPE_CALL_FIELDS" "''idempotency_key'' \<notin> set ALPACA_CALL_FIELDS"
  by (simp_all add: STRIPE_CALL_FIELDS_def ALPACA_CALL_FIELDS_def TOOL_CALL_FIELDS_def)

text \<open>A provider whose answer is a function of what it is shown.\<close>

definition pure_provider :: "(pending_approval \<Rightarrow> presented) \<Rightarrow> 's provider" where
  "pure_provider present = (\<lambda>s pending. (present pending, pending, s))"

definition returned :: "checker_verdict \<Rightarrow> returned_verdict" where
  "returned v =
     \<lparr>rv_checker = Inr (cv_checker v), rv_approval_id = cv_approval_id v, rv_proposal = cv_proposal v,
      rv_approved = cv_approved v\<rparr>"

lemma returned_inj [simp]: "returned v = returned w \<longleftrightarrow> v = w"
  by (cases v; cases w) (simp add: returned_def)

definition binds :: "pending_approval \<Rightarrow> checker_verdict \<Rightarrow> bool" where
  "binds pending v \<longleftrightarrow> cv_approval_id v = pa_approval_id pending \<and> cv_proposal v = pa_proposal pending"

lemma each_verdict_pure:
  fixes s :: 's
  shows "each_verdict (pure_provider present) check (corpus, s) =
     require (corpus \<noteq> [] \<and> (\<forall>pending \<in> set corpus. \<exists>v. present pending = Presented v \<and> check pending v)) (corpus, s)"
proof -
  have "(\<lambda>pending (s :: 's). case pure_provider present s pending of
       (Presented verdict, pending', s') \<Rightarrow> require (check pending' verdict) (pending', s')
     | _ \<Rightarrow> None)
    = (\<lambda>pending s. require (\<exists>v. present pending = Presented v \<and> check pending v) (pending, s))" (is "?f = ?g")
  proof (intro ext)
    fix pending s
    show "?f pending s = ?g pending s" by (cases "present pending") (simp_all add: pure_provider_def)
  qed
  then show ?thesis by (simp only: each_verdict_def on_corpus_each)
qed

lemma mutate_pending_pure:
  fixes s :: 's
  shows "test_does_not_mutate_the_pending (pure_provider present) (corpus, s) =
     require (corpus \<noteq> [] \<and> (\<forall>pending \<in> set corpus. \<forall>e. present pending \<noteq> Present_raises e)) (corpus, s)"
proof -
  have "(\<lambda>pending (s :: 's). case pure_provider present s pending of
       (Present_raises e, _) \<Rightarrow> None
     | (_, pending', s') \<Rightarrow> require (pending' = pending) (pending', s'))
    = (\<lambda>pending s. require (\<forall>e. present pending \<noteq> Present_raises e) (pending, s))" (is "?f = ?g")
  proof (intro ext)
    fix pending s
    show "?f pending s = ?g pending s" by (cases "present pending") (simp_all add: pure_provider_def)
  qed
  then show ?thesis by (simp only: test_does_not_mutate_the_pending_def on_corpus_each)
qed

lemma approval_kit_pure:
  fixes s :: 's
  shows "approval_kit (Some (pure_provider present)) (corpus, s) =
     require (corpus \<noteq> [] \<and> (\<forall>pending \<in> set corpus. \<exists>v. present pending = Presented (returned v) \<and> binds pending v))
       (corpus, s)"
proof -
  let ?p = "pure_provider present :: 's provider"
  let ?on = "\<lambda>check. corpus \<noteq> [] \<and> (\<forall>pending \<in> set corpus. \<exists>v. present pending = Presented v \<and> check pending v)"
  let ?bs = "[?on (\<lambda>_ _. True), ?on (\<lambda>pending v. rv_proposal v = pa_proposal pending),
       ?on (\<lambda>pending v. rv_approval_id v = pa_approval_id pending), ?on (\<lambda>_ v. \<not> isl (rv_checker v)),
       corpus \<noteq> [] \<and> (\<forall>pending \<in> set corpus. \<forall>e. present pending \<noteq> Present_raises e)]"
  have "approval_kit (Some ?p) (corpus, s) = require (list_all id ?bs) (corpus, s)"
    unfolding approval_kit_def bind.bind_lunit
    by (rule for_each_tests)
      (simp add: each_verdict_pure mutate_pending_pure test_returns_a_checker_verdict_def
        test_verdict_binds_to_the_presented_digest_def test_verdict_names_the_approval_it_answers_def
        test_checker_is_the_distinct_checker_type_def)
  also have "list_all id ?bs \<longleftrightarrow>
      corpus \<noteq> [] \<and> (\<forall>pending \<in> set corpus. \<exists>v. present pending = Presented (returned v) \<and> binds pending v)"
  proof -
    have "(\<exists>v. present pending = Presented (returned v) \<and> binds pending v) \<longleftrightarrow>
        (\<exists>v. present pending = Presented v \<and> rv_proposal v = pa_proposal pending
          \<and> rv_approval_id v = pa_approval_id pending \<and> \<not> isl (rv_checker v))" (is "?l \<longleftrightarrow> ?r") for pending
    proof
      show "?l \<Longrightarrow> ?r" by (auto simp: returned_def binds_def)
      assume ?r
      then obtain v where v: "present pending = Presented v" "rv_proposal v = pa_proposal pending"
        "rv_approval_id v = pa_approval_id pending" "\<not> isl (rv_checker v)" by blast
      let ?v = "\<lparr>cv_checker = projr (rv_checker v), cv_approval_id = rv_approval_id v, cv_proposal = rv_proposal v,
        cv_approved = rv_approved v\<rparr>"
      have "returned ?v = v" using v(4) by (cases v) (simp add: returned_def)
      with v show ?l by (intro exI [of _ ?v]) (simp add: binds_def)
    qed
    then show ?thesis by (auto; metis presented.inject presented.distinct)
  qed
  finally show ?thesis .
qed

text \<open>A sink that meets the contract and starts empty passes on every corpus it does not refuse to
  write.\<close>

context audit_sink
begin

lemma append_all_kept:
  "inv s \<Longrightarrow> append_all ops receipts s = Some s' \<Longrightarrow> sk_entries ops s' = sk_entries ops s @ receipts \<and> inv s'"
proof (induction receipts arbitrary: s)
  case (Cons receipt receipts)
  obtain returned t where t: "sk_append ops s receipt = (returned, t)" by fastforce
  with Cons.prems(2) have "returned" "append_all ops receipts t = Some s'" by (auto split: if_splits)
  with Cons.IH [of t] append_inv [OF Cons.prems(1) t] append_returned [OF Cons.prems(1), of receipt t] t
  show ?case by simp
qed simp

lemma kit_passes:
  assumes "inv fresh" and "sk_entries ops fresh = []"
  shows "sink_kit ops (Some fresh) corpus \<longleftrightarrow> corpus \<noteq> [] \<and> append_all ops corpus fresh \<noteq> None"
  using append_all_kept [OF assms(1), of corpus] assms(2)
  by (auto simp: sink_kit_def test_appends_are_retrievable_in_order_def test_a_fresh_sink_is_empty_def
      test_appending_preserves_each_receipt_unchanged_def list.rel_eq split: option.splits)

end

lemma memory_append_all: "append_all memory_sink_ops receipts s = Some (s @ receipts)"
  by (induction receipts arbitrary: s) (simp_all add: memory_sink_ops_def)

section \<open>Properties\<close>

text \<open>The two reference adapters under the kit: on any calls that can be built they pass exactly
  on a corpus that is not empty and of which every call is on the happy path: for a card a positive
  amount in a settled currency, for a trade an open session, a fresh quote, a limit price exactly
  for a limit order and a symbol the intent accepts.\<close>

theorem reference_adapters_certified:
  assumes "\<forall>call \<in> set calls. stripe_call_ok call" and "\<forall>trade \<in> set trades. alpaca_call_ok trade"
  shows "rail_kit (\<lambda>_. STRIPE_CALL_FIELDS) (Some (stripe_adapter fmt)) (calls, s) =
      (if calls \<noteq> [] \<and> (\<forall>call \<in> set calls. 0 < ca_amount_minor call \<and> ca_quote_currency call \<in> {USD, EUR, GBP, CAD, AUD})
       then Some (calls, s) else None)
    \<and> rail_kit (\<lambda>_. ALPACA_CALL_FIELDS) (Some (alpaca_adapter fmt)) (trades, s) =
      (if trades \<noteq> [] \<and> (\<forall>trade \<in> set trades. al_market_session trade = Session_open
            \<and> al_quote_age_seconds trade \<le> 30
            \<and> (al_order_type trade = Order_limit \<longleftrightarrow> al_limit_price_minor trade \<noteq> None)
            \<and> is_symbol (al_symbol trade))
       then Some (trades, s) else None)"
  using assms
  by (simp add: stripe_adapter_def alpaca_adapter_def rail_kit_pure no_key_fields require_def stripe_maps_iff
      alpaca_maps_iff STRIPE_CURRENCIES_def MAX_QUOTE_AGE_SECONDS_def cong: ball_cong conj_cong)

theorem reference_adapters_certified_witness:
  "rail_kit (\<lambda>_. STRIPE_CALL_FIELDS) (Some (stripe_adapter int_str)) ([demo_stripe_call], ()) = Some ([demo_stripe_call], ())
   \<and> rail_kit (\<lambda>_. ALPACA_CALL_FIELDS) (Some (alpaca_adapter int_str)) ([demo_alpaca_call], ()) = None"
proof -
  have "stripe_call_ok demo_stripe_call" "alpaca_call_ok demo_alpaca_call"
    using demo_call_refs
    by (simp_all add: stripe_call_ok_def alpaca_call_ok_def tool_call_ok_def demo_stripe_call_def demo_alpaca_call_def)
  then have "\<forall>call \<in> set [demo_stripe_call]. stripe_call_ok call" "\<forall>trade \<in> set [demo_alpaca_call]. alpaca_call_ok trade"
    by simp_all
  from reference_adapters_certified [OF this, of int_str "()"] show ?thesis
    by (simp add: demo_stripe_call_def demo_alpaca_call_def is_symbol_def is_upper_def)
qed


definition demo_provider :: "pending_approval \<Rightarrow> presented" where
  "demo_provider pending =
     Presented (returned \<lparr>cv_checker = Checker ''ann'', cv_approval_id = pa_approval_id pending,
       cv_proposal = pa_proposal pending, cv_approved = True\<rparr>)"


text \<open>The in-memory sink is certified by every corpus that is not empty.\<close>

lemma memory_sink_certified: "sink_kit memory_sink_ops (Some []) corpus \<longleftrightarrow> corpus \<noteq> []"
  by (subst memory_log.kit_passes) (simp_all add: memory_append_all, simp add: memory_sink_ops_def)

end
