(* ===== verification/Example_Extensions.thy ===== *)
theory Example_Extensions
  imports Policy_Kit Port_Kits
begin

text \<open>
  The worked extensions of \<open>src/examples\<close> that the kits certify: the counterparty allow-list
  (\<open>policy_plugin/counterparty_allowlist.py\<close>) and the sink that keeps one receipt a line in a file
  (\<open>audit_sink/jsonl_sink.py\<close>).
\<close>

section \<open>The counterparty allow-list\<close>

definition counterparty_allowlist :: "py_str list \<Rightarrow> plugin" where
  "counterparty_allowlist allowed =
     \<lparr>p_contract_version = Some CONTRACT_VERSION,
      p_evaluate = Some (\<lambda>view.
        if v_counterparty_ref view \<in> set allowed
        then Judgement \<lparr>j_contract_version = CONTRACT_VERSION, j_verdict = ABSTAIN, j_findings = []\<rparr>
        else Judgement \<lparr>j_contract_version = CONTRACT_VERSION, j_verdict = DENY,
               j_findings = [\<lparr>f_code = org_policy, f_observed = None, f_limit = None\<rparr>]\<rparr>)\<rparr>"

lemma evaluate_allowlist:
  "evaluate_isolated (counterparty_allowlist allowed) view
   = (if v_counterparty_ref view \<in> set allowed then neutral else deny_judgement org_policy)"
  by (simp add: counterparty_allowlist_def evaluate_isolated_def neutral_def deny_judgement_def judgement_ok_def
      finding_ok_def)

lemma allowlist_certified: "certified (counterparty_allowlist allowed)"
  by (simp add: certified_iff evaluate_allowlist neutral_def deny_judgement_def runner_failures_def)
    (simp add: counterparty_allowlist_def)

section \<open>Lines of a file\<close>

definition line_break :: "char \<Rightarrow> bool" where
  "line_break c \<longleftrightarrow> of_char c \<in> {10, 11, 12, 13, 28, 29, 30, 133 :: nat}"

text \<open>\<open>str.splitlines\<close>: a carriage return and the line feed after it end one line.\<close>

fun split_lines :: "py_str \<Rightarrow> py_str \<Rightarrow> py_str list" where
  "split_lines line [] = (if line = [] then [] else [line])"
| "split_lines line [c] = (if line_break c then [line] else [line @ [c]])"
| "split_lines line (c # d # r) =
     (if c = CHR 0x0D \<and> d = CHR 0x0A then line # split_lines [] r
      else if line_break c then line # split_lines [] (d # r)
      else split_lines (line @ [c]) (d # r))"

lemma split_lines_line:
  assumes "\<forall>c \<in> set chars. \<not> line_break c"
  shows "split_lines line (chars @ CHR 0x0A # rest) = (line @ chars) # split_lines [] rest"
proof -
  have lf: "line_break (CHR 0x0A)" by (simp add: line_break_def)
  have last: "split_lines line (CHR 0x0A # rest) = line # split_lines [] rest" for line
    using lf by (cases rest) simp_all
  show ?thesis
    using assms
  proof (induction chars arbitrary: line)
    case Nil
    then show ?case by (simp add: last)
  next
    case (Cons c chars)
    then have c: "\<not> line_break c" "c \<noteq> CHR 0x0D" by (auto simp: line_break_def)
    then have "split_lines line ((c # chars) @ CHR 0x0A # rest) = split_lines (line @ [c]) (chars @ CHR 0x0A # rest)"
      by (cases chars) simp_all
    with Cons show ?case by simp
  qed
qed

text \<open>What \<open>json.dumps\<close> writes is one line of printable ASCII characters.\<close>

definition printable :: "char \<Rightarrow> bool" where
  "printable c \<longleftrightarrow> 32 \<le> (of_char c :: nat) \<and> (of_char c :: nat) \<le> 126"

lemma printable_escape: "\<forall>d \<in> set (escape_char c). printable d"
proof -
  have "of_char c < (256 :: nat)" by (rule nat_of_char_less_256)
  then have "of_char c div 16 < (16 :: nat)" by linarith
  then show ?thesis by (auto simp: escape_char_def printable_def hex_char_def)
qed

lemma printable_json_str: "\<forall>d \<in> set (json_str s). printable d"
  using printable_escape by (auto simp: json_str_def) (auto simp: printable_def)

lemma printable_int_str: "\<forall>d \<in> set (int_str i). printable d"
proof -
  have "is_digit d \<Longrightarrow> printable d" for d by (simp add: is_digit_def printable_def)
  with nat_str_digits show ?thesis by (auto simp: int_str_def) (simp add: printable_def)
qed

lemma printable_render:
  "\<forall>c \<in> set (render j). printable c" "\<forall>c \<in> set (render_elems b xs). printable c"
  "\<forall>c \<in> set (render_membs b kvs). printable c"
proof (induction j and b xs and b kvs rule: render_render_elems_render_membs.induct)
  case (4 s) then show ?case by (simp add: printable_json_str)
next
  case (3 i) then show ?case by (simp add: printable_int_str)
next
  case (10 start kv kvs) with printable_json_str show ?case by (auto simp: printable_def)
qed (auto simp: printable_def)

lemma dumps_one_line: "\<forall>c \<in> set (dumps j). \<not> line_break c"
proof -
  have "printable c \<Longrightarrow> \<not> line_break c" for c by (auto simp: printable_def line_break_def)
  then show ?thesis using printable_render(1) by (auto simp: dumps_def)
qed

section \<open>A receipt as a line\<close>

text \<open>What the models of a receipt and of its digest accept.\<close>

definition receipt_valid :: "audit_receipt \<Rightarrow> bool" where
  "receipt_valid r \<longleftrightarrow> receipt_ok r \<and> hex64 (id_value (ar_digest r))"

definition receipt_members :: "audit_receipt \<Rightarrow> (py_str \<times> json) list" where
  "receipt_members r =
     [(''sequence'', JInt (ar_sequence r)), (''prev_hash'', JStr (ar_prev_hash r)),
      (''digest'', JObj [(''digest_version'', JInt (id_version (ar_digest r))),
                         (''value'', JStr (id_value (ar_digest r)))]),
      (''verdict'', JInt (decision_value (ar_verdict r))),
      (''reasons'', JList (map (\<lambda>code. JStr (reason_value code)) (ar_reasons r))),
      (''outcome_status'', json_opt_str (map_option execution_value (ar_outcome_status r))),
      (''approval_id'', json_opt_str (ar_approval_id r)),
      (''principal_ref'', json_opt_str (ar_principal_ref r)),
      (''receipt_hash'', JStr (ar_receipt_hash r))]"

definition receipt_line :: "audit_receipt \<Rightarrow> py_str" where
  "receipt_line r = dumps (JObj (receipt_members r))"

text \<open>\<open>$\<close> matches at the end of a text and before a line feed that ends it.\<close>

definition before_newline :: "py_str \<Rightarrow> py_str" where
  "before_newline s = (if s \<noteq> [] \<and> last s = CHR 0x0A then butlast s else s)"

definition assert_redacted :: "audit_receipt \<Rightarrow> bool" where
  "assert_redacted r \<longleftrightarrow>
     hex64 (before_newline (ar_prev_hash r)) \<and> hex64 (before_newline (ar_receipt_hash r))
     \<and> hex64 (before_newline (id_value (ar_digest r)))
     \<and> (case ar_principal_ref r of None \<Rightarrow> True | Some p \<Rightarrow> is_fingerprint (before_newline p))"

lemma before_newline_hex64 [simp]: "hex64 s \<Longrightarrow> before_newline s = s"
proof -
  assume "hex64 s"
  then have "s \<noteq> [] \<longrightarrow> is_hex_char (last s)" by (auto simp: hex64_def)
  then show ?thesis by (auto simp: before_newline_def is_hex_char_def)
qed

lemma before_newline_fingerprint [simp]: "is_fingerprint s \<Longrightarrow> before_newline s = s"
proof -
  assume fp: "is_fingerprint s"
  then have "hex64 (drop 3 s)" by (simp add: is_fingerprint_def)
  then have ne: "drop 3 s \<noteq> []" and all: "\<forall>c \<in> set (drop 3 s). is_hex_char c" by (auto simp: hex64_def)
  from last_in_set [OF ne] all have "is_hex_char (last (drop 3 s))" by blast
  moreover from ne have "last (drop 3 s) = last s" by (intro last_drop) simp
  ultimately have "is_hex_char (last s)" by simp
  then show ?thesis by (auto simp: before_newline_def is_hex_char_def)
qed

lemma assert_redacted_valid: "receipt_valid r \<Longrightarrow> assert_redacted r"
  by (auto simp: receipt_valid_def receipt_ok_def assert_redacted_def split: option.splits)

text \<open>\<open>AuditReceipt.model_validate\<close> of a value that was read; \<open>coerce\<close> is asked of what is not an
  integer.\<close>

definition int_of :: "(loaded \<Rightarrow> int option) \<Rightarrow> loaded \<Rightarrow> int option" where
  "int_of coerce v = (case v of L_int i \<Rightarrow> Some i | _ \<Rightarrow> coerce v)"

definition str_where :: "(py_str \<Rightarrow> bool) \<Rightarrow> loaded \<Rightarrow> py_str option" where
  "str_where ok v = (case v of L_str s \<Rightarrow> if ok s then Some s else None | _ \<Rightarrow> None)"

definition optional_of :: "(loaded \<Rightarrow> 'a option) \<Rightarrow> (py_str \<times> loaded) list \<Rightarrow> py_str \<Rightarrow> 'a option option" where
  "optional_of read kvs key =
     (case map_of kvs key of None \<Rightarrow> Some None | Some L_null \<Rightarrow> Some None | Some v \<Rightarrow> map_option Some (read v))"

definition digest_of :: "(loaded \<Rightarrow> int option) \<Rightarrow> loaded \<Rightarrow> intent_digest option" where
  "digest_of coerce v =
     (case v of
        L_dict kvs \<Rightarrow>
          if \<not> closed_model [''value''] [''digest_version''] kvs then None
          else
            (case (if has_field kvs ''digest_version'' then int_of coerce (dict_get kvs ''digest_version'')
                   else Some DIGEST_VERSION,
                   str_where hex64 (dict_get kvs ''value'')) of
               (Some version, Some value_text) \<Rightarrow> Some \<lparr>id_version = version, id_value = value_text\<rparr>
             | _ \<Rightarrow> None)
      | _ \<Rightarrow> None)"

definition verdict_of :: "(loaded \<Rightarrow> int option) \<Rightarrow> loaded \<Rightarrow> decision_verdict option" where
  "verdict_of coerce v =
     Option.bind (int_of coerce v) (\<lambda>i. find (\<lambda>d. decision_value d = i) [Allow, Review, Deny])"

definition REASON_CODES :: "reason_code list" where
  "REASON_CODES =
     [velocity_limit, counterparty_risk, jurisdiction_restricted, market_session_closed, value_band_exceeded,
      new_counterparty, org_policy, plugin_error, plugin_contract_mismatch, plugin_invalid_result]"

definition reasons_of :: "(py_str \<times> loaded) list \<Rightarrow> reason_code list option" where
  "reasons_of kvs =
     (case map_of kvs ''reasons'' of
        None \<Rightarrow> Some []
      | Some (L_list xs) \<Rightarrow> all_some (map (enum_of reason_value REASON_CODES) xs)
      | _ \<Rightarrow> None)"

definition receipt_of :: "(loaded \<Rightarrow> int option) \<Rightarrow> loaded \<Rightarrow> audit_receipt option" where
  "receipt_of coerce v =
     (case v of
        L_dict kvs \<Rightarrow>
          if \<not> closed_model [''sequence'', ''prev_hash'', ''digest'', ''verdict'', ''receipt_hash'']
                [''reasons'', ''outcome_status'', ''approval_id'', ''principal_ref''] kvs then None
          else
            (case (nonneg_of coerce (dict_get kvs ''sequence''), str_where hex64 (dict_get kvs ''prev_hash''),
                   digest_of coerce (dict_get kvs ''digest''), verdict_of coerce (dict_get kvs ''verdict''),
                   reasons_of kvs,
                   optional_of (enum_of execution_value [Ex_success, Ex_failure, Ex_unknown]) kvs ''outcome_status'',
                   optional_of (str_where (\<lambda>_. True)) kvs ''approval_id'',
                   optional_of (str_where is_fingerprint) kvs ''principal_ref'',
                   str_where hex64 (dict_get kvs ''receipt_hash'')) of
               (Some sequence, Some prev_hash, Some digest, Some verdict, Some reasons, Some status, Some approval,
                  Some principal_ref, Some receipt_hash) \<Rightarrow>
                 Some \<lparr>ar_sequence = sequence, ar_prev_hash = prev_hash, ar_digest = digest, ar_verdict = verdict,
                       ar_reasons = reasons, ar_outcome_status = status, ar_approval_id = approval,
                       ar_principal_ref = principal_ref, ar_receipt_hash = receipt_hash\<rparr>
             | _ \<Rightarrow> None)
      | _ \<Rightarrow> None)"

section \<open>The file-backed sink\<close>

text \<open>The file, and for every attempt to open and write it whether it succeeds; where the list ends
  every later one does. An attempt that fails leaves the file as it was: a line torn in the middle
  is left out.\<close>

record jsonl_sink =
  jl_file :: "py_str option"
  jl_disk :: "bool list"

definition contents :: "jsonl_sink \<Rightarrow> py_str" where
  "contents sink = (case jl_file sink of None \<Rightarrow> [] | Some t \<Rightarrow> t)"

text \<open>Three exceptions leave it: \<open>AssertionError\<close>, the \<open>ValueError\<close> of a number with too many digits to
  be written, and \<open>OSError\<close>.\<close>

definition jsonl_append :: "jsonl_sink \<Rightarrow> audit_receipt \<Rightarrow> bool \<times> jsonl_sink" where
  "jsonl_append sink receipt =
     (if \<not> assert_redacted receipt then (False, sink)
      else if \<not> json_ok (JObj (receipt_members receipt)) then (False, sink)
      else case jl_disk sink of
          False # later \<Rightarrow> (False, sink\<lparr>jl_disk := later\<rparr>)
        | _ \<Rightarrow> (True, \<lparr>jl_file = Some (contents sink @ receipt_line receipt @ [CHR 0x0A]), jl_disk = tl (jl_disk sink)\<rparr>))"

definition jsonl_entries :: "(loaded \<Rightarrow> int option) \<Rightarrow> float_reader \<Rightarrow> jsonl_sink \<Rightarrow> audit_receipt list option" where
  "jsonl_entries coerce flt sink =
     (case jl_file sink of
        None \<Rightarrow> Some []
      | Some t \<Rightarrow> all_some (map (\<lambda>line. Option.bind (json_loads flt line) (receipt_of coerce)) (split_lines [] t)))"

lemma json_ok_sort_keys: "json_ok j \<Longrightarrow> json_ok (sort_keys j)"
proof (induction j)
  case (JObj kvs)
  have "distinct (map fst (map (map_prod id sort_keys) kvs))" using JObj.prems by (simp add: comp_def)
  moreover have "json_ok (sort_keys v)" if "(k, v) \<in> set kvs" for k v
    using JObj.IH [OF that, of v] JObj.prems that by (auto simp: list_all_iff)
  ultimately show ?case by (auto simp: list_all_iff distinct_map_sort_key)
qed (auto simp: list_all_iff)

lemma digest_of_json:
  assumes "hex64 (id_value d)"
  shows "digest_of coerce (loaded_of (sort_keys (JObj [(''digest_version'', JInt (id_version d)),
    (''value'', JStr (id_value d))]))) = Some d"
  using assms by (simp add: digest_of_def closed_model_def has_field_def dict_get_def int_of_def str_where_def)

lemma optional_of_json:
  assumes "\<And>x. read (L_str (text_of x)) = Some x" and "map_of kvs key = Some (loaded_of (json_opt_str (map_option text_of v)))"
  shows "optional_of read kvs key = Some v"
  using assms by (cases v) (simp_all add: optional_of_def json_opt_str_def)

lemma members_read [simp]:
  "enum_of reason_value REASON_CODES (L_str (reason_value c)) = Some c"
  "enum_of execution_value [Ex_success, Ex_failure, Ex_unknown] (L_str (execution_value e)) = Some e"
  "verdict_of coerce (L_int (decision_value d)) = Some d"
  by ((cases c; simp add: enum_of_def REASON_CODES_def), (cases e; simp add: enum_of_def),
    (cases d; simp add: verdict_of_def int_of_def))

lemma receipt_of_line:
  assumes "receipt_valid r"
  shows "receipt_of coerce (loaded_of (sort_keys (JObj (receipt_members r)))) = Some r"
proof -
  obtain kvs where kvs: "loaded_of (sort_keys (JObj (receipt_members r))) = L_dict kvs"
    and fields: "closed_model [''sequence'', ''prev_hash'', ''digest'', ''verdict'', ''receipt_hash'']
        [''reasons'', ''outcome_status'', ''approval_id'', ''principal_ref''] kvs"
      "dict_get kvs ''sequence'' = L_int (ar_sequence r)" "dict_get kvs ''prev_hash'' = L_str (ar_prev_hash r)"
      "dict_get kvs ''digest'' = loaded_of (sort_keys (JObj [(''digest_version'', JInt (id_version (ar_digest r))),
          (''value'', JStr (id_value (ar_digest r)))]))"
      "dict_get kvs ''verdict'' = L_int (decision_value (ar_verdict r))"
      "dict_get kvs ''receipt_hash'' = L_str (ar_receipt_hash r)"
      "map_of kvs ''reasons'' = Some (L_list (map (\<lambda>c. L_str (reason_value c)) (ar_reasons r)))"
      "map_of kvs ''outcome_status'' = Some (loaded_of (json_opt_str (map_option execution_value (ar_outcome_status r))))"
      "map_of kvs ''approval_id'' = Some (loaded_of (json_opt_str (map_option id (ar_approval_id r))))"
      "map_of kvs ''principal_ref'' = Some (loaded_of (json_opt_str (map_option id (ar_principal_ref r))))"
    by (simp add: receipt_members_def closed_model_def has_field_def dict_get_def comp_def option.map_id)
  have "optional_of (str_where (\<lambda>_. True)) kvs ''approval_id'' = Some (ar_approval_id r)"
    by (rule optional_of_json [OF _ fields(9)]) (simp add: str_where_def)
  moreover have "optional_of (str_where is_fingerprint) kvs ''principal_ref'' = Some (ar_principal_ref r)"
    using assms fields(10)
    by (cases "ar_principal_ref r") (simp_all add: optional_of_def json_opt_str_def str_where_def receipt_valid_def receipt_ok_def)
  moreover have "optional_of (enum_of execution_value [Ex_success, Ex_failure, Ex_unknown]) kvs ''outcome_status''
      = Some (ar_outcome_status r)"
    by (rule optional_of_json [OF _ fields(8)]) simp
  moreover have "reasons_of kvs = Some (ar_reasons r)"
    using all_some_map [of "\<lambda>c. c" "ar_reasons r"] fields(7) by (simp add: reasons_of_def comp_def)
  moreover have "digest_of coerce (dict_get kvs ''digest'') = Some (ar_digest r)"
    unfolding fields(4) by (rule digest_of_json) (use assms in \<open>simp add: receipt_valid_def\<close>)
  ultimately show ?thesis
    using assms by (simp add: kvs receipt_of_def fields(1-3,5,6) nonneg_of_def str_where_def receipt_valid_def receipt_ok_def
        del: sort_keys.simps)
qed

text \<open>The states a sink that started without a file can be in: the file is the lines of some receipts.\<close>

definition storable :: "audit_receipt \<Rightarrow> bool" where
  "storable r \<longleftrightarrow> receipt_valid r \<and> json_ok (JObj (receipt_members r))"

definition holds :: "jsonl_sink \<Rightarrow> audit_receipt list \<Rightarrow> bool" where
  "holds sink rs \<longleftrightarrow>
     (\<forall>r \<in> set rs. storable r) \<and> contents sink = concat (map (\<lambda>r. receipt_line r @ [CHR 0x0A]) rs)"

lemma line_read:
  "storable r \<Longrightarrow> Option.bind (json_loads flt (receipt_line r)) (receipt_of coerce) = Some r"
  using json_loads_render [OF json_ok_sort_keys, of "JObj (receipt_members r)" flt] receipt_of_line [of r coerce]
  by (simp add: storable_def receipt_line_def dumps_def del: sort_keys.simps loaded_of.simps)

lemma split_receipt_lines:
  "split_lines [] (concat (map (\<lambda>r. receipt_line r @ [CHR 0x0A]) rs)) = map receipt_line rs"
proof (induction rs)
  case (Cons r rs)
  have "\<forall>c \<in> set (receipt_line r). \<not> line_break c" by (simp add: receipt_line_def dumps_one_line)
  from split_lines_line [OF this, of "[]"] Cons show ?case by simp
qed simp

lemma jsonl_entries_held:
  assumes "holds sink rs"
  shows "jsonl_entries coerce flt sink = Some rs"
proof -
  have "map (\<lambda>r. Option.bind (json_loads flt (receipt_line r)) (receipt_of coerce)) rs = map (\<lambda>r. Some r) rs"
    using assms line_read by (auto simp: holds_def)
  then have "all_some (map (\<lambda>line. Option.bind (json_loads flt line) (receipt_of coerce)) (split_lines [] (contents sink)))
      = all_some (map (\<lambda>r. Some r) rs)"
    using assms unfolding holds_def by (simp only: split_receipt_lines map_map comp_def)
  then have "all_some (map (\<lambda>line. Option.bind (json_loads flt line) (receipt_of coerce)) (split_lines [] (contents sink))) = Some rs"
    using all_some_map [of "\<lambda>r. r" rs] by simp
  then show ?thesis by (cases "jl_file sink") (simp_all add: jsonl_entries_def contents_def)
qed

lemma jsonl_append_held:
  assumes "holds sink rs" and "receipt_valid r"
  shows "jsonl_append sink r = (True, sink') \<Longrightarrow> holds sink' (rs @ [r])"
    and "jsonl_append sink r = (False, sink') \<Longrightarrow> holds sink' rs"
  using assms
  by (auto simp: jsonl_append_def holds_def storable_def contents_def split: if_splits list.splits bool.splits)

text \<open>The sink under the interface of the log. What the validators reject is no \<open>AuditReceipt\<close> to
  append; in the states of \<open>holds\<close> the file can be read.\<close>

definition jsonl_ops :: "(loaded \<Rightarrow> int option) \<Rightarrow> float_reader \<Rightarrow> jsonl_sink sink_ops" where
  "jsonl_ops coerce flt =
     \<lparr>sk_append = (\<lambda>sink r. if receipt_valid r then jsonl_append sink r else (False, sink)),
      sk_entries = (\<lambda>sink. the (jsonl_entries coerce flt sink))\<rparr>"

interpretation jsonl_log: audit_sink "jsonl_ops coerce flt" "\<lambda>sink. \<exists>rs. holds sink rs" for coerce flt
proof (unfold_locales, goal_cases)
  case (1 s r s')
  then show ?case
    by (auto simp: jsonl_ops_def jsonl_entries_held dest: jsonl_append_held(1) split: if_splits)
next
  case (2 s r s')
  then show ?case
    by (auto simp: jsonl_ops_def jsonl_entries_held dest: jsonl_append_held(2) split: if_splits)
next
  case (3 s r b s')
  then show ?case
    by (cases b) (auto simp: jsonl_ops_def dest: jsonl_append_held split: if_splits)
qed

lemma jsonl_chained_iff:
  "jsonl_log.chained coerce flt sink \<longleftrightarrow> (\<exists>rs. holds sink rs) \<and> verify_chain (sk_entries (jsonl_ops coerce flt) sink)"
  by (rule jsonl_log.chained_def)

lemma fresh_holds: "holds \<lparr>jl_file = None, jl_disk = disk\<rparr> []"
  by (simp add: holds_def contents_def)

section \<open>Properties\<close>

text \<open>The allow-list: it passes the kit for whatever it lists; among any plugins a counterparty that
  it does not list is denied, and for one that it lists it is as if it were not installed.\<close>

theorem allowlist_denies_exactly:
  "policy_kit (Some (stateless (counterparty_allowlist allowed))) s = Some s
   \<and> (v_counterparty_ref view \<notin> set allowed \<longrightarrow>
        (\<exists>j. run_plugins (before @ counterparty_allowlist allowed # after) view = Inr j \<and> j_verdict j = DENY))
   \<and> (v_counterparty_ref view \<in> set allowed \<longrightarrow>
        run_plugins (before @ counterparty_allowlist allowed # after) view = run_plugins (before @ after) view)"
proof (intro conjI impI)
  let ?with = "before @ counterparty_allowlist allowed # after"
  show "policy_kit (Some (stateless (counterparty_allowlist allowed))) s = Some s"
    by (simp add: policy_kit_certified allowlist_certified)
  show "\<exists>j. run_plugins ?with view = Inr j \<and> j_verdict j = DENY" if "v_counterparty_ref view \<notin> set allowed"
  proof -
    have "Max (insert ABSTAIN ((\<lambda>p. j_verdict (evaluate_isolated p view)) ` set ?with)) = DENY"
      using that by (intro Max_eqI) (auto simp: evaluate_allowlist)
    then show ?thesis by (simp add: run_plugins_judgement_on judgement_on_verdict)
  qed
  show "run_plugins ?with view = run_plugins (before @ after) view" if "v_counterparty_ref view \<in> set allowed"
    using that by (intro judgement_on_cong)
      (simp_all add: judgement_on_verdict judgement_on_findings evaluate_allowlist neutral_def insert_commute)
qed


definition demo_ledger_call :: record_call where
  "demo_ledger_call = demo_call\<lparr>rc_digest := \<lparr>id_version = 1, id_value = GENESIS_HASH\<rparr>\<rparr>"


text \<open>Under the kit it passes on every corpus of receipts when the disk does not fail.\<close>

lemma jsonl_append_all:
  "\<forall>r \<in> set corpus. storable r \<Longrightarrow> append_all (jsonl_ops coerce flt) corpus \<lparr>jl_file = f, jl_disk = []\<rparr> \<noteq> None"
  by (induction corpus arbitrary: f)
    (auto simp: jsonl_ops_def jsonl_append_def storable_def assert_redacted_valid)

lemma jsonl_sink_certified:
  assumes "\<forall>r \<in> set corpus. storable r"
  shows "sink_kit (jsonl_ops coerce flt) (Some \<lparr>jl_file = None, jl_disk = []\<rparr>) corpus \<longleftrightarrow> corpus \<noteq> []"
proof -
  have "sk_entries (jsonl_ops coerce flt) \<lparr>jl_file = None, jl_disk = []\<rparr> = []"
    using jsonl_entries_held [OF fresh_holds, of coerce flt "[]"] by (simp add: jsonl_ops_def)
  from jsonl_log.kit_passes [OF _ this] fresh_holds [of "[]"] jsonl_append_all [OF assms] show ?thesis by blast
qed

end
