(* ===== verification/Trust_Anchors.thy ===== *)
theory Trust_Anchors
  imports Approver
begin

text \<open>
  The loop of \<open>_certificate_der_set\<close> as it is written: a \<open>while True\<close> that moves an index over the
  text of a PEM file. It is a partial function here, so that a run that does not return is \<open>None\<close>;
  the theorem is that every run returns, and with what \<open>certificate_der_set\<close> of theory \<open>Approver\<close>
  says.
\<close>

text \<open>\<open>text.find(pattern, start)\<close>, and the slice between two indices.\<close>

definition find_from :: "py_str \<Rightarrow> py_str \<Rightarrow> nat \<Rightarrow> nat option" where
  "find_from pattern t start = map_option (\<lambda>(before, _). start + length before) (split_at pattern (drop start t))"

definition slice :: "py_str \<Rightarrow> nat \<Rightarrow> nat \<Rightarrow> py_str" where
  "slice t i j = take (j - i) (drop i t)"

partial_function (option) der_scan ::
  "runtime \<Rightarrow> py_str \<Rightarrow> nat \<Rightarrow> bytes set \<Rightarrow> (py_error + bytes set) option" where
  "der_scan rt t start ders =
     (case find_from BEGIN_CERTIFICATE t start of
        None \<Rightarrow> Some (Inr ders)
      | Some open_at \<Rightarrow>
          (case find_from END_CERTIFICATE t open_at of
             None \<Rightarrow> Some (Inr ders)
           | Some close_at \<Rightarrow>
               (case rt_pem_to_der rt (slice t open_at (close_at + length END_CERTIFICATE) @ [CHR 0x0A]) of
                  None \<Rightarrow> Some (Inl Value_Error)
                | Some der \<Rightarrow> der_scan rt t (close_at + length END_CERTIFICATE) (insert der ders))))"

lemma find_from_Some:
  assumes "find_from pattern t start = Some at"
  obtains before where "split_at pattern (drop start t) = Some (before, drop at t)" "at = start + length before"
    "drop start t = before @ drop at t" "take (length pattern) (drop at t) = pattern"
proof -
  from assms obtain before r where r: "split_at pattern (drop start t) = Some (before, r)" "at = start + length before"
    by (auto simp: find_from_def)
  from split_at_Some [OF r(1)] have eq: "drop start t = before @ r" "take (length pattern) r = pattern" by auto
  then have "drop at t = r" using r(2) by (metis add.commute append_eq_conv_conj drop_drop)
  with r eq that show ?thesis by simp
qed

lemma der_scan_blocks:
  "der_scan rt t start ders = Some (case map_opt (rt_pem_to_der rt) (pem_blocks (drop start t)) of
     None \<Rightarrow> Inl Value_Error | Some found \<Rightarrow> Inr (ders \<union> set found))"
proof (induction "drop start t" arbitrary: start ders rule: pem_blocks.induct)
  case 1
  show ?case
  proof (cases "find_from BEGIN_CERTIFICATE t start")
    case None
    then have "pem_blocks (drop start t) = []" by (subst pem_blocks.simps) (simp add: find_from_def)
    with None show ?thesis by (subst der_scan.simps) simp
  next
    case (Some open_at)
    then obtain p where p: "split_at BEGIN_CERTIFICATE (drop start t) = Some (p, drop open_at t)"
      by (rule find_from_Some)
    show ?thesis
    proof (cases "find_from END_CERTIFICATE t open_at")
      case None
      then have "pem_blocks (drop start t) = []" using p by (subst pem_blocks.simps) (simp add: find_from_def)
      with Some None show ?thesis by (subst der_scan.simps) simp
    next
      case (Some close_at)
      then obtain block where block: "split_at END_CERTIFICATE (drop open_at t) = Some (block, drop close_at t)"
        "close_at = open_at + length block" "drop open_at t = block @ drop close_at t"
        "take (length END_CERTIFICATE) (drop close_at t) = END_CERTIFICATE"
        by (rule find_from_Some)
      let ?next = "close_at + length END_CERTIFICATE"
      have sliced: "slice t open_at ?next = block @ END_CERTIFICATE"
        using block by (simp add: slice_def)
      have blocks: "pem_blocks (drop start t) = (block @ END_CERTIFICATE @ [CHR 0x0A]) # pem_blocks (drop ?next t)"
        using p block(1) by (subst pem_blocks.simps) (simp add: add.commute)
      from "1.hyps" [OF p refl block(1) refl, of ?next] have rest: "der_scan rt t ?next acc =
          Some (case map_opt (rt_pem_to_der rt) (pem_blocks (drop ?next t)) of
            None \<Rightarrow> Inl Value_Error | Some found \<Rightarrow> Inr (acc \<union> set found))" for acc
        by (simp add: add.commute)
      show ?thesis
        using \<open>find_from BEGIN_CERTIFICATE t start = Some open_at\<close> Some
        by (subst der_scan.simps)
          (simp add: sliced blocks rest split: option.split)
    qed
  qed
qed

section \<open>Properties\<close>

text \<open>[C39] The loop over the markers of a PEM file ends on every text and from every position: it
  returns a set of decoded blocks, or raises where a block does not decode. What is compared when the
  two channels are checked to be separate is what it returns from the start of the file, and nothing
  where the file cannot be read, is not ASCII, or has a block that does not decode.\<close>

theorem der_scan_returns:
  "(\<exists>result. der_scan rt t start ders = Some result)
   \<and> certificate_der_set rt path = (case rt_read_bytes rt path of
       None \<Rightarrow> None
     | Some bs \<Rightarrow>
         if list_ex (\<lambda>b. 127 < unat b) bs then None
         else case der_scan rt (universal_newlines (map (\<lambda>b. char_of (unat b)) bs)) 0 {} of
                Some (Inr found) \<Rightarrow> Some found
              | _ \<Rightarrow> None)"
proof (intro conjI)
  show "\<exists>result. der_scan rt t start ders = Some result"
    by (simp add: der_scan_blocks)
next
  show "certificate_der_set rt path = (case rt_read_bytes rt path of
       None \<Rightarrow> None
     | Some bs \<Rightarrow>
         if list_ex (\<lambda>b. 127 < unat b) bs then None
         else case der_scan rt (universal_newlines (map (\<lambda>b. char_of (unat b)) bs)) 0 {} of
                Some (Inr found) \<Rightarrow> Some found
              | _ \<Rightarrow> None)"
    unfolding certificate_der_set_def
    by (simp only: der_scan_blocks drop_0) (simp split: option.split)
qed

end
