(* ===== verification/Isolation.thy ===== *)
theory Isolation
  imports Prelude
begin

text \<open>
  \<open>secondsign.isolation\<close>: which side of the isolation boundary a module is on. The module reads
  nothing; it is a set of constants and a judgement on a module's dotted name.
\<close>

section \<open>Sides and concerns\<close>

datatype side = Control_plane | Agent_surface | Shared

record concern =
  cn_description :: py_str
  cn_symbols :: "py_str list"

definition is_held_by :: "concern \<Rightarrow> py_str set \<Rightarrow> bool" where
  "is_held_by c defined_names \<longleftrightarrow> list_ex (\<lambda>symbol. symbol \<in> defined_names) (cn_symbols c)"

definition CONTROL_PLANE_CONCERNS :: "(py_str \<times> concern) list" where
  "CONTROL_PLANE_CONCERNS =
     [(''limits'',
       \<lparr>cn_description = ''What the agent is allowed to move, and the windows it is measured over.'',
        cn_symbols = [''AmountLimit'', ''AmountWindowPolicy'', ''WindowAggregate'', ''PolicyContext'']\<rparr>),
      (''approver_roster'',
       \<lparr>cn_description = ''Who may approve, and the maker-checker separation between them.'',
        cn_symbols = [''CheckerIdentity'', ''MakerIdentity'', ''MakerChecker'', ''ApprovalProvider'']\<rparr>),
      (''idempotency_store'',
       \<lparr>cn_description = ''Which authorizations have been spent. Reachable means replayable.'',
        cn_symbols = [''IdempotencyStore'', ''InMemoryIdempotencyStore'', ''ExecutionGateway'']\<rparr>),
      (''audit_ledger'',
       \<lparr>cn_description = ''The hash-chained record. Reachable means the history is editable.'',
        cn_symbols = [''AuditLog'', ''AuditSink'', ''InMemoryAuditSink'', ''AuditReceipt'']\<rparr>),
      (''relaxation_authority'',
       \<lparr>cn_description = ''What may loosen a setting below its strictest default, and on whose authority.'',
        cn_symbols = [''Relaxation'', ''RelaxationDecision'', ''resolve'', ''strictest'']\<rparr>),
      (''fingerprint_key'',
       \<lparr>cn_description =
          ''What makes a reference opaque. Reachable means every reference in the '' @
          ''deployment is mintable, and an unkeyed hash of an account number is a '' @
          ''lookup table away from being the account number.'',
        cn_symbols = [''FingerprintKey'']\<rparr>)]"

section \<open>Classification\<close>

definition AGENT_SURFACE :: py_str where "AGENT_SURFACE = ''secondsign.agent''"

definition CONTROL_PLANE_PREFIXES :: "py_str list" where
  "CONTROL_PLANE_PREFIXES =
     [''secondsign.approval'', ''secondsign.audit'', ''secondsign.conformance'', ''secondsign.controlplane'',
      ''secondsign.decision'', ''secondsign.gateway'', ''secondsign.onchain.policy'', ''secondsign.policy'',
      ''secondsign.rails'']"

definition SHARED_PREFIXES :: "py_str list" where
  "SHARED_PREFIXES =
     [''secondsign.adapters'', ''secondsign.contracts'', ''secondsign.intent'', ''secondsign.isolation'',
      ''secondsign.onchain'']"

text \<open>\<open>s.startswith(prefix)\<close>.\<close>

definition starts_with :: "py_str \<Rightarrow> py_str \<Rightarrow> bool" where
  "starts_with prefix s \<longleftrightarrow> take (length prefix) s = prefix"

definition module_matches :: "py_str \<Rightarrow> py_str list \<Rightarrow> bool" where
  "module_matches m prefixes \<longleftrightarrow> list_ex (\<lambda>p. m = p \<or> starts_with (p @ ''.'') m) prefixes"

definition classify :: "py_str \<Rightarrow> side option" where
  "classify m =
     (if m = AGENT_SURFACE \<or> starts_with (AGENT_SURFACE @ ''.'') m then Some Agent_surface
      else if module_matches m CONTROL_PLANE_PREFIXES then Some Control_plane
      else if m = ''secondsign'' \<or> module_matches m SHARED_PREFIXES then Some Shared
      else None)"

definition is_control_plane :: "py_str \<Rightarrow> bool" where
  "is_control_plane m \<longleftrightarrow> classify m = Some Control_plane"

section \<open>Packages\<close>

text \<open>A module of a package: the package itself, or a dotted name under it.\<close>

definition inside :: "py_str \<Rightarrow> py_str \<Rightarrow> bool" where
  "inside m p \<longleftrightarrow> m = p \<or> (\<exists>rest. m = p @ ''.'' @ rest)"

lemma starts_with_iff: "starts_with p s \<longleftrightarrow> (\<exists>rest. s = p @ rest)"
  by (auto simp: starts_with_def) (metis append_take_drop_id)

lemma inside_iff: "m = p \<or> starts_with (p @ ''.'') m \<longleftrightarrow> inside m p"
  by (auto simp: inside_def starts_with_iff)

lemma module_matches_iff: "module_matches m ps \<longleftrightarrow> (\<exists>p \<in> set ps. inside m p)"
  by (simp add: module_matches_def inside_iff list_ex_iff)

lemma inside_refl: "inside m m"
  by (simp add: inside_def)

lemma inside_trans: "inside m p \<Longrightarrow> inside p q \<Longrightarrow> inside m q"
  by (auto simp: inside_def)

text \<open>Two packages with a module in common are one inside the other.\<close>

lemma inside_comparable:
  assumes "inside m p" and "inside m q"
  shows "inside p q \<or> inside q p"
proof -
  from assms obtain r s where "m @ ''.'' = p @ ''.'' @ r" "m @ ''.'' = q @ ''.'' @ s"
    unfolding inside_def by (metis append.assoc append_Nil2)
  then have "p @ ''.'' @ r = q @ ''.'' @ s" by simp
  then obtain us where "p @ ''.'' = q @ ''.'' @ us \<or> q @ ''.'' = p @ ''.'' @ us"
    by (metis (no_types, lifting) append.assoc append_eq_append_conv2)
  then show ?thesis
    by (cases us rule: rev_cases) (auto simp: inside_def)
qed

text \<open>How the packages lie to one another.\<close>

definition apart :: "py_str \<Rightarrow> py_str \<Rightarrow> bool" where
  "apart p q \<longleftrightarrow> p \<noteq> q \<and> \<not> starts_with (q @ ''.'') p \<and> \<not> starts_with (p @ ''.'') q"

lemma apart_disjoint: "apart p q \<Longrightarrow> inside m p \<Longrightarrow> \<not> inside m q"
  using inside_comparable [of m p q] inside_iff [of p q] inside_iff [of q p] by (auto simp: apart_def)

lemma prefixes_lie:
  "\<forall>p \<in> set CONTROL_PLANE_PREFIXES. apart p AGENT_SURFACE"
  "\<forall>q \<in> set SHARED_PREFIXES. apart q AGENT_SURFACE"
  "\<forall>p \<in> set CONTROL_PLANE_PREFIXES. \<forall>q \<in> set SHARED_PREFIXES. p = ''secondsign.onchain.policy'' \<or> apart p q"
  by code_simp+

lemma classify_cases:
  "classify m =
     (if inside m AGENT_SURFACE then Some Agent_surface
      else if \<exists>p \<in> set CONTROL_PLANE_PREFIXES. inside m p then Some Control_plane
      else if m = ''secondsign'' \<or> (\<exists>p \<in> set SHARED_PREFIXES. inside m p) then Some Shared
      else None)"
  by (simp add: classify_def inside_iff module_matches_iff)

lemma control_plane_iff: "is_control_plane m \<longleftrightarrow> (\<exists>p \<in> set CONTROL_PLANE_PREFIXES. inside m p)"
  using prefixes_lie(1) apart_disjoint by (auto simp: is_control_plane_def classify_cases)

section \<open>Properties\<close>

text \<open>The boundary is a fact about packages: exactly the modules of the control-plane packages are
  control plane, none of them is on the agent's surface, and everything below a control-plane module
  is control plane the moment it exists; below a shared module everything is shared, but for the
  on-chain policy.\<close>

theorem classification_by_package:
  "(is_control_plane m \<longleftrightarrow> (\<exists>p \<in> set CONTROL_PLANE_PREFIXES. inside m p))
    \<and> (classify m = Some Agent_surface \<longleftrightarrow> inside m AGENT_SURFACE)
    \<and> (is_control_plane m \<and> inside sub m \<longrightarrow> is_control_plane sub)
    \<and> (classify m = Some Shared \<and> m \<noteq> ''secondsign'' \<and> inside sub m \<longrightarrow>
         (if inside sub ''secondsign.onchain.policy'' then is_control_plane sub else classify sub = Some Shared))"
proof (intro conjI impI)
  assume "is_control_plane m \<and> inside sub m"
  then show "is_control_plane sub" using inside_trans by (auto simp: control_plane_iff)
next
  assume m: "classify m = Some Shared \<and> m \<noteq> ''secondsign'' \<and> inside sub m"
  then obtain q where q: "q \<in> set SHARED_PREFIXES" "inside m q"
    by (auto simp: classify_cases split: if_splits)
  then have sub: "inside sub q" using m inside_trans by blast
  have "\<not> inside sub AGENT_SURFACE"
    using prefixes_lie(2) q(1) sub apart_disjoint by blast
  moreover have "p = ''secondsign.onchain.policy''"
    if "p \<in> set CONTROL_PLANE_PREFIXES" "inside sub p" for p
    using prefixes_lie(3) that q(1) sub apart_disjoint by blast
  moreover have "''secondsign.onchain.policy'' \<in> set CONTROL_PLANE_PREFIXES" by (simp add: CONTROL_PLANE_PREFIXES_def)
  ultimately have "(\<exists>p \<in> set CONTROL_PLANE_PREFIXES. inside sub p) = inside sub ''secondsign.onchain.policy''"
    and agent: "inside sub AGENT_SURFACE = False" by blast+
  moreover have shared: "\<exists>q \<in> set SHARED_PREFIXES. inside sub q" using sub q(1) by blast
  ultimately show "if inside sub ''secondsign.onchain.policy'' then is_control_plane sub else classify sub = Some Shared"
    by (cases "inside sub ''secondsign.onchain.policy''") (simp_all only: control_plane_iff classify_cases if_True if_False simp_thms)
qed (auto simp: control_plane_iff classify_cases split: if_splits)

theorem classification_by_package_witness:
  "is_control_plane ''secondsign.gateway.server'' \<and> is_control_plane ''secondsign.gateway.server.tls''
    \<and> classify ''secondsign.onchain.effect'' = Some Shared \<and> is_control_plane ''secondsign.onchain.policy.bands''"
proof -
  have *: "is_control_plane ''secondsign.gateway.server''" "classify ''secondsign.onchain'' = Some Shared"
    by code_simp+
  have **: "inside ''secondsign.gateway.server.tls'' ''secondsign.gateway.server''"
    "inside ''secondsign.onchain.effect'' ''secondsign.onchain''"
    "inside ''secondsign.onchain.policy.bands'' ''secondsign.onchain''"
    "inside ''secondsign.onchain.policy.bands'' ''secondsign.onchain.policy''"
    "\<not> inside ''secondsign.onchain.effect'' ''secondsign.onchain.policy''"
    unfolding inside_iff [symmetric] by code_simp+
  show ?thesis
    using classification_by_package [of "''secondsign.gateway.server''" "''secondsign.gateway.server.tls''"]
      classification_by_package [of "''secondsign.onchain''" "''secondsign.onchain.effect''"]
      classification_by_package [of "''secondsign.onchain''" "''secondsign.onchain.policy.bands''"] * **
    by simp
qed

end
