(* ===== verification/Panel_World.thy ===== *)
theory Panel_World
  imports Cosigner
begin

text \<open>
  \<open>examples/firewall_panel/world.py\<close> and \<open>scenarios.py\<close>: the simulated account of the panel with the
  ways to break it, and the catalogue of proposals. The account is read through the same
  \<open>chain_reader\<close> the co-signer of theory \<open>Cosigner\<close> takes.
\<close>

section \<open>Addresses\<close>

definition USDC :: int where "USDC = 1000000"

definition addr :: "py_str \<Rightarrow> py_str \<Rightarrow> py_str" where
  "addr front back = ''0x'' @ front @ replicate (40 - length front - length back) (CHR ''0'') @ back"

definition byte_hash :: "py_str \<Rightarrow> py_str" where
  "byte_hash byte = ''0x'' @ concat (replicate 32 byte)"

definition ZERO :: py_str where "ZERO = addr [] []"
definition SAFE :: py_str where "SAFE = addr ''5afe'' ''d0d0''"
definition AGENT :: py_str where "AGENT = addr ''a6e17'' ''a6e17''"
definition SECONDSIGN :: py_str where "SECONDSIGN = addr ''5ec0'' ''5ec0''"
definition GUARD :: py_str where "GUARD = addr ''60a2d'' ''01''"
definition MODULE_GUARD :: py_str where "MODULE_GUARD = addr ''30d01e'' ''9a1d''"
definition TOKEN :: py_str where "TOKEN = addr ''05dc'' ''5dc0''"
definition TOKEN_IMPL :: py_str where "TOKEN_IMPL = addr ''13901'' ''11''"
definition CLOUDFLARE :: py_str where "CLOUDFLARE = addr ''c10cf'' ''c101''"
definition NEW_VENDOR :: py_str where "NEW_VENDOR = addr ''dee0'' ''beef''"
definition ATTACKER :: py_str where "ATTACKER = addr ''a77ac'' ''dead''"
definition GENUINE_CODE_HASH :: py_str where "GENUINE_CODE_HASH = byte_hash ''11''"
definition COUNTERFEIT_CODE_HASH :: py_str where "COUNTERFEIT_CODE_HASH = byte_hash ''ba''"
definition COUNTERFEIT_IMPL :: py_str where "COUNTERFEIT_IMPL = addr ''bad1'' ''bad1''"
definition INTRUDER :: py_str where "INTRUDER = addr ''17ce'' ''e12a''"

lemmas panel_addresses = ZERO_def SAFE_def AGENT_def SECONDSIGN_def GUARD_def MODULE_GUARD_def TOKEN_def
  TOKEN_IMPL_def CLOUDFLARE_def NEW_VENDOR_def ATTACKER_def COUNTERFEIT_IMPL_def INTRUDER_def

section \<open>The account\<close>

datatype tamper =
    Remove_guard
  | Swap_owner
  | Lower_threshold
  | Counterfeit_token
  | Wrong_chain
  | Unwire_reader

record world =
  wd_expected :: expected_safe_config
  wd_live :: safe_chain_state
  wd_token :: token_identity
  wd_balance :: int
  wd_applied :: "tamper list"
  wd_reader_wired :: bool

definition genuine_token :: token_identity where
  "genuine_token = \<lparr>ti_implementation = TOKEN_IMPL, ti_code_hash = GENUINE_CODE_HASH\<rparr>"

definition pristine :: world where
  "pristine =
     \<lparr>wd_expected =
        \<lparr>xc_chain_id = 8453, xc_safe_version = ''1.5.0'', xc_owners = {lower AGENT, lower SECONDSIGN},
         xc_threshold = 2, xc_transaction_guard = GUARD, xc_module_guard = MODULE_GUARD, xc_token = TOKEN,
         xc_token_identity = genuine_token\<rparr>,
      wd_live =
        \<lparr>ss_nonce = 7, ss_owners = [AGENT, SECONDSIGN], ss_threshold = 2, ss_transaction_guard = GUARD,
         ss_module_guard = MODULE_GUARD, ss_chain_id = 8453, ss_safe_version = ''1.5.0''\<rparr>,
      wd_token = genuine_token, wd_balance = 100 * USDC, wd_applied = [], wd_reader_wired = True\<rparr>"

text \<open>\<open>StaticChainStateReader\<close>, with the tokens it knows.\<close>

definition static_reader :: "safe_chain_state \<Rightarrow> (py_str \<times> token_identity) list \<Rightarrow> chain_reader" where
  "static_reader state tokens =
     \<lparr>rd_safe = (\<lambda>_. Some state),
      rd_token = (\<lambda>address. map_of (rev (map (\<lambda>(a, identity). (lower a, identity)) tokens)) (lower address))\<rparr>"

definition world_reader :: "world \<Rightarrow> chain_reader option" where
  "world_reader w =
     (if wd_reader_wired w then Some (static_reader (wd_live w) [(TOKEN, wd_token w)]) else None)"

text \<open>\<open>_live_with\<close>: the state is validated again.\<close>

definition live_with :: "world \<Rightarrow> (safe_chain_state \<Rightarrow> safe_chain_state) \<Rightarrow> py_error + world" where
  "live_with w change =
     (if safe_chain_state_ok (change (wd_live w)) then Inr (w\<lparr>wd_live := change (wd_live w)\<rparr>)
      else Inl Validation_Error)"

fun tampered :: "tamper \<Rightarrow> world \<Rightarrow> py_error + world" where
  "tampered Remove_guard w = live_with w (ss_transaction_guard_update (\<lambda>_. ZERO))"
| "tampered Swap_owner w = live_with w (ss_owners_update (\<lambda>_. [INTRUDER, SECONDSIGN]))"
| "tampered Lower_threshold w = live_with w (ss_threshold_update (\<lambda>_. 1))"
| "tampered Counterfeit_token w =
     Inr (w\<lparr>wd_token := \<lparr>ti_implementation = COUNTERFEIT_IMPL, ti_code_hash = COUNTERFEIT_CODE_HASH\<rparr>\<rparr>)"
| "tampered Wrong_chain w = live_with w (ss_chain_id_update (\<lambda>_. 1))"
| "tampered Unwire_reader w = Inr (w\<lparr>wd_reader_wired := False\<rparr>)"

definition world_tamper :: "tamper \<Rightarrow> world \<Rightarrow> py_error + world" where
  "world_tamper what w =
     (if what \<in> set (wd_applied w) then Inr w
      else map_sum id (\<lambda>w'. w'\<lparr>wd_applied := wd_applied w' @ [what]\<rparr>) (tampered what w))"

definition world_repair :: "world \<Rightarrow> world" where
  "world_repair w =
     w\<lparr>wd_live := wd_live pristine, wd_token := wd_token pristine, wd_applied := [], wd_reader_wired := True\<rparr>"

section \<open>The proposals\<close>

definition TRANSFER_SELECTOR :: py_str where "TRANSFER_SELECTOR = ''a9059cbb''"
definition APPROVE_SELECTOR :: py_str where "APPROVE_SELECTOR = ''095ea7b3''"

definition UNPINNED_TOKEN :: py_str where "UNPINNED_TOKEN = addr ''de1f1'' ''f00d''"

definition MAX_UINT256 :: nat where "MAX_UINT256 = 2 ^ 256 - 1"

text \<open>\<open>f"{value:064x}"\<close> of a value below \<open>2 ^ 256\<close>.\<close>

definition word_hex :: "nat \<Rightarrow> py_str" where
  "word_hex n = hex_pad 64 n"

definition address_word :: "py_str \<Rightarrow> py_str" where
  "address_word address = word_hex (hex_number (remove_0x address))"

definition erc20_transfer :: "py_str \<Rightarrow> nat \<Rightarrow> py_str" where
  "erc20_transfer to amount = ''0x'' @ TRANSFER_SELECTOR @ address_word to @ word_hex amount"

definition erc20_approve :: "py_str \<Rightarrow> nat \<Rightarrow> py_str" where
  "erc20_approve spender amount = ''0x'' @ APPROVE_SELECTOR @ address_word spender @ word_hex amount"

definition SET_GUARD :: py_str where
  "SET_GUARD = ''0x'' @ ''e19a9dd9'' @ address_word (''0x'' @ replicate 40 (CHR ''0''))"

text \<open>A preset with the status its label promises and the reason, if it promises one. The title and
  the detail, which are only shown, are left out.\<close>

record scenario =
  sn_key :: py_str
  sn_call :: safe_call
  sn_claims :: cosign_status
  sn_reason :: "onchain_reason option"

definition call_of :: "py_str \<Rightarrow> py_str \<Rightarrow> int \<Rightarrow> bool \<Rightarrow> safe_call" where
  "call_of to data native delegate =
     \<lparr>sc_to = to, sc_value = native, sc_data = data,
      sc_operation = (if delegate then Op_delegatecall else Op_call)\<rparr>"

definition preset :: "py_str \<Rightarrow> safe_call \<Rightarrow> cosign_status \<Rightarrow> onchain_reason option \<Rightarrow> scenario" where
  "preset key call claims reason = \<lparr>sn_key = key, sn_call = call, sn_claims = claims, sn_reason = reason\<rparr>"

definition CATALOGUE :: "scenario list" where
  "CATALOGUE =
     [preset ''small_transfer'' (call_of TOKEN (erc20_transfer CLOUDFLARE 2000000) 0 False) Signed None,
      preset ''review_transfer'' (call_of TOKEN (erc20_transfer NEW_VENDOR 20000000) 0 False)
        Held (Some Unbounded_approval),
      preset ''over_cap_transfer'' (call_of TOKEN (erc20_transfer NEW_VENDOR 900000000) 0 False)
        Cosign_refused (Some Unbounded_approval),
      preset ''unlimited_approval'' (call_of TOKEN (erc20_approve ATTACKER MAX_UINT256) 0 False)
        Cosign_refused (Some Unbounded_approval),
      preset ''bounded_approval'' (call_of TOKEN (erc20_approve ATTACKER 1000000) 0 False)
        Cosign_refused (Some Counterparty_not_allowlisted),
      preset ''unpinned_token'' (call_of UNPINNED_TOKEN (erc20_transfer CLOUDFLARE 1000000) 0 False)
        Cosign_refused (Some Token_not_allowlisted),
      preset ''remove_secondsign'' (call_of SAFE SET_GUARD 0 False) Cosign_refused (Some Structural_change),
      preset ''delegatecall'' (call_of CLOUDFLARE ''0x'' 0 True) Cosign_refused (Some Delegatecall),
      preset ''native_value_rider'' (call_of TOKEN (erc20_transfer CLOUDFLARE 1000000) (10 ^ 18) False)
        Cosign_refused (Some Effect_outside_model),
      preset ''unknown_call'' (call_of CLOUDFLARE ''0xdeadbeef'' 0 False) Cosign_refused (Some Unknown_selector)]"

section \<open>What a broken account reads as\<close>

lemma addr_simps:
  "length front + length back \<le> 40 \<Longrightarrow> length (addr front back) = 42" "take 2 (addr front back) = ''0x''"
  "drop 2 (addr front back) = front @ replicate (40 - length front - length back) (CHR ''0'') @ back"
  by (simp_all add: addr_def)

lemma panel_addresses_ok:
  "is_address ZERO" "is_address SAFE" "is_address GUARD" "is_address MODULE_GUARD" "is_address TOKEN"
  "is_address CLOUDFLARE" "is_address NEW_VENDOR" "is_address ATTACKER" "is_address UNPINNED_TOKEN"
  by (simp_all add: panel_addresses UNPINNED_TOKEN_def is_address_def addr_simps is_any_hex_def)

lemma lower_addresses:
  "lower ZERO = ZERO" "lower SAFE = SAFE" "lower AGENT = AGENT" "lower SECONDSIGN = SECONDSIGN" "lower GUARD = GUARD"
  "lower MODULE_GUARD = MODULE_GUARD" "lower TOKEN = TOKEN" "lower INTRUDER = INTRUDER" "lower TOKEN_IMPL = TOKEN_IMPL"
  "lower COUNTERFEIT_IMPL = COUNTERFEIT_IMPL" "lower CLOUDFLARE = CLOUDFLARE" "lower UNPINNED_TOKEN = UNPINNED_TOKEN"
  by code_simp+

lemma distinct_addresses:
  "distinct [ZERO, SAFE, AGENT, SECONDSIGN, GUARD, MODULE_GUARD, TOKEN, INTRUDER, TOKEN_IMPL, COUNTERFEIT_IMPL,
     CLOUDFLARE, UNPINNED_TOKEN]"
  by code_simp

text \<open>The live state after a set of tampers, in whatever order, and the drift it is read with.\<close>

definition live_after :: "tamper set \<Rightarrow> safe_chain_state" where
  "live_after T =
     \<lparr>ss_nonce = 7, ss_owners = [if Swap_owner \<in> T then INTRUDER else AGENT, SECONDSIGN],
      ss_threshold = (if Lower_threshold \<in> T then 1 else 2),
      ss_transaction_guard = (if Remove_guard \<in> T then ZERO else GUARD), ss_module_guard = MODULE_GUARD,
      ss_chain_id = (if Wrong_chain \<in> T then 1 else 8453), ss_safe_version = ''1.5.0''\<rparr>"

definition token_after :: "tamper set \<Rightarrow> token_identity" where
  "token_after T =
     (if Counterfeit_token \<in> T
      then \<lparr>ti_implementation = COUNTERFEIT_IMPL, ti_code_hash = COUNTERFEIT_CODE_HASH\<rparr> else genuine_token)"

definition drift_after :: "tamper set \<Rightarrow> onchain_reason list" where
  "drift_after T =
     (if Wrong_chain \<in> T then [Replayed_signature] else [])
     @ (if T \<inter> {Remove_guard, Swap_owner, Lower_threshold} \<noteq> {} then [Structural_change] else [])
     @ (if Counterfeit_token \<in> T then [Implementation_moved] else [])"

lemma mismatches_after: "mismatches (wd_expected pristine) (live_after T) (token_after T) = drift_after T"
proof -
  have "structure_changed (wd_expected pristine) (live_after T) \<longleftrightarrow> T \<inter> {Remove_guard, Swap_owner, Lower_threshold} \<noteq> {}"
    using distinct_addresses
    by (auto simp: structure_changed_def pristine_def live_after_def same_address_def lower_addresses)
  moreover have "token_matches (xc_token_identity (wd_expected pristine)) (token_after T) \<longleftrightarrow> Counterfeit_token \<notin> T"
    using distinct_addresses
    by (auto simp: token_matches_def pristine_def token_after_def genuine_token_def same_address_def lower_addresses)
  ultimately show ?thesis
    by (simp add: mismatches_def drift_after_def) (simp add: pristine_def live_after_def fromkeys_def)
qed

definition world_ok :: "world \<Rightarrow> bool" where
  "world_ok w \<longleftrightarrow>
     wd_expected w = wd_expected pristine \<and> wd_live w = live_after (set (wd_applied w))
     \<and> wd_token w = token_after (set (wd_applied w)) \<and> wd_reader_wired w = (Unwire_reader \<notin> set (wd_applied w))"

lemma world_ok_pristine: "world_ok pristine"
  by (simp add: world_ok_def pristine_def live_after_def token_after_def)

lemma world_ok_repair: "world_ok w \<Longrightarrow> world_ok (world_repair w)"
  using world_ok_pristine by (simp add: world_ok_def world_repair_def pristine_def)

lemma live_after_ok: "safe_chain_state_ok (live_after T)"
  using panel_addresses_ok by (simp add: safe_chain_state_ok_def live_after_def)

text \<open>The re-validation of a broken state never fails.\<close>

lemma world_ok_tamper:
  assumes "world_ok w"
  obtains w' where "world_tamper what w = Inr w'" "world_ok w'" "set (wd_applied w') = insert what (set (wd_applied w))"
proof (cases "what \<in> set (wd_applied w)")
  case True
  with assms that [of w] show thesis by (simp add: world_tamper_def insert_absorb)
next
  case False
  let ?T = "set (wd_applied w)"
  have "\<exists>w'. tampered what w = Inr w' \<and> wd_expected w' = wd_expected w \<and> wd_live w' = live_after (insert what ?T)
      \<and> wd_token w' = token_after (insert what ?T) \<and> wd_applied w' = wd_applied w
      \<and> wd_reader_wired w' = (Unwire_reader \<notin> insert what ?T)"
    using assms live_after_ok [of "insert what ?T"] False
    by (cases what) (auto simp: world_ok_def live_with_def live_after_def token_after_def)
  then obtain w' where w': "tampered what w = Inr w'" "wd_expected w' = wd_expected w"
      "wd_live w' = live_after (insert what ?T)" "wd_token w' = token_after (insert what ?T)"
      "wd_applied w' = wd_applied w" "wd_reader_wired w' = (Unwire_reader \<notin> insert what ?T)"
    by blast
  let ?w = "w'\<lparr>wd_applied := wd_applied w' @ [what]\<rparr>"
  have "set (wd_applied ?w) = insert what ?T" using w'(5) by auto
  moreover have "world_ok ?w" using w' assms by (auto simp: world_ok_def)
  ultimately show thesis using that [of ?w] False w'(1) by (simp add: world_tamper_def)
qed

section \<open>What the proposals decode to\<close>

definition lower_hex :: "char \<Rightarrow> bool" where
  "lower_hex c \<longleftrightarrow> is_any_hex c \<and> lower_char c = c"

lemma hex_char_digit: "lower_hex c \<Longrightarrow> hex_char (hex_digit c) = c \<and> hex_digit c < 16"
  by (cases "(of_char c :: nat) \<le> 57"; cases "(of_char c :: nat) \<le> 70")
    (auto simp: lower_hex_def is_any_hex_def lower_char_def hex_char_def hex_digit_def Let_def add.commute
        split: if_splits)

lemma hex_pad_replicate: "hex_pad k 0 = replicate k (CHR ''0'')"
proof (induction k)
  case (Suc k)
  have "hex_char 0 = CHR ''0''" by code_simp
  with Suc replicate_append_same [of k "CHR ''0''"] show ?case by simp
qed simp

lemma hex_pad_hex_number:
  "\<forall>c \<in> set s. lower_hex c \<Longrightarrow> hex_pad (k + length s) (hex_number s) = replicate k (CHR ''0'') @ s"
proof (induction s rule: rev_induct)
  case (snoc c s)
  with hex_char_digit [of c] show ?case by (simp add: hex_number_def)
qed (simp add: hex_number_def hex_pad_replicate)

lemma address_word_padded:
  assumes "length front + length back \<le> 40" "\<forall>c \<in> set (front @ back). lower_hex c"
  shows "address_word (addr front back) = replicate 24 (CHR ''0'') @ drop 2 (addr front back)"
proof -
  let ?body = "drop 2 (addr front back)"
  have "length ?body = 40" using assms(1) by (simp add: addr_simps)
  moreover have "lower_hex (CHR ''0'')" by (simp add: lower_hex_def is_any_hex_def lower_char_def)
  with assms(2) have "\<forall>c \<in> set ?body. lower_hex c" by (auto simp: addr_simps)
  ultimately have "hex_pad 64 (hex_number ?body) = replicate 24 (CHR ''0'') @ ?body"
    using hex_pad_hex_number [of ?body 24] by simp
  moreover have "remove_0x (addr front back) = ?body" by (simp add: remove_0x_def addr_simps)
  ultimately show ?thesis by (simp only: address_word_def word_hex_def)
qed

lemma panel_address_words:
  "a \<in> {CLOUDFLARE, NEW_VENDOR, ATTACKER} \<Longrightarrow> address_word a = replicate 24 (CHR ''0'') @ drop 2 a"
  by (auto simp: CLOUDFLARE_def NEW_VENDOR_def ATTACKER_def lower_hex_def is_any_hex_def lower_char_def
      intro!: address_word_padded)

lemma panel_calldata:
  assumes "a \<in> {CLOUDFLARE, NEW_VENDOR, ATTACKER}"
  shows "erc20_transfer a n = token_calldata TRANSFER a n" "erc20_approve a n = token_calldata APPROVE a n"
  using panel_address_words [OF assms]
  by (simp_all add: erc20_transfer_def erc20_approve_def token_calldata_def TRANSFER_def APPROVE_def
      TRANSFER_SELECTOR_def APPROVE_SELECTOR_def word_hex_def)

lemma decode_panel_call:
  assumes "a \<in> {CLOUDFLARE, NEW_VENDOR, ATTACKER}" "n < 2 ^ 256" "to \<in> {TOKEN, UNPINNED_TOKEN}"
  shows "decode_effect SAFE (call_of to (erc20_transfer a n) v False) =
      \<lparr>oe_kind = Erc20_transfer, oe_target = to, oe_native_value = v, oe_counterparty = Some a,
       oe_amount = Some (int n), oe_selector = Some TRANSFER\<rparr>"
    "decode_effect SAFE (call_of to (erc20_approve a n) v False) =
      \<lparr>oe_kind = Erc20_approval, oe_target = to, oe_native_value = v, oe_counterparty = Some a,
       oe_amount = Some (int n), oe_selector = Some APPROVE\<rparr>"
proof -
  have "is_address a" using assms(1) panel_addresses_ok by auto
  note read = decode_token_calldata [OF this assms(2)]
  have len: "length TRANSFER = 10" "length APPROVE = 10" by (simp_all add: TRANSFER_def APPROVE_def)
  have "lower to \<noteq> lower SAFE" using assms(3) distinct_addresses by (auto simp: lower_addresses)
  then show "decode_effect SAFE (call_of to (erc20_transfer a n) v False) =
      \<lparr>oe_kind = Erc20_transfer, oe_target = to, oe_native_value = v, oe_counterparty = Some a,
       oe_amount = Some (int n), oe_selector = Some TRANSFER\<rparr>"
    "decode_effect SAFE (call_of to (erc20_approve a n) v False) =
      \<lparr>oe_kind = Erc20_approval, oe_target = to, oe_native_value = v, oe_counterparty = Some a,
       oe_amount = Some (int n), oe_selector = Some APPROVE\<rparr>"
    using read [OF len(1)] read [OF len(2)]
    by (simp_all add: decode_effect_def call_of_def panel_calldata [OF assms(1)] Let_def)
      (simp_all add: TRANSFER_def APPROVE_def)
qed

text \<open>What a status says of the judgement behind it.\<close>

fun judged_status :: "onchain_verdict \<Rightarrow> cosign_status" where
  "judged_status On_abstain = Signed"
| "judged_status On_review = Held"
| "judged_status On_deny = Cosign_refused"

definition claims_met :: "scenario \<Rightarrow> py_error + onchain_judgement \<Rightarrow> bool" where
  "claims_met s judged \<longleftrightarrow>
     (\<exists>j. judged = Inr j \<and> judged_status (oj_verdict j) = sn_claims s
        \<and> map of_code (oj_findings j) = (case sn_reason s of None \<Rightarrow> [] | Some reason \<Rightarrow> [reason])
        \<and> (\<forall>f \<in> set (oj_findings j). detail_ok (of_observed f) \<and> detail_ok (of_limit f)))"

lemma claims_met_judge:
  assumes "pred_option ((\<le>) 0) obs" and "pred_option ((\<le>) 0) lim"
  shows "claims_met s (onchain_judge v code obs lim) \<longleftrightarrow> judged_status v = sn_claims s \<and> sn_reason s = Some code"
proof -
  have nonneg: "\<And>n. obs = Some n \<Longrightarrow> 0 \<le> n" "\<And>n. lim = Some n \<Longrightarrow> 0 \<le> n" using assms by auto
  then show ?thesis
    using onchain_judge_eq [OF nonneg, where v = v and code = code] detail_ok_bounded [of obs] detail_ok_bounded [of lim]
    by (auto simp: claims_met_def split: option.splits)
qed

lemma claims_met_abstain: "claims_met s (Inr on_abstain) \<longleftrightarrow> sn_claims s = Signed \<and> sn_reason s = None"
  by (auto simp: claims_met_def on_abstain_def split: option.splits)

lemma catalogue_judged:
  "\<forall>s \<in> set CATALOGUE.
     claims_met s (onchain_evaluate (decode_effect SAFE (sn_call s)) (50 * USDC) (Some (5 * USDC)) {} {TOKEN})"
proof -
  have admin: "decode_effect SAFE (call_of SAFE data v False) =
      \<lparr>oe_kind = Self_administration, oe_target = SAFE, oe_native_value = v, oe_counterparty = None,
       oe_amount = None, oe_selector = selector_of data\<rparr>"
    and delegate: "decode_effect SAFE (call_of to data v True) =
      \<lparr>oe_kind = Delegated, oe_target = to, oe_native_value = v, oe_counterparty = None,
       oe_amount = None, oe_selector = selector_of data\<rparr>" for to data v
    by (simp_all add: decode_effect_def call_of_def)
  have unknown: "decode_effect SAFE (call_of CLOUDFLARE ''0xdeadbeef'' 0 False) =
      \<lparr>oe_kind = Unrecognised, oe_target = CLOUDFLARE, oe_native_value = 0, oe_counterparty = None,
       oe_amount = None, oe_selector = Some ''0xdeadbeef''\<rparr>"
    using distinct_addresses
    by (auto simp: decode_effect_def call_of_def lower_addresses selector_of_def APPROVE_def TRANSFER_def)
  have pinned: "UNPINNED_TOKEN \<noteq> TOKEN" using distinct_addresses by auto
  show ?thesis
    using pinned
    by (simp add: CATALOGUE_def preset_def admin delegate unknown decode_panel_call onchain_evaluate_def
        judge_amount_def claims_met_judge claims_met_abstain lower_addresses USDC_def MAX_UINT256_def)
qed

end
