(* ===== verification/Panel.thy ===== *)
theory Panel
  imports Panel_World
begin

text \<open>
  \<open>examples/firewall_panel/trace.py\<close> and \<open>session.py\<close>: the stations a judgement is shown as, and the
  session with its account, its knobs and a co-signer over both. The trace is computed beside the
  co-signer and not by it; that the two agree is a theorem here. Titles, summaries and rows, which
  are only shown, are left out of a station.
\<close>

section \<open>The trace\<close>

fun onchain_reason_value :: "onchain_reason \<Rightarrow> py_str" where
  "onchain_reason_value Unbounded_approval = ''unbounded_approval''"
| "onchain_reason_value Counterparty_not_allowlisted = ''counterparty_not_allowlisted''"
| "onchain_reason_value Token_not_allowlisted = ''token_not_allowlisted''"
| "onchain_reason_value Unrecognised_authorisation = ''unrecognised_authorisation''"
| "onchain_reason_value Structural_change = ''structural_change''"
| "onchain_reason_value Delegatecall = ''delegatecall''"
| "onchain_reason_value Implementation_moved = ''implementation_moved''"
| "onchain_reason_value Unknown_selector = ''unknown_selector''"
| "onchain_reason_value Effect_outside_model = ''effect_outside_model''"
| "onchain_reason_value Unbounded_slippage = ''unbounded_slippage''"
| "onchain_reason_value Replayed_signature = ''replayed_signature''"
| "onchain_reason_value Calldata_diverged = ''calldata_diverged''"

fun cosign_status_value :: "cosign_status \<Rightarrow> py_str" where
  "cosign_status_value Signed = ''signed''"
| "cosign_status_value Held = ''held''"
| "cosign_status_value Cosign_refused = ''refused''"

lemma cosign_status_value_inj [simp]: "cosign_status_value a = cosign_status_value b \<longleftrightarrow> a = b"
  by (cases a; cases b) simp_all

datatype station_state = St_pass | St_refuse | St_hold | St_skipped | St_inert

datatype provenance = Observed | From_cosigner

record station =
  st_key :: py_str
  st_state :: station_state
  st_provenance :: provenance

record trace =
  tr_stations :: "station list"
  tr_implied :: py_str
  tr_findings :: "py_str list"

definition station_of :: "py_str \<Rightarrow> station_state \<Rightarrow> provenance \<Rightarrow> station" where
  "station_of key state provenance = \<lparr>st_key = key, st_state = state, st_provenance = provenance\<rparr>"

definition reverify_station ::
  "py_str \<Rightarrow> chain_reader option \<Rightarrow> expected_safe_config option \<Rightarrow> py_error + station \<times> py_str list" where
  "reverify_station safe_address reader expected =
     (case (reader, expected) of
        (Some rd, Some x) \<Rightarrow>
          (case rd_safe rd safe_address of
             None \<Rightarrow> Inl External_Error
           | Some state \<Rightarrow>
               (case rd_token rd (xc_token x) of
                  None \<Rightarrow> Inl External_Error
                | Some token \<Rightarrow>
                    (let drift = mismatches x state token
                     in Inr (station_of ''reverify'' (if drift \<noteq> [] then St_refuse else St_pass) Observed,
                             map onchain_reason_value drift))))
      | _ \<Rightarrow> Inr (station_of ''reverify'' St_refuse Observed, []))"

text \<open>\<open>_finish\<close>.\<close>

definition finish_trace ::
  "station list \<Rightarrow> py_str \<Rightarrow> cosign_outcome \<Rightarrow> nat \<Rightarrow> py_str list \<Rightarrow> trace" where
  "finish_trace stations implied outcome skip_from findings =
     (let skipped = (if skip_from \<le> 3
                     then map (\<lambda>key. station_of key St_skipped Observed) [''decode'', ''policy'', ''boundary'']
                     else []);
          review = station_of ''review'' (if cs_status outcome = Held then St_hold else St_skipped) From_cosigner
      in \<lparr>tr_stations = stations @ skipped @
            [review, station_of ''audit'' St_pass From_cosigner, station_of ''guard'' St_inert Observed],
          tr_implied = implied, tr_findings = findings\<rparr>)"

fun policy_state :: "onchain_verdict \<Rightarrow> station_state" where
  "policy_state On_abstain = St_pass"
| "policy_state On_review = St_hold"
| "policy_state On_deny = St_refuse"

definition observe ::
  "safe_call \<Rightarrow> cosign_outcome \<Rightarrow> py_str \<Rightarrow> chain_reader option \<Rightarrow> expected_safe_config option \<Rightarrow> int \<Rightarrow> int option
     \<Rightarrow> py_str set \<Rightarrow> py_str set \<Rightarrow> py_error + trace" where
  "observe call outcome safe_address reader expected approval_cap review_above spender_allowlist tokens =
     (case reverify_station safe_address reader expected of
        Inl e \<Rightarrow> Inl e
      | Inr (first, drift) \<Rightarrow>
          if st_state first = St_refuse \<or> reader = None \<or> expected = None
          then Inr (finish_trace [first] (cosign_status_value Cosign_refused) outcome 1 drift)
          else
            (case onchain_evaluate (decode_effect safe_address call) approval_cap review_above spender_allowlist
                    tokens of
               Inl e \<Rightarrow> Inl e
             | Inr judgement \<Rightarrow>
                 (let verdict = oj_verdict judgement;
                      state = policy_state verdict;
                      implied = cosign_status_value (if verdict = On_abstain then Signed
                        else if verdict = On_review then Held else Cosign_refused)
                  in Inr (finish_trace
                       [first, station_of ''decode'' St_pass Observed, station_of ''policy'' state Observed,
                        station_of ''boundary'' state From_cosigner]
                       implied outcome 4 (map (\<lambda>f. onchain_reason_value (of_code f)) (oj_findings judgement))))))"

definition observe_resolution ::
  "cosign_outcome \<Rightarrow> py_str \<Rightarrow> chain_reader option \<Rightarrow> expected_safe_config option \<Rightarrow> py_error + trace" where
  "observe_resolution outcome safe_address reader expected =
     (case reverify_station safe_address reader expected of
        Inl e \<Rightarrow> Inl e
      | Inr (first, drift) \<Rightarrow>
          Inr \<lparr>tr_stations =
                 [first, station_of ''review'' (if cs_status outcome = Signed then St_pass else St_refuse) From_cosigner,
                  station_of ''audit'' St_pass From_cosigner],
               tr_implied = cosign_status_value (cs_status outcome), tr_findings = drift\<rparr>)"

section \<open>The session\<close>

record knobs =
  kn_approval_cap :: int
  kn_review_above :: "int option"
  kn_spenders :: "py_str set"

definition default_knobs :: knobs where
  "default_knobs = \<lparr>kn_approval_cap = 50 * USDC, kn_review_above = Some (5 * USDC), kn_spenders = {}\<rparr>"

text \<open>The hashing and encoding library, and \<open>LocalSigner\<close> with the panel's key.\<close>

record panel_setup =
  pn_library :: onchain_library
  pn_signer :: "bytes \<Rightarrow> py_str option"

text \<open>\<open>se_config\<close> and \<open>se_wired\<close> are what the present co-signer was built with.\<close>

record session =
  se_world :: world
  se_knobs :: knobs
  se_config :: "memory_sink cosigner_config"
  se_wired :: bool
  se_cosigner :: "memory_sink cosigner"

definition panel_config :: "panel_setup \<Rightarrow> world \<Rightarrow> knobs \<Rightarrow> memory_sink cosigner_config" where
  "panel_config pn w knobs =
     \<lparr>cc_library = pn_library pn, cc_signer = pn_signer pn,
      cc_context = \<lparr>sx_safe_address = SAFE, sx_chain_id = xc_chain_id (wd_expected w)\<rparr>,
      cc_approval_cap = kn_approval_cap knobs, cc_expected = Some (wd_expected w),
      cc_review_above = kn_review_above knobs, cc_spenders = kn_spenders knobs,
      cc_review_ttl = COSIGN_REVIEW_TTL, cc_sink = memory_sink_ops\<rparr>"

text \<open>\<open>_build\<close> and \<open>_rebuild\<close>: a new co-signer with no reviews, over the sink there is.\<close>

definition session_build :: "panel_setup \<Rightarrow> world \<Rightarrow> knobs \<Rightarrow> memory_sink \<Rightarrow> py_error + session" where
  "session_build pn w knobs sink =
     map_sum id
       (\<lambda>co. \<lparr>se_world = w, se_knobs = knobs, se_config = panel_config pn w knobs,
              se_wired = wd_reader_wired w, se_cosigner = co\<rparr>)
       (mk_cosigner (panel_config pn w knobs) sink)"

definition session_rebuild :: "panel_setup \<Rightarrow> session \<Rightarrow> py_error option \<times> session" where
  "session_rebuild pn s =
     (case session_build pn (se_world s) (se_knobs s) (co_sink (se_cosigner s)) of
        Inl e \<Rightarrow> (Some e, s)
      | Inr s' \<Rightarrow> (None, s'))"

definition session_init :: "panel_setup \<Rightarrow> py_error + session" where
  "session_init pn = session_build pn pristine default_knobs []"

text \<open>\<open>_LiveReader\<close>: the world at the time of the call.\<close>

definition live_reader :: "world \<Rightarrow> chain_reader" where
  "live_reader w =
     \<lparr>rd_safe = (\<lambda>_. Some (wd_live w)),
      rd_token = (\<lambda>address. if lower address \<noteq> lower TOKEN then None else Some (wd_token w))\<rparr>"

definition cosigner_reader :: "session \<Rightarrow> chain_reader option" where
  "cosigner_reader s = (if se_wired s then Some (live_reader (se_world s)) else None)"

definition trace_expected :: "session \<Rightarrow> expected_safe_config option" where
  "trace_expected s = (if world_reader (se_world s) = None then None else Some (wd_expected (se_world s)))"

definition session_propose ::
  "session \<Rightarrow> safe_call \<Rightarrow> py_str \<Rightarrow> datetime \<Rightarrow> (py_error + cosign_outcome \<times> trace) \<times> session" where
  "session_propose s call proposer now =
     (case cosign (se_config s) (se_cosigner s) (cosigner_reader s) call proposer now of
        (Inl e, co) \<Rightarrow> (Inl e, s\<lparr>se_cosigner := co\<rparr>)
      | (Inr outcome, co) \<Rightarrow>
          (map_sum id (Pair outcome)
             (observe call outcome SAFE (world_reader (se_world s)) (trace_expected s)
                (kn_approval_cap (se_knobs s)) (kn_review_above (se_knobs s)) (kn_spenders (se_knobs s)) {TOKEN}),
           s\<lparr>se_cosigner := co\<rparr>))"

text \<open>The models of the checker and of the digest are built first.\<close>

definition session_resolve ::
  "session \<Rightarrow> py_str \<Rightarrow> py_str \<Rightarrow> bool \<Rightarrow> datetime \<Rightarrow> (py_error + cosign_outcome \<times> trace) \<times> session" where
  "session_resolve s approval_id checker approved now =
     (if checker = [] then (Inl Validation_Error, s)
      else case mk_proposal_digest approval_id of
          Inl e \<Rightarrow> (Inl e, s)
        | Inr proposal \<Rightarrow>
            (case cosign_resolve (se_config s) (se_cosigner s) (cosigner_reader s) approval_id
                    \<lparr>cv_checker = Checker checker, cv_approval_id = approval_id, cv_proposal = proposal,
                     cv_approved = approved\<rparr> now of
               (Inl e, co) \<Rightarrow> (Inl e, s\<lparr>se_cosigner := co\<rparr>)
             | (Inr outcome, co) \<Rightarrow>
                 (map_sum id (Pair outcome)
                    (observe_resolution outcome SAFE (world_reader (se_world s)) (trace_expected s)),
                  s\<lparr>se_cosigner := co\<rparr>)))"

definition session_tamper :: "panel_setup \<Rightarrow> session \<Rightarrow> tamper \<Rightarrow> py_error option \<times> session" where
  "session_tamper pn s what =
     (case world_tamper what (se_world s) of
        Inl e \<Rightarrow> (Some e, s)
      | Inr w \<Rightarrow>
          if what = Unwire_reader then session_rebuild pn (s\<lparr>se_world := w\<rparr>)
          else (None, s\<lparr>se_world := w\<rparr>))"

definition session_repair :: "panel_setup \<Rightarrow> session \<Rightarrow> py_error option \<times> session" where
  "session_repair pn s =
     (let s' = s\<lparr>se_world := world_repair (se_world s)\<rparr>
      in if \<not> wd_reader_wired (se_world s) then session_rebuild pn s' else (None, s'))"

text \<open>A threshold of zero and an empty spender count as none.\<close>

definition reconfigured :: "int option \<Rightarrow> int option \<Rightarrow> py_str option \<Rightarrow> py_str option \<Rightarrow> knobs \<Rightarrow> knobs" where
  "reconfigured approval_cap review_above vouch unvouch knobs =
     (let k1 = (case approval_cap of None \<Rightarrow> knobs | Some n \<Rightarrow> knobs\<lparr>kn_approval_cap := n\<rparr>);
          k2 = (case review_above of None \<Rightarrow> k1 | Some n \<Rightarrow> k1\<lparr>kn_review_above := if n = 0 then None else Some n\<rparr>);
          k3 = (case vouch of None \<Rightarrow> k2 | Some a \<Rightarrow> if a = [] then k2 else k2\<lparr>kn_spenders := kn_spenders k2 \<union> {lower a}\<rparr>)
      in case unvouch of None \<Rightarrow> k3 | Some a \<Rightarrow> if a = [] then k3 else k3\<lparr>kn_spenders := kn_spenders k3 - {lower a}\<rparr>)"

definition session_reconfigure ::
  "panel_setup \<Rightarrow> session \<Rightarrow> int option \<Rightarrow> int option \<Rightarrow> py_str option \<Rightarrow> py_str option \<Rightarrow> py_error option \<times> session" where
  "session_reconfigure pn s approval_cap review_above vouch unvouch =
     session_rebuild pn (s\<lparr>se_knobs := reconfigured approval_cap review_above vouch unvouch (se_knobs s)\<rparr>)"

definition session_reset :: "panel_setup \<Rightarrow> session \<Rightarrow> py_error option \<times> session" where
  "session_reset pn s =
     (case session_build pn pristine default_knobs [] of
        Inl e \<Rightarrow> (Some e, s)
      | Inr s' \<Rightarrow> (None, s'))"

lemma cosigner_reader_same [simp]: "cosigner_reader (s\<lparr>se_cosigner := co\<rparr>) = cosigner_reader s"
  by (simp add: cosigner_reader_def)

section \<open>Runs of a session\<close>

datatype panel_action =
    Propose safe_call py_str datetime
  | Resolve py_str py_str bool datetime
  | Tamper tamper
  | Repair
  | Reconfigure "int option" "int option" "py_str option" "py_str option"
  | Reset

fun panel_act :: "panel_setup \<Rightarrow> session \<Rightarrow> panel_action \<Rightarrow> session" where
  "panel_act pn s (Propose call proposer now) = snd (session_propose s call proposer now)"
| "panel_act pn s (Resolve approval_id checker approved now) = snd (session_resolve s approval_id checker approved now)"
| "panel_act pn s (Tamper what) = snd (session_tamper pn s what)"
| "panel_act pn s Repair = snd (session_repair pn s)"
| "panel_act pn s (Reconfigure cap review vouch unvouch) = snd (session_reconfigure pn s cap review vouch unvouch)"
| "panel_act pn s Reset = snd (session_reset pn s)"

inductive panel_runs :: "panel_setup \<Rightarrow> panel_action list \<Rightarrow> session \<Rightarrow> bool" for pn where
  panel_starts: "session_init pn = Inr s \<Longrightarrow> panel_runs pn [] s"
| panel_goes_on: "panel_runs pn actions s \<Longrightarrow> panel_runs pn (actions @ [a]) (panel_act pn s a)"

text \<open>The tampers in force after some actions.\<close>

fun in_force :: "tamper set \<Rightarrow> panel_action \<Rightarrow> tamper set" where
  "in_force T (Tamper what) = insert what T"
| "in_force T Repair = {}"
| "in_force T Reset = {}"
| "in_force T (Propose call proposer now) = T"
| "in_force T (Resolve approval_id checker approved now) = T"
| "in_force T (Reconfigure cap review vouch unvouch) = T"

definition tampers_of :: "panel_action list \<Rightarrow> tamper set" where
  "tampers_of actions = foldl in_force {} actions"

definition session_ok :: "panel_setup \<Rightarrow> tamper set \<Rightarrow> session \<Rightarrow> bool" where
  "session_ok pn T s \<longleftrightarrow>
     world_ok (se_world s) \<and> set (wd_applied (se_world s)) = T
     \<and> se_config s = panel_config pn (se_world s) (se_knobs s) \<and> se_wired s = (Unwire_reader \<notin> T)"

lemma session_build_ok:
  assumes "world_ok w"
  obtains s where "session_build pn w knobs sink = Inr s" "session_ok pn (set (wd_applied w)) s"
    "se_world s = w" "se_knobs s = knobs" "co_sink (se_cosigner s) = sink" "co_settled (se_cosigner s) = {}"
    "co_pending (se_cosigner s) = []" "co_consumed (se_cosigner s) = {}" "co_signed (se_cosigner s) = []"
proof -
  have "is_address SAFE" by (rule panel_addresses_ok)
  with assms show thesis
    by (intro that) (auto simp: session_build_def mk_cosigner_def panel_config_def session_ok_def world_ok_def
        maker_checker_init_def)
qed

lemma session_rebuild_ok:
  assumes "world_ok (se_world s)"
  shows "session_ok pn (set (wd_applied (se_world s))) (snd (session_rebuild pn s))"
  using session_build_ok [OF assms, of pn "se_knobs s" "co_sink (se_cosigner s)"]
  by (metis session_rebuild_def snd_conv sum.simps(6))

lemma session_ok_act:
  assumes ok: "session_ok pn T s"
  shows "session_ok pn (in_force T a) (panel_act pn s a)"
proof -
  have world: "world_ok (se_world s)" using ok by (simp add: session_ok_def)
  have same: "session_ok pn T (s\<lparr>se_cosigner := co\<rparr>)" for co using ok by (simp add: session_ok_def)
  show ?thesis
  proof (cases a)
    case (Propose call proposer now)
    with ok same show ?thesis by (simp add: session_propose_def split: prod.split sum.split)
  next
    case (Resolve approval_id checker approved now)
    with ok same show ?thesis by (simp add: session_resolve_def split: prod.split sum.split)
  next
    case (Tamper what)
    obtain w where w: "world_tamper what (se_world s) = Inr w" "world_ok w"
      "set (wd_applied w) = insert what (set (wd_applied (se_world s)))" using world by (rule world_ok_tamper)
    have "session_ok pn (insert what T) (s\<lparr>se_world := w\<rparr>)" if "what \<noteq> Unwire_reader"
      using ok w that by (auto simp: session_ok_def panel_config_def world_ok_def)
    with w ok session_rebuild_ok [of "s\<lparr>se_world := w\<rparr>" pn] show ?thesis
      by (auto simp: Tamper session_tamper_def session_ok_def)
  next
    case Repair
    let ?s = "s\<lparr>se_world := world_repair (se_world s)\<rparr>"
    have repaired: "world_ok (se_world ?s)" "wd_applied (se_world ?s) = []"
      using world_ok_repair [OF world] by (simp_all add: world_repair_def)
    have "session_ok pn {} ?s" if "wd_reader_wired (se_world s)"
      using ok repaired that by (auto simp: session_ok_def panel_config_def world_ok_def)
    with repaired session_rebuild_ok [of ?s pn] show ?thesis by (simp add: Repair session_repair_def Let_def)
  next
    case (Reconfigure cap review vouch unvouch)
    with ok session_rebuild_ok [of "s\<lparr>se_knobs := reconfigured cap review vouch unvouch (se_knobs s)\<rparr>" pn] world
    show ?thesis by (simp add: session_reconfigure_def session_ok_def)
  next
    case Reset
    obtain s' where "session_build pn pristine default_knobs [] = Inr s'" "session_ok pn (set (wd_applied pristine)) s'"
      using world_ok_pristine by (rule session_build_ok)
    then show ?thesis by (simp add: Reset session_reset_def) (simp add: pristine_def)
  qed
qed

lemma panel_runs_ok: "panel_runs pn actions s \<Longrightarrow> session_ok pn (tampers_of actions) s"
proof (induction rule: panel_runs.induct)
  case (panel_starts s)
  obtain s' where "session_build pn pristine default_knobs [] = Inr s'" "session_ok pn (set (wd_applied pristine)) s'"
    using world_ok_pristine by (rule session_build_ok)
  with panel_starts show ?case by (simp add: session_init_def tampers_of_def) (simp add: pristine_def)
next
  case (panel_goes_on actions s a)
  with session_ok_act show ?case by (simp add: tampers_of_def)
qed

section \<open>What the co-signer and the trace see\<close>

lemma map_sum_eq_Inr: "map_sum id f x = Inr y \<longleftrightarrow> (\<exists>z. x = Inr z \<and> y = f z)"
  by (cases x) auto

lemma drift_after_Nil: "drift_after T = [] \<longleftrightarrow> T \<subseteq> {Unwire_reader}"
proof -
  have "x \<in> {Unwire_reader} \<longleftrightarrow> x \<notin> {Wrong_chain, Remove_guard, Swap_owner, Lower_threshold, Counterfeit_token}" for x
    by (cases x) simp_all
  then show ?thesis by (auto simp: drift_after_def split: if_splits)
qed

lemma session_sees:
  assumes "session_ok pn T s"
  shows "reverify (se_config s) (cosigner_reader s)
      = Inr (if Unwire_reader \<in> T then None else Some (7, drift_after T))"
    "reverify_station SAFE (world_reader (se_world s)) (trace_expected s)
      = Inr (station_of ''reverify'' (if T = {} then St_pass else St_refuse) Observed,
             if Unwire_reader \<in> T then [] else map onchain_reason_value (drift_after T))"
proof -
  let ?w = "se_world s"
  have w: "wd_expected ?w = wd_expected pristine" "wd_live ?w = live_after T" "wd_token ?w = token_after T"
      "wd_reader_wired ?w \<longleftrightarrow> Unwire_reader \<notin> T"
    and cfg: "se_config s = panel_config pn ?w (se_knobs s)" "se_wired s \<longleftrightarrow> Unwire_reader \<notin> T"
    using assms by (auto simp: session_ok_def world_ok_def)
  have token: "xc_token (wd_expected pristine) = TOKEN" by (simp add: pristine_def)
  have nonce: "ss_nonce (live_after T) = 7" by (simp add: live_after_def)
  show "reverify (se_config s) (cosigner_reader s)
      = Inr (if Unwire_reader \<in> T then None else Some (7, drift_after T))"
    by (simp add: reverify_def cosigner_reader_def cfg panel_config_def live_reader_def w token nonce mismatches_after)
  have "drift_after T = [] \<longleftrightarrow> T = {}" if "Unwire_reader \<notin> T" using that by (auto simp: drift_after_Nil)
  then show "reverify_station SAFE (world_reader ?w) (trace_expected s)
      = Inr (station_of ''reverify'' (if T = {} then St_pass else St_refuse) Observed,
             if Unwire_reader \<in> T then [] else map onchain_reason_value (drift_after T))"
    by (auto simp: reverify_station_def trace_expected_def world_reader_def static_reader_def w token mismatches_after)
qed

lemma record_then_returned: "record_then cfg co h v a out = (Inr outcome, co') \<Longrightarrow> outcome = out"
  by (frule record_then_frame(5)) auto

text \<open>The outcome of the co-signer once there is no drift, whenever it returns.\<close>

lemma cosign_status:
  assumes "cosign cfg co reader call proposer now = (Inr outcome, co')"
    and "reverify cfg reader = Inr (Some (nonce, []))"
  obtains h j where "safe_transaction_hash (cc_library cfg) call (cc_context cfg) nonce = Inr h"
    "cosign_judge cfg call = Inr j"
    "cs_status outcome = (if oj_verdict j = On_review \<and> hex h \<in> co_settled co then Cosign_refused
       else judged_status (oj_verdict j))"
proof -
  obtain h where h: "safe_transaction_hash (cc_library cfg) call (cc_context cfg) nonce = Inr h"
    using assms by (auto simp: cosign_def split: sum.splits)
  obtain j where j: "cosign_judge cfg call = Inr j"
    using assms h by (auto simp: cosign_def split: sum.splits)
  have "cs_status outcome = (if oj_verdict j = On_review \<and> hex h \<in> co_settled co then Cosign_refused
       else judged_status (oj_verdict j))"
  proof (cases "oj_verdict j")
    case On_review
    with assms h j have "cosign_hold cfg co h nonce proposer now j = (Inr outcome, co')" by (simp add: cosign_def)
    with On_review show ?thesis
      by (auto simp: cosign_hold_def refused_with_def Let_def dest!: record_then_returned split: if_splits option.splits sum.splits)
  next
    case On_deny
    with assms h j have "record_then cfg co h On_deny None (refused_with (Some j)) = (Inr outcome, co')"
      by (simp add: cosign_def)
    from record_then_returned [OF this] On_deny show ?thesis by (simp add: refused_with_def)
  next
    case On_abstain
    with assms h j show ?thesis
      by (auto simp: cosign_def dest!: record_then_returned split: sum.splits prod.splits)
  qed
  with h j show thesis by (rule that)
qed

lemma cosign_drifted:
  assumes "cosign cfg co reader call proposer now = (Inr outcome, co')"
    and "reverify cfg reader = Inr v" "v = None \<or> (\<exists>nonce drift. v = Some (nonce, drift) \<and> drift \<noteq> [])"
  shows "cs_status outcome = Cosign_refused"
  using assms
  by (auto simp: cosign_def refused_with_def dest!: record_then_returned split: sum.splits)

lemma cosign_resolve_signed:
  assumes run: "cosign_resolve cfg co reader a verdict now = (Inr outcome, co')" and signed: "cs_status outcome = Signed"
  obtains held where "map_of (co_pending co) a = Some held" "reverify cfg reader = Inr (Some (ho_nonce held, []))"
    "answers_approval verdict (ho_approval held) now"
proof -
  obtain held where held: "map_of (co_pending co) a = Some held"
    using run signed by (auto simp: cosign_resolve_def refused_with_def split: option.splits)
  have verified: "reverify cfg reader = Inr (Some (ho_nonce held, []))"
    using run signed held
    by (auto simp: cosign_resolve_def refused_with_def Let_def dest!: record_then_returned
        split: sum.splits option.splits if_splits)
  with run held have "cosign_consume cfg co a held verdict now = (Inr outcome, co')" by (simp add: cosign_resolve_def)
  then obtain g consumed where "consume (co_consumed co) (ho_approval held) verdict now = (Granted g, consumed)"
    using signed
    by (auto simp: cosign_consume_def refused_with_def Let_def dest!: record_then_returned
        split: prod.splits consume_result.splits if_splits)
  then have "answers_approval verdict (ho_approval held) now" by (simp add: consume_granted_iff)
  with held verified show thesis by (rule that)
qed

lemma session_judged:
  assumes "session_ok pn {} s"
  shows "cosign_judge (se_config s) call = onchain_evaluate (decode_effect SAFE call) (kn_approval_cap (se_knobs s))
      (kn_review_above (se_knobs s)) (kn_spenders (se_knobs s)) {TOKEN}"
  using assms
  by (auto simp: session_ok_def world_ok_def panel_config_def cosign_judge_def token_allowlist_def)
    (simp add: pristine_def)

text \<open>What a proposal is traced as, whatever the co-signer answered.\<close>

lemma observe_session:
  assumes ok: "session_ok pn T s"
  shows "T \<noteq> {} \<Longrightarrow> \<exists>trace. observe call outcome SAFE (world_reader (se_world s)) (trace_expected s) cap review spenders {TOKEN}
        = Inr trace \<and> tr_implied trace = ''refused''
      \<and> tr_findings trace = (if Unwire_reader \<in> T then [] else map onchain_reason_value (drift_after T))"
    "T = {} \<Longrightarrow> onchain_evaluate (decode_effect SAFE call) cap review spenders {TOKEN} = Inr j \<Longrightarrow>
      \<exists>trace. observe call outcome SAFE (world_reader (se_world s)) (trace_expected s) cap review spenders {TOKEN}
        = Inr trace \<and> tr_implied trace = cosign_status_value (judged_status (oj_verdict j))
      \<and> tr_findings trace = map (\<lambda>f. onchain_reason_value (of_code f)) (oj_findings j)"
proof -
  note sees = session_sees(2) [OF ok]
  show "T \<noteq> {} \<Longrightarrow> \<exists>trace. observe call outcome SAFE (world_reader (se_world s)) (trace_expected s) cap review spenders {TOKEN}
        = Inr trace \<and> tr_implied trace = ''refused''
      \<and> tr_findings trace = (if Unwire_reader \<in> T then [] else map onchain_reason_value (drift_after T))"
    by (simp add: observe_def sees station_of_def finish_trace_def Let_def)
  assume T: "T = {}" and j: "onchain_evaluate (decode_effect SAFE call) cap review spenders {TOKEN} = Inr j"
  obtain rd x where "world_reader (se_world s) = Some rd" "trace_expected s = Some x"
    using ok T by (auto simp: session_ok_def world_ok_def world_reader_def trace_expected_def)
  moreover from this have "reverify_station SAFE (Some rd) (Some x)
      = Inr (station_of ''reverify'' St_pass Observed, map onchain_reason_value (drift_after {}))"
    using sees T by simp
  ultimately show "\<exists>trace. observe call outcome SAFE (world_reader (se_world s)) (trace_expected s) cap review spenders {TOKEN}
        = Inr trace \<and> tr_implied trace = cosign_status_value (judged_status (oj_verdict j))
      \<and> tr_findings trace = map (\<lambda>f. onchain_reason_value (of_code f)) (oj_findings j)"
    using T j
    by (cases "oj_verdict j") (simp_all add: observe_def station_of_def finish_trace_def Let_def)
qed

text \<open>When a co-signer that holds and has settled nothing answers, and with what.\<close>

lemma onchain_approval_made:
  assumes "hex64 a" "\<forall>f \<in> set (oj_findings j). detail_ok (of_observed f) \<and> detail_ok (of_limit f)" "proposer \<noteq> []"
  shows "\<exists>approval. onchain_approval cfg a proposer now j = Inr approval"
proof -
  obtain observed limit where ol:
    "(case oj_findings j of [] \<Rightarrow> (None, None) | f # _ \<Rightarrow> (of_observed f, of_limit f)) = (observed, limit)"
    by fastforce
  with assms(2) have "detail_ok observed \<and> detail_ok limit" by (cases "oj_findings j") auto
  then obtain f where "mk_finding value_band_exceeded observed limit = Inr f" by (simp add: mk_finding_def finding_ok_def)
  moreover have "a \<noteq> []" using assms(1) by (auto simp: hex64_def)
  ultimately show ?thesis
    using assms(1,3)
    by (simp add: onchain_approval_def ol mk_proposal_digest_def mk_intent_digest_def approval_request_def)
qed

lemma cosign_fresh_answers:
  assumes sink: "cc_sink cfg = memory_sink_ops" and chain: "verify_chain (co_sink co)"
    and fresh: "co_pending co = []" "co_settled co = {}" and verified: "reverify cfg reader = Inr (Some (nonce, []))"
    and h: "safe_transaction_hash (cc_library cfg) call (cc_context cfg) nonce = Inr h" "hex64 (hex h)"
    and j: "cosign_judge cfg call = Inr j" "\<forall>f \<in> set (oj_findings j). detail_ok (of_observed f) \<and> detail_ok (of_limit f)"
    and signer: "cc_signer cfg h = Some sig" and "proposer \<noteq> []"
  obtains outcome co' where "cosign cfg co reader call proposer now = (Inr outcome, co')"
    "cs_status outcome = judged_status (oj_verdict j)"
proof -
  have recorded: "\<exists>co'. record_then cfg c h v a out = (Inr out, co')" if "co_sink c = co_sink co" for c v a out
    using record_then_returns [OF sink _ h(2), of c v a out] chain that by auto
  obtain approval where approval: "onchain_approval cfg (hex h) proposer now j = Inr approval"
    using onchain_approval_made [OF h(2) j(2) \<open>proposer \<noteq> []\<close>] by blast
  have "\<exists>outcome co'. cosign cfg co reader call proposer now = (Inr outcome, co')"
  proof (cases "oj_verdict j")
    case On_abstain
    then show ?thesis
      using recorded [of "co\<lparr>co_signed := co_signed co @ [h]\<rparr>"]
      by (simp add: cosign_def verified h j signer cosign_sign_def) blast
  next
    case On_review
    then show ?thesis
      using recorded [of "co\<lparr>co_pending := c\<rparr>" for c]
      by (simp add: cosign_def verified h j cosign_hold_def fresh approval Let_def) blast
  next
    case On_deny
    then show ?thesis using recorded [of co] by (simp add: cosign_def verified h j) blast
  qed
  then obtain outcome co' where run: "cosign cfg co reader call proposer now = (Inr outcome, co')" by blast
  from run verified have "cs_status outcome = judged_status (oj_verdict j)"
    by (rule cosign_status) (use h j fresh in auto)
  with run show thesis by (rule that)
qed

text \<open>What is assumed of the library and the signer where an answer is promised.\<close>

definition panel_works :: "panel_setup \<Rightarrow> bool" where
  "panel_works pn \<longleftrightarrow>
     (\<forall>m. length (ol_keccak (pn_library pn) m) = 32) \<and> (\<forall>vs. ol_encode (pn_library pn) vs \<noteq> None)
     \<and> (\<forall>h. pn_signer pn h \<noteq> None)"

lemma hex64_hex: "length h = 32 \<Longrightarrow> hex64 (hex h)"
  using hex_chars [of h] by (simp add: hex64_def length_hex)

lemma panel_hash:
  assumes "panel_works pn"
  obtains h sig where "safe_transaction_hash (pn_library pn) call ctx nonce = Inr h" "hex64 (hex h)" "pn_signer pn h = Some sig"
proof -
  obtain domain where domain: "ol_encode (pn_library pn) (domain_values (pn_library pn) ctx) = Some domain"
    using assms unfolding panel_works_def by (metis not_None_eq)
  obtain struct where struct: "ol_encode (pn_library pn) (struct_values (pn_library pn) call nonce) = Some struct"
    using assms unfolding panel_works_def by (metis not_None_eq)
  let ?h = "ol_keccak (pn_library pn) ([0x19, 0x01] @ ol_keccak (pn_library pn) domain @ ol_keccak (pn_library pn) struct)"
  obtain sig where "pn_signer pn ?h = Some sig" using assms unfolding panel_works_def by (metis not_None_eq)
  moreover have "hex64 (hex ?h)" using assms by (intro hex64_hex) (simp add: panel_works_def)
  moreover have "safe_transaction_hash (pn_library pn) call ctx nonce = Inr ?h"
    by (simp add: safe_transaction_hash_def domain struct)
  ultimately show thesis by (intro that)
qed

definition demo_panel :: panel_setup where
  "demo_panel = \<lparr>pn_library = demo_library, pn_signer = (\<lambda>_. Some ''0xsig'')\<rparr>"

lemma demo_panel_works: "panel_works demo_panel"
  by (simp add: panel_works_def demo_panel_def demo_library_def length_sha256)

text \<open>A session that just started.\<close>

lemma session_start:
  obtains s where "session_init pn = Inr s" "session_ok pn {} s" "se_world s = pristine" "se_knobs s = default_knobs"
    "se_config s = panel_config pn pristine default_knobs" "co_sink (se_cosigner s) = []"
    "co_settled (se_cosigner s) = {}" "co_pending (se_cosigner s) = []" "co_consumed (se_cosigner s) = {}"
    "cosigner_reader s = Some (live_reader pristine)"
    "reverify (se_config s) (cosigner_reader s) = Inr (Some (7, []))"
proof -
  obtain s where s: "session_build pn pristine default_knobs [] = Inr s" "session_ok pn (set (wd_applied pristine)) s"
    "se_world s = pristine" "se_knobs s = default_knobs" "co_sink (se_cosigner s) = []" "co_settled (se_cosigner s) = {}"
    "co_pending (se_cosigner s) = []" "co_consumed (se_cosigner s) = {}"
    using world_ok_pristine by (rule session_build_ok)
  have fresh: "session_ok pn {} s" using s(2) by (simp add: pristine_def)
  with s(3,4) have "se_config s = panel_config pn pristine default_knobs" "cosigner_reader s = Some (live_reader pristine)"
    by (simp_all add: session_ok_def cosigner_reader_def)
  moreover have "reverify (se_config s) (cosigner_reader s) = Inr (Some (7, []))"
    using session_sees(1) [OF fresh] by (simp add: drift_after_Nil)
  ultimately show thesis using s fresh by (intro that [of s]) (simp_all add: session_init_def)
qed

text \<open>The run after which the trace and the co-signer part: a review is proposed, a checker approves
  it, and it is proposed again.\<close>

abbreviation vendor_call :: safe_call where
  "vendor_call \<equiv> call_of TOKEN (erc20_transfer NEW_VENDOR 20000000) 0 False"

lemma vendor_call_held:
  obtains j where
    "onchain_evaluate (decode_effect SAFE vendor_call) (kn_approval_cap default_knobs) (kn_review_above default_knobs)
       (kn_spenders default_knobs) {TOKEN} = Inr j"
    "oj_verdict j = On_review" "\<forall>f \<in> set (oj_findings j). detail_ok (of_observed f) \<and> detail_ok (of_limit f)"
proof -
  let ?sc = "preset ''review_transfer'' vendor_call Held (Some Unbounded_approval)"
  have "?sc \<in> set CATALOGUE" by (simp add: CATALOGUE_def)
  with catalogue_judged have "claims_met ?sc
      (onchain_evaluate (decode_effect SAFE vendor_call) (50 * USDC) (Some (5 * USDC)) {} {TOKEN})"
    by (metis preset_def scenario.select_convs(2))
  then obtain j where j:
    "onchain_evaluate (decode_effect SAFE vendor_call) (50 * USDC) (Some (5 * USDC)) {} {TOKEN} = Inr j"
    "judged_status (oj_verdict j) = Held"
    "\<forall>f \<in> set (oj_findings j). detail_ok (of_observed f) \<and> detail_ok (of_limit f)"
    by (auto simp: claims_met_def preset_def)
  then show thesis by (intro that [of j]) (cases "oj_verdict j"; simp add: default_knobs_def)+
qed

lemma approved_before:
  assumes works: "panel_works pn"
  obtains s h where
    "panel_runs pn [Propose vendor_call AGENT 0, Resolve (hex h) ''ops-human'' True 1] s"
    "safe_transaction_hash (pn_library pn) vendor_call (cc_context (se_config s)) 7 = Inr h"
    "hex h \<in> co_settled (se_cosigner s)" "se_knobs s = default_knobs"
proof -
  obtain s where start: "session_init pn = Inr s" "session_ok pn {} s" "se_knobs s = default_knobs"
    "se_config s = panel_config pn pristine default_knobs" "co_sink (se_cosigner s) = []"
    "co_settled (se_cosigner s) = {}" "co_pending (se_cosigner s) = []" "co_consumed (se_cosigner s) = {}"
    "reverify (se_config s) (cosigner_reader s) = Inr (Some (7, []))" by (rule session_start)
  let ?cfg = "se_config s" and ?co = "se_cosigner s" and ?rd = "cosigner_reader s"
  have cfg: "cc_sink ?cfg = memory_sink_ops" "cc_library ?cfg = pn_library pn" "cc_signer ?cfg = pn_signer pn"
    "cc_review_ttl ?cfg = COSIGN_REVIEW_TTL" by (simp_all add: start(4) panel_config_def)
  obtain h sig where h: "safe_transaction_hash (pn_library pn) vendor_call (cc_context ?cfg) 7 = Inr h" "hex64 (hex h)"
    "pn_signer pn h = Some sig" using works by (rule panel_hash)
  obtain j where evaluated: "onchain_evaluate (decode_effect SAFE vendor_call) (kn_approval_cap default_knobs)
      (kn_review_above default_knobs) (kn_spenders default_knobs) {TOKEN} = Inr j"
    and j: "oj_verdict j = On_review" "\<forall>f \<in> set (oj_findings j). detail_ok (of_observed f) \<and> detail_ok (of_limit f)"
    by (rule vendor_call_held)
  have judged: "cosign_judge ?cfg vendor_call = Inr j" using session_judged [OF start(2)] evaluated start(3) by simp
  have agent: "AGENT \<noteq> []" "AGENT \<noteq> ''ops-human''" by (simp_all add: AGENT_def addr_def)
  obtain approval where approval: "onchain_approval ?cfg (hex h) AGENT 0 j = Inr approval"
    using onchain_approval_made [OF h(2) j(2) agent(1)] by blast
  let ?held = "\<lparr>ho_tx_hash = h, ho_approval = approval, ho_judgement = j, ho_nonce = 7\<rparr>"
  have hash: "safe_transaction_hash (cc_library ?cfg) vendor_call (cc_context ?cfg) 7 = Inr h"
    using h(1) cfg(2) by simp
  have "verify_chain (co_sink ?co)" by (simp add: start verify_chain_def)
  with cfg(1) obtain ledger where proposed: "cosign ?cfg ?co ?rd vendor_call AGENT 0
      = (Inr \<lparr>cs_status = Held, cs_judgement = Some j, cs_signature = None, cs_approval_id = Some (hex h)\<rparr>,
         ?co\<lparr>co_pending := AList.update (hex h) ?held (co_pending ?co), co_sink := ledger\<rparr>)" "verify_chain ledger"
    by (rule cosign_holds [OF _ _ h(2) refl start(9) hash judged j(1) _ _ approval]) (simp_all add: start)
  let ?co1 = "?co\<lparr>co_pending := AList.update (hex h) ?held (co_pending ?co), co_sink := ledger\<rparr>"
  let ?answer = "\<lparr>cv_checker = Checker ''ops-human'', cv_approval_id = hex h,
    cv_proposal = \<lparr>pd_version = PROPOSAL_DIGEST_VERSION, pd_value = hex h\<rparr>, cv_approved = True\<rparr>"
  have "answers_approval ?answer approval 1"
    using onchain_approval_fields [OF approval] agent(2)
    by (simp add: answers_approval_def cfg COSIGN_REVIEW_TTL_def seconds_def)
  then obtain g m where granted: "consume (co_consumed ?co1) (ho_approval ?held) ?answer 1 = (Granted g, m)"
    using consume_granted_iff [of "{}" approval ?answer 1] start(8) by auto
  have "verify_chain (co_sink ?co1)" "hex h = hex (ho_tx_hash ?held)" by (simp_all add: proposed(2))
  moreover have "map_of (co_pending ?co1) (hex h) = Some ?held" by (simp add: start(7))
  moreover have "reverify ?cfg ?rd = Inr (Some (ho_nonce ?held, []))" by (simp add: start(9))
  moreover have "cc_signer ?cfg (ho_tx_hash ?held) = Some sig" by (simp add: cfg(3) h(3))
  ultimately obtain co2 where resolved: "cosign_resolve ?cfg ?co1 ?rd (hex h) ?answer 1
      = (Inr \<lparr>cs_status = Signed, cs_judgement = Some (ho_judgement ?held), cs_signature = Some sig,
              cs_approval_id = None\<rparr>, co2)" "co_signed co2 = co_signed ?co1 @ [ho_tx_hash ?held]"
    using cosign_grants [OF cfg(1) _ h(2) _ _ _ granted] by blast
  from resolved have "hex h \<in> co_settled co2" by (cases rule: cosign_resolve_cases) simp_all
  let ?s1 = "s\<lparr>se_cosigner := ?co1\<rparr>" and ?s2 = "s\<lparr>se_cosigner := co2\<rparr>"
  have "panel_act pn s (Propose vendor_call AGENT 0) = ?s1" by (simp add: session_propose_def proposed(1))
  moreover have "panel_act pn ?s1 (Resolve (hex h) ''ops-human'' True 1) = ?s2"
    using resolved(1) h(2) by (simp add: session_resolve_def mk_proposal_digest_def)
  ultimately have "panel_runs pn [Propose vendor_call AGENT 0, Resolve (hex h) ''ops-human'' True 1] ?s2"
    using panel_goes_on [OF panel_goes_on [OF panel_starts [OF start(1)]],
        of "Propose vendor_call AGENT 0" "Resolve (hex h) ''ops-human'' True 1"] by simp
  from that [OF this] h(1) \<open>hex h \<in> co_settled co2\<close> start(3) show thesis by simp
qed

section \<open>Properties\<close>

text \<open>[C32] The trace agrees with the co-signer. In every session that is reached, when the co-signer
  answers a proposal so does the trace, and the status it implies is the one answered, with one
  exception: a transaction that a checker approved before is refused, and the trace says it is held.\<close>

theorem panel_trace_agrees:
  assumes runs: "panel_runs pn actions s"
    and answered: "cosign (se_config s) (se_cosigner s) (cosigner_reader s) call proposer now = (Inr outcome, co)"
  shows "\<exists>trace. session_propose s call proposer now = (Inr (outcome, trace), s\<lparr>se_cosigner := co\<rparr>)
    \<and> (if tampers_of actions = {}
          \<and> (\<exists>h j. safe_transaction_hash (pn_library pn) call (cc_context (se_config s)) 7 = Inr h
               \<and> cosign_judge (se_config s) call = Inr j \<and> oj_verdict j = On_review
               \<and> hex h \<in> co_settled (se_cosigner s))
       then tr_implied trace = ''held'' \<and> cs_status outcome = Cosign_refused
       else tr_implied trace = cosign_status_value (cs_status outcome))"
proof -
  let ?T = "tampers_of actions"
  note ok = panel_runs_ok [OF runs]
  note sees = session_sees(1) [OF ok]
  show ?thesis
  proof (cases "?T = {}")
    case False
    have "cs_status outcome = Cosign_refused"
      using False by (intro cosign_drifted [OF answered sees]) (auto simp: drift_after_Nil)
    with False observe_session(1) [OF ok False, of call outcome "kn_approval_cap (se_knobs s)"
        "kn_review_above (se_knobs s)" "kn_spenders (se_knobs s)"]
    show ?thesis by (auto simp: session_propose_def answered)
  next
    case True
    then have no_drift: "reverify (se_config s) (cosigner_reader s) = Inr (Some (7, []))"
      using sees by (simp add: drift_after_Nil)
    from answered no_drift obtain h j where
      h: "safe_transaction_hash (cc_library (se_config s)) call (cc_context (se_config s)) 7 = Inr h"
      and j: "cosign_judge (se_config s) call = Inr j"
      and status: "cs_status outcome = (if oj_verdict j = On_review \<and> hex h \<in> co_settled (se_cosigner s)
        then Cosign_refused else judged_status (oj_verdict j))" by (rule cosign_status)
    have lib: "cc_library (se_config s) = pn_library pn" using ok by (simp add: session_ok_def panel_config_def)
    from observe_session(2) [OF ok True] j session_judged [of pn s call] ok True
    have "\<exists>trace. observe call outcome SAFE (world_reader (se_world s)) (trace_expected s) (kn_approval_cap (se_knobs s))
        (kn_review_above (se_knobs s)) (kn_spenders (se_knobs s)) {TOKEN} = Inr trace
      \<and> tr_implied trace = cosign_status_value (judged_status (oj_verdict j))" by metis
    with True h j status show ?thesis by (auto simp: session_propose_def answered lib)
  qed
qed

text \<open>The exception happens: a preset's transaction that was held and approved is proposed again.\<close>

theorem panel_trace_agrees_witness:
  "\<exists>s h outcome trace. panel_runs demo_panel [Propose vendor_call AGENT 0, Resolve (hex h) ''ops-human'' True 1] s
     \<and> fst (session_propose s vendor_call AGENT 2) = Inr (outcome, trace)
     \<and> cs_status outcome = Cosign_refused \<and> tr_implied trace = ''held''"
proof -
  obtain s h where run: "panel_runs demo_panel [Propose vendor_call AGENT 0, Resolve (hex h) ''ops-human'' True 1] s"
    and h: "safe_transaction_hash (pn_library demo_panel) vendor_call (cc_context (se_config s)) 7 = Inr h"
    and settled: "hex h \<in> co_settled (se_cosigner s)" and knobs: "se_knobs s = default_knobs"
    using demo_panel_works by (rule approved_before)
  have none: "tampers_of [Propose vendor_call AGENT 0, Resolve (hex h) ''ops-human'' True 1] = {}"
    by (simp add: tampers_of_def)
  note ok = panel_runs_ok [OF run, unfolded none]
  obtain j where "onchain_evaluate (decode_effect SAFE vendor_call) (kn_approval_cap default_knobs)
      (kn_review_above default_knobs) (kn_spenders default_knobs) {TOKEN} = Inr j" and j: "oj_verdict j = On_review"
    by (rule vendor_call_held)
  with session_judged [OF ok] knobs have judged: "cosign_judge (se_config s) vendor_call = Inr j" by simp
  have "reverify (se_config s) (cosigner_reader s) = Inr (Some (7, []))"
    using session_sees(1) [OF ok] by (simp add: drift_after_Nil)
  with h judged j settled have
    "cosign (se_config s) (se_cosigner s) (cosigner_reader s) vendor_call AGENT 2
       = (Inr (refused_with (Some j)), se_cosigner s)"
    using ok by (simp add: cosign_def cosign_hold_def session_ok_def panel_config_def)
  from panel_trace_agrees [OF run this] none h judged j settled run show ?thesis by fastforce
qed

text \<open>What makes the panel sign. In every session that is reached, while any tamper is in force
  every proposal that is answered is refused, with exactly the drift those tampers make; and an
  answered review is signed only when no tamper is in force, whoever approved it is not who proposed
  it, and the answer was an approval of a review that is open.\<close>

theorem panel_signs_only:
  assumes runs: "panel_runs pn actions s"
  shows "(tampers_of actions \<noteq> {} \<and> fst (session_propose s call proposer now) = Inr (outcome, trace) \<longrightarrow>
      cs_status outcome = Cosign_refused
      \<and> tr_findings trace = (if Unwire_reader \<in> tampers_of actions then []
                             else map onchain_reason_value (drift_after (tampers_of actions))))
    \<and> (fst (session_resolve s approval_id checker approved now) = Inr (outcome, trace) \<and> cs_status outcome = Signed \<longrightarrow>
      tampers_of actions = {} \<and> approved
      \<and> (\<exists>held. map_of (co_pending (se_cosigner s)) approval_id = Some held
           \<and> maker_subject (pa_maker (ho_approval held)) \<noteq> checker))"
proof (intro conjI impI; elim conjE)
  let ?T = "tampers_of actions"
  note ok = panel_runs_ok [OF runs]
  note sees = session_sees(1) [OF ok]
  show "cs_status outcome = Cosign_refused"
    and "tr_findings trace = (if Unwire_reader \<in> ?T then [] else map onchain_reason_value (drift_after ?T))"
    if T: "?T \<noteq> {}" and run: "fst (session_propose s call proposer now) = Inr (outcome, trace)"
  proof -
    obtain co where answered: "cosign (se_config s) (se_cosigner s) (cosigner_reader s) call proposer now = (Inr outcome, co)"
      and traced: "observe call outcome SAFE (world_reader (se_world s)) (trace_expected s) (kn_approval_cap (se_knobs s))
        (kn_review_above (se_knobs s)) (kn_spenders (se_knobs s)) {TOKEN} = Inr trace"
      using run by (auto simp: session_propose_def map_sum_eq_Inr split: prod.splits sum.splits)
    show "cs_status outcome = Cosign_refused"
      using T by (intro cosign_drifted [OF answered sees]) (auto simp: drift_after_Nil)
    show "tr_findings trace = (if Unwire_reader \<in> ?T then [] else map onchain_reason_value (drift_after ?T))"
      using observe_session(1) [OF ok T] traced by (metis sum.inject(2))
  qed
  assume run: "fst (session_resolve s approval_id checker approved now) = Inr (outcome, trace)"
    and signed: "cs_status outcome = Signed"
  show "?T = {}" and "approved"
    and "\<exists>held. map_of (co_pending (se_cosigner s)) approval_id = Some held
           \<and> maker_subject (pa_maker (ho_approval held)) \<noteq> checker"
  proof -
    obtain proposal co where
      "cosign_resolve (se_config s) (se_cosigner s) (cosigner_reader s) approval_id
         \<lparr>cv_checker = Checker checker, cv_approval_id = approval_id, cv_proposal = proposal, cv_approved = approved\<rparr> now
       = (Inr outcome, co)"
      using run by (auto simp: session_resolve_def map_sum_eq_Inr split: prod.splits sum.splits if_splits)
    from this signed obtain held where held: "map_of (co_pending (se_cosigner s)) approval_id = Some held"
      "reverify (se_config s) (cosigner_reader s) = Inr (Some (ho_nonce held, []))"
      "answers_approval \<lparr>cv_checker = Checker checker, cv_approval_id = approval_id, cv_proposal = proposal,
         cv_approved = approved\<rparr> (ho_approval held) now" by (rule cosign_resolve_signed)
    show "?T = {}" using held(2) sees by (auto simp: drift_after_Nil split: if_splits)
    show "approved" and "\<exists>held. map_of (co_pending (se_cosigner s)) approval_id = Some held
        \<and> maker_subject (pa_maker (ho_approval held)) \<noteq> checker"
      using held(1,3) by (auto simp: answers_approval_def)
  qed
qed

theorem panel_signs_only_witness:
  "\<exists>s outcome trace. panel_runs demo_panel [Tamper Remove_guard] s
     \<and> fst (session_propose s vendor_call AGENT 0) = Inr (outcome, trace)
     \<and> cs_status outcome = Cosign_refused \<and> tr_findings trace = [''structural_change'']"
proof -
  obtain s where start: "session_init demo_panel = Inr s" "session_ok demo_panel {} s" "co_sink (se_cosigner s) = []"
    by (rule session_start)
  obtain t where t: "t = panel_act demo_panel s (Tamper Remove_guard)" by simp
  have run: "panel_runs demo_panel [Tamper Remove_guard] t"
    using panel_goes_on [OF panel_starts [OF start(1)], of "Tamper Remove_guard"] by (simp add: t)
  have T: "tampers_of [Tamper Remove_guard] = {Remove_guard}" by (simp add: tampers_of_def)
  note ok = panel_runs_ok [OF run, unfolded T]
  have cfg: "cc_sink (se_config t) = memory_sink_ops" "cc_library (se_config t) = pn_library demo_panel"
    using ok by (simp_all add: session_ok_def panel_config_def)
  have sink: "co_sink (se_cosigner t) = []"
    using start(3) by (simp add: t session_tamper_def split: sum.split)
  obtain h where h: "safe_transaction_hash (pn_library demo_panel) vendor_call (cc_context (se_config t)) 7 = Inr h"
    "hex64 (hex h)" using demo_panel_works by (rule panel_hash)
  let ?drift = "drift_after {Remove_guard}"
  have "reverify (se_config t) (cosigner_reader t) = Inr (Some (7, ?drift))" "?drift = [Structural_change]"
    using session_sees(1) [OF ok] by (simp_all add: drift_after_def)
  moreover obtain ledger where "record_then (se_config t) (se_cosigner t) h On_deny None
      (refused_with (Some (drift_judgement ?drift)))
    = (Inr (refused_with (Some (drift_judgement ?drift))), (se_cosigner t)\<lparr>co_sink := ledger\<rparr>)"
    using record_then_returns [OF cfg(1) _ h(2), of "se_cosigner t"] sink by (metis verify_chain_def verify_from.simps(1))
  ultimately have "cosign (se_config t) (se_cosigner t) (cosigner_reader t) vendor_call AGENT 0
      = (Inr (refused_with (Some (drift_judgement ?drift))), (se_cosigner t)\<lparr>co_sink := ledger\<rparr>)"
    using h(1) cfg(2) by (simp add: cosign_def)
  moreover obtain trace where "observe vendor_call (refused_with (Some (drift_judgement ?drift))) SAFE
      (world_reader (se_world t)) (trace_expected t) (kn_approval_cap (se_knobs t)) (kn_review_above (se_knobs t))
      (kn_spenders (se_knobs t)) {TOKEN} = Inr trace"
    using observe_session(1) [OF ok] by blast
  ultimately obtain outcome trace where "fst (session_propose t vendor_call AGENT 0) = Inr (outcome, trace)"
    by (simp add: session_propose_def)
  with panel_signs_only [OF run] run show ?thesis unfolding T by (fastforce simp: drift_after_def)
qed

text \<open>The captions of the catalogue are true: in a session that just started, with a library that
  hashes and encodes and a signer that signs, each of the ten presets is answered with the status its
  label promises, and the trace implies that status and names exactly the promised reason.\<close>

theorem catalogue_keeps_its_claims:
  assumes works: "panel_works pn" and start: "session_init pn = Inr s" and preset: "sc \<in> set CATALOGUE"
  shows "\<exists>outcome trace. fst (session_propose s (sn_call sc) AGENT now) = Inr (outcome, trace)
    \<and> cs_status outcome = sn_claims sc \<and> tr_implied trace = cosign_status_value (sn_claims sc)
    \<and> tr_findings trace = (case sn_reason sc of None \<Rightarrow> [] | Some reason \<Rightarrow> [onchain_reason_value reason])"
proof -
  obtain s' where "session_build pn pristine default_knobs [] = Inr s'" and ok: "session_ok pn (set (wd_applied pristine)) s'"
    and s': "se_world s' = pristine" "se_knobs s' = default_knobs" "co_sink (se_cosigner s') = []"
    "co_settled (se_cosigner s') = {}" "co_pending (se_cosigner s') = []"
    using world_ok_pristine by (rule session_build_ok)
  with start have same: "s' = s" by (simp add: session_init_def)
  have fresh: "session_ok pn {} s" using ok same by (simp add: pristine_def)
  let ?evaluated = "onchain_evaluate (decode_effect SAFE (sn_call sc)) (50 * USDC) (Some (5 * USDC)) {} {TOKEN}"
  obtain j where j: "?evaluated = Inr j" "judged_status (oj_verdict j) = sn_claims sc"
    "map of_code (oj_findings j) = (case sn_reason sc of None \<Rightarrow> [] | Some reason \<Rightarrow> [reason])"
    "\<forall>f \<in> set (oj_findings j). detail_ok (of_observed f) \<and> detail_ok (of_limit f)"
    using catalogue_judged preset by (auto simp: claims_met_def)
  have judged: "cosign_judge (se_config s) (sn_call sc) = Inr j"
    using session_judged [OF fresh, of "sn_call sc"] s' same j(1) by (simp add: default_knobs_def)
  have cfg: "se_config s = panel_config pn pristine default_knobs" using fresh s' same by (simp add: session_ok_def)
  obtain h sig where h: "safe_transaction_hash (pn_library pn) (sn_call sc) (cc_context (se_config s)) 7 = Inr h"
    "hex64 (hex h)" "pn_signer pn h = Some sig" using works by (rule panel_hash)
  obtain outcome co where answered:
    "cosign (se_config s) (se_cosigner s) (cosigner_reader s) (sn_call sc) AGENT now = (Inr outcome, co)"
    "cs_status outcome = judged_status (oj_verdict j)"
  proof (rule cosign_fresh_answers [where h = h and sig = sig and nonce = 7 and j = j and cfg = "se_config s"
        and co = "se_cosigner s" and call = "sn_call sc" and proposer = AGENT and now = now and reader = "cosigner_reader s"])
    show "reverify (se_config s) (cosigner_reader s) = Inr (Some (7, []))"
      using session_sees(1) [OF fresh] by (simp add: drift_after_Nil)
  qed (use s' same h j(4) judged in \<open>simp_all add: cfg panel_config_def verify_chain_def AGENT_def addr_def\<close>)
  from observe_session(2) [OF fresh refl j(1), of outcome] s' same answered j(2,3)
  show ?thesis
    by (auto simp: session_propose_def default_knobs_def comp_def map_eq_Cons_conv split: option.splits)
qed

theorem catalogue_keeps_its_claims_witness:
  "\<exists>s outcome trace. session_init demo_panel = Inr s
     \<and> fst (session_propose s vendor_call AGENT 0) = Inr (outcome, trace) \<and> cs_status outcome = Held
     \<and> tr_findings trace = [''unbounded_approval'']"
proof -
  obtain s where s: "session_init demo_panel = Inr s" by (rule session_start)
  let ?sc = "preset ''review_transfer'' vendor_call Held (Some Unbounded_approval)"
  have "?sc \<in> set CATALOGUE" by (simp add: CATALOGUE_def)
  from catalogue_keeps_its_claims [OF demo_panel_works s this, of 0] s show ?thesis by (auto simp: preset_def)
qed

end
