(* ===== verification/Panel_Server.thy ===== *)
theory Panel_Server
  imports Panel Client_Gateway
begin

text \<open>
  \<open>examples/firewall_panel/server.py\<close>: the JSON interface over one session. A request is the record
  \<open>http_request\<close> of theory \<open>Server\<close>. Any exception is answered 500 and the session stays as it was when
  it was raised. Of an answer the model keeps the status and what was judged; the state that the
  page is drawn from, the page itself and the GET requests, which change nothing, are left out.
\<close>

section \<open>The handlers\<close>

text \<open>\<open>json.loads\<close>, and \<open>int(round(float(value) * USDC))\<close>; \<open>None\<close> where they raise.\<close>

record panel_platform =
  pl_loads :: "bytes \<Rightarrow> loaded option"
  pl_minor :: "loaded \<Rightarrow> int option"

record panel_answer =
  an_status :: int
  an_judged :: "(cosign_outcome \<times> trace) option"

definition answer_of :: "int \<Rightarrow> (cosign_outcome \<times> trace) option \<Rightarrow> panel_answer" where
  "answer_of status judged = \<lparr>an_status = status, an_judged = judged\<rparr>"

text \<open>A length below zero reads to the end.\<close>

definition panel_body :: "panel_platform \<Rightarrow> http_request \<Rightarrow> py_error + loaded" where
  "panel_body pl req =
     (case py_int (case hr_content_length req of None \<Rightarrow> ''0'' | Some header \<Rightarrow> header) of
        None \<Rightarrow> Inl Value_Error
      | Some n \<Rightarrow>
          (let raw = (if n < 0 then hr_stream req else take (nat n) (hr_stream req))
           in case pl_loads pl (if raw = [] then utf8 ''{}'' else raw) of
                None \<Rightarrow> Inl Value_Error
              | Some body \<Rightarrow> Inr body))"

text \<open>\<open>body.get(key)\<close> and \<open>body[key]\<close>.\<close>

fun body_get :: "loaded \<Rightarrow> py_str \<Rightarrow> py_error + loaded" where
  "body_get (L_dict kvs) key = Inr (dict_get kvs key)"
| "body_get body key = Inl Type_Error"

fun body_item :: "loaded \<Rightarrow> py_str \<Rightarrow> py_error + loaded" where
  "body_item (L_dict kvs) key = (case map_of kvs key of None \<Rightarrow> Inl Key_Error | Some v \<Rightarrow> Inr v)"
| "body_item body key = Inl Type_Error"

definition usdc_of :: "panel_platform \<Rightarrow> loaded \<Rightarrow> py_error + int option" where
  "usdc_of pl v =
     (if v = L_null \<or> v = L_str [] then Inr None
      else case pl_minor pl v of None \<Rightarrow> Inl Value_Error | Some n \<Rightarrow> Inr (Some n))"

definition BY_KEY :: "py_str \<Rightarrow> scenario option" where
  "BY_KEY key = find (\<lambda>s. sn_key s = key) CATALOGUE"

text \<open>What a session answered, as a response.\<close>

fun judged_answer :: "(py_error + cosign_outcome \<times> trace) \<times> session \<Rightarrow> panel_answer \<times> session" where
  "judged_answer (Inl e, s) = (answer_of 500 None, s)"
| "judged_answer (Inr judged, s) = (answer_of 200 (Some judged), s)"

fun acted_answer :: "py_error option \<times> session \<Rightarrow> panel_answer \<times> session" where
  "acted_answer (Some e, s) = (answer_of 500 None, s)"
| "acted_answer (None, s) = (answer_of 200 None, s)"

definition api_propose :: "session \<Rightarrow> loaded \<Rightarrow> datetime \<Rightarrow> panel_answer \<times> session" where
  "api_propose s body now =
     (case body_get body ''scenario'' of
        Inl e \<Rightarrow> (answer_of 500 None, s)
      | Inr key \<Rightarrow>
          (case in_str_set key (sn_key ` set CATALOGUE) of
             Inl e \<Rightarrow> (answer_of 500 None, s)
           | Inr known \<Rightarrow>
               (case (known, key) of
                  (True, L_str k) \<Rightarrow>
                    (case BY_KEY k of
                       None \<Rightarrow> (answer_of 400 None, s)
                     | Some sc \<Rightarrow> judged_answer (session_propose s (sn_call sc) AGENT now))
                | _ \<Rightarrow> (answer_of 400 None, s))))"

text \<open>The identity of a checker and the id of an approval have to be strings.\<close>

definition api_resolve :: "session \<Rightarrow> loaded \<Rightarrow> datetime \<Rightarrow> panel_answer \<times> session" where
  "api_resolve s body now =
     (case (body_item body ''approval_id'', body_item body ''checker'', body_item body ''approved'') of
        (Inr (L_str approval_id), Inr (L_str checker), Inr approved) \<Rightarrow>
          judged_answer (session_resolve s approval_id checker (py_bool approved) now)
      | _ \<Rightarrow> (answer_of 500 None, s))"

fun tamper_value :: "tamper \<Rightarrow> py_str" where
  "tamper_value Remove_guard = ''remove_guard''"
| "tamper_value Swap_owner = ''swap_owner''"
| "tamper_value Lower_threshold = ''lower_threshold''"
| "tamper_value Counterfeit_token = ''counterfeit_token''"
| "tamper_value Wrong_chain = ''wrong_chain''"
| "tamper_value Unwire_reader = ''unwire_reader''"

definition TAMPERS :: "tamper list" where
  "TAMPERS = [Remove_guard, Swap_owner, Lower_threshold, Counterfeit_token, Wrong_chain, Unwire_reader]"

definition api_tamper :: "panel_setup \<Rightarrow> session \<Rightarrow> loaded \<Rightarrow> panel_answer \<times> session" where
  "api_tamper pn s body =
     (case body_get body ''repair'' of
        Inl e \<Rightarrow> (answer_of 500 None, s)
      | Inr repair \<Rightarrow>
          if py_bool repair then acted_answer (session_repair pn s)
          else
            (case body_item body ''tamper'' of
               Inr (L_str name) \<Rightarrow>
                 (case find (\<lambda>t. tamper_value t = name) TAMPERS of
                    None \<Rightarrow> (answer_of 500 None, s)
                  | Some what \<Rightarrow> acted_answer (session_tamper pn s what))
             | _ \<Rightarrow> (answer_of 500 None, s)))"

text \<open>\<open>reconfigure\<close> calls \<open>lower\<close> on a spender that is not empty, after it has set the bounds and
  before it builds a new co-signer; what is no string has no \<open>lower\<close>.\<close>

definition spender_of :: "loaded \<Rightarrow> py_error + py_str option" where
  "spender_of v =
     (if \<not> py_bool v then Inr None else case v of L_str s \<Rightarrow> Inr (Some s) | _ \<Rightarrow> Inl Type_Error)"

definition api_reconfigure :: "panel_platform \<Rightarrow> panel_setup \<Rightarrow> session \<Rightarrow> loaded \<Rightarrow> panel_answer \<times> session" where
  "api_reconfigure pl pn s body =
     (case body of
        L_dict kvs \<Rightarrow>
          (case (usdc_of pl (dict_get kvs ''approval_cap_usdc''), usdc_of pl (dict_get kvs ''review_above_usdc'')) of
             (Inr cap, Inr review) \<Rightarrow>
               (case spender_of (dict_get kvs ''vouch_spender'') of
                  Inl e \<Rightarrow> (answer_of 500 None, s\<lparr>se_knobs := reconfigured cap review None None (se_knobs s)\<rparr>)
                | Inr vouch \<Rightarrow>
                    (case spender_of (dict_get kvs ''unvouch_spender'') of
                       Inl e \<Rightarrow> (answer_of 500 None, s\<lparr>se_knobs := reconfigured cap review vouch None (se_knobs s)\<rparr>)
                     | Inr unvouch \<Rightarrow> acted_answer (session_reconfigure pn s cap review vouch unvouch)))
           | _ \<Rightarrow> (answer_of 500 None, s))
      | _ \<Rightarrow> (answer_of 500 None, s))"

definition panel_post ::
  "panel_platform \<Rightarrow> panel_setup \<Rightarrow> session \<Rightarrow> http_request \<Rightarrow> datetime \<Rightarrow> panel_answer \<times> session" where
  "panel_post pl pn s req now =
     (if hr_path req \<notin> {''/api/propose'', ''/api/resolve'', ''/api/tamper'', ''/api/reconfigure'', ''/api/reset''}
      then (answer_of 404 None, s)
      else case panel_body pl req of
          Inl e \<Rightarrow> (answer_of 500 None, s)
        | Inr body \<Rightarrow>
            if hr_path req = ''/api/propose'' then api_propose s body now
            else if hr_path req = ''/api/resolve'' then api_resolve s body now
            else if hr_path req = ''/api/tamper'' then api_tamper pn s body
            else if hr_path req = ''/api/reconfigure'' then api_reconfigure pl pn s body
            else acted_answer (session_reset pn s))"

text \<open>\<open>_outcome_payload\<close>.\<close>

definition outcome_payload :: "cosign_outcome \<Rightarrow> json" where
  "outcome_payload outcome =
     (let text_or_null = (\<lambda>v. case v of None \<Rightarrow> JNull | Some s \<Rightarrow> JStr s)
      in JObj [(''status'', JStr (cosign_status_value (cs_status outcome))),
               (''signature'', text_or_null (cs_signature outcome)),
               (''approval_id'', text_or_null (cs_approval_id outcome)),
               (''reasons'', JList (case cs_judgement outcome of
                    None \<Rightarrow> []
                  | Some j \<Rightarrow> map (\<lambda>f. JStr (onchain_reason_value (of_code f))) (oj_findings j)))])"

section \<open>What a request does to the session\<close>

inductive api_runs :: "panel_platform \<Rightarrow> panel_setup \<Rightarrow> session \<Rightarrow> bool" for pl pn where
  api_starts: "session_init pn = Inr s \<Longrightarrow> api_runs pl pn s"
| api_served: "api_runs pl pn s \<Longrightarrow> api_runs pl pn (snd (panel_post pl pn s req now))"

text \<open>The actions a request stands for: of proposals, only the presets, by the agent.\<close>

definition api_action :: "panel_action \<Rightarrow> bool" where
  "api_action a \<longleftrightarrow>
     (case a of Propose call proposer now \<Rightarrow> call \<in> sn_call ` set CATALOGUE \<and> proposer = AGENT | _ \<Rightarrow> True)"

lemma judged_answer_snd [simp]: "snd (judged_answer r) = snd r"
  by (cases r; cases "fst r") auto

lemma acted_answer_snd [simp]: "snd (acted_answer r) = snd r"
  by (cases r; cases "fst r") auto

lemma BY_KEY_Some: "BY_KEY k = Some sc \<Longrightarrow> sc \<in> set CATALOGUE"
  by (auto simp: BY_KEY_def find_Some_iff)

definition api_move :: "panel_setup \<Rightarrow> session \<Rightarrow> session \<Rightarrow> bool" where
  "api_move pn s s' \<longleftrightarrow>
     s' = s \<or> (\<exists>a. api_action a \<and> s' = panel_act pn s a) \<or> (\<exists>knobs. s' = s\<lparr>se_knobs := knobs\<rparr>)"

lemma api_move_act: "api_action a \<Longrightarrow> api_move pn s (panel_act pn s a)"
  by (auto simp: api_move_def)

lemma api_moves [simp]:
  "api_move pn s s" "api_move pn s (s\<lparr>se_knobs := knobs\<rparr>)"
  "BY_KEY k = Some sc \<Longrightarrow> api_move pn s (snd (session_propose s (sn_call sc) AGENT now))"
  "api_move pn s (snd (session_resolve s approval_id checker approved now))"
  "api_move pn s (snd (session_tamper pn s what))" "api_move pn s (snd (session_repair pn s))"
  "api_move pn s (snd (session_reconfigure pn s cap review vouch unvouch))" "api_move pn s (snd (session_reset pn s))"
  using api_move_act [of "Propose (sn_call sc) AGENT now" pn s] api_move_act [of "Resolve approval_id checker approved now" pn s]
    api_move_act [of "Tamper what" pn s] api_move_act [of Repair pn s]
    api_move_act [of "Reconfigure cap review vouch unvouch" pn s] api_move_act [of Reset pn s]
  by (auto simp: api_action_def api_move_def dest: BY_KEY_Some)

lemma panel_post_moves: "api_move pn s (snd (panel_post pl pn s req now))"
proof -
  have "api_move pn s (snd (api_propose s body now))" for body
    by (simp add: api_propose_def split: sum.split loaded.split option.split bool.split)
  moreover have "api_move pn s (snd (api_resolve s body now))" for body
    by (simp add: api_resolve_def split: sum.split loaded.split)
  moreover have "api_move pn s (snd (api_tamper pn s body))" for body
    by (simp add: api_tamper_def split: sum.split loaded.split option.split)
  moreover have "api_move pn s (snd (api_reconfigure pl pn s body))" for body
    by (simp add: api_reconfigure_def split: sum.split loaded.split)
  ultimately show ?thesis by (simp add: panel_post_def split: sum.split)
qed

section \<open>What the present co-signer has signed and holds\<close>

text \<open>A session whose knobs may have been changed without a new co-signer.\<close>

definition api_ok :: "panel_setup \<Rightarrow> session \<Rightarrow> bool" where
  "api_ok pn s \<longleftrightarrow> (\<exists>T knobs. session_ok pn T (s\<lparr>se_knobs := knobs\<rparr>))"

definition preset_hash :: "panel_setup \<Rightarrow> bytes \<Rightarrow> bool" where
  "preset_hash pn h \<longleftrightarrow>
     (\<exists>sc \<in> set CATALOGUE. safe_transaction_hash (pn_library pn) (sn_call sc)
        \<lparr>sx_safe_address = SAFE, sx_chain_id = 8453\<rparr> 7 = Inr h)"

definition presets_only :: "panel_setup \<Rightarrow> memory_sink cosigner \<Rightarrow> bool" where
  "presets_only pn co \<longleftrightarrow>
     (\<forall>h \<in> set (co_signed co). preset_hash pn h) \<and> (\<forall>a held. map_of (co_pending co) a = Some held \<longrightarrow> preset_hash pn (ho_tx_hash held))"

lemma knobs_unseen [simp]:
  "cosigner_reader (s\<lparr>se_knobs := knobs\<rparr>) = cosigner_reader s" "trace_expected (s\<lparr>se_knobs := knobs\<rparr>) = trace_expected s"
  by (simp_all add: cosigner_reader_def trace_expected_def)

lemma api_ok_sees:
  assumes "api_ok pn s"
  shows "cc_library (se_config s) = pn_library pn"
    "cc_context (se_config s) = \<lparr>sx_safe_address = SAFE, sx_chain_id = 8453\<rparr>"
    "reverify (se_config s) (cosigner_reader s) = Inr (Some (nonce, [])) \<Longrightarrow> nonce = 7"
proof -
  from assms obtain T knobs where ok: "session_ok pn T (s\<lparr>se_knobs := knobs\<rparr>)" by (auto simp: api_ok_def)
  from session_sees(1) [OF ok] show "nonce = 7" if "reverify (se_config s) (cosigner_reader s) = Inr (Some (nonce, []))"
    using that by (simp split: if_splits)
  have "xc_chain_id (wd_expected (se_world s)) = 8453" using ok by (auto simp: session_ok_def world_ok_def pristine_def)
  with ok show "cc_library (se_config s) = pn_library pn"
    "cc_context (se_config s) = \<lparr>sx_safe_address = SAFE, sx_chain_id = 8453\<rparr>"
    by (auto simp: session_ok_def panel_config_def)
qed

lemma presets_only_propose:
  assumes ok: "api_ok pn s" "presets_only pn (se_cosigner s)" and preset: "call \<in> sn_call ` set CATALOGUE"
    and run: "cosign (se_config s) (se_cosigner s) (cosigner_reader s) call proposer now = (r, co)"
  shows "presets_only pn co"
proof -
  have hash: "preset_hash pn h" if "reverify (se_config s) (cosigner_reader s) = Inr (Some (nonce, []))"
    "safe_transaction_hash (cc_library (se_config s)) call (cc_context (se_config s)) nonce = Inr h" for nonce h
    using that preset api_ok_sees [OF ok(1)] by (auto simp: preset_hash_def)
  from run show ?thesis
  proof (cases rule: cosign_cases)
    case (held nonce h j)
    from cosign_hold_frame [OF held(5)] hash [OF held(1,2)] ok(2) show ?thesis
      by (auto simp: presets_only_def update_conv' split: if_splits)
  qed (use ok(2) hash in \<open>auto simp: presets_only_def\<close>)
qed

lemma presets_only_resolve:
  assumes ok: "presets_only pn (se_cosigner s)"
    and run: "cosign_resolve cfg (se_cosigner s) reader a verdict now = (r, co)"
  shows "presets_only pn co"
  using run
proof (cases rule: cosign_resolve_cases)
  case (granted nonce held)
  then show ?thesis
    using ok by (auto simp: presets_only_def delete_conv' split: if_splits)
qed (use ok in \<open>auto simp: presets_only_def delete_conv' split: if_splits\<close>)

lemma presets_only_built:
  assumes "session_build pn w knobs sink = Inr s"
  shows "presets_only pn (se_cosigner s)"
  using assms by (auto simp: session_build_def mk_cosigner_def presets_only_def map_sum_eq_Inr split: if_splits)

lemma presets_only_rebuilt:
  "presets_only pn (se_cosigner s) \<Longrightarrow> presets_only pn (se_cosigner (snd (session_rebuild pn s)))"
  using presets_only_built by (auto simp: session_rebuild_def split: sum.split)

lemma presets_only_act:
  assumes ok: "api_ok pn s" "presets_only pn (se_cosigner s)" and a: "api_action a"
  shows "presets_only pn (se_cosigner (panel_act pn s a))"
proof (cases a)
  case (Propose call proposer now)
  have "presets_only pn co" if "cosign (se_config s) (se_cosigner s) (cosigner_reader s) call proposer now = (r, co)" for r co
    using presets_only_propose [OF ok _ that] a Propose by (simp add: api_action_def)
  then show ?thesis by (simp add: Propose session_propose_def split: prod.split sum.split)
next
  case (Resolve approval_id checker approved now)
  show ?thesis
    using presets_only_resolve [OF ok(2)] ok(2)
    by (simp add: Resolve session_resolve_def split: prod.split sum.split)
next
  case (Tamper what)
  then show ?thesis
    using ok(2) presets_only_rebuilt by (auto simp: session_tamper_def split: sum.split)
next
  case Repair
  then show ?thesis using ok(2) presets_only_rebuilt by (auto simp: session_repair_def Let_def)
next
  case (Reconfigure cap review vouch unvouch)
  then show ?thesis using ok(2) presets_only_rebuilt by (auto simp: session_reconfigure_def)
next
  case Reset
  then show ?thesis using ok(2) presets_only_built by (auto simp: session_reset_def split: sum.split)
qed

text \<open>An action that builds no new co-signer does not look at the knobs, as far as the session goes.\<close>

lemma api_ok_act:
  assumes "api_ok pn s"
  shows "api_ok pn (panel_act pn s a)"
proof -
  from assms obtain T knobs where ok: "session_ok pn T (s\<lparr>se_knobs := knobs\<rparr>)" by (auto simp: api_ok_def)
  have world: "world_ok (se_world s)" and any: "session_ok pn T (s\<lparr>se_cosigner := co, se_knobs := knobs\<rparr>)" for co
    using ok by (simp_all add: session_ok_def)
  have same: "api_ok pn (s\<lparr>se_cosigner := co\<rparr>)" for co using any by (auto simp: api_ok_def)
  have built: "api_ok pn (snd (session_rebuild pn t))" if "world_ok (se_world t)" for t
    using session_rebuild_ok [OF that, of pn] unfolding api_ok_def by (metis session.surjective session.update_convs(2))
  show ?thesis
  proof (cases a)
    case (Propose call proposer now)
    with same show ?thesis by (simp add: session_propose_def split: prod.split sum.split)
  next
    case (Resolve approval_id checker approved now)
    with same assms show ?thesis by (simp add: session_resolve_def split: prod.split sum.split)
  next
    case (Tamper what)
    obtain w where w: "world_tamper what (se_world s) = Inr w" "world_ok w"
      "set (wd_applied w) = insert what (set (wd_applied (se_world s)))" using world by (rule world_ok_tamper)
    have "session_ok pn (insert what T) (s\<lparr>se_world := w, se_knobs := knobs\<rparr>)" if "what \<noteq> Unwire_reader"
      using ok w that by (auto simp: session_ok_def panel_config_def world_ok_def)
    with w built [of "s\<lparr>se_world := w\<rparr>"] show ?thesis by (auto simp: Tamper session_tamper_def api_ok_def)
  next
    case Repair
    let ?s = "s\<lparr>se_world := world_repair (se_world s)\<rparr>"
    have repaired: "world_ok (se_world ?s)" "wd_applied (se_world ?s) = []"
      using world_ok_repair [OF world] by (simp_all add: world_repair_def)
    have "session_ok pn {} (?s\<lparr>se_knobs := knobs\<rparr>)" if "wd_reader_wired (se_world s)"
      using ok repaired that by (auto simp: session_ok_def panel_config_def world_ok_def)
    with repaired built [of ?s] show ?thesis by (auto simp: Repair session_repair_def Let_def api_ok_def)
  next
    case (Reconfigure cap review vouch unvouch)
    with world show ?thesis by (simp add: session_reconfigure_def built)
  next
    case Reset
    obtain s' where "session_build pn pristine default_knobs [] = Inr s'" "session_ok pn (set (wd_applied pristine)) s'"
      using world_ok_pristine by (rule session_build_ok)
    then show ?thesis unfolding Reset api_ok_def
      by (simp add: session_reset_def) (metis session.surjective session.update_convs(2))
  qed
qed

lemma api_runs_ok: "api_runs pl pn s \<Longrightarrow> api_ok pn s \<and> presets_only pn (se_cosigner s)"
proof (induction rule: api_runs.induct)
  case (api_starts s)
  then have "panel_runs pn [] s" by (rule panel_starts)
  from panel_runs_ok [OF this] have "session_ok pn (tampers_of []) (s\<lparr>se_knobs := se_knobs s\<rparr>)" by simp
  with api_starts presets_only_built show ?case unfolding api_ok_def session_init_def by blast
next
  case (api_served s req now)
  have "api_move pn s (snd (panel_post pl pn s req now))" by (rule panel_post_moves)
  moreover have "api_ok pn (s\<lparr>se_knobs := knobs\<rparr>) \<longleftrightarrow> api_ok pn s" for knobs by (simp add: api_ok_def)
  ultimately show ?case
    using api_served.IH api_ok_act presets_only_act unfolding api_move_def by (elim disjE exE conjE) simp_all
qed

section \<open>A panel to post to\<close>

text \<open>A panel that reads JSON, and the requests of its page.\<close>

definition demo_panel_platform :: panel_platform where
  "demo_panel_platform =
     \<lparr>pl_loads = dc_loads reference_decoders,
      pl_minor = (\<lambda>v. case v of L_int n \<Rightarrow> Some (n * USDC) | _ \<Rightarrow> None)\<rparr>"

definition page_posts :: "py_str \<Rightarrow> json \<Rightarrow> http_request" where
  "page_posts path body =
     \<lparr>hr_path = path, hr_content_length = Some (nat_str (length (utf8 (render body)))), hr_stream = utf8 (render body)\<rparr>"

lemma page_body:
  assumes "json_ok body" and "length (utf8 (render body)) < 10000"
  shows "panel_body demo_panel_platform (page_posts path body) = Inr (loaded_of body)"
proof -
  have "length (nat_str (length (utf8 (render body)))) \<le> Suc 3" by (rule length_nat_str) (use assms(2) in simp)
  then have "py_int (nat_str (length (utf8 (render body)))) = Some (int (length (utf8 (render body))))"
    by (intro py_int_nat_str) (simp add: MAX_STR_DIGITS_def)
  moreover have "dc_loads reference_decoders (utf8 (render body)) = Some (loaded_of body)"
    using reference.gateway_loads [OF assms(1)] .
  moreover have "utf8 (render body) \<noteq> []"
    using render_head [of body] utf8_inj [of "render body" "[]"] by auto
  ultimately show ?thesis by (simp add: panel_body_def page_posts_def demo_panel_platform_def)
qed


lemma preset_answered:
  assumes works: "panel_works pn" and start: "session_init pn = Inr s" and preset: "sc \<in> set CATALOGUE"
  obtains outcome co h where
    "cosign (se_config s) (se_cosigner s) (cosigner_reader s) (sn_call sc) AGENT now = (Inr outcome, co)"
    "cs_status outcome = sn_claims sc" "sn_claims sc = Signed \<Longrightarrow> co_signed co = [h]"
proof -
  obtain s' where s': "session_init pn = Inr s'" "session_ok pn {} s'" "se_knobs s' = default_knobs"
    "se_config s' = panel_config pn pristine default_knobs" "co_sink (se_cosigner s') = []"
    "co_settled (se_cosigner s') = {}" "co_pending (se_cosigner s') = []"
    "reverify (se_config s') (cosigner_reader s') = Inr (Some (7, []))" by (rule session_start)
  with start have same: "s' = s" by simp
  let ?evaluated = "onchain_evaluate (decode_effect SAFE (sn_call sc)) (50 * USDC) (Some (5 * USDC)) {} {TOKEN}"
  obtain j where j: "?evaluated = Inr j" "judged_status (oj_verdict j) = sn_claims sc"
    "\<forall>f \<in> set (oj_findings j). detail_ok (of_observed f) \<and> detail_ok (of_limit f)"
    using catalogue_judged preset by (auto simp: claims_met_def)
  have judged: "cosign_judge (se_config s) (sn_call sc) = Inr j"
    using session_judged [OF s'(2), of "sn_call sc"] s'(3) same j(1) by (simp add: default_knobs_def)
  obtain h sig where h: "safe_transaction_hash (pn_library pn) (sn_call sc) (cc_context (se_config s)) 7 = Inr h"
    "hex64 (hex h)" "pn_signer pn h = Some sig" using works by (rule panel_hash)
  obtain outcome co where answered:
    "cosign (se_config s) (se_cosigner s) (cosigner_reader s) (sn_call sc) AGENT now = (Inr outcome, co)"
    "cs_status outcome = judged_status (oj_verdict j)"
    by (rule cosign_fresh_answers [where h = h and sig = sig and nonce = 7 and j = j and cfg = "se_config s"
          and co = "se_cosigner s" and call = "sn_call sc" and proposer = AGENT and now = now and reader = "cosigner_reader s"])
      (use s' same h j(3) judged in \<open>simp_all add: panel_config_def verify_chain_def AGENT_def addr_def\<close>)
  have "co_signed co = [h]" if "sn_claims sc = Signed"
  proof -
    have "oj_verdict j = On_abstain" using that j(2) by (cases "oj_verdict j") simp_all
    moreover have "co_signed (se_cosigner s) = []"
      using s'(1) same by (auto simp: session_init_def session_build_def mk_cosigner_def map_sum_eq_Inr split: if_splits)
    ultimately show ?thesis
      using answered(1) s' same h judged
      by (auto simp: cosign_def cosign_sign_def panel_config_def dest!: record_then_frame(4))
  qed
  with answered j(2) show thesis by (intro that) simp_all
qed

abbreviation over_cap_call :: safe_call where
  "over_cap_call \<equiv> call_of TOKEN (erc20_transfer NEW_VENDOR 900000000) 0 False"

text \<open>The preset above the cap, judged with a higher one.\<close>

lemma over_cap_in_review:
  assumes "900 * USDC \<le> c"
  obtains j where "onchain_evaluate (decode_effect SAFE over_cap_call) c (Some (5 * USDC)) {} {TOKEN} = Inr j"
    "judged_status (oj_verdict j) = Held"
proof -
  have "claims_met (preset [] over_cap_call Held (Some Unbounded_approval))
      (onchain_evaluate (decode_effect SAFE over_cap_call) c (Some (5 * USDC)) {} {TOKEN})"
    using assms
    by (simp add: preset_def decode_panel_call onchain_evaluate_def judge_amount_def claims_met_judge lower_addresses USDC_def)
  with that show thesis by (auto simp: claims_met_def preset_def)
qed

section \<open>Properties\<close>

text \<open>The interface reaches only the presets. Whatever is posted to the panel, in any order and
  with any answers, tampers and bounds, every hash its present co-signer signed is that of one of the
  ten presets, at the account's nonce and on the attested chain.\<close>

theorem api_signs_presets_only:
  assumes "api_runs pl pn s" and "h \<in> set (co_signed (se_cosigner s))"
  shows "\<exists>sc. sc \<in> set CATALOGUE \<and> safe_transaction_hash (pn_library pn) (sn_call sc)
    \<lparr>sx_safe_address = SAFE, sx_chain_id = 8453\<rparr> 7 = Inr h"
  using api_runs_ok [OF assms(1)] assms(2) by (auto simp: presets_only_def preset_hash_def)

theorem api_signs_presets_only_witness:
  "\<exists>s h sc. api_runs demo_panel_platform demo_panel s \<and> co_signed (se_cosigner s) = [h]
     \<and> sc \<in> set CATALOGUE \<and> safe_transaction_hash (pn_library demo_panel) (sn_call sc)
         \<lparr>sx_safe_address = SAFE, sx_chain_id = 8453\<rparr> 7 = Inr h"
proof -
  let ?sc = "preset ''small_transfer'' (call_of TOKEN (erc20_transfer CLOUDFLARE 2000000) 0 False) Signed None"
  let ?body = "JObj [(''scenario'', JStr ''small_transfer'')]"
  let ?req = "page_posts ''/api/propose'' ?body"
  obtain s where start: "session_init demo_panel = Inr s" by (rule session_start)
  have sc: "?sc \<in> set CATALOGUE" "BY_KEY ''small_transfer'' = Some ?sc" "''small_transfer'' \<in> sn_key ` set CATALOGUE"
    by (simp_all add: CATALOGUE_def BY_KEY_def preset_def)
  obtain outcome co h where run:
    "cosign (se_config s) (se_cosigner s) (cosigner_reader s) (sn_call ?sc) AGENT 0 = (Inr outcome, co)"
    "co_signed co = [h]"
    using preset_answered [OF demo_panel_works start sc(1), of 0] by (metis preset_def scenario.select_convs(3))
  have "length (utf8 (render ?body)) < 10000" by code_simp
  then have "panel_body demo_panel_platform ?req = Inr (L_dict [(''scenario'', L_str ''small_transfer'')])"
    using page_body [of ?body "''/api/propose''"] by simp
  then have "snd (panel_post demo_panel_platform demo_panel s ?req 0) = s\<lparr>se_cosigner := co\<rparr>"
    using sc run(1) by (simp add: panel_post_def page_posts_def api_propose_def dict_get_def session_propose_def)
  then have runs: "api_runs demo_panel_platform demo_panel (s\<lparr>se_cosigner := co\<rparr>)"
    using api_served [OF api_starts [OF start]] by metis
  from api_signs_presets_only [OF runs, of h] run(2) runs show ?thesis by (auto simp: exI [of _ "s\<lparr>se_cosigner := co\<rparr>"])
qed



end
