(* ===== verification/Cast_Reader.thy ===== *)
theory Cast_Reader
  imports Cosigner Identity
begin

text \<open>
  \<open>deploy/reference/chain_reader.py\<close>: the reader of the live chain that a deployment gives the
  co-signer. It runs the command-line tool \<open>cast\<close>, which is a parameter: the output of a command line,
  \<open>None\<close> where \<open>subprocess.run\<close> raises. A command is run at most once in a call of the co-signer, so that
  the chain may move between any two of them.
\<close>

section \<open>The reader\<close>

definition GUARD_SLOT :: py_str where
  "GUARD_SLOT = ''0x4a204f620c8c5ccdca3fd54d003badd85ba500436a431f0cbda4f558c93c34c8''"

definition MODULE_GUARD_SLOT :: py_str where
  "MODULE_GUARD_SLOT = ''0xb104e0b93118902c651344349b610029d694cfdec91c589c91ebafbcd0289947''"

definition EIP1967_IMPL_SLOT :: py_str where
  "EIP1967_IMPL_SLOT = ''0x360894a13ba1a3210667c828492db98dca3e2076cc3735a920a3ca505d382bbc''"

record cast_reader =
  ck_rpc_url :: py_str
  ck_cast :: py_str
  ck_implementation_slot :: py_str
  ck_subprocess :: "py_str list \<Rightarrow> py_str option"

definition mk_cast_reader :: "(py_str list \<Rightarrow> py_str option) \<Rightarrow> py_str \<Rightarrow> cast_reader" where
  "mk_cast_reader subprocess rpc_url =
     \<lparr>ck_rpc_url = rpc_url, ck_cast = ''cast'', ck_implementation_slot = EIP1967_IMPL_SLOT, ck_subprocess = subprocess\<rparr>"

definition cast_run :: "cast_reader \<Rightarrow> py_str list \<Rightarrow> py_error + py_str" where
  "cast_run ck args =
     (case ck_subprocess ck (ck_cast ck # args) of
        None \<Rightarrow> Inl External_Error
      | Some stdout \<Rightarrow> Inr (py_strip stdout))"

definition cast_rpc :: "cast_reader \<Rightarrow> py_str list \<Rightarrow> py_error + py_str" where
  "cast_rpc ck args = cast_run ck (args @ [''--rpc-url'', ck_rpc_url ck])"

definition cast_call :: "cast_reader \<Rightarrow> py_str \<Rightarrow> py_str \<Rightarrow> py_error + py_str" where
  "cast_call ck address signature = cast_rpc ck [''call'', address, signature]"

definition cast_storage :: "cast_reader \<Rightarrow> py_str \<Rightarrow> py_str \<Rightarrow> py_error + py_str" where
  "cast_storage ck address slot = cast_rpc ck [''storage'', address, slot]"

definition address_from_word :: "py_str \<Rightarrow> py_str" where
  "address_from_word word =
     (let stripped = remove_0x word;
          body = replicate (64 - length stripped) (CHR ''0'') @ stripped
      in ''0x'' @ drop (length body - 40) body)"

text \<open>\<open>s.split(sep)\<close> for a separator of one character.\<close>

fun split_on :: "char \<Rightarrow> py_str \<Rightarrow> py_str list" where
  "split_on sep [] = [[]]"
| "split_on sep (c # cs) =
     (if c = sep then [] # split_on sep cs else (c # hd (split_on sep cs)) # tl (split_on sep cs))"

definition remove_prefix :: "py_str \<Rightarrow> py_str \<Rightarrow> py_str" where
  "remove_prefix p s = (if take (length p) s = p then drop (length p) s else s)"

definition remove_suffix :: "py_str \<Rightarrow> py_str \<Rightarrow> py_str" where
  "remove_suffix p s = rev (remove_prefix (rev p) (rev s))"

definition parse_addresses :: "py_str \<Rightarrow> py_str list" where
  "parse_addresses rendered =
     (let inner = py_strip (remove_suffix '']'' (remove_prefix ''['' (py_strip rendered)))
      in if inner = [] then [] else map py_strip (split_on (CHR '','') inner))"

text \<open>\<open>s.strip(chars)\<close> for one character.\<close>

definition strip_char :: "char \<Rightarrow> py_str \<Rightarrow> py_str" where
  "strip_char c s = rev (dropWhile ((=) c) (rev (dropWhile ((=) c) s)))"

definition int_or_raise :: "py_str \<Rightarrow> py_error + int" where
  "int_or_raise s = (case py_int s of None \<Rightarrow> Inl Value_Error | Some n \<Rightarrow> Inr n)"

definition mk_safe_chain_state :: "safe_chain_state \<Rightarrow> py_error + safe_chain_state" where
  "mk_safe_chain_state s = (if safe_chain_state_ok s then Inr s else Inl Validation_Error)"

definition cast_read_safe :: "cast_reader \<Rightarrow> py_str \<Rightarrow> py_error + safe_chain_state" where
  "cast_read_safe ck safe_address =
     and_then (and_then (cast_call ck safe_address ''nonce()(uint256)'') int_or_raise) (\<lambda>nonce.
     and_then (cast_call ck safe_address ''getOwners()(address[])'') (\<lambda>owners.
     and_then (and_then (cast_call ck safe_address ''getThreshold()(uint256)'') int_or_raise) (\<lambda>threshold.
     and_then (cast_storage ck safe_address GUARD_SLOT) (\<lambda>guard.
     and_then (cast_storage ck safe_address MODULE_GUARD_SLOT) (\<lambda>module_guard.
     and_then (and_then (cast_rpc ck [''chain-id'']) int_or_raise) (\<lambda>chain_id.
     and_then (cast_call ck safe_address ''VERSION()(string)'') (\<lambda>version.
       mk_safe_chain_state
         \<lparr>ss_nonce = nonce, ss_owners = parse_addresses owners, ss_threshold = threshold,
          ss_transaction_guard = address_from_word guard, ss_module_guard = address_from_word module_guard,
          ss_chain_id = chain_id, ss_safe_version = strip_char (CHR 0x22) version\<rparr>)))))))"

text \<open>\<open>TokenIdentity\<close> with its two patterns.\<close>

definition is_code_hash :: "py_str \<Rightarrow> bool" where
  "is_code_hash s \<longleftrightarrow> take 2 s = ''0x'' \<and> length s = 66 \<and> (\<forall>c \<in> set (drop 2 s). is_any_hex c)"

definition mk_token_identity :: "py_str \<Rightarrow> py_str \<Rightarrow> py_error + token_identity" where
  "mk_token_identity implementation code_hash =
     (if is_address implementation \<and> is_code_hash code_hash
      then Inr \<lparr>ti_implementation = implementation, ti_code_hash = code_hash\<rparr> else Inl Validation_Error)"

definition cast_token_identity :: "cast_reader \<Rightarrow> py_str \<Rightarrow> py_error + token_identity" where
  "cast_token_identity ck token_address =
     and_then (cast_storage ck token_address (ck_implementation_slot ck)) (\<lambda>word.
     and_then (cast_rpc ck [''code'', address_from_word word]) (\<lambda>code.
     and_then (cast_run ck [''keccak'', code]) (\<lambda>code_hash.
       mk_token_identity (address_from_word word) code_hash)))"

text \<open>As the protocol the co-signer is given.\<close>

definition cast_chain_reader :: "cast_reader \<Rightarrow> chain_reader" where
  "cast_chain_reader ck =
     \<lparr>rd_safe = (\<lambda>address. case cast_read_safe ck address of Inl _ \<Rightarrow> None | Inr state \<Rightarrow> Some state),
      rd_token = (\<lambda>address. case cast_token_identity ck address of Inl _ \<Rightarrow> None | Inr token \<Rightarrow> Some token)\<rparr>"

section \<open>Text\<close>

definition visible :: "py_str \<Rightarrow> bool" where
  "visible s \<longleftrightarrow> s \<noteq> [] \<and> \<not> py_space (hd s) \<and> \<not> py_space (last s)"

lemma py_space_newline: "py_space (CHR 0x0A)" "py_space (CHR '' '')"
  by (simp_all add: py_space_def)

lemma strip_right:
  assumes "visible s" and "\<forall>c \<in> set w. py_space c"
  shows "py_strip (s @ w) = s"
proof -
  have "dropWhile py_space (s @ w) = s @ w" using assms(1) by (cases s) (simp_all add: visible_def)
  moreover have "dropWhile py_space (rev (s @ w)) = rev s"
    using assms by (cases s rule: rev_cases) (simp_all add: visible_def dropWhile_append)
  ultimately show ?thesis by (simp add: py_strip_def)
qed

lemma strip_line: "visible s \<Longrightarrow> py_strip (s @ [CHR 0x0A]) = s"
  by (rule strip_right) (simp_all add: py_space_newline)

lemma strip_visible: "visible s \<Longrightarrow> py_strip s = s"
  using strip_right [of s "[]"] by simp

lemma strip_left: "visible s \<Longrightarrow> py_strip (CHR '' '' # s) = s"
  using strip_visible [of s] by (simp add: py_strip_def py_space_newline)

lemma visible_all: "s \<noteq> [] \<Longrightarrow> \<forall>c \<in> set s. \<not> py_space c \<Longrightarrow> visible s"
  by (simp add: visible_def)

lemma split_on_ne: "split_on sep s \<noteq> []"
  by (induction s) simp_all

lemma split_on_word: "sep \<notin> set w \<Longrightarrow> split_on sep w = [w]"
  by (induction w) auto

lemma split_on_append: "sep \<notin> set w \<Longrightarrow> split_on sep (w @ sep # r) = w # split_on sep r"
  by (induction w) auto

text \<open>The owners as the tool prints them.\<close>

fun comma_separated :: "py_str list \<Rightarrow> py_str" where
  "comma_separated [] = []"
| "comma_separated [a] = a"
| "comma_separated (a # b # r) = a @ '', '' @ comma_separated (b # r)"

definition printable :: "py_str \<Rightarrow> bool" where
  "printable a \<longleftrightarrow> visible a \<and> CHR '','' \<notin> set a"

lemma split_comma_separated:
  assumes "\<forall>a \<in> set (b # r). printable a"
  shows "map py_strip (split_on (CHR '','') (comma_separated (b # r))) = b # r
    \<and> map py_strip (split_on (CHR '','') (CHR '' '' # comma_separated (b # r))) = b # r"
  using assms
proof (induction r arbitrary: b)
  case Nil
  then show ?case by (simp add: printable_def split_on_word strip_visible strip_left)
next
  case (Cons c r)
  then have IH: "map py_strip (split_on (CHR '','') (CHR '' '' # comma_separated (c # r))) = c # r" by simp
  have "printable b" using Cons.prems by simp
  then have b: "CHR '','' \<notin> set b" "CHR '','' \<notin> set (CHR '' '' # b)" "py_strip b = b" "py_strip (CHR '' '' # b) = b"
    by (simp_all add: printable_def strip_visible strip_left)
  have "comma_separated (b # c # r) = b @ CHR '','' # CHR '' '' # comma_separated (c # r)" by simp
  with b IH split_on_append [OF b(1), of "CHR '' '' # comma_separated (c # r)"]
    split_on_append [OF b(2), of "CHR '' '' # comma_separated (c # r)"]
  show ?case by simp
qed

lemma comma_separated_visible:
  assumes "\<forall>a \<in> set (b # r). printable a"
  shows "visible (comma_separated (b # r))"
  using assms
proof (induction r arbitrary: b)
  case (Cons c r)
  then have "visible (comma_separated (c # r))" "visible b" by (auto simp: printable_def)
  then show ?case by (simp add: visible_def)
qed (simp add: printable_def)

lemma parse_printed:
  assumes "\<forall>a \<in> set owners. printable a"
  shows "parse_addresses (''['' @ comma_separated owners @ '']'') = owners"
proof -
  let ?s = "''['' @ comma_separated owners @ '']''"
  have "visible ?s" by (simp add: visible_def py_space_def)
  then have "py_strip ?s = ?s" by (rule strip_visible)
  moreover have "remove_suffix '']'' (remove_prefix ''['' ?s) = comma_separated owners"
    by (simp add: remove_suffix_def remove_prefix_def)
  moreover have "map py_strip (split_on (CHR '','') (comma_separated owners)) = owners
      \<and> comma_separated owners \<noteq> [] \<and> py_strip (comma_separated owners) = comma_separated owners"
    if "owners = b # r" for b r
    using assms that split_comma_separated [of b r] comma_separated_visible [of b r]
    by (simp add: strip_visible visible_def [of "comma_separated (b # r)"])
  ultimately show ?thesis
    by (cases owners) (simp_all add: parse_addresses_def py_strip_def)
qed

section \<open>What the tool prints of a chain\<close>

text \<open>The chain as the reader asks for it: the answers of the account, the 32-byte words of the
  storage, the code at an address and the hash function.\<close>

record chain_node =
  nd_nonce :: nat
  nd_owners :: "py_str list"
  nd_threshold :: nat
  nd_chain_id :: nat
  nd_version :: py_str
  nd_word :: "py_str \<Rightarrow> py_str \<Rightarrow> py_str"
  nd_code :: "py_str \<Rightarrow> py_str"
  nd_keccak :: "py_str \<Rightarrow> py_str"

definition low_address :: "py_str \<Rightarrow> py_str" where
  "low_address word = ''0x'' @ drop 24 word"

definition node_state :: "chain_node \<Rightarrow> py_str \<Rightarrow> safe_chain_state" where
  "node_state node safe =
     \<lparr>ss_nonce = int (nd_nonce node), ss_owners = nd_owners node, ss_threshold = int (nd_threshold node),
      ss_transaction_guard = low_address (nd_word node safe GUARD_SLOT),
      ss_module_guard = low_address (nd_word node safe MODULE_GUARD_SLOT),
      ss_chain_id = int (nd_chain_id node), ss_safe_version = nd_version node\<rparr>"

definition node_token :: "chain_node \<Rightarrow> py_str \<Rightarrow> py_str \<Rightarrow> token_identity" where
  "node_token node token slot =
     (let implementation = low_address (nd_word node token slot)
      in \<lparr>ti_implementation = implementation, ti_code_hash = nd_keccak node (nd_code node implementation)\<rparr>)"

text \<open>The documented output, a line each: numbers in decimal, a list of addresses in brackets, a
  string in quotes, a word, code and a hash in hexadecimal.\<close>

definition prints_of :: "chain_node \<Rightarrow> py_str \<Rightarrow> py_str \<Rightarrow> py_str \<Rightarrow> (py_str list \<times> py_str) list" where
  "prints_of node safe token slot =
     [([''call'', safe, ''nonce()(uint256)''], nat_str (nd_nonce node)),
      ([''call'', safe, ''getOwners()(address[])''], ''['' @ comma_separated (nd_owners node) @ '']''),
      ([''call'', safe, ''getThreshold()(uint256)''], nat_str (nd_threshold node)),
      ([''storage'', safe, GUARD_SLOT], ''0x'' @ nd_word node safe GUARD_SLOT),
      ([''storage'', safe, MODULE_GUARD_SLOT], ''0x'' @ nd_word node safe MODULE_GUARD_SLOT),
      ([''chain-id''], nat_str (nd_chain_id node)),
      ([''call'', safe, ''VERSION()(string)''], [CHR 0x22] @ nd_version node @ [CHR 0x22]),
      ([''storage'', token, slot], ''0x'' @ nd_word node token slot),
      ([''code'', low_address (nd_word node token slot)], nd_code node (low_address (nd_word node token slot)))]"

definition tool_prints :: "cast_reader \<Rightarrow> chain_node \<Rightarrow> py_str \<Rightarrow> py_str \<Rightarrow> bool" where
  "tool_prints ck node safe token \<longleftrightarrow>
     list_all (\<lambda>(args, text).
         ck_subprocess ck (ck_cast ck # args @ [''--rpc-url'', ck_rpc_url ck]) = Some (text @ [CHR 0x0A]))
       (prints_of node safe token (ck_implementation_slot ck))
     \<and> (let code = nd_code node (low_address (nd_word node token (ck_implementation_slot ck)))
        in ck_subprocess ck [ck_cast ck, ''keccak'', code] = Some (nd_keccak node code @ [CHR 0x0A]))"

definition is_hex_text :: "py_str \<Rightarrow> bool" where
  "is_hex_text s \<longleftrightarrow> s \<noteq> [] \<and> (\<forall>c \<in> set s. is_any_hex c)"

definition is_word :: "py_str \<Rightarrow> bool" where
  "is_word s \<longleftrightarrow> length s = 64 \<and> is_hex_text s"

definition node_ok :: "chain_node \<Rightarrow> py_str \<Rightarrow> py_str \<Rightarrow> py_str \<Rightarrow> bool" where
  "node_ok node safe token slot \<longleftrightarrow>
     nd_nonce node < 2 ^ 256 \<and> list_all is_address (nd_owners node)
     \<and> 1 \<le> nd_threshold node \<and> nd_threshold node < 2 ^ 256 \<and> 1 \<le> nd_chain_id node \<and> nd_chain_id node < 2 ^ 256
     \<and> nd_version node \<noteq> [] \<and> hd (nd_version node) \<noteq> CHR 0x22 \<and> last (nd_version node) \<noteq> CHR 0x22
     \<and> is_word (nd_word node safe GUARD_SLOT) \<and> is_word (nd_word node safe MODULE_GUARD_SLOT)
     \<and> is_word (nd_word node token slot) \<and> (\<forall>a. visible (nd_code node a)) \<and> (\<forall>code. is_code_hash (nd_keccak node code))"

lemma hex_not_space: "is_any_hex c \<Longrightarrow> \<not> py_space c"
  by (auto simp: is_any_hex_def py_space_def Let_def)

lemma prefixed_visible: "is_hex_text s \<Longrightarrow> visible (''0x'' @ s)"
  using hex_not_space [of "last s"] by (auto simp: is_hex_text_def visible_def py_space_def [of "CHR ''0''"])

lemma hex_tail: "take 2 s = ''0x'' \<Longrightarrow> s = ''0x'' @ drop 2 s"
  using append_take_drop_id [of 2 s] by simp

lemma hex_prefixed_visible:
  assumes "take 2 s = ''0x''" and "2 < length s" and "\<forall>c \<in> set (drop 2 s). is_any_hex c"
  shows "visible s"
proof -
  have "is_hex_text (drop 2 s)" using assms by (simp add: is_hex_text_def)
  from prefixed_visible [OF this] hex_tail [OF assms(1)] show ?thesis by simp
qed

lemma address_printable: "is_address a \<Longrightarrow> printable a"
proof -
  assume a: "is_address a"
  have "CHR '','' \<notin> set (drop 2 a)" using a by (auto simp: is_address_def is_any_hex_def Let_def)
  then have "CHR '','' \<notin> set (''0x'' @ drop 2 a)" by simp
  with a hex_tail [of a] hex_prefixed_visible [of a] show "printable a" by (simp add: is_address_def printable_def)
qed

lemma code_hash_visible: "is_code_hash h \<Longrightarrow> visible h"
  using hex_prefixed_visible by (simp add: is_code_hash_def)

lemma address_of_word:
  assumes "is_word w"
  shows "address_from_word (''0x'' @ w) = low_address w" "is_address (low_address w)"
  using assms in_set_dropD [of _ 24 w]
  by (auto simp: address_from_word_def remove_0x_def is_word_def low_address_def is_address_def is_hex_text_def)

lemma numeral_visible: "visible (nat_str n)"
  by (rule visible_all) (auto dest: digit_not_space bspec [OF nat_str_digits])

lemma py_int_uint256: "n < 2 ^ 256 \<Longrightarrow> py_int (nat_str n) = Some (int n)"
proof -
  assume n: "n < 2 ^ 256"
  have "(2 :: nat) ^ 256 \<le> 10 ^ Suc 77" by simp
  with n have "length (nat_str n) \<le> Suc 77" by (intro length_nat_str) linarith
  then show ?thesis by (intro py_int_nat_str) (simp add: MAX_STR_DIGITS_def)
qed

lemma strip_quotes:
  assumes "s \<noteq> []" "hd s \<noteq> c" "last s \<noteq> c"
  shows "strip_char c ([c] @ s @ [c]) = s"
proof -
  have "dropWhile ((=) c) (s @ [c]) = s @ [c]" using assms(1,2) by (cases s) auto
  moreover have "dropWhile ((=) c) (rev s) = rev s" using assms(1,3) by (cases s rule: rev_cases) auto
  ultimately show ?thesis by (simp add: strip_char_def)
qed

lemma printed_line:
  assumes "tool_prints ck node safe token" and "(args, out) \<in> set (prints_of node safe token (ck_implementation_slot ck))"
    and "visible out"
  shows "cast_rpc ck args = Inr out"
  using assms by (auto simp: tool_prints_def list_all_iff cast_rpc_def cast_run_def strip_line)

lemma printed_safe:
  assumes prints: "tool_prints ck node safe token" and node: "node_ok node safe token (ck_implementation_slot ck)"
  shows "cast_rpc ck [''call'', safe, ''nonce()(uint256)''] = Inr (nat_str (nd_nonce node))"
    "cast_rpc ck [''call'', safe, ''getOwners()(address[])''] = Inr (''['' @ comma_separated (nd_owners node) @ '']'')"
    "cast_rpc ck [''call'', safe, ''getThreshold()(uint256)''] = Inr (nat_str (nd_threshold node))"
    "cast_rpc ck [''storage'', safe, GUARD_SLOT] = Inr (''0x'' @ nd_word node safe GUARD_SLOT)"
    "cast_rpc ck [''storage'', safe, MODULE_GUARD_SLOT] = Inr (''0x'' @ nd_word node safe MODULE_GUARD_SLOT)"
    "cast_rpc ck [''chain-id''] = Inr (nat_str (nd_chain_id node))"
    "cast_rpc ck [''call'', safe, ''VERSION()(string)''] = Inr ([CHR 0x22] @ nd_version node @ [CHR 0x22])"
  using node
  by (auto intro!: printed_line [OF prints] numeral_visible prefixed_visible
      simp: prints_of_def node_ok_def is_word_def simp del: append.simps)
    (simp_all add: visible_def py_space_def)

lemma printed_token:
  assumes prints: "tool_prints ck node safe token" and node: "node_ok node safe token (ck_implementation_slot ck)"
    and impl: "impl = low_address (nd_word node token (ck_implementation_slot ck))"
  shows "cast_rpc ck [''storage'', token, ck_implementation_slot ck] = Inr (''0x'' @ nd_word node token (ck_implementation_slot ck))"
    "cast_rpc ck [''code'', impl] = Inr (nd_code node impl)"
    "cast_run ck [''keccak'', nd_code node impl] = Inr (nd_keccak node (nd_code node impl))"
proof -
  show "cast_rpc ck [''storage'', token, ck_implementation_slot ck] = Inr (''0x'' @ nd_word node token (ck_implementation_slot ck))"
    "cast_rpc ck [''code'', impl] = Inr (nd_code node impl)"
    using node by (auto intro!: printed_line [OF prints] prefixed_visible
        simp: impl prints_of_def node_ok_def is_word_def simp del: append.simps)
  show "cast_run ck [''keccak'', nd_code node impl] = Inr (nd_keccak node (nd_code node impl))"
    using prints node code_hash_visible by (auto simp: impl tool_prints_def Let_def cast_run_def node_ok_def strip_line)
qed

lemma cast_reads_node:
  assumes prints: "tool_prints ck node safe token" and node: "node_ok node safe token (ck_implementation_slot ck)"
  shows "cast_read_safe ck safe = Inr (node_state node safe)"
    "cast_token_identity ck token = Inr (node_token node token (ck_implementation_slot ck))"
proof -
  let ?slot = "ck_implementation_slot ck"
  note words = address_of_word [of "nd_word node safe GUARD_SLOT"] address_of_word [of "nd_word node safe MODULE_GUARD_SLOT"]
    address_of_word [of "nd_word node token ?slot"]
  have owners: "parse_addresses (''['' @ comma_separated (nd_owners node) @ '']'') = nd_owners node"
    using node by (intro parse_printed) (auto simp: node_ok_def list_all_iff address_printable)
  have version: "strip_char (CHR 0x22) ([CHR 0x22] @ nd_version node @ [CHR 0x22]) = nd_version node"
    using node by (intro strip_quotes) (auto simp: node_ok_def)
  show "cast_read_safe ck safe = Inr (node_state node safe)"
    using node words unfolding cast_read_safe_def cast_call_def cast_storage_def printed_safe [OF prints node] and_then_simps owners version
    by (simp add: int_or_raise_def py_int_uint256 mk_safe_chain_state_def safe_chain_state_ok_def node_state_def node_ok_def
        del: append.simps)
  show "cast_token_identity ck token = Inr (node_token node token ?slot)"
    using node words printed_token [OF prints node refl]
    by (simp add: cast_token_identity_def cast_storage_def mk_token_identity_def node_token_def node_ok_def Let_def
        del: append.simps)
qed

lemma reverify_cast:
  assumes "tool_prints ck node safe token" and "node_ok node safe token (ck_implementation_slot ck)"
    and "cc_expected cfg = Some x" and "sx_safe_address (cc_context cfg) = safe" and "xc_token x = token"
  shows "reverify cfg (Some (cast_chain_reader ck))
    = Inr (Some (int (nd_nonce node), mismatches x (node_state node safe) (node_token node token (ck_implementation_slot ck))))"
  using cast_reads_node [OF assms(1,2)] assms(3-5) by (simp add: reverify_def cast_chain_reader_def node_state_def)

text \<open>What the tool has to print for a signature.\<close>

definition tool_attests :: "cast_reader \<Rightarrow> expected_safe_config \<Rightarrow> py_str \<Rightarrow> int \<Rightarrow> bool" where
  "tool_attests ck x safe nonce \<longleftrightarrow>
     (\<exists>out. cast_call ck safe ''nonce()(uint256)'' = Inr out \<and> py_int out = Some nonce)
     \<and> (\<exists>out. cast_call ck safe ''getOwners()(address[])'' = Inr out
          \<and> lower ` set (parse_addresses out) = lower ` xc_owners x)
     \<and> (\<exists>out. cast_call ck safe ''getThreshold()(uint256)'' = Inr out \<and> py_int out = Some (xc_threshold x))
     \<and> (\<exists>word. cast_storage ck safe GUARD_SLOT = Inr word
          \<and> lower (address_from_word word) = lower (xc_transaction_guard x))
     \<and> (\<exists>word. cast_storage ck safe MODULE_GUARD_SLOT = Inr word
          \<and> lower (address_from_word word) = lower (xc_module_guard x))
     \<and> (\<exists>out. cast_rpc ck [''chain-id''] = Inr out \<and> py_int out = Some (xc_chain_id x))
     \<and> (\<exists>out. cast_call ck safe ''VERSION()(string)'' = Inr out \<and> strip_char (CHR 0x22) out = xc_safe_version x)
     \<and> (\<exists>word code h. cast_storage ck (xc_token x) (ck_implementation_slot ck) = Inr word
          \<and> lower (address_from_word word) = lower (ti_implementation (xc_token_identity x))
          \<and> cast_rpc ck [''code'', address_from_word word] = Inr code \<and> cast_run ck [''keccak'', code] = Inr h
          \<and> lower h = lower (ti_code_hash (xc_token_identity x)))"

lemma int_or_raise_Inr: "int_or_raise s = Inr n \<longleftrightarrow> py_int s = Some n"
  by (auto simp: int_or_raise_def split: option.splits)

lemma reverified_attests:
  assumes "reverify cfg (Some (cast_chain_reader ck)) = Inr (Some (nonce, []))"
  shows "\<exists>x. cc_expected cfg = Some x \<and> tool_attests ck x (sx_safe_address (cc_context cfg)) nonce"
proof -
  from assms obtain x state token where x: "cc_expected cfg = Some x"
    and read: "cast_read_safe ck (sx_safe_address (cc_context cfg)) = Inr state" "cast_token_identity ck (xc_token x) = Inr token"
    and attested: "attested x state token" "nonce = ss_nonce state"
    by (rule reverify_no_drift) (auto simp: cast_chain_reader_def split: sum.splits)
  from read attested have "tool_attests ck x (sx_safe_address (cc_context cfg)) nonce"
    by (auto simp: tool_attests_def attested_def cast_read_safe_def cast_token_identity_def and_then_Inr int_or_raise_Inr
        mk_safe_chain_state_def mk_token_identity_def split: if_splits)
  with x show ?thesis by blast
qed

section \<open>A tool to run\<close>

text \<open>A tool that prints the account and the token the co-signer of the demonstration attests.\<close>

definition demo_node :: chain_node where
  "demo_node =
     \<lparr>nd_nonce = 0, nd_owners = [demo_address (CHR ''1'')], nd_threshold = 2, nd_chain_id = 8453,
      nd_version = ''1.5.0'',
      nd_word = (\<lambda>_ slot. replicate 24 (CHR ''0'') @ replicate 40 (if slot = EIP1967_IMPL_SLOT then CHR ''d'' else CHR ''0'')),
      nd_code = (\<lambda>_. ''0x6080''), nd_keccak = (\<lambda>_. ''0x'' @ replicate 64 (CHR ''e''))\<rparr>"

abbreviation demo_safe :: py_str where "demo_safe \<equiv> demo_address (CHR ''a'')"
abbreviation demo_token :: py_str where "demo_token \<equiv> demo_address (CHR ''b'')"

definition demo_cast :: cast_reader where
  "demo_cast = mk_cast_reader
     (\<lambda>command. map_option (\<lambda>out. out @ [CHR 0x0A])
        (map_of ((''cast'' # [''keccak'', ''0x6080''], ''0x'' @ replicate 64 (CHR ''e''))
            # map (\<lambda>(args, out). (''cast'' # args @ [''--rpc-url'', ''http://node:8545''], out))
                (prints_of demo_node demo_safe demo_token EIP1967_IMPL_SLOT)) command))
     ''http://node:8545''"

lemma slots_distinct: "distinct [GUARD_SLOT, MODULE_GUARD_SLOT, EIP1967_IMPL_SLOT]"
  by (simp add: GUARD_SLOT_def MODULE_GUARD_SLOT_def EIP1967_IMPL_SLOT_def)

lemma demo_prints: "tool_prints demo_cast demo_node demo_safe demo_token"
proof -
  let ?table = "map (\<lambda>(args, out). (''cast'' # args @ [''--rpc-url'', ''http://node:8545''], out))
    (prints_of demo_node demo_safe demo_token EIP1967_IMPL_SLOT)"
  have "demo_safe \<noteq> demo_token" by (simp add: demo_address_def)
  then have "distinct (map fst ?table)"
    using slots_distinct by (simp add: prints_of_def)
  then have look: "map_of ?table (''cast'' # args @ [''--rpc-url'', ''http://node:8545'']) = Some out"
    if "(args, out) \<in> set (prints_of demo_node demo_safe demo_token EIP1967_IMPL_SLOT)" for args out
    by (rule map_of_is_SomeI) (use that in force)
  show ?thesis
    using look
    by (auto simp: tool_prints_def list_all_iff demo_cast_def mk_cast_reader_def Let_def) (auto simp: demo_node_def)
qed

lemma demo_node_ok: "node_ok demo_node demo_safe demo_token (ck_implementation_slot demo_cast)"
proof -
  have "is_word (replicate 24 (CHR ''0'') @ replicate 40 (CHR ''d''))" "is_word (replicate 24 (CHR ''0'') @ replicate 40 (CHR ''0''))"
    "is_address (demo_address (CHR ''1''))" "is_code_hash (''0x'' @ replicate 64 (CHR ''e''))" "visible ''0x6080''"
    by code_simp+
  then show ?thesis
    by (simp add: node_ok_def demo_node_def demo_cast_def mk_cast_reader_def)
qed

lemma demo_attested:
  "node_state demo_node demo_safe = \<lparr>ss_nonce = 0, ss_owners = [demo_address (CHR ''1'')], ss_threshold = 2,
     ss_transaction_guard = ZERO_ADDRESS, ss_module_guard = ZERO_ADDRESS, ss_chain_id = 8453, ss_safe_version = ''1.5.0''\<rparr>"
  "node_token demo_node demo_token (ck_implementation_slot demo_cast) = demo_token_identity"
  using slots_distinct
  by (simp_all add: node_state_def node_token_def demo_node_def low_address_def ZERO_ADDRESS_def demo_token_identity_def
      demo_address_def demo_cast_def mk_cast_reader_def)

lemma demo_reverify_cast: "reverify demo_config (Some (cast_chain_reader demo_cast)) = Inr (Some (0, []))"
proof -
  have "reverify demo_config (Some (cast_chain_reader demo_cast)) = Inr (Some (int (nd_nonce demo_node),
      mismatches demo_expected (node_state demo_node demo_safe) (node_token demo_node demo_token (ck_implementation_slot demo_cast))))"
    by (rule reverify_cast [OF demo_prints demo_node_ok]) (simp_all add: demo_config_def demo_expected_def)
  then show ?thesis
    by (simp add: mismatches_empty demo_attested attested_def demo_expected_def) (simp add: demo_node_def)
qed

section \<open>Properties\<close>

text \<open>[C31] The reader reads the chain. When the tool prints, in its documented form, what an account
  and a token are, the reader gives back exactly that, and the co-signer that re-verifies through
  it sees the account's nonce and the mismatches of this account with the attested one.\<close>

theorem cast_reader_reads_chain:
  assumes prints: "tool_prints ck node safe token" and node: "node_ok node safe token (ck_implementation_slot ck)"
    and cfg: "cc_expected cfg = Some x" "sx_safe_address (cc_context cfg) = safe" "xc_token x = token"
  shows "cast_read_safe ck safe = Inr (node_state node safe)
    \<and> cast_token_identity ck token = Inr (node_token node token (ck_implementation_slot ck))
    \<and> reverify cfg (Some (cast_chain_reader ck))
        = Inr (Some (int (nd_nonce node),
            mismatches x (node_state node safe) (node_token node token (ck_implementation_slot ck))))"
  using cast_reads_node [OF prints node] reverify_cast [OF prints node cfg] by simp

theorem cast_reader_reads_chain_witness:
  "\<exists>state. cast_read_safe demo_cast demo_safe = Inr state \<and> ss_nonce state = 0 \<and> ss_owners state = [demo_address (CHR ''1'')]
     \<and> cast_token_identity demo_cast demo_token = Inr demo_token_identity"
proof -
  have "cc_expected demo_config = Some demo_expected" "sx_safe_address (cc_context demo_config) = demo_safe"
    "xc_token demo_expected = demo_token" by (simp_all add: demo_config_def demo_expected_def)
  from cast_reader_reads_chain [OF demo_prints demo_node_ok this] show ?thesis unfolding demo_attested by auto
qed

text \<open>[C30] A co-signature over the live chain. Whatever the tool prints, and however the chain moves
  between two of its commands, the co-signer hands a hash to the signer only when every command
  succeeded and printed what the attested configuration says: the chain, the version, the owners,
  the threshold, both guards from their slots, and the implementation of the token with the hash
  of its code. The hash is that of the proposal at the printed nonce, and for an answered review
  that of the held transaction, which was held at this nonce.\<close>

theorem cast_signature_needs_chain:
  assumes new: "co_signed co' \<noteq> co_signed co"
    and step: "cosign cfg co (Some (cast_chain_reader ck)) call proposer now = (r, co')
      \<or> cosign_resolve cfg co (Some (cast_chain_reader ck)) a verdict now = (r, co')"
  shows "\<exists>x nonce h. cc_expected cfg = Some x \<and> tool_attests ck x (sx_safe_address (cc_context cfg)) nonce
    \<and> co_signed co' = co_signed co @ [h]
    \<and> (safe_transaction_hash (cc_library cfg) call (cc_context cfg) nonce = Inr h
       \<or> (\<exists>held. map_of (co_pending co) a = Some held \<and> ho_tx_hash held = h \<and> ho_nonce held = nonce
            \<and> answers_approval verdict (ho_approval held) now))"
  using step
proof
  assume "cosign cfg co (Some (cast_chain_reader ck)) call proposer now = (r, co')"
  then show ?thesis
  proof (cases rule: cosign_cases)
    case (held nonce h j)
    with cosign_hold_frame [OF held(5)] new show ?thesis by simp
  next
    case (signed nonce h j sig)
    with reverified_attests [OF signed(1)] show ?thesis by blast
  qed (use new in simp)
next
  assume "cosign_resolve cfg co (Some (cast_chain_reader ck)) a verdict now = (r, co')"
  then show ?thesis
  proof (cases rule: cosign_resolve_cases)
    case (granted nonce held)
    then have "co_signed co' = co_signed co @ [ho_tx_hash held]" using new by (simp split: if_splits)
    with granted(1,3,5) reverified_attests [OF granted(2)] show ?thesis by blast
  qed (use new in simp_all)
qed

theorem cast_signature_needs_chain_witness:
  "\<exists>r co' nonce. cosign demo_config demo_cosigner (Some (cast_chain_reader demo_cast)) (demo_transfer 500) ''agent'' 0 = (r, co')
     \<and> co_signed co' = [demo_hash] \<and> tool_attests demo_cast demo_expected demo_safe nonce"
proof -
  have "cosign demo_config demo_cosigner (Some (cast_chain_reader demo_cast)) (demo_transfer 500) ''agent'' 0
      = cosign demo_config demo_cosigner (Some (demo_live 0)) (demo_transfer 500) ''agent'' 0"
    by (simp add: cosign_def demo_reverify demo_reverify_cast)
  with demo_cosign_signs obtain r co' where run: "cosign demo_config demo_cosigner (Some (cast_chain_reader demo_cast))
      (demo_transfer 500) ''agent'' 0 = (r, co')" "co_signed co' = [demo_hash]" by auto
  have "co_signed co' \<noteq> co_signed demo_cosigner" using run(2) by (simp add: demo_cosigner_def)
  from cast_signature_needs_chain [OF this, of demo_config demo_cast "demo_transfer 500" "''agent''" 0 r "[]" undefined] run
  show ?thesis by (auto simp: demo_config_def)
qed

end
