(* ===== verification/Approver_Panel.thy ===== *)
theory Approver_Panel
  imports Cosigner Client_Gateway
begin

text \<open>
  \<open>deploy/reference/approver\<close>: the two ends a human answers held reviews from, the panel that a browser
  talks to (\<open>panel.py\<close>) and the command line (\<open>console.py\<close>). Both hold the checker's certificate and
  speak to the approver's listener of theory \<open>Approver\<close>. Texts of errors and the page are left out.
\<close>

section \<open>The channel\<close>

text \<open>\<open>http.client\<close> over TLS: whether the certificates load and the connection is made without \<open>OSError\<close>,
  and what a request is answered.\<close>

datatype channel_answer =
    Channel_down
  | Channel_raises
  | Channel_answered int bytes

record channel =
  ch_opens :: bool
  ch_send :: "py_str \<Rightarrow> py_str \<Rightarrow> bytes option \<Rightarrow> channel_answer"

text \<open>\<open>putrequest\<close> raises on a blank or a control character, and on what is not ASCII.\<close>

definition path_sendable :: "py_str \<Rightarrow> bool" where
  "path_sendable path \<longleftrightarrow> (\<forall>c \<in> set path. 32 < (of_char c :: nat) \<and> (of_char c :: nat) < 127)"

datatype proxied =
    Proxy_os_error
  | Proxy_raises
  | Proxied int loaded

text \<open>\<open>_proxy\<close> and \<open>_request\<close>.\<close>

definition proxy ::
  "(bytes \<Rightarrow> loaded option) \<Rightarrow> channel \<Rightarrow> py_str \<Rightarrow> py_str \<Rightarrow> bytes option \<Rightarrow> proxied" where
  "proxy loads ch verb path body =
     (if \<not> ch_opens ch then Proxy_os_error
      else if \<not> path_sendable path then Proxy_raises
      else case ch_send ch verb path body of
          Channel_down \<Rightarrow> Proxy_os_error
        | Channel_raises \<Rightarrow> Proxy_raises
        | Channel_answered status payload \<Rightarrow>
            (case loads payload of None \<Rightarrow> Proxy_raises | Some v \<Rightarrow> Proxied status v))"

definition answer_body :: "py_str \<Rightarrow> py_str \<Rightarrow> bytes" where
  "answer_body answer proposal =
     utf8 (dumps_spaced (JObj [(''answer'', JStr answer), (''proposal'', JStr proposal)]))"

definition answer_review ::
  "(bytes \<Rightarrow> loaded option) \<Rightarrow> channel \<Rightarrow> py_str \<Rightarrow> py_str \<Rightarrow> py_str \<Rightarrow> proxied" where
  "answer_review loads ch approval_id answer proposal =
     proxy loads ch ''POST'' (''/reviews/'' @ approval_id) (Some (answer_body answer proposal))"

section \<open>The panel\<close>

text \<open>\<open>str(value)\<close>; of a float and of a container it is a parameter.\<close>

fun str_of :: "(loaded \<Rightarrow> py_str) \<Rightarrow> loaded \<Rightarrow> py_str" where
  "str_of repr (L_str s) = s"
| "str_of repr (L_int i) = int_str i"
| "str_of repr (L_bool b) = (if b then ''True'' else ''False'')"
| "str_of repr L_null = ''None''"
| "str_of repr v = repr v"

datatype panel_response =
    Panel_page
  | Panel_error int
  | Panel_relayed int loaded

text \<open>The first \<open>try\<close> of \<open>do_POST\<close>: the id, the answer and the proposal of the body.\<close>

definition panel_request ::
  "(bytes \<Rightarrow> loaded option) \<Rightarrow> (loaded \<Rightarrow> py_str) \<Rightarrow> http_request \<Rightarrow> py_error + py_str \<times> py_str \<times> py_str" where
  "panel_request loads repr req =
     (case py_int (case hr_content_length req of None \<Rightarrow> ''0'' | Some header \<Rightarrow> header) of
        None \<Rightarrow> Inl Value_Error
      | Some n \<Rightarrow>
          (case loads (if n < 0 then hr_stream req else take (nat n) (hr_stream req)) of
             None \<Rightarrow> Inl Value_Error
           | Some (L_dict kvs) \<Rightarrow>
               (case (map_of kvs ''approval_id'', map_of kvs ''answer'', map_of kvs ''proposal'') of
                  (Some i, Some a, Some p) \<Rightarrow> Inr (str_of repr i, str_of repr a, str_of repr p)
                | _ \<Rightarrow> Inl Key_Error)
           | Some _ \<Rightarrow> Inl Type_Error))"

definition relayed :: "proxied \<Rightarrow> py_error + panel_response" where
  "relayed r =
     (case r of
        Proxy_os_error \<Rightarrow> Inr (Panel_error 502)
      | Proxy_raises \<Rightarrow> Inl External_Error
      | Proxied status v \<Rightarrow> Inr (Panel_relayed status v))"

definition approver_panel_post ::
  "(bytes \<Rightarrow> loaded option) \<Rightarrow> (loaded \<Rightarrow> py_str) \<Rightarrow> channel \<Rightarrow> http_request \<Rightarrow> py_error + panel_response" where
  "approver_panel_post loads repr ch req =
     (if hr_path req \<noteq> ''/api/answer'' then Inr (Panel_error 404)
      else case panel_request loads repr req of
          Inl e \<Rightarrow> if e \<in> {Value_Error, Key_Error} then Inr (Panel_error 400) else Inl e
        | Inr (approval_id, answer, proposal) \<Rightarrow> relayed (answer_review loads ch approval_id answer proposal))"

definition approver_panel_get :: "(bytes \<Rightarrow> loaded option) \<Rightarrow> channel \<Rightarrow> py_str \<Rightarrow> py_error + panel_response" where
  "approver_panel_get loads ch path =
     (if path = ''/'' then Inr Panel_page
      else if path = ''/api/reviews'' then relayed (proxy loads ch ''GET'' ''/reviews'' None)
      else Inr (Panel_error 404))"

section \<open>The console\<close>

text \<open>\<open>main\<close>, with its exit code and the answer it prints. The network is a channel for each host and
  port; an exception ends the program.\<close>

datatype console_result =
    Console_usage
  | Console_raises
  | Console_printed int loaded

definition printed :: "proxied \<Rightarrow> console_result" where
  "printed r = (case r of Proxied status v \<Rightarrow> Console_printed status v | _ \<Rightarrow> Console_raises)"

definition console_main ::
  "(bytes \<Rightarrow> loaded option) \<Rightarrow> (py_str \<Rightarrow> int \<Rightarrow> channel) \<Rightarrow> py_str list \<Rightarrow> console_result" where
  "console_main loads net argv =
     (if 4 \<le> length argv \<and> argv ! 1 = ''list''
      then (case py_int (argv ! 3) of
              None \<Rightarrow> Console_raises
            | Some port \<Rightarrow> printed (proxy loads (net (argv ! 2) port) ''GET'' ''/reviews'' None))
      else if length argv = 7 \<and> argv ! 1 = ''answer'' \<and> argv ! 4 \<in> {''approve'', ''decline''}
      then (case py_int (argv ! 3) of
              None \<Rightarrow> Console_raises
            | Some port \<Rightarrow> printed (answer_review loads (net (argv ! 2) port) (argv ! 5) (argv ! 4) (argv ! 6)))
      else Console_usage)"

section \<open>The listener at the other end\<close>

text \<open>The handlers of the approver's listener behind the channel, as \<open>dial\<close> has those of the agents';
  a handler that raises closes the connection, which is an \<open>OSError\<close>.\<close>

definition listener_answer :: "py_error + http_response \<Rightarrow> channel_answer" where
  "listener_answer r =
     (case r of
        Inl e \<Rightarrow> Channel_down
      | Inr response \<Rightarrow> Channel_answered (hs_status response) (utf8 (dumps_spaced (hs_payload response))))"

definition approver_listener ::
  "date_format \<Rightarrow> decoders \<Rightarrow> 's authorization \<Rightarrow> identity \<Rightarrow> datetime \<Rightarrow> channel" where
  "approver_listener isoformat dc authorization ident now =
     \<lparr>ch_opens = True,
      ch_send = (\<lambda>verb path body.
        listener_answer
          (if verb = ''GET'' then Inr (approver_get isoformat authorization ident path)
           else fst (approver_post dc authorization ident (client_post path (case body of None \<Rightarrow> [] | Some b \<Rightarrow> b)) now)))\<rparr>"

text \<open>The service after an answer was sent.\<close>

definition after_answer ::
  "decoders \<Rightarrow> 's authorization \<Rightarrow> identity \<Rightarrow> datetime \<Rightarrow> py_str \<Rightarrow> py_str \<Rightarrow> py_str \<Rightarrow> 's authorization" where
  "after_answer dc authorization ident now approval_id answer proposal =
     snd (approver_post dc authorization ident (client_post (''/reviews/'' @ approval_id) (answer_body answer proposal)) now)"

text \<open>What the two ends rely on: \<open>json.loads\<close> reads what \<open>json.dumps\<close> wrote, and a digest validates when
  its text does.\<close>

locale approver_ends =
  fixes dc :: decoders
  assumes listener_loads: "json_ok j \<Longrightarrow> dc_loads dc (utf8 (dumps_spaced j)) = Some (loaded_of j)"
    and listener_digest: "mk_proposal_digest p = Inr d \<Longrightarrow> dc_proposal dc (L_str p) = Some d"
begin

lemma answer_read:
  assumes "mk_proposal_digest proposal = Inr d" and "answer \<in> ANSWERS"
  shows "read_body dc MAX_RESOLVE_BODY_BYTES (client_post path (answer_body answer proposal))
    = Inr [(''answer'', L_str answer), (''proposal'', L_str proposal)]"
proof -
  have "length proposal = 64" using assms(1) by (auto simp: mk_proposal_digest_def hex64_def split: if_splits)
  moreover have "length answer \<le> 7" using assms(2) by (auto simp: ANSWERS_def)
  moreover have "dumps_spaced (JObj [(''answer'', JStr answer), (''proposal'', JStr proposal)])
      = ''{'' @ json_str ''answer'' @ '': '' @ json_str answer @ '', '' @ json_str ''proposal'' @ '': '' @ json_str proposal @ ''}''"
    by (simp add: dumps_spaced_def)
  ultimately have "length (dumps_spaced (JObj [(''answer'', JStr answer), (''proposal'', JStr proposal)])) \<le> 1000"
    using json_str_length [of answer] json_str_length [of proposal] json_str_length [of "''answer''"]
      json_str_length [of "''proposal''"] by simp
  then have short: "length (answer_body answer proposal) \<le> 2000"
    using utf8_length [of "dumps_spaced (JObj [(''answer'', JStr answer), (''proposal'', JStr proposal)])"]
    by (simp add: answer_body_def)
  then have "length (nat_str (length (answer_body answer proposal))) \<le> Suc 3"
    by (intro length_nat_str) simp
  then have "py_int (nat_str (length (answer_body answer proposal))) = Some (int (length (answer_body answer proposal)))"
    by (intro py_int_nat_str) (simp add: MAX_STR_DIGITS_def)
  with short show ?thesis
    by (simp add: read_body_def client_post_def MAX_RESOLVE_BODY_BYTES_def answer_body_def listener_loads)
qed

lemma answer_reaches:
  assumes "mk_proposal_digest proposal = Inr d" and "answer \<in> ANSWERS" and "approval_id \<noteq> []"
  shows "approver_post dc authorization (Derived checker) (client_post (''/reviews/'' @ approval_id) (answer_body answer proposal)) now
    = approver_resolve authorization checker approval_id d (answer = ''approve'') now"
  using assms answer_read [OF assms(1,2)]
  by (simp add: approver_post_def checker_of_def REVIEWS_PREFIX_def PRINCIPAL_FIELDS_def has_field_def dict_get_def
      listener_digest client_post_def)

lemma resolve_payload_ok:
  assumes "fst (approver_resolve authorization checker approval_id d approved now) = Inr response"
  shows "json_ok (hs_payload response)"
  using assms
  by (auto simp: approver_resolve_def refused_def respond_def resolution_json_def split: option.splits prod.splits sum.splits if_splits)

lemma answered_review:
  assumes "mk_proposal_digest proposal = Inr d" and "answer \<in> ANSWERS" and "approval_id \<noteq> []" and "path_sendable approval_id"
  shows "answer_review (dc_loads dc) (approver_listener isoformat dc authorization (Derived checker) now) approval_id answer proposal
    = (case fst (approver_resolve authorization checker approval_id d (answer = ''approve'') now) of
         Inl e \<Rightarrow> Proxy_os_error
       | Inr response \<Rightarrow> Proxied (hs_status response) (loaded_of (hs_payload response)))"
proof -
  have "path_sendable (''/reviews/'' @ approval_id)" using assms(4) by (simp add: path_sendable_def)
  with answer_reaches [OF assms(1-3), of authorization checker now] resolve_payload_ok [of authorization checker approval_id d]
  show ?thesis
    by (simp add: answer_review_def proxy_def approver_listener_def listener_answer_def listener_loads split: sum.split)
qed

end

section \<open>Ends that keep to it\<close>

definition human_decoders :: decoders where
  "human_decoders = reference_decoders
     \<lparr>dc_proposal := (\<lambda>v. case v of
        L_str p \<Rightarrow> (case mk_proposal_digest p of Inl _ \<Rightarrow> None | Inr d \<Rightarrow> Some d)
      | _ \<Rightarrow> None)\<rparr>"

interpretation human: approver_ends human_decoders
  by unfold_locales
    (simp_all add: human_decoders_def reference_decoders_def reference_loads_def json_loads_dumps_spaced)

section \<open>Properties\<close>

text \<open>[C29] A human's answer is the checker's. With the listener at the other end of the channel, what a
  browser posts to the panel as the answer to a review, and what the command line is told to answer,
  is that very answer of the certificate's principal to that review about that proposal, once: the
  panel and the console report what the authorization service made of it, or that the channel
  failed when the service raised, and the service is as this one answer leaves it.\<close>

theorem human_answer_is_the_checkers:
  assumes ends: "approver_ends dc" and path: "hr_path req = ''/api/answer''"
    and request: "panel_request (dc_loads dc) repr req = Inr (approval_id, answer, proposal)"
    and digest: "mk_proposal_digest proposal = Inr d" and answer: "answer \<in> ANSWERS"
    and review: "approval_id \<noteq> []" "path_sendable approval_id" and port: "py_int port_text = Some port"
  shows "let listener = approver_listener isoformat dc authorization (Derived checker) now;
             (r, after) = approver_resolve authorization checker approval_id d (answer = ''approve'') now
         in approver_panel_post (dc_loads dc) repr listener req
              = Inr (case r of Inl e \<Rightarrow> Panel_error 502
                     | Inr response \<Rightarrow> Panel_relayed (hs_status response) (loaded_of (hs_payload response)))
          \<and> console_main (dc_loads dc) (\<lambda>host p. listener) [prog, ''answer'', host, port_text, answer, approval_id, proposal]
              = (case r of Inl e \<Rightarrow> Console_raises
                 | Inr response \<Rightarrow> Console_printed (hs_status response) (loaded_of (hs_payload response)))
          \<and> after_answer dc authorization (Derived checker) now approval_id answer proposal = after"
proof -
  obtain r after where r: "approver_resolve authorization checker approval_id d (answer = ''approve'') now = (r, after)"
    by fastforce
  let ?listener = "approver_listener isoformat dc authorization (Derived checker) now"
  have sent: "answer_review (dc_loads dc) ?listener approval_id answer proposal = (case r of Inl e \<Rightarrow> Proxy_os_error
       | Inr response \<Rightarrow> Proxied (hs_status response) (loaded_of (hs_payload response)))"
    using approver_ends.answered_review [OF ends digest answer review, of isoformat authorization checker now] r by simp
  have after: "after_answer dc authorization (Derived checker) now approval_id answer proposal = after"
    using approver_ends.answer_reaches [OF ends digest answer review(1), of authorization checker now] r by (simp add: after_answer_def)
  have "answer \<in> {''approve'', ''decline''}" using answer by (simp add: ANSWERS_def)
  then have "console_main (dc_loads dc) (\<lambda>host p. ?listener) [prog, ''answer'', host, port_text, answer, approval_id, proposal]
      = printed (answer_review (dc_loads dc) ?listener approval_id answer proposal)"
    using port by (simp add: console_main_def numeral_eq_Suc)
  with sent after path request show ?thesis
    by (simp add: r approver_panel_post_def relayed_def printed_def split: sum.split)
qed

lemma fingerprint_sendable: "is_fingerprint a \<Longrightarrow> a \<noteq> [] \<and> path_sendable a"
proof -
  assume a: "is_fingerprint a"
  then have "path_sendable (take 3 a)" by (simp add: is_fingerprint_def path_sendable_def)
  moreover have "path_sendable (drop 3 a)"
    using a by (auto simp: is_fingerprint_def hex64_def path_sendable_def is_hex_char_def Let_def)
  moreover have "path_sendable (u @ v) \<longleftrightarrow> path_sendable u \<and> path_sendable v" for u v
    by (auto simp: path_sendable_def)
  from this [of "take 3 a" "drop 3 a"] have "path_sendable a \<longleftrightarrow> path_sendable (take 3 a) \<and> path_sendable (drop 3 a)" by simp
  ultimately show ?thesis using a by (auto simp: is_fingerprint_def)
qed

text \<open>What the page posts when the human clicks.\<close>

definition clicked :: "py_str \<Rightarrow> py_str \<Rightarrow> py_str \<Rightarrow> http_request" where
  "clicked approval_id proposal answer =
     (let body = utf8 (render (JObj [(''approval_id'', JStr approval_id), (''proposal'', JStr proposal),
                                     (''answer'', JStr answer)]))
      in \<lparr>hr_path = ''/api/answer'', hr_content_length = Some (nat_str (length body)), hr_stream = body\<rparr>)"

lemma clicked_read:
  assumes "is_fingerprint approval_id" and "hex64 proposal" and "answer \<in> ANSWERS"
  shows "panel_request (dc_loads human_decoders) repr (clicked approval_id proposal answer) = Inr (approval_id, answer, proposal)"
proof -
  let ?body = "JObj [(''approval_id'', JStr approval_id), (''proposal'', JStr proposal), (''answer'', JStr answer)]"
  have "length approval_id \<le> 67" "length proposal = 64" "length answer \<le> 7"
    using assms fingerprint_length by (auto simp: hex64_def ANSWERS_def)
  then have "length (render ?body) \<le> 1500"
    using json_str_length [of approval_id] json_str_length [of proposal] json_str_length [of answer]
      json_str_length [of "''approval_id''"] json_str_length [of "''proposal''"] json_str_length [of "''answer''"] by simp
  then have "length (utf8 (render ?body)) < 10 ^ Suc 3" using utf8_length [of "render ?body"] by simp
  then have "length (nat_str (length (utf8 (render ?body)))) \<le> Suc 3" by (rule length_nat_str)
  then have "py_int (nat_str (length (utf8 (render ?body)))) = Some (int (length (utf8 (render ?body))))"
    by (intro py_int_nat_str) (simp add: MAX_STR_DIGITS_def)
  moreover have "dc_loads human_decoders (utf8 (render ?body)) = Some (loaded_of ?body)"
    using reference.gateway_loads [of ?body] by (simp add: human_decoders_def)
  ultimately show ?thesis by (simp add: panel_request_def clicked_def Let_def)
qed

text \<open>A human clicks approve on the held review of the demonstration, and the payment is sent.\<close>

theorem human_answer_is_the_checkers_witness:
  "\<exists>(sv :: memory_sink service) after v. gw_dispatched (sv_gateway sv) = []
     \<and> approver_panel_post (dc_loads human_decoders) (\<lambda>_. [])
         (approver_listener int_str human_decoders (Some (demo_deployment memory_sink_ops, sv)) (Derived ''ann'') 1)
         (clicked demo_approval (pd_value (cv_proposal (demo_answer True))) ''approve'') = Inr v
     \<and> after_answer human_decoders (Some (demo_deployment memory_sink_ops, sv)) (Derived ''ann'') 1 demo_approval
         ''approve'' (pd_value (cv_proposal (demo_answer True))) = Some (demo_deployment memory_sink_ops, after)
     \<and> gw_dispatched (sv_gateway after) = [completed (demo_request 30000) demo_key 1]"
proof (rule demo_approved)
  fix sv :: "memory_sink service" and r sv'
  assume run: "resolve_review (demo_deployment memory_sink_ops) sv demo_approval (demo_answer True) 1 = (r, sv')"
    and gw: "gw_dispatched (sv_gateway sv) = []" "gw_dispatched (sv_gateway sv') = [completed (demo_request 30000) demo_key 1]"
  let ?dep = "demo_deployment memory_sink_ops" and ?d = "cv_proposal (demo_answer True)"
  have digest: "mk_proposal_digest (pd_value ?d) = Inr ?d" "hex64 (pd_value ?d)"
    by (simp_all add: mk_proposal_digest_def demo_answer_def) (simp add: compute_proposal_digest_def compute_proposal_digest_v_def)
  have fp: "is_fingerprint demo_approval" by (simp add: demo_approval_def)
  have approve: "''approve'' \<in> ANSWERS" by (simp add: ANSWERS_def)
  obtain q where resolved: "approver_resolve (Some (?dep, sv)) ''ann'' demo_approval ?d True 1 = (q, Some (?dep, sv'))"
    using run by (cases r) (simp_all add: approver_resolve_def demo_answer_def)
  have port: "py_int ''8788'' = Some 8788" by code_simp
  have "hr_path (clicked demo_approval (pd_value ?d) ''approve'') = ''/api/answer''" by (simp add: clicked_def Let_def)
  from human_answer_is_the_checkers [where repr = "\<lambda>_. []" and isoformat = int_str and authorization = "Some (?dep, sv)"
      and checker = "''ann''" and now = 1, OF human.approver_ends_axioms this clicked_read [OF fp digest(2) approve] digest(1)
      approve fingerprint_sendable [OF fp, THEN conjunct1] fingerprint_sendable [OF fp, THEN conjunct2] port] resolved gw
  show ?thesis by (auto simp: Let_def)
qed

end
