(* ===== verification/CI_Gates.thy ===== *)
theory CI_Gates
  imports Client_Gateway Isolation
begin

text \<open>
  \<open>tools/ci_gates.py\<close>: which conditional jobs of the build a change needs, and whether every job that
  had to run did. \<open>git\<close>, the environment and the YAML reader are parameters. What is printed is left out;
  a problem and a reason are values of a datatype in place of their wording.
\<close>

section \<open>The repository\<close>

text \<open>What \<open>subprocess.run\<close> captures, and an entry of \<open>slices:\<close> in a manifest with its \<open>id\<close>, \<open>gates\<close>
  and \<open>scope\<close>.\<close>

record completed =
  cp_code :: int
  cp_stdout :: py_str
  cp_stderr :: py_str

record slice_entry =
  se_id :: "py_str option"
  se_gates :: "py_str list"
  se_scope :: "py_str list"

text \<open>\<open>os.environ.get\<close>; \<open>git\<close> by its arguments, \<open>None\<close> where there is none; the slices of the roadmap,
  \<open>None\<close> where reading it raises, and those of the other manifests, in the order of their names.\<close>

record repository =
  rp_environ :: "py_str \<Rightarrow> py_str option"
  rp_git :: "(py_str list \<Rightarrow> completed) option"
  rp_roadmap :: "slice_entry list option"
  rp_manifests :: "slice_entry list"

definition git_text :: "repository \<Rightarrow> py_str list \<Rightarrow> py_error + int \<times> py_str" where
  "git_text rp args =
     (case rp_git rp of
        None \<Rightarrow> Inl External_Error
      | Some git \<Rightarrow> (let c = git args in Inr (cp_code c, py_strip (cp_stdout c @ cp_stderr c))))"

text \<open>\<open>os.environ.get(name)\<close> that is not empty, of the first name that has one.\<close>

fun first_set :: "(py_str \<Rightarrow> py_str option) \<Rightarrow> py_str list \<Rightarrow> py_str option" where
  "first_set environ [] = None"
| "first_set environ (name # names) =
     (case environ name of
        Some (c # cs) \<Rightarrow> Some (c # cs)
      | _ \<Rightarrow> first_set environ names)"

definition BRANCH_VARIABLES :: "py_str list" where
  "BRANCH_VARIABLES = [''GITHUB_HEAD_REF'', ''GITHUB_REF_NAME'']"

definition gates_branch :: "repository \<Rightarrow> py_error + py_str" where
  "gates_branch rp =
     (case first_set (rp_environ rp) BRANCH_VARIABLES of
        Some branch \<Rightarrow> Inr branch
      | None \<Rightarrow> and_then (git_text rp [''rev-parse'', ''--abbrev-ref'', ''HEAD'']) (\<lambda>(code, output). Inr output))"

fun base_among :: "repository \<Rightarrow> py_str list \<Rightarrow> py_error + py_str option" where
  "base_among rp [] = Inr None"
| "base_among rp (candidate # candidates) =
     and_then (git_text rp [''rev-parse'', ''--verify'', ''--quiet'', candidate]) (\<lambda>(code, output).
       if code = 0 then Inr (Some candidate) else base_among rp candidates)"

definition resolve_base :: "repository \<Rightarrow> py_error + py_str option" where
  "resolve_base rp = base_among rp [''origin/main'', ''main'']"

text \<open>\<open>s.splitlines()\<close>.\<close>

definition line_break :: "char \<Rightarrow> bool" where
  "line_break c \<longleftrightarrow> (let n = (of_char c :: nat) in (10 \<le> n \<and> n \<le> 13) \<or> (28 \<le> n \<and> n \<le> 30) \<or> n = 133)"

definition until_break :: "py_str \<Rightarrow> py_str" where
  "until_break s = takeWhile (Not \<circ> line_break) s"

definition past_break :: "py_str \<Rightarrow> py_str" where
  "past_break s =
     (case dropWhile (Not \<circ> line_break) s of
        [] \<Rightarrow> []
      | c # cs \<Rightarrow> if c = CHR 0x0D \<and> take 1 cs = [CHR 0x0A] then drop 1 cs else cs)"

lemma length_past_break: "s \<noteq> [] \<Longrightarrow> length (past_break s) < length s"
  using length_dropWhile_le [of "Not \<circ> line_break" s]
  by (cases "dropWhile (Not \<circ> line_break) s") (auto simp: past_break_def simp del: dropWhile_eq_Nil_conv)

function splitlines :: "py_str \<Rightarrow> py_str list" where
  "splitlines s = (if s = [] then [] else until_break s # splitlines (past_break s))"
  by auto
termination by (relation "measure length") (simp_all add: length_past_break)

declare splitlines.simps [simp del]

definition listed :: "py_str \<Rightarrow> py_str list" where
  "listed output = filter (\<lambda>line. py_strip line \<noteq> []) (splitlines output)"

definition gates_changed_files :: "repository \<Rightarrow> py_error + py_str list option" where
  "gates_changed_files rp =
     and_then (resolve_base rp) (\<lambda>found. case found of
        None \<Rightarrow> Inr None
      | Some base \<Rightarrow>
          and_then (git_text rp [''merge-base'', base, ''HEAD'']) (\<lambda>(_, merged).
          and_then (git_text rp [''diff'', ''--name-only'', (if merged = [] then base else merged) @ ''..HEAD''])
            (\<lambda>(code, output). Inr (if code \<noteq> 0 then None else Some (listed output)))))"

section \<open>The slice of a branch\<close>

text \<open>\<open>[A-Z][A-Z0-9]*-S\\d{3}\<close>, at the start of a text and searched for in it. The repeated class does not
  hold the hyphen, so that taking all of it loses no match.\<close>

definition slice_id_here :: "py_str \<Rightarrow> py_str option" where
  "slice_id_here s =
     (case s of
        [] \<Rightarrow> None
      | c # cs \<Rightarrow>
          (let name = takeWhile (\<lambda>d. is_upper d \<or> is_digit d) cs;
               rest = drop (length name) cs
           in if is_upper c \<and> take 2 rest = ''-S'' \<and> length (take 3 (drop 2 rest)) = 3
                 \<and> (\<forall>d \<in> set (take 3 (drop 2 rest)). is_digit d)
              then Some (c # name @ take 5 rest) else None))"

fun search_slice_id :: "py_str \<Rightarrow> py_str option" where
  "search_slice_id [] = None"
| "search_slice_id (c # cs) =
     (case slice_id_here (c # cs) of Some found \<Rightarrow> Some found | None \<Rightarrow> search_slice_id cs)"

definition SLICE_BRANCH_PREFIXES :: "py_str list" where
  "SLICE_BRANCH_PREFIXES = [''feat/'', ''fix/'']"

definition slice_branch :: "py_str \<Rightarrow> bool" where
  "slice_branch branch \<longleftrightarrow> list_ex (\<lambda>p. starts_with p branch) SLICE_BRANCH_PREFIXES"

datatype gates_source = No_slice | Names_no_slice py_str | Slice py_str | No_manifest py_str

definition manifest_gates :: "repository \<Rightarrow> py_str \<Rightarrow> py_error + py_str list option \<times> gates_source" where
  "manifest_gates rp branch =
     (if \<not> slice_branch branch then Inr (Some [], No_slice)
      else case search_slice_id branch of
             None \<Rightarrow> Inr (None, Names_no_slice branch)
           | Some slice_id \<Rightarrow>
               (case rp_roadmap rp of
                  None \<Rightarrow> Inl External_Error
                | Some slices \<Rightarrow>
                    (case find (\<lambda>entry. se_id entry = Some slice_id) slices of
                       Some entry \<Rightarrow> Inr (Some (se_gates entry), Slice slice_id)
                     | None \<Rightarrow> Inr (None, No_manifest slice_id))))"

section \<open>The decision\<close>

record conditional =
  cj_job :: py_str
  cj_paths :: "py_str list"
  cj_gates :: "py_str list"

definition CONDITIONAL :: "conditional list" where
  "CONDITIONAL =
     [\<lparr>cj_job = ''onchain'', cj_paths = [''onchain/''], cj_gates = [''forge_fmt'', ''forge_test'']\<rparr>,
      \<lparr>cj_job = ''deployment'', cj_paths = [''deploy/'', ''src/secondsign/'', ''client/'', ''tests/deployment/''],
       cj_gates = [''deployment_topology'']\<rparr>]"

definition UNCONDITIONAL :: "py_str list" where
  "UNCONDITIONAL = [''preflight'', ''tests'', ''independence'', ''package'']"

datatype run_reason =
    Files_unknown
  | Gates_unknown gates_source
  | Path_changed py_str
  | Gate_declared gates_source py_str
  | Nothing_calls_for_it

definition requires :: "conditional \<Rightarrow> py_str \<Rightarrow> bool" where
  "requires job path \<longleftrightarrow> list_ex (\<lambda>p. starts_with p path) (cj_paths job)"

definition decide_job ::
    "py_str list option \<Rightarrow> py_str list option \<Rightarrow> gates_source \<Rightarrow> conditional \<Rightarrow> bool \<times> run_reason" where
  "decide_job files gates source job =
     (case files of
        None \<Rightarrow> (True, Files_unknown)
      | Some paths \<Rightarrow>
          (case gates of
             None \<Rightarrow> (True, Gates_unknown source)
           | Some names \<Rightarrow>
               (case filter (requires job) paths of
                  touched # _ \<Rightarrow> (True, Path_changed touched)
                | [] \<Rightarrow>
                    (case filter (\<lambda>gate. gate \<in> set (cj_gates job)) names of
                       declared # _ \<Rightarrow> (True, Gate_declared source declared)
                     | [] \<Rightarrow> (False, Nothing_calls_for_it)))))"

definition gates_decide ::
    "py_str list option \<Rightarrow> py_str list option \<Rightarrow> gates_source \<Rightarrow> (py_str \<times> bool \<times> run_reason) list" where
  "gates_decide files gates source = map (\<lambda>job. (cj_job job, decide_job files gates source job)) CONDITIONAL"

text \<open>The payload that \<open>emit\<close> writes after \<open>decisions=\<close>.\<close>

definition decisions_payload :: "(py_str \<times> bool \<times> run_reason) list \<Rightarrow> py_str" where
  "decisions_payload decisions = dumps_spaced (JObj (map (\<lambda>(job, run, _). (job, JBool run)) decisions))"

definition run_decide :: "repository \<Rightarrow> py_error + (py_str \<times> bool \<times> run_reason) list" where
  "run_decide rp =
     and_then (gates_branch rp) (\<lambda>branch.
     and_then (manifest_gates rp branch) (\<lambda>(gates, source).
     and_then (gates_changed_files rp) (\<lambda>files. Inr (gates_decide files gates source))))"

section \<open>The verdict\<close>

datatype build_problem =
    Nothing_reported
  | Not_reported py_str
  | Not_success py_str "py_str option"
  | May_not_be_skipped py_str
  | No_decision_recorded py_str
  | Required_to_run py_str

text \<open>\<open>str(outcome.get('result', ''))\<close>; \<open>None\<close> for the text of a value that is no string, which is none of
  the words it is compared with.\<close>

fun job_result :: "loaded \<Rightarrow> py_error + py_str option" where
  "job_result (L_dict kvs) =
     (case map_of kvs ''result'' of
        None \<Rightarrow> Inr (Some [])
      | Some (L_str s) \<Rightarrow> Inr (Some s)
      | Some _ \<Rightarrow> Inr None)"
| "job_result outcome = Inl Type_Error"

text \<open>\<open>name in required\<close> and then \<open>required[name]\<close>.\<close>

fun decision_for :: "loaded \<Rightarrow> py_str \<Rightarrow> py_error + loaded option" where
  "decision_for (L_dict kvs) name = Inr (map_of kvs name)"
| "decision_for (L_list xs) name = (if L_str name \<in> set xs then Inl Type_Error else Inr None)"
| "decision_for (L_str s) name = (if list_ex (\<lambda>n. starts_with name (drop n s)) [0..<Suc (length s)] then Inl Type_Error else Inr None)"
| "decision_for _ name = Inl Type_Error"

definition conditional_jobs :: "py_str list" where
  "conditional_jobs = sort (remdups (map cj_job CONDITIONAL))"

definition job_problems :: "loaded \<Rightarrow> py_str \<times> loaded \<Rightarrow> py_error + build_problem list" where
  "job_problems required entry =
     (case entry of (name, outcome) \<Rightarrow>
        and_then (job_result outcome) (\<lambda>result.
          if result = Some ''success'' then Inr []
          else if result \<noteq> Some ''skipped'' then Inr [Not_success name result]
          else if name \<notin> set conditional_jobs then Inr [May_not_be_skipped name]
          else and_then (decision_for required name) (\<lambda>decision. case decision of
                 None \<Rightarrow> Inr [No_decision_recorded name]
               | Some run \<Rightarrow> Inr (if py_bool run then [Required_to_run name] else []))))"

fun problems_of :: "loaded \<Rightarrow> (py_str \<times> loaded) list \<Rightarrow> py_error + build_problem list" where
  "problems_of required [] = Inr []"
| "problems_of required (entry # entries) =
     and_then (job_problems required entry) (\<lambda>here.
     and_then (problems_of required entries) (\<lambda>later. Inr (here @ later)))"

text \<open>\<open>needs\<close> that is not empty and no object raises at the latest where \<open>items\<close> is called.\<close>

definition gates_verify :: "loaded \<Rightarrow> loaded \<Rightarrow> py_error + build_problem list" where
  "gates_verify needs required =
     (if \<not> py_bool needs then Inr [Nothing_reported]
      else case needs of
             L_dict kvs \<Rightarrow>
               (let missing = map Not_reported
                      (filter (\<lambda>name. name \<notin> fst ` set kvs) (UNCONDITIONAL @ conditional_jobs))
                in and_then (problems_of required (sort_key fst kvs)) (\<lambda>problems. Inr (missing @ problems)))
           | _ \<Rightarrow> Inl Type_Error)"

text \<open>\<open>json.loads(os.environ.get(name, '') or '{}')\<close>.\<close>

definition environ_json :: "float_reader \<Rightarrow> (py_str \<Rightarrow> py_str option) \<Rightarrow> py_str \<Rightarrow> loaded option" where
  "environ_json flt environ name =
     (case environ name of
        Some (c # cs) \<Rightarrow> json_loads flt (c # cs)
      | _ \<Rightarrow> json_loads flt ''{}'')"

text \<open>The exit code: an exception that leaves \<open>main\<close> is 1 as well. An empty value that is no object
  raises at the second \<open>items\<close>.\<close>

definition run_verify :: "float_reader \<Rightarrow> (py_str \<Rightarrow> py_str option) \<Rightarrow> int" where
  "run_verify flt environ =
     (case (environ_json flt environ ''NEEDS'', environ_json flt environ ''DECISIONS'') of
        (Some needs, Some required) \<Rightarrow>
          (case gates_verify needs required of
             Inr [] \<Rightarrow> 0
           | _ \<Rightarrow> 1)
      | _ \<Rightarrow> 1)"

section \<open>What a green build is worth\<close>

lemma problems_of_none:
  "problems_of required entries = Inr [] \<longleftrightarrow> (\<forall>entry \<in> set entries. job_problems required entry = Inr [])"
  by (induction entries) (auto simp: and_then_Inr)

text \<open>A result that leaves no problem.\<close>

definition result_stands :: "loaded \<Rightarrow> py_str \<Rightarrow> loaded \<Rightarrow> bool" where
  "result_stands required name outcome \<longleftrightarrow>
     job_result outcome = Inr (Some ''success'')
     \<or> (job_result outcome = Inr (Some ''skipped'') \<and> name \<in> set conditional_jobs
        \<and> (\<exists>run. decision_for required name = Inr (Some run) \<and> \<not> py_bool run))"

lemma job_problems_none: "job_problems required (name, outcome) = Inr [] \<longleftrightarrow> result_stands required name outcome"
  by (auto simp: job_problems_def result_stands_def and_then_Inr split: option.splits if_splits)

lemma gates_verify_none:
  "gates_verify needs required = Inr [] \<longleftrightarrow>
     (\<exists>kvs. needs = L_dict kvs \<and> set UNCONDITIONAL \<union> set conditional_jobs \<subseteq> fst ` set kvs
            \<and> (\<forall>(name, outcome) \<in> set kvs. result_stands required name outcome))"
proof (cases needs)
  case (L_dict kvs)
  have "kvs \<noteq> []" if "set UNCONDITIONAL \<subseteq> fst ` set kvs" using that by (auto simp: UNCONDITIONAL_def)
  with L_dict show ?thesis
    by (auto simp: gates_verify_def and_then_Inr Let_def problems_of_none filter_empty_conv job_problems_none)
qed (auto simp: gates_verify_def)

lemma run_verify_exit: "run_verify flt environ = 0 \<longleftrightarrow>
    (\<exists>needs required. environ_json flt environ ''NEEDS'' = Some needs
       \<and> environ_json flt environ ''DECISIONS'' = Some required \<and> gates_verify needs required = Inr [])"
  by (auto simp: run_verify_def split: option.splits sum.splits list.splits)

text \<open>The decisions survive the way through the workflow.\<close>

lemma distinct_conditional: "distinct (map cj_job CONDITIONAL)"
  by (simp add: CONDITIONAL_def)

lemma set_conditional_jobs: "set conditional_jobs = cj_job ` set CONDITIONAL"
  by (simp add: conditional_jobs_def)

lemma decisions_read_back:
  assumes "environ ''DECISIONS'' = Some (decisions_payload (gates_decide files gates source))"
  shows "environ_json flt environ ''DECISIONS'' =
           Some (L_dict (map (\<lambda>job. (cj_job job, L_bool (fst (decide_job files gates source job)))) CONDITIONAL))"
proof -
  let ?d = "gates_decide files gates source"
  let ?j = "JObj (map (\<lambda>(job, run, _). (job, JBool run)) ?d)"
  have j: "?j = JObj (map (\<lambda>job. (cj_job job, JBool (fst (decide_job files gates source job)))) CONDITIONAL)"
    by (simp add: gates_decide_def split_beta comp_def)
  have ok: "json_ok ?j"
    using distinct_conditional unfolding j by (simp add: comp_def list_all_iff)
  from ok have read: "json_loads flt (dumps_spaced ?j) = Some (loaded_of ?j)" by (rule json_loads_dumps_spaced)
  have "dumps_spaced ?j \<noteq> []" by (simp add: dumps_spaced_def)
  with assms read show ?thesis
    by (auto simp: environ_json_def decisions_payload_def j comp_def split: list.splits)
qed
text \<open>What \<open>decide\<close> knows when it says that a job may be skipped.\<close>

lemma may_skip_iff:
  "\<not> fst (decide_job files gates source job) \<longleftrightarrow>
     (\<exists>paths names. files = Some paths \<and> gates = Some names
        \<and> (\<forall>path \<in> set paths. \<not> requires job path) \<and> (\<forall>gate \<in> set names. gate \<notin> set (cj_gates job)))"
  by (auto simp: decide_job_def filter_empty_conv split: option.splits list.splits)
    (metis filter_empty_conv list.distinct(1))+

lemma run_decide_cases:
  assumes "run_decide rp = Inr decisions"
  obtains branch gates source files
  where "gates_branch rp = Inr branch" and "manifest_gates rp branch = Inr (gates, source)"
    and "gates_changed_files rp = Inr files" and "decisions = gates_decide files gates source"
  using assms by (auto simp: run_decide_def and_then_Inr)

definition nothing_calls_for :: "repository \<Rightarrow> conditional \<Rightarrow> bool" where
  "nothing_calls_for rp job \<longleftrightarrow>
     (\<exists>branch names source paths.
        gates_branch rp = Inr branch \<and> manifest_gates rp branch = Inr (Some names, source)
        \<and> gates_changed_files rp = Inr (Some paths)
        \<and> (\<forall>path \<in> set paths. \<not> requires job path) \<and> (\<forall>gate \<in> set names. gate \<notin> set (cj_gates job)))"

lemma nothing_calls_for_iff:
  assumes "gates_branch rp = Inr branch" and "manifest_gates rp branch = Inr (gates, source)"
    and "gates_changed_files rp = Inr files"
  shows "nothing_calls_for rp job \<longleftrightarrow> \<not> fst (decide_job files gates source job)"
  unfolding may_skip_iff by (auto simp: nothing_calls_for_def assms)

lemma may_be_skipped:
  assumes decided: "run_decide rp = Inr decisions"
    and passed_on: "environ ''DECISIONS'' = Some (decisions_payload decisions)"
  obtains required where "environ_json flt environ ''DECISIONS'' = Some required"
    and "\<And>name. (\<exists>run. decision_for required name = Inr (Some run) \<and> \<not> py_bool run)
                 \<longleftrightarrow> (\<exists>job \<in> set CONDITIONAL. cj_job job = name \<and> nothing_calls_for rp job)"
proof -
  from decided obtain branch gates source files
    where parts: "gates_branch rp = Inr branch" "manifest_gates rp branch = Inr (gates, source)"
      "gates_changed_files rp = Inr files" and d: "decisions = gates_decide files gates source"
    by (rule run_decide_cases)
  note skips = nothing_calls_for_iff [OF parts]
  let ?members = "map (\<lambda>job. (cj_job job, L_bool (fst (decide_job files gates source job)))) CONDITIONAL"
  have keys: "distinct (map fst ?members)" using distinct_conditional by (simp add: comp_def)
  show ?thesis
  proof (rule that)
    show "environ_json flt environ ''DECISIONS'' = Some (L_dict ?members)"
      using passed_on unfolding d by (rule decisions_read_back)
    show "(\<exists>run. decision_for (L_dict ?members) name = Inr (Some run) \<and> \<not> py_bool run)
            \<longleftrightarrow> (\<exists>job \<in> set CONDITIONAL. cj_job job = name \<and> nothing_calls_for rp job)" for name
      using keys by (auto simp: skips map_of_eq_Some_iff)
  qed
qed

text \<open>[C40] No silent skip. With the decisions of \<open>decide\<close> passed on and the results of the jobs reported, the
  build is green exactly when every job it names is reported, every job that may not be skipped ended
  with success, and so did every conditional job, except where the branch, its slice and the changed
  files are all known, no changed file is one of the job's and no gate of the slice is.\<close>

theorem no_silent_skip:
  assumes decided: "run_decide rp = Inr decisions"
    and passed_on: "environ ''DECISIONS'' = Some (decisions_payload decisions)"
    and reported: "environ_json flt environ ''NEEDS'' = Some (L_dict kvs)"
  shows "run_verify flt environ = 0 \<longleftrightarrow>
           set UNCONDITIONAL \<union> cj_job ` set CONDITIONAL \<subseteq> fst ` set kvs
           \<and> (\<forall>(name, outcome) \<in> set kvs.
                job_result outcome = Inr (Some ''success'')
                \<or> (job_result outcome = Inr (Some ''skipped'')
                   \<and> (\<exists>job \<in> set CONDITIONAL. cj_job job = name \<and> nothing_calls_for rp job)))"
proof -
  from decided passed_on obtain required where required: "environ_json flt environ ''DECISIONS'' = Some required"
    and skip: "\<And>name. (\<exists>run. decision_for required name = Inr (Some run) \<and> \<not> py_bool run)
                 \<longleftrightarrow> (\<exists>job \<in> set CONDITIONAL. cj_job job = name \<and> nothing_calls_for rp job)"
    by (rule may_be_skipped) blast
  have stands: "result_stands required name outcome \<longleftrightarrow>
      job_result outcome = Inr (Some ''success'')
      \<or> (job_result outcome = Inr (Some ''skipped'')
         \<and> (\<exists>job \<in> set CONDITIONAL. cj_job job = name \<and> nothing_calls_for rp job))" for name outcome
    unfolding result_stands_def skip set_conditional_jobs by blast
  show ?thesis
    by (auto simp: run_verify_exit reported required gates_verify_none stands set_conditional_jobs)
qed
section \<open>A sample repository\<close>

definition sample_git :: "py_str \<Rightarrow> py_str list \<Rightarrow> completed" where
  "sample_git diff args =
     (let answer = (\<lambda>code text. \<lparr>cp_code = code, cp_stdout = text, cp_stderr = []\<rparr>)
      in if args = [''rev-parse'', ''--verify'', ''--quiet'', ''origin/main''] then answer 1 []
         else if args = [''rev-parse'', ''--verify'', ''--quiet'', ''main''] then answer 0 (''5f3a'' @ [CHR 0x0A])
         else if args = [''merge-base'', ''main'', ''HEAD''] then answer 0 (''5f3a'' @ [CHR 0x0A])
         else if args = [''diff'', ''--name-only'', ''5f3a..HEAD''] then answer 0 diff
         else answer 128 ''fatal'')"

definition sample_repository :: "py_str \<Rightarrow> py_str \<Rightarrow> repository" where
  "sample_repository branch diff =
     \<lparr>rp_environ = (\<lambda>name. if name = ''GITHUB_HEAD_REF'' then Some branch else None),
      rp_git = Some (sample_git diff),
      rp_roadmap = Some [\<lparr>se_id = Some ''CORE-S009'', se_gates = [''pytest''], se_scope = [''src/secondsign/policy/**'']\<rparr>,
                         \<lparr>se_id = Some ''CORE-S019'', se_gates = [''deployment_topology''], se_scope = [''deploy/**'']\<rparr>],
      rp_manifests = []\<rparr>"

lemma sample_decisions:
  "run_decide (sample_repository ''fix/CORE-S009/amount'' (''src/secondsign/policy/amount.py'' @ [CHR 0x0A] @ ''README.md'')) =
     Inr [(''onchain'', False, Nothing_calls_for_it),
          (''deployment'', True, Path_changed ''src/secondsign/policy/amount.py'')]"
  "run_decide (sample_repository ''feat/CORE-S019'' ''README.md'') =
     Inr [(''onchain'', False, Nothing_calls_for_it),
          (''deployment'', True, Gate_declared (Slice ''CORE-S019'') ''deployment_topology'')]"
  "run_decide (sample_repository ''feat/CORE-S999'' ''README.md'') =
     Inr [(''onchain'', True, Gates_unknown (No_manifest ''CORE-S999'')),
          (''deployment'', True, Gates_unknown (No_manifest ''CORE-S999''))]"
  by code_simp+

definition result_json :: "py_str \<Rightarrow> json" where
  "result_json result = JObj [(''result'', JStr result), (''outputs'', JObj [])]"

definition needs_json :: "py_str \<Rightarrow> py_str \<Rightarrow> json" where
  "needs_json onchain deployment =
     JObj (map (\<lambda>name. (name, result_json ''success'')) UNCONDITIONAL
           @ [(''onchain'', result_json onchain), (''deployment'', result_json deployment)])"

definition sample_environ :: "py_str \<Rightarrow> py_str \<Rightarrow> (py_str \<times> bool \<times> run_reason) list \<Rightarrow> py_str \<Rightarrow> py_str option" where
  "sample_environ onchain deployment decisions name =
     (if name = ''NEEDS'' then Some (dumps_spaced (needs_json onchain deployment))
      else if name = ''DECISIONS'' then Some (decisions_payload decisions) else None)"

lemma decided_once:
  assumes "decisions = gates_decide files gates source" and "job \<in> set CONDITIONAL"
  shows "(\<exists>reason. (cj_job job, False, reason) \<in> set decisions) \<longleftrightarrow> \<not> fst (decide_job files gates source job)"
proof
  assume "\<exists>reason. (cj_job job, False, reason) \<in> set decisions"
  then obtain reason other where "other \<in> set CONDITIONAL" and "cj_job other = cj_job job"
    and "(False, reason) = decide_job files gates source other"
    unfolding assms(1) gates_decide_def by auto
  moreover from this(1,2) assms(2) have "other = job"
    using distinct_conditional by (auto dest: inj_onD simp: distinct_map)
  ultimately show "\<not> fst (decide_job files gates source job)" by (metis fst_conv)
next
  assume "\<not> fst (decide_job files gates source job)"
  then have "decide_job files gates source job = (False, snd (decide_job files gates source job))"
    by (cases "decide_job files gates source job") simp
  with assms(2) show "\<exists>reason. (cj_job job, False, reason) \<in> set decisions"
    unfolding assms(1) gates_decide_def by (metis (no_types, lifting) imageI set_map)
qed

lemma decided_skips:
  assumes "run_decide rp = Inr decisions" and "job \<in> set CONDITIONAL"
  shows "nothing_calls_for rp job \<longleftrightarrow> (\<exists>reason. (cj_job job, False, reason) \<in> set decisions)"
proof -
  from assms(1) obtain branch gates source files
    where parts: "gates_branch rp = Inr branch" "manifest_gates rp branch = Inr (gates, source)"
      "gates_changed_files rp = Inr files" and d: "decisions = gates_decide files gates source"
    by (rule run_decide_cases)
  have "(\<exists>reason. (cj_job job, False, reason) \<in> set decisions) \<longleftrightarrow> \<not> fst (decide_job files gates source job)"
    by (rule decided_once [OF d assms(2)])
  then show ?thesis by (simp add: nothing_calls_for_iff [OF parts])
qed

lemma sample_needs:
  "environ_json flt (sample_environ onchain deployment decisions) ''NEEDS'' = Some (loaded_of (needs_json onchain deployment))"
proof -
  have "json_ok (needs_json onchain deployment)"
    by (simp add: needs_json_def result_json_def UNCONDITIONAL_def list_all_iff)
  then have "json_loads flt (dumps_spaced (needs_json onchain deployment)) = Some (loaded_of (needs_json onchain deployment))"
    by (rule json_loads_dumps_spaced)
  moreover have "dumps_spaced (needs_json onchain deployment) \<noteq> []"
    by (simp add: dumps_spaced_def needs_json_def)
  ultimately show ?thesis by (auto simp: environ_json_def sample_environ_def split: list.splits)
qed

lemma loaded_needs:
  "loaded_of (needs_json onchain deployment) =
     L_dict (map (\<lambda>name. (name, loaded_of (result_json ''success''))) UNCONDITIONAL
             @ [(''onchain'', loaded_of (result_json onchain)), (''deployment'', loaded_of (result_json deployment))])"
  by (simp add: needs_json_def comp_def)

lemma job_result_json [simp]: "job_result (loaded_of (result_json result)) = Inr (Some result)"
  by (simp add: result_json_def)

theorem no_silent_skip_witness:
  "run_verify (\<lambda>_. None) (sample_environ ''skipped'' ''success''
      [(''onchain'', False, Nothing_calls_for_it),
       (''deployment'', True, Path_changed ''src/secondsign/policy/amount.py'')]) = 0
   \<and> run_verify (\<lambda>_. None) (sample_environ ''success'' ''skipped''
      [(''onchain'', False, Nothing_calls_for_it),
       (''deployment'', True, Path_changed ''src/secondsign/policy/amount.py'')]) \<noteq> 0"
proof -
  let ?rp = "sample_repository ''fix/CORE-S009/amount'' (''src/secondsign/policy/amount.py'' @ [CHR 0x0A] @ ''README.md'')"
  let ?decisions = "[(''onchain'', False, Nothing_calls_for_it),
                     (''deployment'', True, Path_changed ''src/secondsign/policy/amount.py'')]"
  have passed_on: "sample_environ onchain deployment ?decisions ''DECISIONS'' = Some (decisions_payload ?decisions)"
    for onchain deployment by (simp add: sample_environ_def)
  note green = no_silent_skip [OF sample_decisions(1) passed_on sample_needs [unfolded loaded_needs]]
  have "nothing_calls_for ?rp job \<longleftrightarrow> cj_job job = ''onchain''" if "job \<in> set CONDITIONAL" for job
    using decided_skips [OF sample_decisions(1) that] that by (auto simp: CONDITIONAL_def)
  then have skips: "(\<exists>job \<in> set CONDITIONAL. cj_job job = name \<and> nothing_calls_for ?rp job) \<longleftrightarrow> name = ''onchain''" for name
    by (auto simp: CONDITIONAL_def)
  show ?thesis unfolding green skips by (simp add: UNCONDITIONAL_def CONDITIONAL_def)
qed

section \<open>A path that git quotes\<close>

text \<open>\<open>git diff --name-only\<close> writes a path with a character outside ASCII, a quote or a control character in
  double quotes. Such a line begins with none of the prefixes.\<close>

theorem quoted_paths_call_for_nothing:
  assumes "gates_branch rp = Inr branch" and "\<not> slice_branch branch"
    and "gates_changed_files rp = Inr (Some paths)" and "\<forall>path \<in> set paths. take 1 path = [CHR 0x22]"
    and "job \<in> set CONDITIONAL"
  shows "nothing_calls_for rp job"
proof -
  have "\<not> requires job path" if "take 1 path = [CHR 0x22]" for path
    using that assms(5) by (cases path) (auto simp: requires_def CONDITIONAL_def starts_with_def)
  with assms have "\<forall>path \<in> set paths. \<not> requires job path" by blast
  moreover have "manifest_gates rp branch = Inr (Some [], No_slice)"
    using assms(2) by (simp add: manifest_gates_def)
  ultimately show ?thesis using assms(1,3) unfolding nothing_calls_for_def by fastforce
qed

end
