(* ===== verification/Slice_Scope.thy ===== *)
theory Slice_Scope
  imports CI_Gates
begin

text \<open>
  \<open>tools/check_slice_scope.py\<close>: whether a branch changed only files its slice declares. A pattern is
  translated to a regular expression, which is a list of tokens here; what such an expression matches
  is stated as a language. What is printed is a value of a datatype.
\<close>

section \<open>Patterns\<close>

text \<open>\<open>.*\<close>, \<open>/?\<close>, \<open>[^/]*\<close>, \<open>[^/]\<close> and an escaped character.\<close>

datatype glob_token = Any_text | Opt_slash | Seg_text | Seg_char | Just char

function glob_to_regex :: "py_str \<Rightarrow> glob_token list" where
  "glob_to_regex pattern =
     (if pattern = [] then []
      else if starts_with ''**'' pattern
           then (if starts_with ''/'' (drop 2 pattern) then Any_text # Opt_slash # glob_to_regex (drop 3 pattern)
                 else Any_text # glob_to_regex (drop 2 pattern))
      else (if hd pattern = CHR ''*'' then Seg_text
            else if hd pattern = CHR ''?'' then Seg_char else Just (hd pattern)) # glob_to_regex (tl pattern))"
  by auto
termination by (relation "measure length") auto

declare glob_to_regex.simps [simp del]

text \<open>\<open>re.match\<close> of the tokens between \<open>^\<close> and \<open>$\<close>. The dot takes no newline, and \<open>$\<close> holds before one that
  ends the text.\<close>

abbreviation newline :: char where "newline \<equiv> CHR 0x0A"

fun token_match :: "glob_token list \<Rightarrow> py_str \<Rightarrow> bool" where
  "token_match [] s = (s = [] \<or> s = [newline])"
| "token_match (Just c # ts) s = (case s of [] \<Rightarrow> False | d # ds \<Rightarrow> d = c \<and> token_match ts ds)"
| "token_match (Seg_char # ts) s = (case s of [] \<Rightarrow> False | d # ds \<Rightarrow> d \<noteq> CHR ''/'' \<and> token_match ts ds)"
| "token_match (Opt_slash # ts) s =
     (token_match ts s \<or> (case s of [] \<Rightarrow> False | d # ds \<Rightarrow> d = CHR ''/'' \<and> token_match ts ds))"
| "token_match (Seg_text # ts) s =
     (token_match ts s \<or> (case s of [] \<Rightarrow> False | d # ds \<Rightarrow> d \<noteq> CHR ''/'' \<and> token_match (Seg_text # ts) ds))"
| "token_match (Any_text # ts) s =
     (token_match ts s \<or> (case s of [] \<Rightarrow> False | d # ds \<Rightarrow> d \<noteq> newline \<and> token_match (Any_text # ts) ds))"

definition in_scope :: "py_str \<Rightarrow> glob_token list list \<Rightarrow> bool" where
  "in_scope path patterns \<longleftrightarrow> list_ex (\<lambda>pattern. token_match pattern path) patterns"

section \<open>The check\<close>

definition git_run :: "repository \<Rightarrow> py_str list \<Rightarrow> py_error + completed" where
  "git_run rp args = (case rp_git rp of None \<Rightarrow> Inl External_Error | Some git \<Rightarrow> Inr (git args))"

definition scope_branch :: "repository \<Rightarrow> py_error + py_str" where
  "scope_branch rp =
     (case first_set (rp_environ rp) BRANCH_VARIABLES of
        Some branch \<Rightarrow> Inr branch
      | None \<Rightarrow> and_then (git_run rp [''rev-parse'', ''--abbrev-ref'', ''HEAD'']) (\<lambda>c. Inr (py_strip (cp_stdout c))))"

definition resolve_slice_id :: "repository \<Rightarrow> py_str list \<Rightarrow> py_error + py_str option" where
  "resolve_slice_id rp argv =
     (if 1 < length argv then Inr (Some (argv ! 1))
      else case first_set (rp_environ rp) [''SLICE_ID''] of
             Some slice_id \<Rightarrow> Inr (Some slice_id)
           | None \<Rightarrow> and_then (scope_branch rp) (\<lambda>branch. Inr (search_slice_id branch)))"

fun scope_base_among :: "repository \<Rightarrow> py_str list \<Rightarrow> py_error + py_str option" where
  "scope_base_among rp [] = Inr None"
| "scope_base_among rp (candidate # candidates) =
     and_then (git_run rp [''rev-parse'', ''--verify'', ''--quiet'', candidate]) (\<lambda>c.
       if cp_code c = 0 then Inr (Some candidate) else scope_base_among rp candidates)"

definition scope_base :: "repository \<Rightarrow> py_error + py_str option" where
  "scope_base rp = scope_base_among rp [''origin/main'', ''main'']"

definition scope_changed_files :: "repository \<Rightarrow> py_str \<Rightarrow> py_error + py_str list" where
  "scope_changed_files rp base =
     and_then (git_run rp [''merge-base'', base, ''HEAD'']) (\<lambda>m.
       (let merged = py_strip (cp_stdout m)
        in and_then (git_run rp [''diff'', ''--name-only'', (if merged = [] then base else merged) @ ''..HEAD''])
             (\<lambda>c. if cp_code c \<noteq> 0 then Inl External_Error else Inr (listed (cp_stdout c)))))"

text \<open>The roadmap first, then the manifests beside it.\<close>

definition load_slice :: "repository \<Rightarrow> py_str \<Rightarrow> py_error + slice_entry option" where
  "load_slice rp slice_id =
     (case rp_roadmap rp of
        None \<Rightarrow> Inl External_Error
      | Some slices \<Rightarrow> Inr (find (\<lambda>entry. se_id entry = Some slice_id) (slices @ rp_manifests rp)))"

definition ALWAYS_IN_SCOPE :: "py_str list" where
  "ALWAYS_IN_SCOPE = [''docs/slices/**'']"

datatype scope_verdict =
    Carries_no_slice
  | Slice_without_id
  | Manifest_missing
  | Unrestricted
  | No_base
  | Undetermined
  | Nothing_changed
  | Outside "py_str list"
  | All_inside

definition scope_check :: "repository \<Rightarrow> py_str list \<Rightarrow> py_error + scope_verdict" where
  "scope_check rp argv =
     and_then (resolve_slice_id rp argv) (\<lambda>found. case found of
        None \<Rightarrow> and_then (scope_branch rp) (\<lambda>branch.
                  Inr (if slice_branch branch then Slice_without_id else Carries_no_slice))
      | Some slice_id \<Rightarrow>
          and_then (load_slice rp slice_id) (\<lambda>manifest. case manifest of
             None \<Rightarrow> Inr Manifest_missing
           | Some entry \<Rightarrow>
               (let scope = se_scope entry
                in if ''*'' \<in> set scope then Inr Unrestricted
                   else and_then (scope_base rp) (\<lambda>compared. case compared of
                          None \<Rightarrow> Inr No_base
                        | Some base \<Rightarrow>
                            (case scope_changed_files rp base of
                               Inl e \<Rightarrow> Inr Undetermined
                             | Inr files \<Rightarrow>
                                 if files = [] then Inr Nothing_changed
                                 else (let patterns = map glob_to_regex (scope @ ALWAYS_IN_SCOPE);
                                           violations = filter (\<lambda>path. \<not> in_scope path patterns) files
                                       in Inr (if violations = [] then All_inside else Outside violations)))))))"

definition scope_exit :: "py_error + scope_verdict \<Rightarrow> int" where
  "scope_exit outcome =
     (case outcome of
        Inr Carries_no_slice \<Rightarrow> 0
      | Inr Unrestricted \<Rightarrow> 0
      | Inr No_base \<Rightarrow> 0
      | Inr Nothing_changed \<Rightarrow> 0
      | Inr All_inside \<Rightarrow> 0
      | _ \<Rightarrow> 1)"

section \<open>What a pattern covers\<close>

text \<open>The language of a token, and of a list of them.\<close>

primrec token_lang :: "glob_token \<Rightarrow> py_str set" where
  "token_lang Any_text = {w. newline \<notin> set w}"
| "token_lang Opt_slash = {[], ''/''}"
| "token_lang Seg_text = {w. CHR ''/'' \<notin> set w}"
| "token_lang Seg_char = {[c] | c. c \<noteq> CHR ''/''}"
| "token_lang (Just c) = {[c]}"

fun glob_lang :: "glob_token list \<Rightarrow> py_str set" where
  "glob_lang [] = {[]}"
| "glob_lang (t # ts) = {u @ v | u v. u \<in> token_lang t \<and> v \<in> glob_lang ts}"

definition ended :: "py_str set \<Rightarrow> py_str set" where
  "ended ws = ws \<union> (\<lambda>w. w @ [newline]) ` ws"

lemma ended_iff: "s \<in> ended ws \<longleftrightarrow> s \<in> ws \<or> (\<exists>w \<in> ws. s = w @ [newline])"
  by (auto simp: ended_def)

lemma ended_glob_Cons:
  "s \<in> ended (glob_lang (t # ts)) \<longleftrightarrow> (\<exists>u v. s = u @ v \<and> u \<in> token_lang t \<and> v \<in> ended (glob_lang ts))"
proof
  assume "s \<in> ended (glob_lang (t # ts))"
  then obtain u v where "u \<in> token_lang t" and "v \<in> glob_lang ts" and "s = u @ v \<or> s = u @ (v @ [newline])"
    by (auto simp: ended_iff)
  moreover have "v \<in> ended (glob_lang ts)" "v @ [newline] \<in> ended (glob_lang ts)"
    using \<open>v \<in> glob_lang ts\<close> by (auto simp: ended_iff)
  ultimately show "\<exists>u v. s = u @ v \<and> u \<in> token_lang t \<and> v \<in> ended (glob_lang ts)" by blast
next
  assume "\<exists>u v. s = u @ v \<and> u \<in> token_lang t \<and> v \<in> ended (glob_lang ts)"
  then obtain u v w where s: "s = u @ v" and parts: "u \<in> token_lang t" "w \<in> glob_lang ts" "v = w \<or> v = w @ [newline]"
    by (auto simp: ended_iff)
  from parts(1,2) have "u @ w \<in> glob_lang (t # ts)" by auto
  with parts(3) show "s \<in> ended (glob_lang (t # ts))" unfolding s ended_iff by auto
qed

text \<open>A repeated class takes a text one character at a time, as the matcher does.\<close>

lemma star_step:
  assumes t: "token_lang t = {w. \<forall>c \<in> set w. P c}"
  shows "s \<in> ended (glob_lang (t # ts)) \<longleftrightarrow>
     s \<in> ended (glob_lang ts)
     \<or> (case s of [] \<Rightarrow> False | d # ds \<Rightarrow> P d \<and> ds \<in> ended (glob_lang (t # ts)))" (is "?L s \<longleftrightarrow> ?R")
proof
  assume "?L s"
  then obtain u v where "s = u @ v" "\<forall>c \<in> set u. P c" "v \<in> ended (glob_lang ts)"
    by (auto simp: ended_glob_Cons t simp del: glob_lang.simps)
  then show ?R by (cases u) (auto simp: ended_glob_Cons t simp del: glob_lang.simps)
next
  assume ?R
  then show "?L s"
  proof
    assume "s \<in> ended (glob_lang ts)"
    then have "s = [] @ s \<and> [] \<in> token_lang t \<and> s \<in> ended (glob_lang ts)" by (simp add: t)
    then show "?L s" unfolding ended_glob_Cons by blast
  next
    assume "case s of [] \<Rightarrow> False | d # ds \<Rightarrow> P d \<and> ds \<in> ended (glob_lang (t # ts))"
    then obtain d u v where "s = (d # u) @ v" "\<forall>c \<in> set (d # u). P c" "v \<in> ended (glob_lang ts)"
      by (auto simp: ended_glob_Cons t simp del: glob_lang.simps split: list.splits)
    then show "?L s" unfolding ended_glob_Cons t by blast
  qed
qed

lemma one_char:
  "(\<exists>u v. s = u @ v \<and> (\<exists>c. u = [c] \<and> P c) \<and> Q v) \<longleftrightarrow> (case s of [] \<Rightarrow> False | d # ds \<Rightarrow> P d \<and> Q ds)"
proof -
  have "(\<exists>u v. s = u @ v \<and> (\<exists>c. u = [c] \<and> P c) \<and> Q v) \<longleftrightarrow> (\<exists>c v. s = [c] @ v \<and> P c \<and> Q v)" by blast
  then show ?thesis by (cases s) auto
qed

lemma just_char:
  "(\<exists>u v. s = u @ v \<and> u = [c] \<and> Q v) \<longleftrightarrow> (case s of [] \<Rightarrow> False | d # ds \<Rightarrow> d = c \<and> Q ds)"
proof -
  have "(\<exists>u v. s = u @ v \<and> u = [c] \<and> Q v) \<longleftrightarrow> (\<exists>v. s = [c] @ v \<and> Q v)" by blast
  then show ?thesis by (cases s) auto
qed

lemma opt_char:
  "(\<exists>u v. s = u @ v \<and> (u = [] \<or> u = [c]) \<and> Q v) \<longleftrightarrow>
     Q s \<or> (case s of [] \<Rightarrow> False | d # ds \<Rightarrow> d = c \<and> Q ds)"
proof -
  have "(\<exists>u v. s = u @ v \<and> (u = [] \<or> u = [c]) \<and> Q v) \<longleftrightarrow>
      (\<exists>v. s = [] @ v \<and> Q v) \<or> (\<exists>v. s = [c] @ v \<and> Q v)" by blast
  then show ?thesis by (cases s) auto
qed

lemma char_step:
  "s \<in> ended (glob_lang (Just c # ts)) \<longleftrightarrow>
     (case s of [] \<Rightarrow> False | d # ds \<Rightarrow> d = c \<and> ds \<in> ended (glob_lang ts))"
  "s \<in> ended (glob_lang (Seg_char # ts)) \<longleftrightarrow>
     (case s of [] \<Rightarrow> False | d # ds \<Rightarrow> d \<noteq> CHR ''/'' \<and> ds \<in> ended (glob_lang ts))"
  "s \<in> ended (glob_lang (Opt_slash # ts)) \<longleftrightarrow>
     s \<in> ended (glob_lang ts)
     \<or> (case s of [] \<Rightarrow> False | d # ds \<Rightarrow> d = CHR ''/'' \<and> ds \<in> ended (glob_lang ts))"
  using just_char [of s c "\<lambda>v. v \<in> ended (glob_lang ts)"]
    one_char [of s "\<lambda>d. d \<noteq> CHR ''/''" "\<lambda>v. v \<in> ended (glob_lang ts)"]
    opt_char [of s "CHR ''/''" "\<lambda>v. v \<in> ended (glob_lang ts)"]
  by (simp_all only: ended_glob_Cons token_lang.simps mem_Collect_eq insert_iff empty_iff simp_thms)

theorem token_match_lang: "token_match ts s \<longleftrightarrow> s \<in> ended (glob_lang ts)"
proof (induction ts s rule: token_match.induct)
  case (1 s)
  show ?case by (auto simp: ended_def)
next
  case (2 c ts s)
  then show ?case unfolding char_step(1) by (cases s) auto
next
  case (3 ts s)
  then show ?case unfolding char_step(2) by (cases s) auto
next
  case (4 ts s)
  then show ?case unfolding char_step(3) by (cases s) auto
next
  case (5 ts s)
  have "token_lang Seg_text = {w. \<forall>c \<in> set w. c \<noteq> CHR ''/''}" by auto
  from star_step [OF this, of s ts] 5 show ?case by (cases s) (auto simp del: glob_lang.simps)
next
  case (6 ts s)
  have "token_lang Any_text = {w. \<forall>c \<in> set w. c \<noteq> newline}" by auto
  from star_step [OF this, of s ts] 6 show ?case by (cases s) (auto simp del: glob_lang.simps)
qed

section \<open>Reading patterns\<close>

definition plain :: "py_str \<Rightarrow> bool" where
  "plain s \<longleftrightarrow> CHR ''*'' \<notin> set s \<and> CHR ''?'' \<notin> set s"

lemma glob_plain: "plain s \<Longrightarrow> glob_to_regex (s @ t) = map Just s @ glob_to_regex t"
proof (induction s)
  case (Cons c s)
  have "\<not> starts_with ''**'' (c # s @ t)" using Cons.prems by (auto simp: plain_def starts_with_def)
  moreover have "c \<noteq> CHR ''*''" "c \<noteq> CHR ''?''" using Cons.prems by (auto simp: plain_def)
  moreover have "glob_to_regex (s @ t) = map Just s @ glob_to_regex t"
    using Cons.IH Cons.prems by (simp add: plain_def)
  ultimately show ?case by (subst glob_to_regex.simps) (simp del: glob_to_regex.simps)
qed simp

lemma glob_Nil: "glob_to_regex [] = []"
  by (subst glob_to_regex.simps) simp

lemma glob_stars: "glob_to_regex ''**'' = [Any_text]"
  by (subst glob_to_regex.simps) (simp add: starts_with_def glob_Nil)

lemma glob_stars_slash: "glob_to_regex (''**/'' @ t) = Any_text # Opt_slash # glob_to_regex t"
  by (subst glob_to_regex.simps) (simp add: starts_with_def)

lemma lang_plain: "glob_lang (map Just s @ ts) = {s @ v | v. v \<in> glob_lang ts}"
proof (induction s)
  case (Cons c s)
  show ?case
  proof (intro set_eqI iffI)
    fix w assume "w \<in> glob_lang (map Just (c # s) @ ts)"
    then obtain v where "w = c # v" and "v \<in> glob_lang (map Just s @ ts)" by auto
    with Cons show "w \<in> {(c # s) @ v | v. v \<in> glob_lang ts}" by auto
  next
    fix w assume "w \<in> {(c # s) @ v | v. v \<in> glob_lang ts}"
    then obtain v where "w = c # (s @ v)" and "s @ v \<in> glob_lang (map Just s @ ts)" using Cons by auto
    then show "w \<in> glob_lang (map Just (c # s) @ ts)" by auto
  qed
qed simp

lemma covers_itself:
  assumes "plain s"
  shows "glob_lang (glob_to_regex s) = {s}"
  using glob_plain [OF assms, of "[]"] lang_plain [of s "[]"] by (simp add: glob_Nil)

text \<open>A directory with \<open>/**\<close> covers what is below it and nothing else.\<close>

lemma covers_directory:
  assumes "plain d"
  shows "glob_lang (glob_to_regex (d @ ''/**'')) = {d @ ''/'' @ rest | rest. newline \<notin> set rest}"
proof -
  have "plain (d @ ''/'')" using assms by (simp add: plain_def)
  from glob_plain [OF this, of "''**''"] lang_plain [of "d @ ''/''" "[Any_text]"] show ?thesis
    by (auto simp: glob_stars)
qed

text \<open>Without two stars in a row a pattern never crosses a separator.\<close>

definition slashes :: "py_str \<Rightarrow> nat" where
  "slashes s = length (filter (\<lambda>c. c = CHR ''/'') s)"

definition token_slashes :: "glob_token list \<Rightarrow> nat" where
  "token_slashes ts = length (filter (\<lambda>t. t = Just (CHR ''/'')) ts)"

lemma lang_slashes:
  "Any_text \<notin> set ts \<Longrightarrow> Opt_slash \<notin> set ts \<Longrightarrow> w \<in> glob_lang ts \<Longrightarrow> slashes w = token_slashes ts"
proof (induction ts arbitrary: w)
  case (Cons t ts)
  then obtain u v where w: "w = u @ v" "u \<in> token_lang t" "v \<in> glob_lang ts" by auto
  have "slashes v = token_slashes ts" using Cons w by simp
  moreover have "slashes u = token_slashes [t]"
    using w(2) Cons.prems(1,2) by (cases t) (auto simp: slashes_def token_slashes_def filter_empty_conv)
  ultimately show ?case by (simp add: w slashes_def token_slashes_def)
qed (simp add: slashes_def token_slashes_def)

fun two_stars :: "py_str \<Rightarrow> bool" where
  "two_stars [] = False"
| "two_stars (c # cs) = (starts_with ''**'' (c # cs) \<or> two_stars cs)"

lemma glob_one_star:
  "\<not> two_stars p \<Longrightarrow>
     Any_text \<notin> set (glob_to_regex p) \<and> Opt_slash \<notin> set (glob_to_regex p)
     \<and> token_slashes (glob_to_regex p) = slashes p"
proof (induction p)
  case (Cons c cs)
  then have "\<not> starts_with ''**'' (c # cs)" "\<not> two_stars cs" by simp_all
  with Cons.IH show ?case
    by (subst (1 2 3) glob_to_regex.simps) (auto simp: token_slashes_def slashes_def)
qed (simp add: glob_Nil token_slashes_def slashes_def)

lemma covers_one_depth:
  assumes "\<not> two_stars p" and "w \<in> glob_lang (glob_to_regex p)"
  shows "slashes w = slashes p"
  using glob_one_star [OF assms(1)] lang_slashes assms(2) by metis

text \<open>A \<open>**/\<close> in the middle covers every text in its place, with or without the separator.\<close>

theorem double_star_needs_no_separator:
  assumes "plain a" and "plain b" and "newline \<notin> set x"
  shows "a @ x @ b \<in> glob_lang (glob_to_regex (a @ ''**/'' @ b))"
proof -
  have "glob_to_regex (a @ ''**/'' @ b) = map Just a @ Any_text # Opt_slash # glob_to_regex b"
    using assms(1) glob_stars_slash [of b] by (simp add: glob_plain)
  moreover have "x @ [] @ b \<in> glob_lang (Any_text # Opt_slash # glob_to_regex b)"
    using assms(3) covers_itself [OF assms(2)] by (auto simp del: append.simps) 
  ultimately show ?thesis using lang_plain [of a "Any_text # Opt_slash # glob_to_regex b"] by auto
qed

section \<open>What the check is worth\<close>

lemma splitlines_Nil: "splitlines [] = []"
  by (simp add: splitlines.simps [of "[]"])

lemma splitlines_no_break: "line \<in> set (splitlines s) \<Longrightarrow> \<forall>c \<in> set line. \<not> line_break c"
proof (induction s rule: splitlines.induct)
  case (1 s)
  then show ?case
    by (cases "s = []") (auto simp: splitlines_Nil splitlines.simps [of s] until_break_def dest: set_takeWhileD)
qed

lemma listed_no_newline: "line \<in> set (listed output) \<Longrightarrow> newline \<notin> set line"
  using splitlines_no_break by (fastforce simp: listed_def line_break_def)

lemma changed_no_newline:
  "scope_changed_files rp base = Inr files \<Longrightarrow> path \<in> set files \<Longrightarrow> newline \<notin> set path"
  by (auto simp: scope_changed_files_def and_then_Inr Let_def listed_no_newline split: if_splits)

lemma in_scope_iff:
  assumes "newline \<notin> set path"
  shows "in_scope path (map glob_to_regex patterns) \<longleftrightarrow> (\<exists>pattern \<in> set patterns. path \<in> glob_lang (glob_to_regex pattern))"
  using assms by (auto simp: in_scope_def list_ex_iff token_match_lang ended_def)

text \<open>For a slice whose manifest is found and a base to compare with, the check passes exactly when the
  manifest declares no restriction or git lists the changed files and each is in the language of a
  declared pattern or below \<open>docs/slices\<close>.\<close>

theorem scope_gate_exactly_when:
  assumes "resolve_slice_id rp argv = Inr (Some slice_id)" and "load_slice rp slice_id = Inr (Some entry)"
    and "scope_base rp = Inr (Some base)"
  shows "scope_exit (scope_check rp argv) = 0 \<longleftrightarrow>
           ''*'' \<in> set (se_scope entry)
           \<or> (\<exists>files. scope_changed_files rp base = Inr files
                \<and> (\<forall>path \<in> set files.
                     (\<exists>pattern \<in> set (se_scope entry). path \<in> glob_lang (glob_to_regex pattern))
                     \<or> (\<exists>rest. path = ''docs/slices/'' @ rest)))"
proof (cases "scope_changed_files rp base")
  case (Inl e)
  then show ?thesis by (simp add: scope_check_def scope_exit_def assms Let_def)
next
  case (Inr files)
  have always: "(\<exists>pattern \<in> set ALWAYS_IN_SCOPE. path \<in> glob_lang (glob_to_regex pattern))
      \<longleftrightarrow> (\<exists>rest. path = ''docs/slices/'' @ rest)" if "path \<in> set files" for path
    using covers_directory [of "''docs/slices''"] changed_no_newline [OF Inr that]
    by (auto simp: ALWAYS_IN_SCOPE_def plain_def)
  have scope: "in_scope path (map glob_to_regex (se_scope entry @ ALWAYS_IN_SCOPE)) \<longleftrightarrow>
      (\<exists>pattern \<in> set (se_scope entry). path \<in> glob_lang (glob_to_regex pattern)) \<or> (\<exists>rest. path = ''docs/slices/'' @ rest)"
    if "path \<in> set files" for path
    unfolding in_scope_iff [OF changed_no_newline [OF Inr that]] set_append bex_Un always [OF that] by simp
  show ?thesis
    using scope by (auto simp: scope_check_def scope_exit_def assms Inr Let_def filter_empty_conv simp del: map_append)
qed

theorem scope_gate_exactly_when_witness:
  "scope_exit (scope_check (sample_repository ''fix/CORE-S009/amount'' ''src/secondsign/policy/amount.py'') [''check_slice_scope.py'']) = 0
   \<and> scope_exit (scope_check (sample_repository ''fix/CORE-S009/amount'' ''README.md'') [''check_slice_scope.py'']) \<noteq> 0"
proof -
  let ?argv = "[''check_slice_scope.py'']"
  have id: "resolve_slice_id (sample_repository ''fix/CORE-S009/amount'' diff) ?argv = Inr (Some ''CORE-S009'')"
    and slice: "load_slice (sample_repository ''fix/CORE-S009/amount'' diff) ''CORE-S009'' =
      Inr (Some \<lparr>se_id = Some ''CORE-S009'', se_gates = [''pytest''], se_scope = [''src/secondsign/policy/**'']\<rparr>)"
    and base: "scope_base (sample_repository ''fix/CORE-S009/amount'' diff) = Inr (Some ''main'')" for diff
    by code_simp+
  have files: "scope_changed_files (sample_repository ''fix/CORE-S009/amount'' ''src/secondsign/policy/amount.py'') ''main'' =
      Inr [''src/secondsign/policy/amount.py'']"
    "scope_changed_files (sample_repository ''fix/CORE-S009/amount'' ''README.md'') ''main'' = Inr [''README.md'']"
    by code_simp+
  have scope: "glob_lang (glob_to_regex ''src/secondsign/policy/**'') =
      {''src/secondsign/policy/'' @ rest | rest. newline \<notin> set rest}"
    using covers_directory [of "''src/secondsign/policy''"] by (simp add: plain_def)
  show ?thesis
    unfolding scope_gate_exactly_when [OF id slice base] files by (simp add: scope)
qed

end
