(* ===== verification/Spec2Isabelle.thy ===== *)
theory Spec2Isabelle
  imports Service_Receipts Cosigner Wire_Kit Example_Extensions Trust_Anchors Isolation Panel_Server Cast_Reader
    Approver_Panel Slice_Scope
begin

text \<open>
  Verification library of the transaction-authorization core \<open>secondsign\<close> (\<open>src/src/secondsign\<close>).

  An agent proposes a payment; the gateway completes it to an intent, has policies judge it against
  the spend of a sliding window, sends it to the rail that alone holds a credential, holds it for a
  human, or refuses it, and records every answer in a hash-chained ledger. A second listener answers
  held reviews, a cosigner does the same for the transactions of a Safe account, and adapters map
  the calls of vendor tools to intents. The theories follow the modules:

  \<^item> \<open>Prelude\<close>, \<open>Json\<close>, \<open>Sha256\<close>: errors as values, \<open>json.dumps\<close> with sorted keys and its
    injectivity, SHA-256 and HMAC written out, and \<open>collision\<close>, the pair of texts a statement on
    digests names when two digests agree.
  \<^item> \<open>Contracts\<close>, \<open>Intent\<close>, \<open>Policy\<close>, \<open>Decision\<close> (\<open>contracts/\<close>, \<open>intent/\<close>, \<open>policy/\<close>, \<open>decision/\<close>):
    findings, judgements, their combination and the plugin runner; intents and their digests; the
    amount and coverage policies with their specification \<open>amount_band\<close>; the engine. Validators are
    \<open>_ok\<close> predicates and \<open>mk_\<close> constructors that answer the exception.
  \<^item> \<open>Approval\<close>, \<open>Execution\<close>, \<open>Receipts\<close>, \<open>Control_Plane\<close>, \<open>Agent\<close> (\<open>approval/\<close>, \<open>gateway/execution.py\<close>,
    \<open>audit/\<close>, \<open>controlplane/\<close>, \<open>agent/\<close>): the maker-checker, the gateway with its idempotency store,
    receipts and their chain, fingerprints, window ledger, held reviews and relaxations. The stores
    and the sink are used through locales (\<open>idempotency_store\<close>, \<open>audit_sink\<close>, \<open>pending_reviews\<close>)
    that are interpreted on the code's in-memory ones.
  \<^item> \<open>Authorization\<close>, \<open>Service\<close>, \<open>Service_Runs\<close>, \<open>Service_Money\<close> (\<open>gateway/authorization.py\<close>): the
    service as one record (\<open>service\<close>) and whole calls \<open>authorize\<close> and \<open>resolve_review\<close>; the case
    analysis of a call; the runs \<open>reachable\<close> of any calls in any order with any clocks, any rail and
    any failures of the sink; the invariants on held reviews, dispatches and spend.
    \<open>Service_Properties\<close> and \<open>Service_Receipts\<close> state what follows.
  \<^item> \<open>Onchain\<close>, \<open>Cosigner\<close> (\<open>onchain/\<close>, \<open>gateway/onchain_cosigner.py\<close>): effects decoded from calldata,
    the effect policy, the attested configuration, and the cosigner with its step relation.
  \<^item> \<open>Leaf\<close>, \<open>Identity\<close>, \<open>Server\<close>, \<open>Approver\<close>, \<open>Rails\<close>, \<open>Process\<close> (\<open>gateway/leaf.py\<close>, \<open>server.py\<close>,
    \<open>approver.py\<close>, \<open>rails/\<close>): the certificate reader with an encoder as its specification; settings,
    refusals to start and the principal of a certificate; the handlers as functions from a request to
    the answer and the service afterwards; what a rail is sent and how its answer is read; the
    process, as \<open>start_process\<close> and the steps \<open>serves\<close>. \<open>Process_Properties\<close> composes all of it: every
    state of a process is a state of the service, so that the cap, the currency, the human's band
    and the separation of the channels hold for anything that is sent to the listeners.
    \<open>Service_Answers\<close> says what the answers are worth: \<open>completed\<close> only where the rail accepted the
    very proposal, every fresh proposal inside the limits sent, and what a lost receipt breaks.
  \<^item> \<open>Json_Read\<close>, \<open>Wire\<close>, \<open>Client\<close>, \<open>Client_Gateway\<close> (\<open>json.loads\<close>, \<open>agent/surface.py\<close>,
    \<open>src/client/src/secondsign_client\<close>): a JSON reader with its round trip; the checks of a closed model;
    the client's own declaration of the dialect and its one verb; and both ends of the wire together,
    through the locale \<open>wire_ends\<close> of what they rely on, so that an agent's call is the service's.
  \<^item> \<open>Adapters\<close>, \<open>Isolation\<close> (\<open>adapters/\<close>, \<open>isolation.py\<close>): the two vendor mappings and the side of a module.
  \<^item> \<open>Kits\<close>, \<open>Policy_Kit\<close>, \<open>Port_Kits\<close>, \<open>Wire_Kit\<close> (\<open>conformance/\<close>): the suites an extension has to pass, each
    test a function of an object that has a state and can change what it is handed. What passing one
    means is proved from the component's own laws: exactly which pure plugins and which calls of the
    reference adapters pass, what the answer of a certified approval provider is worth, that a sink
    of the locale \<open>audit_sink\<close> passes, and which of the repository's wire clients do. In \<open>Wire_Kit\<close> a
    client is an interaction, run against the probe that the suite stands in a gateway's place.
  \<^item> \<open>Example_Extensions\<close> (\<open>src/examples/policy_plugin\<close>, \<open>src/examples/audit_sink\<close>): the counterparty
    allow-list, and the sink that writes a line of JSON for a receipt, as another interpretation of
    \<open>audit_sink\<close>; the minimal client of \<open>src/examples/wire_client\<close> is in \<open>Wire_Kit\<close>.
  \<^item> \<open>Cast_Reader\<close> (\<open>src/deploy/reference/chain_reader.py\<close>): the reader a deployment gives the cosigner, over
    the output of a command-line tool. What the tool prints of a chain is read back exactly, and
    whatever it prints, a signature needs each of its answers to be the attested one.
  \<^item> \<open>Approver_Panel\<close> (\<open>src/deploy/reference/approver\<close>): the panel and the console a human answers from,
    with the approver's listener at the other end of the channel (locale \<open>approver_ends\<close>): what is
    clicked is the checker's answer to that review, and nothing else.
  \<^item> \<open>Panel_World\<close>, \<open>Panel\<close>, \<open>Panel_Server\<close> (\<open>src/examples/firewall_panel\<close>): the simulated account with the ways to
    break it, the catalogue of proposals, the trace of stations and the session over a co-signer.
    The trace recomputes what the co-signer decided; \<open>panel_runs\<close> are the sessions that any actions
    reach, and over them the trace agrees with the co-signer but for one case, a drift found in the
    account is always refused, and every preset is answered as its label says. \<open>panel_post\<close> is the
    JSON interface; through it only presets are ever signed, and a failing reconfiguration parts
    the trace from the co-signer.
  \<^item> \<open>CI_Gates\<close>, \<open>Slice_Scope\<close> (\<open>src/tools/ci_gates.py\<close>, \<open>check_slice_scope.py\<close>): the gate of the build. When it is
    green, every job ran that the branch's slice or a changed file asks for, as far as git names the
    file by its path; and what the patterns of a slice cover, as a language, against which the matcher
    of the translated expression is proved.
  \<^item> \<open>Trust_Anchors\<close>: the loop over the blocks of a PEM file (\<open>gateway/approver.py\<close>) as it is written, a
    partial function, and that it returns.

  Conventions. Integers of the code are unbounded, as in Python; bytes and hash words are words of 8
  and 32 bits. A datetime is the number of its microseconds. A raised exception is \<open>Inl\<close> with its
  class. A string is a list of characters below 256. Loops are recursion with a termination proof;
  only the JSON reader takes fuel, one more than the length of its text, and theorem
  \<open>json_loads_any_fuel\<close> shows that no more would change what it reads; and one loop that may not end as
  far as its form goes is a partial function (\<open>der_scan\<close>), which is shown to return.

  Parameters, as arguments of the definitions that use them: how pydantic writes a datetime, the
  fingerprint key, the rail or the network, the Stripe client, the audit sink, Keccak, the ABI
  encoder, the signer and the chain reader of the cosigner, or the tool that reader runs; \<open>urlsplit\<close>, \<open>ip_address\<close>, the \<open>ssl\<close>
  functions and file reads (\<open>runtime\<close>); \<open>json.loads\<close> and the validation of a request (\<open>decoders\<close>), and the
  JSON reader of the client's pydantic (\<open>client_parser\<close>), both with instances that are written out.

  Not modelled. Locks: a call that takes one is a single step. Overflow of datetimes, logging, the
  wording of a refusal's detail, the generator of keys. Sockets, TLS handshakes, threads, shutdown
  and the parsing of HTTP. Arcs of more than 4300 digits in a certificate; JSON nested deeper than
  Python's recursion limit; a line of the file-backed sink that is torn in the middle. The wrapper
  of \<open>eth_account\<close> (\<open>gateway/signer.py\<close>), which only calls it. Of the firewall
  panel its page, the GET requests and what is only shown: titles, summaries and rows. The printing
  demonstrations (\<open>quickstart.py\<close>, \<open>onchain_firewall_demo.py\<close>), the deployment files, the other tools
  of the repository and the Solidity contract.
\<close>

end
